(* ===== verification/Py_Prelude.thy ===== *)
theory Py_Prelude
  imports Main "HOL-Library.Char_ord" "HOL-Library.List_Lexorder"
begin

text \<open>
  Shared vocabulary of the development: Python exceptions as values, the result type of code
  that may raise, sequencing of such code, loops over lists that stop at the first exception,
  and dictionaries as association lists in insertion order.

  A Python function that may raise is a HOL function into \<open>exn + 'a\<close>: \<open>Inl e\<close> is the exception
  that leaves the function, \<open>Inr x\<close> the value it returns.  \<open>bindE\<close> is Python's sequencing of two
  statements, \<open>foldE\<close> a \<open>for\<close> loop that carries a state, \<open>mapE\<close> a list comprehension.
\<close>

named_theorems py_ok \<open>inversion of computations that return a value\<close>

section \<open>Exceptions and results\<close>

datatype exn =
    ValueError string
  | KeyError string
  | TypeError
  | IndexError
  | AttributeError string
  | ZeroDivisionError
  | AssertionError string
  | RuntimeError string
  | TimeoutError string
  | OSError string
  | StopIteration
  | ParserError string
  | StructError

type_synonym 'a res = "exn + 'a"

text \<open>Unpacking a sequence of the wrong length.\<close>

definition unpack_error :: exn where
  "unpack_error = ValueError ''values to unpack''"

definition bindE :: "'e + 'a \<Rightarrow> ('a \<Rightarrow> 'e + 'b) \<Rightarrow> 'e + 'b" where
  "bindE m f = (case m of Inl e \<Rightarrow> Inl e | Inr x \<Rightarrow> f x)"

definition seqE :: "'e + unit \<Rightarrow> 'e + 'b \<Rightarrow> 'e + 'b" where
  "seqE m k = bindE m (\<lambda>_. k)"

definition ensure :: "bool \<Rightarrow> 'e \<Rightarrow> 'e + unit" where
  "ensure b e = (if b then Inr () else Inl e)"

definition of_option :: "'e \<Rightarrow> 'a option \<Rightarrow> 'e + 'a" where
  "of_option e m = (case m of None \<Rightarrow> Inl e | Some x \<Rightarrow> Inr x)"

definition returns :: "'e + 'a \<Rightarrow> bool" where
  "returns m \<longleftrightarrow> (case m of Inl _ \<Rightarrow> False | Inr _ \<Rightarrow> True)"

fun mapE :: "('a \<Rightarrow> 'e + 'b) \<Rightarrow> 'a list \<Rightarrow> 'e + 'b list" where
  "mapE f [] = Inr []"
| "mapE f (x # xs) = bindE (f x) (\<lambda>y. bindE (mapE f xs) (\<lambda>ys. Inr (y # ys)))"

fun foldE :: "('a \<Rightarrow> 's \<Rightarrow> 'e + 's) \<Rightarrow> 'a list \<Rightarrow> 's \<Rightarrow> 'e + 's" where
  "foldE f [] s = Inr s"
| "foldE f (x # xs) s = bindE (f x s) (foldE f xs)"

fun forE :: "('a \<Rightarrow> 'e + unit) \<Rightarrow> 'a list \<Rightarrow> 'e + unit" where
  "forE f [] = Inr ()"
| "forE f (x # xs) = seqE (f x) (forE f xs)"

fun checks :: "('e + unit) list \<Rightarrow> 'e + unit" where
  "checks [] = Inr ()"
| "checks (c # cs) = seqE c (checks cs)"

fun filterE :: "('a \<Rightarrow> 'e + bool) \<Rightarrow> 'a list \<Rightarrow> 'e + 'a list" where
  "filterE p [] = Inr []"
| "filterE p (x # xs) =
     bindE (p x) (\<lambda>b. bindE (filterE p xs) (\<lambda>ys. Inr (if b then x # ys else ys)))"

section \<open>Dictionaries in insertion order\<close>

text \<open>
  A Python \<open>dict\<close> keeps its keys in insertion order; assigning to a present key keeps its place.
\<close>

fun dict_set :: "'k \<Rightarrow> 'v \<Rightarrow> ('k \<times> 'v) list \<Rightarrow> ('k \<times> 'v) list" where
  "dict_set k v [] = [(k, v)]"
| "dict_set k v ((k', v') # d) = (if k = k' then (k, v) # d else (k', v') # dict_set k v d)"

definition dict_of :: "('k \<times> 'v) list \<Rightarrow> ('k \<times> 'v) list" where
  "dict_of kvs = fold (\<lambda>(k, v) d. dict_set k v d) kvs []"

definition dict_get :: "'v \<Rightarrow> 'k \<Rightarrow> ('k \<times> 'v) list \<Rightarrow> 'v" where
  "dict_get dflt k d = (case map_of d k of None \<Rightarrow> dflt | Some v \<Rightarrow> v)"

text \<open>Python's \<open>set(xs)\<close> kept as a duplicate-free list in first-occurrence order.\<close>

definition distinct_list :: "'a list \<Rightarrow> 'a list" where
  "distinct_list xs = rev (remdups (rev xs))"

section \<open>Laws\<close>

lemma bindE_simps [simp]: "bindE (Inl e) f = Inl e" "bindE (Inr x) f = f x"
  by (simp_all add: bindE_def)

lemma bindE_cong [fundef_cong]:
  "m = m' \<Longrightarrow> (\<And>x. m' = Inr x \<Longrightarrow> f x = g x) \<Longrightarrow> bindE m f = bindE m' g"
  by (cases m') (simp_all add: bindE_def)

lemma bindE_assoc: "bindE (bindE m f) g = bindE m (\<lambda>x. bindE (f x) g)"
  by (cases m) simp_all

lemma bindE_eq_Inr [py_ok]: "bindE m f = Inr y \<longleftrightarrow> (\<exists>x. m = Inr x \<and> f x = Inr y)"
  by (cases m) simp_all

lemma bindE_eq_Inl: "bindE m f = Inl e \<longleftrightarrow> m = Inl e \<or> (\<exists>x. m = Inr x \<and> f x = Inl e)"
  by (cases m) auto

lemma seqE_simps [simp]: "seqE (Inl e) k = Inl e" "seqE (Inr u) k = k"
  by (simp_all add: seqE_def)

lemma seqE_eq_Inr [py_ok]: "seqE m k = Inr y \<longleftrightarrow> m = Inr () \<and> k = Inr y"
  by (cases m) simp_all

lemma seqE_eq_Inl: "seqE m k = Inl e \<longleftrightarrow> m = Inl e \<or> m = Inr () \<and> k = Inl e"
  by (cases m) auto

lemma ensure_simps [simp]: "ensure True e = Inr ()" "ensure False e = Inl e"
  by (simp_all add: ensure_def)

lemma ensure_eq_Inr [py_ok]: "ensure b e = Inr u \<longleftrightarrow> b"
  by (simp add: ensure_def)

lemma ensure_eq_Inl: "ensure b e = Inl e' \<longleftrightarrow> \<not> b \<and> e' = e"
  by (auto simp: ensure_def)

lemma of_option_simps [simp]: "of_option e None = Inl e" "of_option e (Some x) = Inr x"
  by (simp_all add: of_option_def)

lemma of_option_eq_Inr [py_ok]: "of_option e m = Inr x \<longleftrightarrow> m = Some x"
  by (cases m) simp_all

lemma of_option_eq_Inl: "of_option e m = Inl e' \<longleftrightarrow> m = None \<and> e' = e"
  by (cases m) auto

lemma returns_simps [simp]: "\<not> returns (Inl e)" "returns (Inr x)"
  by (simp_all add: returns_def)

lemma returns_iff: "returns m \<longleftrightarrow> (\<exists>x. m = Inr x)"
  by (cases m) simp_all

lemma mapE_eq_Inr: "mapE f xs = Inr ys \<longleftrightarrow> list_all2 (\<lambda>x y. f x = Inr y) xs ys"
  by (induction xs arbitrary: ys) (auto simp: bindE_eq_Inr list_all2_Cons1)

lemma mapE_length: "mapE f xs = Inr ys \<Longrightarrow> length ys = length xs"
  by (auto simp: mapE_eq_Inr dest: list_all2_lengthD)

lemma mapE_Inr_map [simp]: "mapE (\<lambda>x. Inr (f x)) xs = Inr (map f xs)"
  by (induction xs) simp_all

lemma foldE_append: "foldE f (xs @ ys) s = bindE (foldE f xs s) (foldE f ys)"
  by (induction xs arbitrary: s) (simp_all add: bindE_def split: sum.split)

lemma foldE_invariant:
  assumes "foldE f xs s = Inr s'" and "P s"
    and "\<And>x s s'. x \<in> set xs \<Longrightarrow> P s \<Longrightarrow> f x s = Inr s' \<Longrightarrow> P s'"
  shows "P s'"
  using assms by (induction xs arbitrary: s) (auto simp: bindE_eq_Inr)

lemma forE_eq_Inr [py_ok]: "forE f xs = Inr u \<longleftrightarrow> (\<forall>x \<in> set xs. f x = Inr ())"
  by (induction xs) (auto simp: seqE_eq_Inr)

lemma checks_eq_Inr [py_ok]: "checks cs = Inr u \<longleftrightarrow> (\<forall>c \<in> set cs. c = Inr ())"
  by (induction cs) (auto simp: seqE_eq_Inr)

lemma filterE_eq_Inr:
  "filterE p xs = Inr ys \<Longrightarrow>
     ys = filter (\<lambda>x. p x = Inr True) xs \<and> (\<forall>x \<in> set xs. returns (p x))"
  by (induction xs arbitrary: ys) (auto simp: bindE_eq_Inr)

lemma map_of_dict_set: "map_of (dict_set k v d) = (map_of d)(k \<mapsto> v)"
  by (induction k v d rule: dict_set.induct) auto

lemma dict_set_keys: "set (map fst (dict_set k v d)) = insert k (set (map fst d))"
  by (induction k v d rule: dict_set.induct) auto

lemma dict_set_distinct: "distinct (map fst d) \<Longrightarrow> distinct (map fst (dict_set k v d))"
proof (induction k v d rule: dict_set.induct)
  case (2 k v k' v' d)
  then show ?case using dict_set_keys [of k v d] by auto
qed simp

lemma distinct_list_set [simp]: "set (distinct_list xs) = set xs"
  by (simp add: distinct_list_def)

lemma distinct_list_distinct [simp]: "distinct (distinct_list xs)"
  by (simp add: distinct_list_def)

lemma length_distinct_list: "length (distinct_list xs) = card (set xs)"
  by (metis distinct_card distinct_list_distinct distinct_list_set)

section \<open>Which exceptions may leave a computation\<close>

definition raises_only :: "('e \<Rightarrow> bool) \<Rightarrow> 'e + 'a \<Rightarrow> bool" where
  "raises_only P m \<longleftrightarrow> (case m of Inl e \<Rightarrow> P e | Inr _ \<Rightarrow> True)"

named_theorems raises_intro \<open>rules that bound the exceptions of a computation\<close>

lemma raises_onlyD: "raises_only P m \<Longrightarrow> m = Inl e \<Longrightarrow> P e"
  by (simp add: raises_only_def)

lemma raises_only_Inr [raises_intro]: "raises_only P (Inr x)"
  by (simp add: raises_only_def)

lemma raises_only_Inl [raises_intro]: "P e \<Longrightarrow> raises_only P (Inl e)"
  by (simp add: raises_only_def)

lemma raises_only_bindE [raises_intro]:
  "raises_only P m \<Longrightarrow> (\<And>x. m = Inr x \<Longrightarrow> raises_only P (f x)) \<Longrightarrow> raises_only P (bindE m f)"
  by (cases m) (simp_all add: raises_only_def)

lemma raises_only_seqE [raises_intro]:
  "raises_only P m \<Longrightarrow> raises_only P k \<Longrightarrow> raises_only P (seqE m k)"
  by (cases m) (simp_all add: raises_only_def)

lemma raises_only_ensure [raises_intro]: "P e \<Longrightarrow> raises_only P (ensure b e)"
  by (simp add: ensure_def raises_only_def)

lemma raises_only_of_option [raises_intro]: "P e \<Longrightarrow> raises_only P (of_option e m)"
  by (cases m) (simp_all add: raises_only_def)

lemma raises_only_if [raises_intro]:
  "(b \<Longrightarrow> raises_only P m) \<Longrightarrow> (\<not> b \<Longrightarrow> raises_only P k) \<Longrightarrow> raises_only P (if b then m else k)"
  by simp

lemma raises_only_Let [raises_intro]: "raises_only P (f x) \<Longrightarrow> raises_only P (let y = x in f y)"
  by simp

lemma raises_only_forE [raises_intro]: "(\<And>x. raises_only P (f x)) \<Longrightarrow> raises_only P (forE f xs)"
  by (induction xs) (auto intro: raises_intro)

lemma raises_only_mapE [raises_intro]: "(\<And>x. raises_only P (f x)) \<Longrightarrow> raises_only P (mapE f xs)"
  by (induction xs) (auto intro!: raises_intro)

lemma raises_only_foldE [raises_intro]: "(\<And>x s. raises_only P (f x s)) \<Longrightarrow> raises_only P (foldE f xs s)"
  by (induction xs arbitrary: s) (auto intro!: raises_intro)

end
