(* ===== verification/Py_Text.thy ===== *)
theory Py_Text
  imports Py_Prelude
begin

text \<open>
  The parts of Python's \<open>str\<close> that the programs use: splitting, stripping, joining, prefix tests,
  decimal and hexadecimal conversion.  A \<open>str\<close> is a HOL \<open>string\<close>; its characters are the code
  points below 256, which covers every file and argument the programs read.  \<open>int(text)\<close> accepts
  surrounding white space, a sign and single underscores between digits, as Python does.
\<close>

section \<open>Characters\<close>

definition char_code :: "char \<Rightarrow> int" where
  "char_code c = of_char c"

definition is_digit :: "char \<Rightarrow> bool" where
  "is_digit c \<longleftrightarrow> 48 \<le> char_code c \<and> char_code c \<le> 57"

definition is_upper :: "char \<Rightarrow> bool" where
  "is_upper c \<longleftrightarrow> 65 \<le> char_code c \<and> char_code c \<le> 90"

definition is_lower :: "char \<Rightarrow> bool" where
  "is_lower c \<longleftrightarrow> 97 \<le> char_code c \<and> char_code c \<le> 122"

definition is_alpha :: "char \<Rightarrow> bool" where
  "is_alpha c \<longleftrightarrow> is_upper c \<or> is_lower c"

definition is_space :: "char \<Rightarrow> bool" where
  "is_space c \<longleftrightarrow> char_code c \<in> {9, 10, 11, 12, 13, 28, 29, 30, 31, 32, 133, 160}"

definition is_linebreak :: "char \<Rightarrow> bool" where
  "is_linebreak c \<longleftrightarrow> char_code c \<in> {10, 11, 12, 13, 28, 29, 30, 133}"

definition digit_val :: "char \<Rightarrow> int" where
  "digit_val c = char_code c - 48"

definition digit_char :: "int \<Rightarrow> char" where
  "digit_char n = char_of (48 + n)"

definition newline :: char where
  "newline = CHR 0x0A"

section \<open>Splitting and joining\<close>

fun split_on :: "char \<Rightarrow> string \<Rightarrow> string list" where
  "split_on d [] = [[]]"
| "split_on d (c # cs) =
     (if c = d then [] # split_on d cs
      else (case split_on d cs of [] \<Rightarrow> [[c]] | p # ps \<Rightarrow> (c # p) # ps))"

fun join :: "string \<Rightarrow> string list \<Rightarrow> string" where
  "join sep [] = []"
| "join sep [x] = x"
| "join sep (x # y # xs) = x @ sep @ join sep (y # xs)"

definition lstrip :: "string \<Rightarrow> string" where
  "lstrip s = dropWhile is_space s"

definition strip :: "string \<Rightarrow> string" where
  "strip s = rev (dropWhile is_space (rev (dropWhile is_space s)))"

text \<open>\<open>text.split()\<close>: maximal runs of non-space characters.\<close>

fun split_ws_acc :: "string \<Rightarrow> string \<Rightarrow> string list" where
  "split_ws_acc w [] = (if w = [] then [] else [rev w])"
| "split_ws_acc w (c # cs) =
     (if is_space c then (if w = [] then split_ws_acc [] cs else rev w # split_ws_acc [] cs)
      else split_ws_acc (c # w) cs)"

definition split_ws :: "string \<Rightarrow> string list" where
  "split_ws s = split_ws_acc [] s"

text \<open>\<open>text.splitlines()\<close>: a carriage return followed by a line feed is one boundary.\<close>

fun splitlines_acc :: "string \<Rightarrow> string \<Rightarrow> string list" where
  "splitlines_acc w [] = (if w = [] then [] else [rev w])"
| "splitlines_acc w (c # cs) =
     (if is_linebreak c
      then rev w # splitlines_acc [] (if c = CHR 0x0D \<and> cs \<noteq> [] \<and> hd cs = CHR 0x0A then tl cs else cs)
      else splitlines_acc (c # w) cs)"

definition splitlines :: "string \<Rightarrow> string list" where
  "splitlines s = splitlines_acc [] s"

definition startswith :: "string \<Rightarrow> string \<Rightarrow> bool" where
  "startswith s p \<longleftrightarrow> take (length p) s = p"

definition endswith :: "string \<Rightarrow> string \<Rightarrow> bool" where
  "endswith s p \<longleftrightarrow> startswith (rev s) (rev p)"

text \<open>\<open>text.partition(c)\<close> on the first occurrence, \<open>text.rsplit(c, 1)\<close> on the last one.\<close>

definition partition_on :: "char \<Rightarrow> string \<Rightarrow> string \<times> bool \<times> string" where
  "partition_on d s =
     (let a = takeWhile (\<lambda>c. c \<noteq> d) s; r = dropWhile (\<lambda>c. c \<noteq> d) s in (a, r \<noteq> [], tl r))"

definition rsplit1 :: "char \<Rightarrow> string \<Rightarrow> string list" where
  "rsplit1 d s =
     (if d \<in> set s
      then [rev (tl (dropWhile (\<lambda>c. c \<noteq> d) (rev s))), rev (takeWhile (\<lambda>c. c \<noteq> d) (rev s))]
      else [s])"

fun is_infix :: "string \<Rightarrow> string \<Rightarrow> bool" where
  "is_infix p [] = (p = [])"
| "is_infix p (c # cs) = (startswith (c # cs) p \<or> is_infix p cs)"

text \<open>
  \<open>cut p s\<close> splits \<open>s\<close> around the first occurrence of \<open>p\<close>; \<open>s.count(p)\<close> and \<open>s.replace(p, r)\<close> work on
  non-overlapping occurrences from the left (for a nonempty \<open>p\<close>, the only kind the programs use).
\<close>

fun cut :: "string \<Rightarrow> string \<Rightarrow> (string \<times> string) option" where
  "cut p [] = (if p = [] then Some ([], []) else None)"
| "cut p (c # cs) =
     (if startswith (c # cs) p then Some ([], drop (length p) (c # cs))
      else map_option (\<lambda>(a, b). (c # a, b)) (cut p cs))"

lemma cut_Some: "cut p s = Some (a, b) \<Longrightarrow> s = a @ p @ b"
proof (induction p s arbitrary: a b rule: cut.induct)
  case (2 p c cs)
  show ?case
  proof (cases "startswith (c # cs) p")
    case True
    then have "c # cs = p @ drop (length p) (c # cs)"
      by (metis startswith_def append_take_drop_id)
    then show ?thesis using 2 True by auto
  qed (use 2 in auto)
qed (auto split: if_splits)

function count_sub :: "string \<Rightarrow> string \<Rightarrow> int" where
  "count_sub p s =
     (if p = [] then int (length s) + 1
      else (case cut p s of None \<Rightarrow> 0 | Some (a, b) \<Rightarrow> 1 + count_sub p b))"
  by pat_completeness auto
termination by (relation "measure (length \<circ> snd)") (auto dest!: cut_Some)

function replace_sub :: "string \<Rightarrow> string \<Rightarrow> string \<Rightarrow> string" where
  "replace_sub p r s =
     (if p = [] then s
      else (case cut p s of None \<Rightarrow> s | Some (a, b) \<Rightarrow> a @ r @ replace_sub p r b))"
  by pat_completeness auto
termination by (relation "measure (\<lambda>(p, r, s). length s)") (auto dest!: cut_Some)

declare count_sub.simps [simp del] replace_sub.simps [simp del]

section \<open>Numbers\<close>

fun digits_us :: "int \<Rightarrow> string \<Rightarrow> int option" where
  "digits_us n [] = Some n"
| "digits_us n (c # cs) =
     (if is_digit c then digits_us (10 * n + digit_val c) cs
      else if c = CHR ''_'' \<and> cs \<noteq> [] \<and> is_digit (hd cs) then digits_us n cs
      else None)"

definition nat_of_str :: "string \<Rightarrow> int option" where
  "nat_of_str s = (if s \<noteq> [] \<and> is_digit (hd s) then digits_us 0 s else None)"

definition int_of_str :: "string \<Rightarrow> int option" where
  "int_of_str s =
     (let t = strip s in
      if t \<noteq> [] \<and> hd t = CHR ''-'' then map_option uminus (nat_of_str (tl t))
      else if t \<noteq> [] \<and> hd t = CHR ''+'' then nat_of_str (tl t)
      else nat_of_str t)"

definition py_int :: "string \<Rightarrow> int res" where
  "py_int s = of_option (ValueError ''invalid literal for int() with base 10'') (int_of_str s)"

function str_of_nat :: "int \<Rightarrow> string" where
  "str_of_nat n =
     (if n < 10 then [digit_char n] else str_of_nat (n div 10) @ [digit_char (n mod 10)])"
  by pat_completeness auto
termination
  by (relation "measure nat") auto

declare str_of_nat.simps [simp del]

definition str_of_int :: "int \<Rightarrow> string" where
  "str_of_int i = (if i < 0 then CHR ''-'' # str_of_nat (- i) else str_of_nat i)"

definition is_hex :: "char \<Rightarrow> bool" where
  "is_hex c \<longleftrightarrow> is_digit c \<or> (97 \<le> char_code c \<and> char_code c \<le> 102) \<or>
     (65 \<le> char_code c \<and> char_code c \<le> 70)"

definition hex_val :: "char \<Rightarrow> int" where
  "hex_val c = (if is_digit c then char_code c - 48
                else if char_code c \<ge> 97 then char_code c - 87 else char_code c - 55)"

definition hex_digits_val :: "string \<Rightarrow> int" where
  "hex_digits_val s = foldl (\<lambda>n c. 16 * n + hex_val c) 0 s"

section \<open>Laws of splitting and joining\<close>

lemma split_on_nonempty [simp]: "split_on d s \<noteq> []"
  by (induction d s rule: split_on.induct) (auto split: list.splits)

lemma split_on_no_sep: "d \<notin> set s \<Longrightarrow> split_on d s = [s]"
  by (induction d s rule: split_on.induct) auto

lemma split_on_append_sep:
  "d \<notin> set a \<Longrightarrow> split_on d (a @ d # b) = a # split_on d b"
  by (induction a) auto

lemma split_on_parts_no_sep: "p \<in> set (split_on d s) \<Longrightarrow> d \<notin> set p"
proof (induction d s arbitrary: p rule: split_on.induct)
  case (2 d c cs)
  then show ?case by (auto split: list.splits if_splits)
qed simp

lemma split_on_set: "p \<in> set (split_on d s) \<Longrightarrow> set p \<subseteq> set s"
proof (induction d s arbitrary: p rule: split_on.induct)
  case (2 d c cs)
  then show ?case by (cases "split_on d cs") (fastforce split: if_splits)+
qed simp

lemma set_split_on: "set s \<subseteq> insert d (\<Union>p \<in> set (split_on d s). set p)"
proof (induction d s rule: split_on.induct)
  case (2 d c cs)
  then show ?case by (cases "split_on d cs") auto
qed simp

lemma join_split_on: "join [d] (split_on d s) = s"
proof (induction d s rule: split_on.induct)
  case (2 d c cs)
  obtain p ps where "split_on d cs = p # ps" by (cases "split_on d cs") auto
  with 2 show ?case by (cases ps) auto
qed simp

lemma split_on_join:
  "xs \<noteq> [] \<Longrightarrow> (\<forall>x \<in> set xs. d \<notin> set x) \<Longrightarrow> split_on d (join [d] xs) = xs"
  by (induction "[d]" xs rule: join.induct) (auto simp: split_on_no_sep split_on_append_sep)

lemma count_split_on: "length (split_on d s) = Suc (count_list s d)"
proof (induction d s rule: split_on.induct)
  case (2 d c cs)
  then show ?case by (cases "split_on d cs") auto
qed simp

lemma count_list_append [simp]: "count_list (xs @ ys) x = count_list xs x + count_list ys x"
  by (induction xs) auto

lemma count_list_0: "x \<notin> set xs \<Longrightarrow> count_list xs x = 0"
  by (induction xs) auto

lemma takeWhile_sep [simp]:
  "d \<notin> set k \<Longrightarrow> takeWhile (\<lambda>c. c \<noteq> d) (k @ d # v) = k"
  "d \<notin> set k \<Longrightarrow> takeWhile (\<lambda>c. c \<noteq> d) k = k"
  by (induction k) auto

lemma partition_on_fst:
  assumes "d \<notin> set k"
  shows "fst (partition_on d a) = k \<longleftrightarrow> a = k \<or> (\<exists>v. a = k @ d # v)"
proof (cases "d \<in> set a")
  case True
  then obtain xs ys where a: "a = xs @ d # ys" "d \<notin> set xs" by (meson split_list_first)
  then have "fst (partition_on d a) = xs" by (simp add: partition_on_def Let_def)
  moreover have "xs = k" if "xs @ d # ys = k @ d # v" for v
    using arg_cong [OF that, of "takeWhile (\<lambda>c. c \<noteq> d)"] a(2) assms by simp
  ultimately show ?thesis using a assms by auto
next
  case False
  then show ?thesis by (auto simp: partition_on_def Let_def)
qed

lemma startswith_append [simp]: "startswith (p @ s) p"
  by (simp add: startswith_def)

lemma startswith_iff: "startswith s p \<longleftrightarrow> (\<exists>t. s = p @ t)"
proof
  assume "startswith s p"
  then have "s = p @ drop (length p) s"
    by (metis startswith_def append_take_drop_id)
  then show "\<exists>t. s = p @ t" ..
qed (auto simp: startswith_def)

lemma char_code_range: "0 \<le> char_code c \<and> char_code c < 256"
proof -
  have "char_code c = int (of_char c)" by (simp add: char_code_def of_nat_of_char)
  moreover have "int (of_char c) < 256" using nat_of_char_less_256 [of c] by linarith
  ultimately show ?thesis by linarith
qed

section \<open>Decimal conversion\<close>

lemma char_code_digit [simp]: "0 \<le> n \<Longrightarrow> n < 10 \<Longrightarrow> char_code (digit_char n) = 48 + n"
  by (simp add: char_code_def digit_char_def)

lemma is_digit_digit_char [simp]: "0 \<le> n \<Longrightarrow> n < 10 \<Longrightarrow> is_digit (digit_char n)"
  by (simp add: is_digit_def)

lemma digit_val_digit_char [simp]: "0 \<le> n \<Longrightarrow> n < 10 \<Longrightarrow> digit_val (digit_char n) = n"
  by (simp add: digit_val_def)

lemma str_of_nat_digits: "0 \<le> n \<Longrightarrow> \<forall>c \<in> set (str_of_nat n). is_digit c"
proof (induction n rule: str_of_nat.induct)
  case (1 n)
  show ?case
  proof (cases "n < 10")
    case True
    with "1.prems" show ?thesis by (subst str_of_nat.simps) simp
  next
    case False
    with 1 show ?thesis by (subst str_of_nat.simps) auto
  qed
qed

lemma str_of_nat_nonempty [simp]: "str_of_nat n \<noteq> []"
  by (subst str_of_nat.simps) simp

lemma digits_us_append_digits:
  "\<forall>c \<in> set s. is_digit c \<Longrightarrow> digits_us n (s @ t) = digits_us (foldl (\<lambda>n c. 10 * n + digit_val c) n s) t"
  by (induction s arbitrary: n) auto

lemma str_of_nat_value: "0 \<le> n \<Longrightarrow> foldl (\<lambda>n c. 10 * n + digit_val c) 0 (str_of_nat n) = n"
proof (induction n rule: str_of_nat.induct)
  case (1 n)
  show ?case
  proof (cases "n < 10")
    case True
    with "1.prems" show ?thesis by (subst str_of_nat.simps) simp
  next
    case False
    with 1 show ?thesis by (subst str_of_nat.simps) simp
  qed
qed

lemma digits_us_str_of_nat: "0 \<le> n \<Longrightarrow> digits_us 0 (str_of_nat n) = Some n"
  using digits_us_append_digits [of "str_of_nat n" 0 "[]"] str_of_nat_digits [of n]
  by (simp add: str_of_nat_value)

lemma hd_str_of_nat [simp]: "0 \<le> n \<Longrightarrow> is_digit (hd (str_of_nat n))"
  using str_of_nat_digits [of n] by (cases "str_of_nat n") (auto dest: arg_cong [where f = length])

lemma nat_of_str_of_nat [simp]: "0 \<le> n \<Longrightarrow> nat_of_str (str_of_nat n) = Some n"
  by (simp add: nat_of_str_def digits_us_str_of_nat)

lemma is_digit_not_space: "is_digit c \<Longrightarrow> \<not> is_space c"
  by (auto simp: is_digit_def is_space_def)

lemma dropWhile_id: "s \<noteq> [] \<Longrightarrow> \<not> P (hd s) \<Longrightarrow> dropWhile P s = s"
  by (cases s) auto

lemma strip_id: "s \<noteq> [] \<Longrightarrow> \<not> is_space (hd s) \<Longrightarrow> \<not> is_space (last s) \<Longrightarrow> strip s = s"
  by (simp add: strip_def dropWhile_id hd_rev)

lemma last_str_of_nat [simp]: "0 \<le> n \<Longrightarrow> is_digit (last (str_of_nat n))"
  using str_of_nat_digits [of n] by simp

lemma strip_str_of_nat [simp]: "0 \<le> n \<Longrightarrow> strip (str_of_nat n) = str_of_nat n"
  by (rule strip_id) (simp_all add: is_digit_not_space)

lemma hd_str_of_nat_sign [simp]:
  "0 \<le> n \<Longrightarrow> hd (str_of_nat n) \<noteq> CHR ''-''" "0 \<le> n \<Longrightarrow> hd (str_of_nat n) \<noteq> CHR ''+''"
  using hd_str_of_nat [of n] by (auto simp: is_digit_def char_code_def)

lemma strip_neg_str_of_nat [simp]: "0 \<le> n \<Longrightarrow> strip (CHR ''-'' # str_of_nat n) = CHR ''-'' # str_of_nat n"
proof (rule strip_id)
  show "\<not> is_space (hd (CHR ''-'' # str_of_nat n))"
    by (simp add: is_space_def char_code_def)
qed (simp_all add: is_digit_not_space)

text \<open>Printing an integer and reading it back gives the integer: \<open>int(str(i)) == i\<close>.\<close>

lemma int_of_str_of_int [simp]: "int_of_str (str_of_int i) = Some i"
  by (simp add: int_of_str_def str_of_int_def Let_def)

lemma py_int_str_of_int [simp]: "py_int (str_of_int i) = Inr i"
  by (simp add: py_int_def)

lemma str_of_int_inject [simp]: "str_of_int i = str_of_int j \<longleftrightarrow> i = j"
  by (metis int_of_str_of_int option.inject)

lemma str_of_int_chars: "c \<in> set (str_of_int i) \<Longrightarrow> is_digit c \<or> c = CHR ''-''"
  using str_of_nat_digits [of i] str_of_nat_digits [of "- i"]
  by (auto simp: str_of_int_def split: if_splits)

lemma str_of_int_nonempty [simp]: "str_of_int i \<noteq> []"
  by (simp add: str_of_int_def)

end
