(* ===== verification/Py_Ipaddress.thy ===== *)
theory Py_Ipaddress
  imports Py_Text
begin

text \<open>
  The part of Python's standard \<open>ipaddress\<close> module the deployment generators rely on, as CPython
  3.11 implements it: \<open>ip_address(text)\<close>, its \<open>version\<close>, equality, \<open>is_unspecified\<close>,
  \<open>is_multicast\<close> and \<open>is_loopback\<close>.  An address is its integer and, for IPv6, its scope id;
  \<open>==\<close> on addresses is equality of these values.  An IPv4 suffix of an IPv6 text is kept as its two
  16-bit values instead of being printed and read back in hexadecimal.  The main lemma is
  \<open>ip_address_chars\<close>: a text that parses and has no scope suffix contains hexadecimal digits,
  colons and dots only, so it cannot break out of the place it is interpolated into.
\<close>

datatype ipaddr = IPv4 int | IPv6 int "string option"

definition parse_octet :: "string \<Rightarrow> int option" where
  "parse_octet s =
     (if s = [] \<or> \<not> list_all is_digit s \<or> length s > 3 then None
      else if s \<noteq> ''0'' \<and> hd s = CHR ''0'' then None
      else let n = foldl (\<lambda>n c. 10 * n + digit_val c) 0 s in if n > 255 then None else Some n)"

definition ipv4_of_str :: "string \<Rightarrow> int option" where
  "ipv4_of_str s =
     (case map parse_octet (split_on (CHR ''.'') s) of
        [Some a, Some b, Some c, Some d] \<Rightarrow> Some (((a * 256 + b) * 256 + c) * 256 + d)
      | _ \<Rightarrow> None)"

type_synonym ipv6_part = "string + int"

definition part_empty :: "ipv6_part \<Rightarrow> bool" where
  "part_empty p \<longleftrightarrow> p = Inl []"

definition parse_hextet :: "ipv6_part \<Rightarrow> int option" where
  "parse_hextet p =
     (case p of
        Inl s \<Rightarrow> if s = [] \<or> \<not> list_all is_hex s \<or> length s > 4 then None else Some (hex_digits_val s)
      | Inr n \<Rightarrow> Some n)"

definition hextets :: "ipv6_part list \<Rightarrow> int list option" where
  "hextets ps =
     (if list_all (\<lambda>p. parse_hextet p \<noteq> None) ps then Some (map (\<lambda>p. the (parse_hextet p)) ps) else None)"

definition ipv6_value :: "int list \<Rightarrow> int" where
  "ipv6_value hs = foldl (\<lambda>n h. 65536 * n + h) 0 hs"

definition skip_positions :: "ipv6_part list \<Rightarrow> nat list" where
  "skip_positions ps = filter (\<lambda>i. part_empty (ps ! i)) [1..<length ps - 1]"

definition skip_hi :: "ipv6_part list \<Rightarrow> nat \<Rightarrow> nat" where
  "skip_hi ps k = (if part_empty (hd ps) then k - 1 else k)"

definition skip_lo :: "ipv6_part list \<Rightarrow> nat \<Rightarrow> nat" where
  "skip_lo ps k = (if part_empty (last ps) then length ps - k - 1 - 1 else length ps - k - 1)"

definition ipv6_skipped :: "ipv6_part list \<Rightarrow> nat \<Rightarrow> int option" where
  "ipv6_skipped ps k =
     (let hi = skip_hi ps k; lo = skip_lo ps k in
      if part_empty (hd ps) \<and> hi \<noteq> 0 \<or> part_empty (last ps) \<and> lo \<noteq> 0 \<or> hi + lo > 7 then None
      else (case (hextets (take hi ps), hextets (drop (length ps - lo) ps)) of
          (Some a, Some b) \<Rightarrow> Some (ipv6_value (a @ replicate (8 - (hi + lo)) 0 @ b))
        | _ \<Rightarrow> None))"

definition ipv6_of_parts :: "ipv6_part list \<Rightarrow> int option" where
  "ipv6_of_parts ps =
     (if length ps > 9 then None
      else (case skip_positions ps of
          [] \<Rightarrow> if length ps \<noteq> 8 \<or> part_empty (hd ps) \<or> part_empty (last ps) then None
                else map_option ipv6_value (hextets ps)
        | [k] \<Rightarrow> ipv6_skipped ps k
        | _ \<Rightarrow> None))"

definition ipv6_parts :: "string \<Rightarrow> ipv6_part list option" where
  "ipv6_parts s =
     (let ps = split_on (CHR '':'') s in
      if length ps < 3 then None
      else if CHR ''.'' \<in> set (last ps)
      then (case ipv4_of_str (last ps) of
              None \<Rightarrow> None
            | Some v \<Rightarrow> Some (map Inl (butlast ps) @ [Inr (v div 65536 mod 65536), Inr (v mod 65536)]))
      else Some (map Inl ps))"

definition ipv6_of_str :: "string \<Rightarrow> (int \<times> string option) option" where
  "ipv6_of_str s =
     (case partition_on (CHR ''%'') s of
        (addr, sep, scope) \<Rightarrow>
          if sep \<and> (scope = [] \<or> CHR ''%'' \<in> set scope) then None
          else (case ipv6_parts addr of
              None \<Rightarrow> None
            | Some ps \<Rightarrow> map_option (\<lambda>v. (v, if sep then Some scope else None)) (ipv6_of_parts ps)))"

definition ip_address :: "string \<Rightarrow> ipaddr option" where
  "ip_address s =
     (if CHR ''/'' \<in> set s then None
      else case ipv4_of_str s of
          Some v \<Rightarrow> Some (IPv4 v)
        | None \<Rightarrow> map_option (\<lambda>(v, scope). IPv6 v scope) (ipv6_of_str s))"

fun ip_version :: "ipaddr \<Rightarrow> int" where
  "ip_version (IPv4 _) = 4"
| "ip_version (IPv6 _ _) = 6"

fun is_unspecified :: "ipaddr \<Rightarrow> bool" where
  "is_unspecified (IPv4 v) = (v = 0)"
| "is_unspecified (IPv6 v _) = (v = 0)"

fun is_multicast :: "ipaddr \<Rightarrow> bool" where
  "is_multicast (IPv4 v) = (v div 2 ^ 28 = 14)"
| "is_multicast (IPv6 v _) = (v div 2 ^ 120 = 255)"

fun is_loopback :: "ipaddr \<Rightarrow> bool" where
  "is_loopback (IPv4 v) = (v div 2 ^ 24 = 127)"
| "is_loopback (IPv6 v _) = (v = 1)"

text \<open>The call as the programs make it: a text that is no address raises \<open>ValueError\<close>.\<close>

definition py_ip_address :: "string \<Rightarrow> ipaddr res" where
  "py_ip_address s =
     of_option (ValueError ''does not appear to be an IPv4 or IPv6 address'') (ip_address s)"

section \<open>The characters of an accepted address\<close>

definition addr_char :: "char \<Rightarrow> bool" where
  "addr_char c \<longleftrightarrow> is_hex c \<or> c = CHR '':'' \<or> c = CHR ''.''"

lemma ipv4_octets:
  assumes "ipv4_of_str s = Some v"
  shows "\<forall>p \<in> set (split_on (CHR ''.'') s). list_all is_digit p"
proof -
  obtain a b c d where "map parse_octet (split_on (CHR ''.'') s) = [Some a, Some b, Some c, Some d]"
    using assms by (auto simp: ipv4_of_str_def split: list.splits option.splits)
  then have "\<forall>p \<in> set (split_on (CHR ''.'') s). parse_octet p \<noteq> None"
    by (metis (no_types, lifting) image_eqI insert_iff list.set(1) list.set(2) list.set_map option.distinct(1) singletonD)
  then show ?thesis by (auto simp: parse_octet_def split: if_splits)
qed

lemma ipv4_chars:
  assumes "ipv4_of_str s = Some v" and "c \<in> set s"
  shows "is_digit c \<or> c = CHR ''.''"
  using ipv4_octets [OF assms(1)] set_split_on [of s "CHR ''.''"] assms(2)
  by (fastforce simp: list_all_iff)

lemma hextets_Some: "hextets ps = Some hs \<Longrightarrow> p \<in> set ps \<Longrightarrow> parse_hextet p \<noteq> None"
  by (auto simp: hextets_def list_all_iff split: if_splits)

lemma skip_position:
  "skip_positions ps = [k] \<Longrightarrow> 1 \<le> k \<and> k < length ps - 1 \<and> part_empty (ps ! k)"
  by (drule arg_cong [where f = set]) (auto simp: skip_positions_def)

lemma ipv6_skipped_hextets:
  assumes ok: "ipv6_skipped ps k = Some v" and k: "1 \<le> k" "k < length ps - 1" "part_empty (ps ! k)"
    and i: "i < length ps" and ne: "\<not> part_empty (ps ! i)"
  shows "parse_hextet (ps ! i) \<noteq> None"
proof -
  obtain a b where ab: "hextets (take (skip_hi ps k) ps) = Some a"
      "hextets (drop (length ps - skip_lo ps k) ps) = Some b"
    and edge: "part_empty (hd ps) \<longrightarrow> skip_hi ps k = 0" "part_empty (last ps) \<longrightarrow> skip_lo ps k = 0"
    using ok by (auto simp: ipv6_skipped_def Let_def split: if_splits option.splits)
  have "hd ps = ps ! 0" and "last ps = ps ! (length ps - 1)"
    using i by (cases ps; simp add: last_conv_nth)+
  then have "i \<noteq> k" and "part_empty (hd ps) \<longrightarrow> i \<noteq> 0" and "part_empty (last ps) \<longrightarrow> i \<noteq> length ps - 1"
    using ne k(3) by metis+
  then consider "i < skip_hi ps k" | "length ps - skip_lo ps k \<le> i"
    using edge k i by (fastforce simp: skip_hi_def skip_lo_def split: if_splits)
  then show ?thesis
  proof cases
    case 1
    then have "ps ! i \<in> set (take (skip_hi ps k) ps)" using i by (auto simp: in_set_conv_nth intro!: exI [of _ i])
    then show ?thesis using ab(1) hextets_Some by blast
  next
    case 2
    then have "ps ! i \<in> set (drop (length ps - skip_lo ps k) ps)"
      using i by (auto simp: in_set_conv_nth intro!: exI [of _ "i - (length ps - skip_lo ps k)"])
    then show ?thesis using ab(2) hextets_Some by blast
  qed
qed

lemma ipv6_of_parts_hextets:
  assumes ok: "ipv6_of_parts ps = Some v" and i: "i < length ps" and ne: "\<not> part_empty (ps ! i)"
  shows "parse_hextet (ps ! i) \<noteq> None"
proof (cases "skip_positions ps")
  case Nil
  with ok obtain hs where "hextets ps = Some hs"
    by (auto simp: ipv6_of_parts_def split: if_splits)
  then show ?thesis using hextets_Some nth_mem [OF i] by blast
next
  case (Cons k ks)
  with ok have "ks = []" and "ipv6_skipped ps k = Some v"
    by (auto simp: ipv6_of_parts_def split: if_splits list.splits)
  with Cons show ?thesis using ipv6_skipped_hextets skip_position i ne by blast
qed

lemma ipv6_of_parts_chars:
  assumes "ipv6_of_parts ps = Some v" and "Inl p \<in> set ps" and "c \<in> set p"
  shows "is_hex c"
proof -
  obtain i where i: "i < length ps" "ps ! i = Inl p"
    using assms(2) by (auto simp: in_set_conv_nth)
  have "parse_hextet (Inl p) \<noteq> None"
    using ipv6_of_parts_hextets [OF assms(1) i(1)] i(2) assms(3) by (cases p) (auto simp: part_empty_def)
  then show ?thesis
    using assms(3) by (auto simp: parse_hextet_def list_all_iff split: if_splits)
qed

lemma ipv6_part_chars:
  assumes parts: "ipv6_parts s = Some ps" and ok: "ipv6_of_parts ps = Some v"
    and p: "p \<in> set (split_on (CHR '':'') s)" and c: "c \<in> set p"
  shows "addr_char c"
proof (cases "CHR ''.'' \<in> set (last (split_on (CHR '':'') s))")
  case True
  obtain w where w: "ipv4_of_str (last (split_on (CHR '':'') s)) = Some w"
    and ps: "ps = map Inl (butlast (split_on (CHR '':'') s)) @ [Inr (w div 65536 mod 65536), Inr (w mod 65536)]"
    using parts True by (auto simp: ipv6_parts_def Let_def split: if_splits option.splits)
  have "p \<in> set (butlast (split_on (CHR '':'') s)) \<or> p = last (split_on (CHR '':'') s)"
    using p by (metis in_set_butlastD append_butlast_last_id split_on_nonempty Un_iff
        set_append list.set(1) list.set(2) insert_iff empty_iff)
  then show ?thesis
  proof
    assume "p \<in> set (butlast (split_on (CHR '':'') s))"
    then have "Inl p \<in> set ps" by (simp add: ps)
    then show ?thesis using ipv6_of_parts_chars [OF ok _ c] by (simp add: addr_char_def)
  next
    assume "p = last (split_on (CHR '':'') s)"
    then show ?thesis using ipv4_chars [OF w] c by (auto simp: addr_char_def is_hex_def)
  qed
next
  case False
  then have "ps = map Inl (split_on (CHR '':'') s)"
    using parts by (auto simp: ipv6_parts_def Let_def split: if_splits)
  then show ?thesis using ipv6_of_parts_chars [OF ok _ c] p by (simp add: addr_char_def)
qed

lemma ip_address_chars:
  assumes ok: "ip_address s = Some a" and noscope: "CHR ''%'' \<notin> set s" and c: "c \<in> set s"
  shows "addr_char c"
proof (cases "ipv4_of_str s")
  case (Some v)
  then show ?thesis using ipv4_chars [OF Some c] by (auto simp: addr_char_def is_hex_def)
next
  case None
  have part: "partition_on (CHR ''%'') s = (s, False, [])"
  proof -
    have "dropWhile (\<lambda>c. c \<noteq> CHR ''%'') s = []" 
      using noscope by (simp only: dropWhile_eq_Nil_conv) blast
    moreover have "takeWhile (\<lambda>c. c \<noteq> CHR ''%'') s = s" using noscope by (auto simp: takeWhile_eq_all_conv)
    ultimately show ?thesis by (simp only: partition_on_def Let_def list.sel) simp
  qed
  obtain ps v where ps: "ipv6_parts s = Some ps" "ipv6_of_parts ps = Some v"
    using ok None by (auto simp: ip_address_def ipv6_of_str_def part split: if_splits option.splits)
  show ?thesis
  proof (cases "c = CHR '':''")
    case True
    then show ?thesis by (simp add: addr_char_def)
  next
    case False
    then obtain p where "p \<in> set (split_on (CHR '':'') s)" "c \<in> set p"
      using set_split_on [of s "CHR '':''"] c by auto
    then show ?thesis using ipv6_part_chars [OF ps] by blast
  qed
qed

lemma ip_address_nonempty: "ip_address s = Some a \<Longrightarrow> s \<noteq> []"
  by (auto simp: ip_address_def ipv4_of_str_def ipv6_of_str_def parse_octet_def partition_on_def
      ipv6_parts_def Let_def)

end
