(* ===== verification/Py_Float.thy ===== *)
theory Py_Float
  imports Complex_Main "HOL-Library.Log_Nat"
begin

text \<open>
  Python floats are IEEE 754 binary64 values.  A finite float is modelled by the rational it
  stands for, and every float operation is the exact rational operation followed by \<open>fl\<close>, rounding
  to the nearest binary64 value with ties to even; true division of two integers is correctly
  rounded in the same way.  Infinities, NaN and overflow beyond the largest finite value are not
  modelled: the programs compute rates, percentages and latencies far inside the range.
  The lemmas give what the audits' thresholds rely on: \<open>fl\<close> is monotone, odd, keeps zero and the
  sign, and is exact on integers below \<open>2 ^ 53\<close>.
\<close>

definition round_even :: "rat \<Rightarrow> int" where
  "round_even x =
     (let f = \<lfloor>x\<rfloor>; d = x - of_int f in
      if d < 1 / 2 then f else if 1 / 2 < d then f + 1 else if even f then f else f + 1)"

definition ilog2 :: "rat \<Rightarrow> int" where
  "ilog2 x = (if 1 \<le> x then bitlen \<lfloor>x\<rfloor> - 1 else - bitlen (\<lceil>1 / x\<rceil> - 1))"

definition ulp_exp :: "rat \<Rightarrow> int" where
  "ulp_exp x = max (ilog2 x - 52) (-1074)"

definition pow2 :: "int \<Rightarrow> rat" where
  "pow2 e = (if 0 \<le> e then 2 ^ nat e else 1 / 2 ^ nat (- e))"

definition fl_pos :: "rat \<Rightarrow> rat" where
  "fl_pos x = of_int (round_even (x / pow2 (ulp_exp x))) * pow2 (ulp_exp x)"

definition fl :: "rat \<Rightarrow> rat" where
  "fl x = (if x = 0 then 0 else if 0 < x then fl_pos x else - fl_pos (- x))"

text \<open>\<open>int(x)\<close> of a float: truncation towards zero.\<close>

definition trunc_rat :: "rat \<Rightarrow> int" where
  "trunc_rat x = (if 0 \<le> x then \<lfloor>x\<rfloor> else \<lceil>x\<rceil>)"

section \<open>Rounding to an integer\<close>

lemma round_even_of_int [simp]: "round_even (of_int n) = n"
  by (simp add: round_even_def)

lemma round_even_0 [simp]: "round_even 0 = 0"
  using round_even_of_int [of 0] by (simp del: round_even_of_int)

lemma round_even_bounds: "\<lfloor>x\<rfloor> \<le> round_even x" "round_even x \<le> \<lfloor>x\<rfloor> + 1"
  by (simp_all add: round_even_def Let_def)

lemma round_even_mono: "x \<le> y \<Longrightarrow> round_even x \<le> round_even y"
proof (cases "\<lfloor>x\<rfloor> = \<lfloor>y\<rfloor>")
  case True
  assume "x \<le> y"
  with True show ?thesis by (auto simp: round_even_def Let_def)
next
  case False
  assume "x \<le> y"
  with False have "\<lfloor>x\<rfloor> + 1 \<le> \<lfloor>y\<rfloor>" using floor_mono [of x y] by linarith
  then show ?thesis using round_even_bounds [of x] round_even_bounds [of y] by linarith
qed

section \<open>Powers of two and the binade of a value\<close>

lemma pow2_pos [simp]: "0 < pow2 e"
  by (simp add: pow2_def)

lemma pow2_nonzero [simp]: "pow2 e \<noteq> 0"
  using pow2_pos [of e] by linarith

lemma pow2_powi: "pow2 e = 2 powi e"
  by (simp add: pow2_def power_int_def inverse_eq_divide power_one_over)

lemma pow2_add: "pow2 (a + b) = pow2 a * pow2 b"
  by (simp add: pow2_powi power_int_add)

lemma pow2_mono: "a \<le> b \<Longrightarrow> pow2 a \<le> pow2 b"
  by (simp add: pow2_powi power_int_increasing)

lemma pow2_int: "0 \<le> e \<Longrightarrow> pow2 e = of_int (2 ^ nat e)"
  by (simp add: pow2_def)

lemma bitlen_rat:
  assumes "0 < n"
  shows "pow2 (bitlen n - 1) \<le> of_int n" and "of_int n + 1 \<le> pow2 (bitlen n)"
proof -
  have pos: "0 < bitlen n" using assms bitlen_nonneg [of n] bitlen_eq_zero_iff [of n] by linarith
  have "(of_int (2 ^ nat (bitlen n - 1)) :: rat) \<le> of_int n"
    using bitlen_bounds [OF assms] by (simp only: of_int_le_iff)
  then show "pow2 (bitlen n - 1) \<le> of_int n" using pos by (simp add: pow2_def)
  have "n + 1 \<le> 2 ^ nat (bitlen n)" using bitlen_bounds [OF assms] by linarith
  then have "(of_int (n + 1) :: rat) \<le> of_int (2 ^ nat (bitlen n))" by (simp only: of_int_le_iff)
  then show "of_int n + 1 \<le> pow2 (bitlen n)" using pos by (simp add: pow2_def)
qed

lemma pow2_minus: "pow2 (- e) = 1 / pow2 e"
  by (simp add: pow2_powi power_int_minus inverse_eq_divide)

lemma ilog2_bounds_ge1:
  assumes "1 \<le> x"
  shows "pow2 (ilog2 x) \<le> x" and "x < pow2 (ilog2 x + 1)"
proof -
  have n: "0 < \<lfloor>x\<rfloor>" using assms by simp
  have "of_int \<lfloor>x\<rfloor> \<le> x" and "x < of_int \<lfloor>x\<rfloor> + 1" by linarith+
  moreover have "ilog2 x = bitlen \<lfloor>x\<rfloor> - 1" using assms by (simp add: ilog2_def)
  ultimately show "pow2 (ilog2 x) \<le> x" and "x < pow2 (ilog2 x + 1)"
    using bitlen_rat [OF n] by (auto intro: order_trans)
qed

lemma ilog2_bounds_lt1:
  assumes "0 < x" and "x < 1"
  shows "pow2 (ilog2 x) \<le> x" and "x < pow2 (ilog2 x + 1)"
proof -
  define n where "n = \<lceil>1 / x\<rceil> - 1"
  have "1 < 1 / x" using assms by simp
  then have n: "0 < n" unfolding n_def by linarith
  have x: "of_int n < 1 / x" "1 / x \<le> of_int n + 1" unfolding n_def by linarith+
  have e: "ilog2 x = - bitlen n" using assms by (simp add: ilog2_def n_def)
  have "1 / x \<le> pow2 (bitlen n)" using x(2) bitlen_rat(2) [OF n] by linarith
  then show "pow2 (ilog2 x) \<le> x" using assms by (simp add: e pow2_minus divide_simps mult.commute)
  have "pow2 (bitlen n - 1) < 1 / x" using x(1) bitlen_rat(1) [OF n] by linarith
  then have "x < 1 / pow2 (bitlen n - 1)"
    using assms by (simp add: pos_less_divide_eq pos_divide_less_eq mult.commute)
  then show "x < pow2 (ilog2 x + 1)"
    using pow2_minus [of "bitlen n - 1"] by (simp add: e)
qed

lemma ilog2_bounds:
  assumes "0 < x"
  shows "pow2 (ilog2 x) \<le> x" and "x < pow2 (ilog2 x + 1)"
  using ilog2_bounds_ge1 [of x] ilog2_bounds_lt1 [of x] assms by (cases "1 \<le> x"; simp)+

lemma ilog2_mono: "0 < x \<Longrightarrow> x \<le> y \<Longrightarrow> ilog2 x \<le> ilog2 y"
proof (rule ccontr)
  assume "0 < x" "x \<le> y" "\<not> ilog2 x \<le> ilog2 y"
  then have "pow2 (ilog2 y + 1) \<le> pow2 (ilog2 x)" by (intro pow2_mono) simp
  with ilog2_bounds [of x] ilog2_bounds [of y] \<open>0 < x\<close> \<open>x \<le> y\<close> show False by simp
qed

section \<open>Rounding to binary64\<close>

lemma fl_0 [simp]: "fl 0 = 0"
  by (simp add: fl_def)

lemma fl_minus: "fl (- x) = - fl x"
  by (auto simp: fl_def)

lemma fl_pos_grid:
  assumes "0 < x" and "x \<le> of_int m * pow2 (ulp_exp x)"
  shows "fl_pos x \<le> of_int m * pow2 (ulp_exp x)"
proof -
  have "x / pow2 (ulp_exp x) \<le> of_int m" using assms by (simp add: field_simps)
  then have "round_even (x / pow2 (ulp_exp x)) \<le> m"
    using round_even_mono round_even_of_int by metis
  then have "of_int (round_even (x / pow2 (ulp_exp x))) \<le> (of_int m :: rat)" by simp
  then show ?thesis by (simp add: fl_pos_def)
qed

lemma fl_pos_grid_below:
  assumes "of_int m * pow2 (ulp_exp x) \<le> x"
  shows "of_int m * pow2 (ulp_exp x) \<le> fl_pos x"
proof -
  have "of_int m \<le> x / pow2 (ulp_exp x)" using assms by (simp add: field_simps)
  then have "m \<le> round_even (x / pow2 (ulp_exp x))"
    using round_even_mono round_even_of_int by metis
  then have "of_int m \<le> (of_int (round_even (x / pow2 (ulp_exp x))) :: rat)" by simp
  then show ?thesis by (simp add: fl_pos_def)
qed

lemma fl_pos_nonneg: "0 \<le> x \<Longrightarrow> 0 \<le> fl_pos x"
  using fl_pos_grid_below [of 0 x] by simp

lemma fl_pos_upper:
  assumes "0 < x" and "ulp_exp x \<le> e" and "x \<le> pow2 e"
  shows "fl_pos x \<le> pow2 e"
proof -
  have "pow2 e = of_int (2 ^ nat (e - ulp_exp x)) * pow2 (ulp_exp x)"
    using assms(2) pow2_add [of "e - ulp_exp x" "ulp_exp x"] pow2_int [of "e - ulp_exp x"] by simp
  then show ?thesis using fl_pos_grid [OF assms(1), of "2 ^ nat (e - ulp_exp x)"] assms(3) by simp
qed

lemma fl_pos_lower:
  assumes "ulp_exp x \<le> e" and "pow2 e \<le> x"
  shows "pow2 e \<le> fl_pos x"
proof -
  have "pow2 e = of_int (2 ^ nat (e - ulp_exp x)) * pow2 (ulp_exp x)"
    using assms(1) pow2_add [of "e - ulp_exp x" "ulp_exp x"] pow2_int [of "e - ulp_exp x"] by simp
  then show ?thesis using fl_pos_grid_below [of "2 ^ nat (e - ulp_exp x)" x] assms(2) by simp
qed

lemma fl_pos_mono:
  assumes "0 < x" and "x \<le> y"
  shows "fl_pos x \<le> fl_pos y"
proof (cases "ulp_exp x = ulp_exp y")
  case True
  then have "round_even (x / pow2 (ulp_exp x)) \<le> round_even (y / pow2 (ulp_exp y))"
    using assms by (intro round_even_mono) (simp add: divide_right_mono less_imp_le)
  then have "of_int (round_even (x / pow2 (ulp_exp x))) \<le> (of_int (round_even (y / pow2 (ulp_exp y))) :: rat)"
    by simp
  then show ?thesis using True by (simp add: fl_pos_def)
next
  case False
  then have lt: "ilog2 x + 1 \<le> ilog2 y" and y: "ulp_exp y = ilog2 y - 52"
    using ilog2_mono [OF assms] by (auto simp: ulp_exp_def max_def split: if_splits)
  then have "ulp_exp x \<le> ilog2 y" using ilog2_mono [OF assms] by (auto simp: ulp_exp_def)
  moreover have "x \<le> pow2 (ilog2 y)"
    using ilog2_bounds(2) [OF assms(1)] pow2_mono [OF lt] by linarith
  ultimately have "fl_pos x \<le> pow2 (ilog2 y)" using fl_pos_upper assms(1) by blast
  also have "\<dots> \<le> fl_pos y" using fl_pos_lower [of y "ilog2 y"] ilog2_bounds(1) [of y] assms y by simp
  finally show ?thesis .
qed

lemma fl_mono: "x \<le> y \<Longrightarrow> fl x \<le> fl y"
proof -
  assume le: "x \<le> y"
  consider "0 < x" | "x \<le> 0" "0 \<le> y" | "y < 0" by linarith
  then show ?thesis
  proof cases
    case 1
    with le show ?thesis using fl_pos_mono by (simp add: fl_def)
  next
    case 2
    then show ?thesis using fl_pos_nonneg [of "- x"] fl_pos_nonneg [of y] by (auto simp: fl_def)
  next
    case 3
    with le show ?thesis using fl_pos_mono [of "- y" "- x"] by (simp add: fl_def)
  qed
qed

lemma fl_nonneg: "0 \<le> x \<Longrightarrow> 0 \<le> fl x"
  using fl_mono [of 0 x] by simp

lemma fl_nonpos: "x \<le> 0 \<Longrightarrow> fl x \<le> 0"
  using fl_mono [of x 0] by simp

lemma fl_less_imp_less: "fl x < fl y \<Longrightarrow> x < y"
  using fl_mono [of y x] by linarith

text \<open>Integers below \<open>2 ^ 53\<close> in magnitude are floats.\<close>

lemma fl_pos_of_int:
  assumes "0 < n" and "n < 2 ^ 53"
  shows "fl_pos (of_int n) = of_int n"
proof (cases "ulp_exp (of_int n) \<le> 0")
  case True
  define k where "k = ulp_exp (of_int n)"
  have "(of_int n :: rat) / pow2 k = of_int (n * 2 ^ nat (- k))"
    using True by (simp add: pow2_def k_def)
  then have "round_even (of_int n / pow2 k) = n * 2 ^ nat (- k)"
    using round_even_of_int by metis
  then show ?thesis
    using True by (simp add: fl_pos_def k_def [symmetric]) (simp add: pow2_def k_def)
next
  case False
  then have "53 \<le> ilog2 (of_int n)" by (simp add: ulp_exp_def)
  then have "pow2 53 \<le> of_int n"
    using ilog2_bounds(1) [of "of_int n"] assms(1) pow2_mono [of 53 "ilog2 (of_int n)"] by force
  then have "(of_int (2 ^ 53) :: rat) \<le> of_int n" by (simp add: pow2_def)
  then have "2 ^ 53 \<le> n" by (simp only: of_int_le_iff)
  then show ?thesis using assms(2) by simp
qed

lemma fl_of_int: "\<bar>n\<bar> < 2 ^ 53 \<Longrightarrow> fl (of_int n) = of_int n"
proof -
  assume n: "\<bar>n\<bar> < 2 ^ 53"
  consider "n = 0" | "0 < n" | "n < 0" by linarith
  then show ?thesis
  proof cases
    case 2
    with n show ?thesis by (simp add: fl_def fl_pos_of_int)
  next
    case 3
    then have "fl_pos (of_int (- n)) = of_int (- n)" using n by (intro fl_pos_of_int) auto
    with 3 show ?thesis by (simp add: fl_def)
  qed simp
qed

text \<open>Doubling a float is exact, so the midpoint of two floats lies between them.\<close>

lemma ilog2_unique: "0 < x \<Longrightarrow> pow2 e \<le> x \<Longrightarrow> x < pow2 (e + 1) \<Longrightarrow> ilog2 x = e"
proof -
  assume x: "0 < x" "pow2 e \<le> x" "x < pow2 (e + 1)"
  have "\<not> e + 1 \<le> ilog2 x" using pow2_mono [of "e + 1" "ilog2 x"] ilog2_bounds [OF x(1)] x by linarith
  moreover have "\<not> ilog2 x + 1 \<le> e" using pow2_mono [of "ilog2 x + 1" e] ilog2_bounds [OF x(1)] x by linarith
  ultimately show ?thesis by linarith
qed

lemma pow2_Suc: "pow2 (e + 1) = 2 * pow2 e"
  by (simp add: pow2_add) (simp add: pow2_def)

lemma ilog2_double: "0 < x \<Longrightarrow> ilog2 (2 * x) = ilog2 x + 1"
proof -
  assume x: "0 < x"
  have "pow2 (ilog2 x + 1) \<le> 2 * x" "2 * x < pow2 (ilog2 x + 1 + 1)"
    using ilog2_bounds [OF x] pow2_Suc [of "ilog2 x"] pow2_Suc [of "ilog2 x + 1"] by linarith+
  then show ?thesis using x by (intro ilog2_unique) auto
qed

lemma fl_pos_double:
  assumes "0 < x" and "fl_pos x = x"
  shows "fl_pos (2 * x) = 2 * x"
proof -
  let ?e = "ulp_exp x" and ?m = "round_even (x / pow2 (ulp_exp x))"
  have x: "x = of_int ?m * pow2 ?e" using assms(2) by (simp add: fl_pos_def)
  show ?thesis
  proof (cases "ulp_exp (2 * x) = ?e")
    case True
    have "2 * x / pow2 ?e = of_int (2 * ?m)" by (subst x) simp
    then have "round_even (2 * x / pow2 ?e) = 2 * ?m" by (metis round_even_of_int)
    then show ?thesis using True x by (simp add: fl_pos_def)
  next
    case False
    then have e: "ulp_exp (2 * x) = ?e + 1" using ilog2_double [OF assms(1)] by (auto simp: ulp_exp_def max_def split: if_splits)
    have "2 * x / pow2 (?e + 1) = of_int ?m" by (subst x) (simp add: pow2_Suc)
    then have "round_even (2 * x / pow2 (?e + 1)) = ?m" by (metis round_even_of_int)
    then show ?thesis using e x by (simp add: fl_pos_def pow2_Suc)
  qed
qed

lemma fl_double: "fl x = x \<Longrightarrow> fl (2 * x) = 2 * x"
proof -
  assume x: "fl x = x"
  consider "x = 0" | "0 < x" | "x < 0" by linarith
  then show ?thesis
  proof cases
    case 2
    then show ?thesis using fl_pos_double [of x] x by (simp add: fl_def)
  next
    case 3
    then show ?thesis using fl_pos_double [of "- x"] x by (simp add: fl_def)
  qed simp
qed

lemma fl_midpoint:
  assumes "fl x = x" and "fl y = y" and "x \<le> y"
  shows "x \<le> fl (fl (x + y) / 2) \<and> fl (fl (x + y) / 2) \<le> y"
proof
  have "2 * x \<le> fl (x + y)" using fl_mono [of "2 * x" "x + y"] fl_double [OF assms(1)] assms(3) by simp
  then show "x \<le> fl (fl (x + y) / 2)" using fl_mono [of x "fl (x + y) / 2"] assms(1) by simp
  have "fl (x + y) \<le> 2 * y" using fl_mono [of "x + y" "2 * y"] fl_double [OF assms(2)] assms(3) by simp
  then show "fl (fl (x + y) / 2) \<le> y" using fl_mono [of "fl (x + y) / 2" y] assms(2) by simp
qed

end
