(* ===== verification/Py_Value.thy ===== *)
theory Py_Value
  imports Py_Text Py_Float
begin

text \<open>
  Python values as \<open>json.loads\<close> produces them, with the dynamic operations the audit and summary
  programs apply to them: indexing, arithmetic, comparison, truth, \<open>sum\<close>, \<open>sorted\<close>, \<open>min\<close>, \<open>max\<close>,
  \<open>statistics.median\<close> and \<open>json.dumps(value, indent=2)\<close>.  A missing key, a value of the wrong type
  or a zero divisor is the exception Python raises.  \<open>bool\<close> is an integer in arithmetic; integers
  and floats compare exactly; float results are rounded by \<open>fl\<close>.  A dictionary is an association
  list in insertion order with distinct keys.

  Operations come in two forms: \<open>py_add\<close> and its kin on values, and \<open>addE\<close> and its kin on
  computations, which evaluate their operands from left to right.
\<close>

datatype val =
    VNone
  | VBool bool
  | VInt int
  | VFloat rat
  | VStr string
  | VList "val list"
  | VDict "(string \<times> val) list"

section \<open>Numbers, truth, equality, order\<close>

fun as_int :: "val \<Rightarrow> int option" where
  "as_int (VInt n) = Some n"
| "as_int (VBool b) = Some (if b then 1 else 0)"
| "as_int _ = None"

fun as_rat :: "val \<Rightarrow> rat option" where
  "as_rat (VInt n) = Some (of_int n)"
| "as_rat (VBool b) = Some (if b then 1 else 0)"
| "as_rat (VFloat x) = Some x"
| "as_rat _ = None"

definition to_float :: "val \<Rightarrow> rat option" where
  "to_float v = (case v of VFloat x \<Rightarrow> Some x | _ \<Rightarrow> map_option (\<lambda>n. fl (of_int n)) (as_int v))"

fun truthy :: "val \<Rightarrow> bool" where
  "truthy VNone = False"
| "truthy (VBool b) = b"
| "truthy (VInt n) = (n \<noteq> 0)"
| "truthy (VFloat x) = (x \<noteq> 0)"
| "truthy (VStr s) = (s \<noteq> [])"
| "truthy (VList xs) = (xs \<noteq> [])"
| "truthy (VDict d) = (d \<noteq> [])"

fun py_eq :: "val \<Rightarrow> val \<Rightarrow> bool"
  and py_eq_list :: "val list \<Rightarrow> val list \<Rightarrow> bool"
  and py_eq_dict :: "(string \<times> val) list \<Rightarrow> (string \<times> val) list \<Rightarrow> bool" where
  "py_eq (VList xs) w = (case w of VList ys \<Rightarrow> py_eq_list xs ys | _ \<Rightarrow> False)"
| "py_eq (VDict d) w = (case w of VDict e \<Rightarrow> length d = length e \<and> py_eq_dict d e | _ \<Rightarrow> False)"
| "py_eq VNone w = (w = VNone)"
| "py_eq (VStr s) w = (w = VStr s)"
| "py_eq (VBool b) w = (as_rat w = Some (if b then 1 else 0))"
| "py_eq (VInt n) w = (as_rat w = Some (of_int n))"
| "py_eq (VFloat x) w = (as_rat w = Some x)"
| "py_eq_list [] ys = (ys = [])"
| "py_eq_list (x # xs) ys = (case ys of [] \<Rightarrow> False | y # ys' \<Rightarrow> py_eq x y \<and> py_eq_list xs ys')"
| "py_eq_dict [] e = True"
| "py_eq_dict ((k, v) # d) e =
     ((case map_of e k of None \<Rightarrow> False | Some w \<Rightarrow> py_eq v w) \<and> py_eq_dict d e)"

definition py_lt :: "val \<Rightarrow> val \<Rightarrow> bool res" where
  "py_lt v w =
     (case (as_rat v, as_rat w) of
        (Some x, Some y) \<Rightarrow> Inr (x < y)
      | _ \<Rightarrow> (case (v, w) of (VStr s, VStr t) \<Rightarrow> Inr (s < t) | _ \<Rightarrow> Inl TypeError))"

definition py_le :: "val \<Rightarrow> val \<Rightarrow> bool res" where
  "py_le v w =
     (case (as_rat v, as_rat w) of
        (Some x, Some y) \<Rightarrow> Inr (x \<le> y)
      | _ \<Rightarrow> (case (v, w) of (VStr s, VStr t) \<Rightarrow> Inr (s \<le> t) | _ \<Rightarrow> Inl TypeError))"

section \<open>Arithmetic\<close>

definition num_op :: "(int \<Rightarrow> int \<Rightarrow> int) \<Rightarrow> (rat \<Rightarrow> rat \<Rightarrow> rat) \<Rightarrow> val \<Rightarrow> val \<Rightarrow> val res" where
  "num_op f g v w =
     (case (as_int v, as_int w) of
        (Some m, Some n) \<Rightarrow> Inr (VInt (f m n))
      | _ \<Rightarrow> (case (to_float v, to_float w) of
                (Some x, Some y) \<Rightarrow> Inr (VFloat (fl (g x y)))
              | _ \<Rightarrow> Inl TypeError))"

definition py_add :: "val \<Rightarrow> val \<Rightarrow> val res" where
  "py_add v w =
     (case (v, w) of
        (VStr s, VStr t) \<Rightarrow> Inr (VStr (s @ t))
      | (VList xs, VList ys) \<Rightarrow> Inr (VList (xs @ ys))
      | _ \<Rightarrow> num_op (+) (+) v w)"

definition py_sub :: "val \<Rightarrow> val \<Rightarrow> val res" where
  "py_sub = num_op (-) (-)"

definition py_mul :: "val \<Rightarrow> val \<Rightarrow> val res" where
  "py_mul = num_op (*) (*)"

definition py_truediv :: "val \<Rightarrow> val \<Rightarrow> val res" where
  "py_truediv v w =
     (case (as_rat v, as_rat w) of
        (Some x, Some y) \<Rightarrow>
          if y = 0 then Inl ZeroDivisionError
          else (case (as_int v, as_int w) of
                  (Some m, Some n) \<Rightarrow> Inr (VFloat (fl (of_int m / of_int n)))
                | _ \<Rightarrow> (case (to_float v, to_float w) of
                          (Some a, Some b) \<Rightarrow> Inr (VFloat (fl (a / b)))
                        | _ \<Rightarrow> Inl TypeError))
      | _ \<Rightarrow> Inl TypeError)"

definition py_floordiv :: "val \<Rightarrow> val \<Rightarrow> val res" where
  "py_floordiv v w =
     (case (as_int v, as_int w) of
        (Some m, Some n) \<Rightarrow> if n = 0 then Inl ZeroDivisionError else Inr (VInt (m div n))
      | _ \<Rightarrow> Inl TypeError)"

definition py_abs :: "val \<Rightarrow> val res" where
  "py_abs v =
     (case v of VFloat x \<Rightarrow> Inr (VFloat \<bar>x\<bar>)
      | _ \<Rightarrow> (case as_int v of Some n \<Rightarrow> Inr (VInt \<bar>n\<bar>) | None \<Rightarrow> Inl TypeError))"

section \<open>Containers\<close>

fun idx :: "val \<Rightarrow> string \<Rightarrow> val res" where
  "idx (VDict d) k = of_option (KeyError k) (map_of d k)"
| "idx _ k = Inl TypeError"

fun get_dflt :: "val \<Rightarrow> string \<Rightarrow> val \<Rightarrow> val res" where
  "get_dflt (VDict d) k v = Inr (dict_get v k d)"
| "get_dflt _ k v = Inl (AttributeError ''get'')"

fun contains_key :: "val \<Rightarrow> string \<Rightarrow> bool res" where
  "contains_key (VDict d) k = Inr (map_of d k \<noteq> None)"
| "contains_key (VList xs) k = Inr (\<exists>x \<in> set xs. py_eq (VStr k) x)"
| "contains_key (VStr s) k = Inr (is_infix k s)"
| "contains_key _ k = Inl TypeError"

text \<open>\<open>xs[i]\<close> with Python's negative indices.\<close>

fun nth_val :: "val \<Rightarrow> int \<Rightarrow> val res" where
  "nth_val (VList xs) i =
     (let n = int (length xs); j = (if i < 0 then n + i else i)
      in if 0 \<le> j \<and> j < n then Inr (xs ! nat j) else Inl IndexError)"
| "nth_val _ i = Inl TypeError"

fun elems :: "val \<Rightarrow> val list res" where
  "elems (VList xs) = Inr xs"
| "elems (VDict d) = Inr (map (VStr \<circ> fst) d)"
| "elems (VStr s) = Inr (map (\<lambda>c. VStr [c]) s)"
| "elems _ = Inl TypeError"

fun items :: "val \<Rightarrow> (string \<times> val) list res" where
  "items (VDict d) = Inr d"
| "items _ = Inl (AttributeError ''items'')"

definition dict_values :: "val \<Rightarrow> val list res" where
  "dict_values v = bindE (items v) (\<lambda>d. Inr (map snd d))"

definition py_len :: "val \<Rightarrow> int res" where
  "py_len v = (case v of VList xs \<Rightarrow> Inr (int (length xs)) | VDict d \<Rightarrow> Inr (int (length d))
     | VStr s \<Rightarrow> Inr (int (length s)) | _ \<Rightarrow> Inl TypeError)"

fun str_val :: "val \<Rightarrow> string res" where
  "str_val (VStr s) = Inr s"
| "str_val _ = Inl TypeError"

text \<open>\<open>sum(xs)\<close>: left to right from 0.\<close>

definition py_sum :: "val list \<Rightarrow> val res" where
  "py_sum xs = foldE (\<lambda>x s. py_add s x) xs (VInt 0)"

text \<open>\<open>max\<close> and \<open>min\<close> keep the first of equal elements and raise on an empty argument.\<close>

definition py_max :: "val list \<Rightarrow> val res" where
  "py_max xs = (case xs of [] \<Rightarrow> Inl (ValueError ''max() arg is an empty sequence'')
     | x # r \<Rightarrow> foldE (\<lambda>y m. bindE (py_lt m y) (\<lambda>b. Inr (if b then y else m))) r x)"

definition py_min :: "val list \<Rightarrow> val res" where
  "py_min xs = (case xs of [] \<Rightarrow> Inl (ValueError ''min() arg is an empty sequence'')
     | x # r \<Rightarrow> foldE (\<lambda>y m. bindE (py_lt y m) (\<lambda>b. Inr (if b then y else m))) r x)"

definition py_sorted :: "val list \<Rightarrow> val list res" where
  "py_sorted xs =
     (if list_all (\<lambda>x. as_rat x \<noteq> None) xs then Inr (sort_key (\<lambda>x. the (as_rat x)) xs)
      else if list_all (\<lambda>x. case x of VStr _ \<Rightarrow> True | _ \<Rightarrow> False) xs
      then Inr (sort_key (\<lambda>x. case x of VStr s \<Rightarrow> s | _ \<Rightarrow> []) xs)
      else if length xs \<le> 1 then Inr xs else Inl TypeError)"

text \<open>\<open>statistics.median\<close>: the middle value, or half the sum of the two middle values.\<close>

definition median :: "val list \<Rightarrow> val res" where
  "median xs =
     bindE (py_sorted xs) (\<lambda>ys.
       let n = length ys; i = n div 2 in
       if n = 0 then Inl (ValueError ''no median for empty data'')
       else if odd n then Inr (ys ! i)
       else bindE (py_add (ys ! (i - 1)) (ys ! i)) (\<lambda>s. py_truediv s (VInt 2)))"

section \<open>Operations on computations\<close>

definition idxE :: "val res \<Rightarrow> string \<Rightarrow> val res" where
  "idxE m k = bindE m (\<lambda>v. idx v k)"

text \<open>\<open>v[k1][k2]...\<close>\<close>

fun path :: "val \<Rightarrow> string list \<Rightarrow> val res" where
  "path v [] = Inr v"
| "path v (k # ks) = bindE (idx v k) (\<lambda>w. path w ks)"

definition lift2 :: "('a \<Rightarrow> 'b \<Rightarrow> 'c res) \<Rightarrow> 'a res \<Rightarrow> 'b res \<Rightarrow> 'c res" where
  "lift2 f a b = bindE a (\<lambda>x. bindE b (\<lambda>y. f x y))"

definition addE :: "val res \<Rightarrow> val res \<Rightarrow> val res" where "addE = lift2 py_add"
definition subE :: "val res \<Rightarrow> val res \<Rightarrow> val res" where "subE = lift2 py_sub"
definition mulE :: "val res \<Rightarrow> val res \<Rightarrow> val res" where "mulE = lift2 py_mul"
definition divE :: "val res \<Rightarrow> val res \<Rightarrow> val res" where "divE = lift2 py_truediv"
definition ltE :: "val res \<Rightarrow> val res \<Rightarrow> bool res" where "ltE = lift2 py_lt"
definition leE :: "val res \<Rightarrow> val res \<Rightarrow> bool res" where "leE = lift2 py_le"
definition eqE :: "val res \<Rightarrow> val res \<Rightarrow> bool res" where
  "eqE = lift2 (\<lambda>v w. Inr (py_eq v w))"
definition neE :: "val res \<Rightarrow> val res \<Rightarrow> bool res" where
  "neE = lift2 (\<lambda>v w. Inr (\<not> py_eq v w))"
definition truthE :: "val res \<Rightarrow> bool res" where
  "truthE m = bindE m (\<lambda>v. Inr (truthy v))"
definition notE :: "bool res \<Rightarrow> bool res" where
  "notE m = bindE m (\<lambda>b. Inr (\<not> b))"

text \<open>\<open>a and b\<close>, \<open>a or b\<close> on conditions: the right operand runs only when the left one asks for it.\<close>

definition andE :: "bool res \<Rightarrow> bool res \<Rightarrow> bool res" where
  "andE a b = bindE a (\<lambda>x. if x then b else Inr False)"
definition orE :: "bool res \<Rightarrow> bool res \<Rightarrow> bool res" where
  "orE a b = bindE a (\<lambda>x. if x then Inr True else b)"

definition assertE :: "bool res \<Rightarrow> unit res" where
  "assertE m = bindE m (\<lambda>b. ensure b (AssertionError []))"

definition sumE :: "val list res \<Rightarrow> val res" where
  "sumE m = bindE m py_sum"

text \<open>\<open>sum((v or {}).values())\<close>, the total of an optional counter dictionary.\<close>

definition or_empty :: "val \<Rightarrow> val" where
  "or_empty v = (if truthy v then v else VDict [])"

definition sum_values :: "val res \<Rightarrow> val res" where
  "sum_values m = bindE m (\<lambda>v. bindE (dict_values (or_empty v)) py_sum)"

section \<open>Literals, records and loops over values\<close>

definition pI :: "int \<Rightarrow> val res" where "pI n = Inr (VInt n)"
definition pF :: "rat \<Rightarrow> val res" where "pF x = Inr (VFloat (fl x))"
definition pS :: "string \<Rightarrow> val res" where "pS s = Inr (VStr s)"
definition pB :: "bool res \<Rightarrow> val res" where "pB m = bindE m (\<lambda>b. Inr (VBool b))"
definition gtE :: "val res \<Rightarrow> val res \<Rightarrow> bool res" where "gtE = lift2 (\<lambda>v w. py_lt w v)"
definition geE :: "val res \<Rightarrow> val res \<Rightarrow> bool res" where "geE = lift2 (\<lambda>v w. py_le w v)"
definition getE :: "val \<Rightarrow> string \<Rightarrow> val res" where "getE v k = get_dflt v k VNone"
definition inE :: "string \<Rightarrow> val \<Rightarrow> bool res" where "inE k v = contains_key v k"

text \<open>\<open>a if c else b\<close>\<close>

definition ifE :: "bool res \<Rightarrow> 'a res \<Rightarrow> 'a res \<Rightarrow> 'a res" where
  "ifE c a b = bindE c (\<lambda>x. if x then a else b)"

definition is_none :: "val \<Rightarrow> bool" where
  "is_none v \<longleftrightarrow> v = VNone"

text \<open>\<open>{k1: e1, k2: e2, ...}\<close> and a sequence of assignments \<open>row[k] = e\<close>, evaluated in order.\<close>

fun fieldsE :: "(string \<times> val res) list \<Rightarrow> (string \<times> val) list \<Rightarrow> (string \<times> val) list res" where
  "fieldsE [] row = Inr row"
| "fieldsE ((k, m) # fs) row = bindE m (\<lambda>v. fieldsE fs (dict_set k v row))"

definition dictE :: "(string \<times> val res) list \<Rightarrow> val res" where
  "dictE fs = bindE (fieldsE fs []) (\<lambda>row. Inr (VDict row))"

text \<open>\<open>[f(x) for x in v]\<close>, \<open>[x for x in v if p(x)]\<close>, \<open>sum\<close>, \<open>max\<close> and \<open>min\<close> of such a list.\<close>

definition collectE :: "val res \<Rightarrow> (val \<Rightarrow> 'a res) \<Rightarrow> 'a list res" where
  "collectE m f = bindE (bindE m elems) (mapE f)"

definition selectE :: "val res \<Rightarrow> (val \<Rightarrow> bool res) \<Rightarrow> val list res" where
  "selectE m p = bindE (bindE m elems) (filterE p)"

definition maxE :: "val list res \<Rightarrow> val res" where "maxE m = bindE m py_max"
definition minE :: "val list res \<Rightarrow> val res" where "minE m = bindE m py_min"
definition medianE :: "val list res \<Rightarrow> val res" where "medianE m = bindE m median"

definition listE :: "val list res \<Rightarrow> val res" where
  "listE m = bindE m (\<lambda>xs. Inr (VList xs))"

text \<open>\<open>all(p(x) for x in xs)\<close> and \<open>any(p(x) for x in xs)\<close> stop at the first decisive element.\<close>

fun allE :: "('a \<Rightarrow> bool res) \<Rightarrow> 'a list \<Rightarrow> bool res" where
  "allE p [] = Inr True"
| "allE p (x # xs) = andE (p x) (allE p xs)"

fun anyE :: "('a \<Rightarrow> bool res) \<Rightarrow> 'a list \<Rightarrow> bool res" where
  "anyE p [] = Inr False"
| "anyE p (x # xs) = orE (p x) (anyE p xs)"

text \<open>Dictionaries whose keys are values: keys compare as Python values and must be hashable.\<close>

fun hashable :: "val \<Rightarrow> bool" where
  "hashable (VList _) = False"
| "hashable (VDict _) = False"
| "hashable _ = True"

fun kdict_put :: "val \<Rightarrow> 'a \<Rightarrow> (val \<times> 'a) list \<Rightarrow> (val \<times> 'a) list" where
  "kdict_put k v [] = [(k, v)]"
| "kdict_put k v ((k', v') # d) = (if py_eq k k' then (k', v) # d else (k', v') # kdict_put k v d)"

definition kdict_set :: "val \<Rightarrow> 'a \<Rightarrow> (val \<times> 'a) list \<Rightarrow> (val \<times> 'a) list res" where
  "kdict_set k v d = (if hashable k then Inr (kdict_put k v d) else Inl TypeError)"

fun kdict_get :: "val \<Rightarrow> (val \<times> 'a) list \<Rightarrow> 'a option" where
  "kdict_get k [] = None"
| "kdict_get k ((k', v') # d) = (if py_eq k k' then Some v' else kdict_get k d)"

section \<open>json.dumps with indent 2\<close>

definition hex_char :: "int \<Rightarrow> char" where
  "hex_char n = (if n < 10 then char_of (48 + n) else char_of (87 + n))"

definition json_char :: "char \<Rightarrow> string" where
  "json_char c =
     (let n = char_code c; bs = CHR 0x5C in
      if n = 34 then [bs, c] else if n = 92 then [bs, c]
      else if n = 10 then [bs, CHR ''n''] else if n = 13 then [bs, CHR ''r'']
      else if n = 9 then [bs, CHR ''t''] else if n = 12 then [bs, CHR ''f'']
      else if n = 8 then [bs, CHR ''b'']
      else if 32 \<le> n \<and> n \<le> 126 then [c]
      else [bs, CHR ''u'', CHR ''0'', CHR ''0'', hex_char (n div 16), hex_char (n mod 16)])"

definition json_string :: "string \<Rightarrow> string" where
  "json_string s = [CHR 0x22] @ concat (map json_char s) @ [CHR 0x22]"

definition json_indent :: "nat \<Rightarrow> string" where
  "json_indent i = newline # replicate (2 * i) (CHR '' '')"

text \<open>\<open>fr\<close> prints a float as \<open>float.__repr__\<close> does; none of the deployment files holds one.\<close>

fun dumps :: "(rat \<Rightarrow> string) \<Rightarrow> nat \<Rightarrow> val \<Rightarrow> string"
  and dumps_list :: "(rat \<Rightarrow> string) \<Rightarrow> nat \<Rightarrow> val list \<Rightarrow> string list"
  and dumps_dict :: "(rat \<Rightarrow> string) \<Rightarrow> nat \<Rightarrow> (string \<times> val) list \<Rightarrow> string list" where
  "dumps fr i VNone = ''null''"
| "dumps fr i (VBool b) = (if b then ''true'' else ''false'')"
| "dumps fr i (VInt n) = str_of_int n"
| "dumps fr i (VFloat x) = fr x"
| "dumps fr i (VStr s) = json_string s"
| "dumps fr i (VList xs) =
     (if xs = [] then ''[]''
      else ''['' @ json_indent (Suc i) @ join ('','' @ json_indent (Suc i)) (dumps_list fr (Suc i) xs)
             @ json_indent i @ '']'')"
| "dumps fr i (VDict d) =
     (if d = [] then ''{}''
      else ''{'' @ json_indent (Suc i) @ join ('','' @ json_indent (Suc i)) (dumps_dict fr (Suc i) d)
             @ json_indent i @ ''}'')"
| "dumps_list fr i [] = []"
| "dumps_list fr i (x # xs) = dumps fr i x # dumps_list fr i xs"
| "dumps_dict fr i [] = []"
| "dumps_dict fr i ((k, v) # d) = (json_string k @ '': '' @ dumps fr i v) # dumps_dict fr i d"

definition json_dumps :: "(rat \<Rightarrow> string) \<Rightarrow> val \<Rightarrow> string" where
  "json_dumps fr v = dumps fr 0 v"

section \<open>Laws\<close>

lemma py_add_int [simp]: "py_add (VInt a) (VInt b) = Inr (VInt (a + b))"
  by (simp add: py_add_def num_op_def)

lemma py_sub_int [simp]: "py_sub (VInt a) (VInt b) = Inr (VInt (a - b))"
  by (simp add: py_sub_def num_op_def)

lemma py_mul_int [simp]: "py_mul (VInt a) (VInt b) = Inr (VInt (a * b))"
  by (simp add: py_mul_def num_op_def)

lemma py_truediv_int [simp]:
  "py_truediv (VInt a) (VInt b) =
     (if b = 0 then Inl ZeroDivisionError else Inr (VFloat (fl (of_int a / of_int b))))"
  by (simp add: py_truediv_def)

lemma py_lt_int [simp]: "py_lt (VInt a) (VInt b) = Inr (a < b)"
  by (simp add: py_lt_def)

lemma py_le_int [simp]: "py_le (VInt a) (VInt b) = Inr (a \<le> b)"
  by (simp add: py_le_def)

lemma py_eq_int [simp]: "py_eq (VInt a) (VInt b) \<longleftrightarrow> a = b"
  by auto

lemma lift2_eq_Inr [py_ok]: "lift2 f a b = Inr z \<longleftrightarrow> (\<exists>x y. a = Inr x \<and> b = Inr y \<and> f x y = Inr z)"
  by (auto simp: lift2_def bindE_eq_Inr)

lemma lift2_Inr [simp]: "lift2 f (Inr x) (Inr y) = f x y"
  by (simp add: lift2_def)

lemmas liftE_defs = addE_def subE_def mulE_def divE_def ltE_def leE_def eqE_def neE_def gtE_def geE_def

lemma assertE_eq_Inr [py_ok]: "assertE m = Inr u \<longleftrightarrow> m = Inr True"
  by (auto simp: assertE_def bindE_eq_Inr ensure_eq_Inr)

lemma eqE_True: "eqE a b = Inr True \<longleftrightarrow> (\<exists>x y. a = Inr x \<and> b = Inr y \<and> py_eq x y)"
  by (auto simp: eqE_def lift2_eq_Inr)

lemma py_sum_ints: "py_sum (map VInt ns) = Inr (VInt (sum_list ns))"
proof -
  have "foldE (\<lambda>x s. py_add s x) (map VInt ns) (VInt m) = Inr (VInt (m + sum_list ns))" for m
    by (induction ns arbitrary: m) simp_all
  then show ?thesis by (simp add: py_sum_def)
qed

lemma py_eq_VInt: "py_eq (VInt n) w \<longleftrightarrow> as_rat w = Some (of_int n)"
  by simp

lemmas literal_defs = pI_def pF_def pS_def pB_def getE_def inE_def

lemma ifE_eq_Inr [py_ok]: "ifE c a b = Inr v \<longleftrightarrow> (\<exists>x. c = Inr x \<and> (if x then a else b) = Inr v)"
  by (simp add: ifE_def bindE_eq_Inr)

lemma ifE_simps [simp]: "ifE (Inr True) a b = a" "ifE (Inr False) a b = b" "ifE (Inl e) a b = Inl e"
  by (simp_all add: ifE_def)

lemma andE_True [py_ok]: "andE a b = Inr True \<longleftrightarrow> a = Inr True \<and> b = Inr True"
  by (auto simp: andE_def bindE_eq_Inr split: if_splits)

lemma orE_False [py_ok]: "orE a b = Inr False \<longleftrightarrow> a = Inr False \<and> b = Inr False"
  by (auto simp: orE_def bindE_eq_Inr split: if_splits)

lemma notE_eq [py_ok]: "notE m = Inr b \<longleftrightarrow> m = Inr (\<not> b)"
  by (auto simp: notE_def bindE_eq_Inr)

lemma allE_True [py_ok]: "allE p xs = Inr True \<longleftrightarrow> (\<forall>x \<in> set xs. p x = Inr True)"
  by (induction xs) (auto simp: andE_True)

lemma anyE_False [py_ok]: "anyE p xs = Inr False \<longleftrightarrow> (\<forall>x \<in> set xs. p x = Inr False)"
  by (induction xs) (auto simp: orE_False)

lemma fieldsE_append: "fieldsE (fs @ gs) row = bindE (fieldsE fs row) (fieldsE gs)"
proof (induction fs row rule: fieldsE.induct)
  case (2 k m fs row)
  then show ?case by (cases m) simp_all
qed simp

lemma fieldsE_other:
  assumes "fieldsE fs row = Inr row'" and "k \<notin> fst ` set fs"
  shows "map_of row' k = map_of row k"
  using assms
proof (induction fs row rule: fieldsE.induct)
  case (2 k' m fs row)
  then show ?case by (auto simp: bindE_eq_Inr map_of_dict_set)
qed simp

lemma fieldsE_field:
  assumes "fieldsE fs row = Inr row'" and "(k, m) \<in> set fs" and "distinct (map fst fs)"
  shows "\<exists>v. m = Inr v \<and> map_of row' k = Some v"
  using assms
proof (induction fs row rule: fieldsE.induct)
  case (2 k' m' fs row)
  then show ?case
    using fieldsE_other [of fs _ row' k'] by (auto simp: bindE_eq_Inr map_of_dict_set image_iff)
qed simp

lemma dictE_field:
  assumes "dictE fs = Inr d" and "(k, m) \<in> set fs" and "distinct (map fst fs)"
  shows "m = idx d k \<and> returns m"
  using assms fieldsE_field [of fs "[]" _ k m] by (fastforce simp: dictE_def bindE_eq_Inr)

section \<open>Statistics of floats\<close>

lemma py_min_floats: "py_min (map VFloat (r # rs)) = Inr (VFloat (fold min rs r))"
proof -
  have "foldE (\<lambda>y m. bindE (py_lt y m) (\<lambda>b. Inr (if b then y else m))) (map VFloat rs) (VFloat r) = Inr (VFloat (fold min rs r))"
  proof (induction rs arbitrary: r)
    case (Cons a rs)
    have "(if a < r then VFloat a else VFloat r) = VFloat (min a r)" by (simp add: min_def)
    then show ?case using Cons by (simp add: py_lt_def)
  qed simp
  then show ?thesis by (simp add: py_min_def)
qed

lemma py_max_floats: "py_max (map VFloat (r # rs)) = Inr (VFloat (fold max rs r))"
proof -
  have "foldE (\<lambda>y m. bindE (py_lt m y) (\<lambda>b. Inr (if b then y else m))) (map VFloat rs) (VFloat r) = Inr (VFloat (fold max rs r))"
  proof (induction rs arbitrary: r)
    case (Cons a rs)
    have "(if r < a then VFloat a else VFloat r) = VFloat (max a r)" by (simp add: max_def)
    then show ?case using Cons by (simp add: py_lt_def)
  qed simp
  then show ?thesis by (simp add: py_max_def)
qed

lemma fold_min_le: "y \<in> set (r # rs) \<Longrightarrow> fold min rs (r :: 'a :: linorder) \<le> y"
  using Min.set_eq_fold [of r rs] Min_le [of "set (r # rs)" y] by simp

lemma fold_max_ge: "y \<in> set (r # rs) \<Longrightarrow> y \<le> fold max rs (r :: 'a :: linorder)"
  using Max.set_eq_fold [of r rs] Max_ge [of "set (r # rs)" y] by simp

lemma py_sorted_floats: "py_sorted (map VFloat rs) = Inr (map VFloat (sort rs))"
proof -
  have "sort_key (\<lambda>x. the (as_rat x)) (map VFloat rs) = map VFloat (sort rs)"
  proof -
    have insort: "insort_key (\<lambda>x. the (as_rat x)) (VFloat a) (map VFloat xs) = map VFloat (insort a xs)" for a xs
      by (induction xs) auto
    show ?thesis by (induction rs) (simp_all add: insort)
  qed
  then show ?thesis by (simp add: py_sorted_def list_all_iff)
qed

lemma median_floats_between:
  assumes "rs \<noteq> []" and "\<forall>r \<in> set rs. fl r = r"
  obtains m a b where "median (map VFloat rs) = Inr (VFloat m)" and "a \<in> set rs" and "b \<in> set rs" and "a \<le> m" and "m \<le> b"
proof -
  define ys where "ys = sort rs"
  have ys: "set ys = set rs" "length ys = length rs" "sorted ys" by (simp_all add: ys_def)
  let ?n = "length ys"
  have n: "0 < ?n" using assms(1) ys(2) by simp
  show ?thesis
  proof (cases "odd ?n")
    case True
    have i: "?n div 2 < ?n" using n by simp
    then have "median (map VFloat rs) = Inr (VFloat (ys ! (?n div 2)))"
      using True n by (simp add: median_def py_sorted_floats Let_def flip: ys_def)
    then show ?thesis using that [of "ys ! (?n div 2)" "ys ! (?n div 2)" "ys ! (?n div 2)"] nth_mem [OF i] ys(1) by simp
  next
    case False
    let ?a = "ys ! (?n div 2 - 1)" and ?b = "ys ! (?n div 2)"
    have i: "?n div 2 < ?n" "?n div 2 - 1 < ?n" using n by linarith+
    have mem: "?a \<in> set rs" "?b \<in> set rs" using nth_mem [OF i(1)] nth_mem [OF i(2)] ys(1) by auto
    have "?a \<le> ?b" using ys(3) i by (intro sorted_nth_mono) auto
    then have "?a \<le> fl (fl (?a + ?b) / 2) \<and> fl (fl (?a + ?b) / 2) \<le> ?b"
      using mem assms(2) by (intro fl_midpoint) auto
    moreover have "fl 2 = 2" using fl_of_int [of 2] by simp
    moreover have "median (map VFloat rs) = Inr (VFloat (fl (fl (?a + ?b) / 2)))"
      using False n i \<open>fl 2 = 2\<close>
      by (simp add: median_def py_sorted_floats Let_def py_add_def num_op_def to_float_def py_truediv_def flip: ys_def)
    ultimately show ?thesis using that mem by blast
  qed
qed

end
