(* ===== verification/Py_Files.thy ===== *)
theory Py_Files
  imports Py_Text
begin

text \<open>
  The output directory of a configuration generator, and the file operations the generators apply
  to it.  An operation returns its outcome together with the directory it leaves behind, because a
  Python exception does not undo the files created before it.  Between two operations any other
  process may change the directory: \<open>env i\<close> is what happens before the \<open>i\<close>-th creation.

  \<open>exclusive_store\<close> is the contract of \<open>open(path, "x")\<close>: it creates an absent entry and refuses a
  present one, also a dangling symbolic link.  The lemmas of the locale say what a loop of exclusive
  creations does to a directory; the interpretation \<open>files\<close> discharges the contract for the model.
\<close>

datatype entry =
    File string
  | Directory
  | Symlink bool bool  \<comment> \<open>whether the target exists, and whether it is a directory\<close>

type_synonym dir = "string \<rightharpoonup> entry"

datatype outdir = Missing | Present dir | Not_A_Directory

definition entry_exists :: "entry option \<Rightarrow> bool" where
  "entry_exists e = (case e of None \<Rightarrow> False | Some (Symlink b _) \<Rightarrow> b | Some _ \<Rightarrow> True)"

definition path_exists :: "outdir \<Rightarrow> string \<Rightarrow> bool" where
  "path_exists w n = (case w of Present d \<Rightarrow> entry_exists (d n) | _ \<Rightarrow> False)"

definition create_exclusive :: "string \<Rightarrow> string \<Rightarrow> dir \<Rightarrow> dir res" where
  "create_exclusive n content d =
     (case d n of
        None \<Rightarrow> Inr (d(n \<mapsto> File content))
      | Some _ \<Rightarrow> Inl (OSError ''FileExistsError''))"

text \<open>\<open>path.mkdir(exist_ok=True)\<close> inside the output directory.\<close>

definition make_dir :: "string \<Rightarrow> dir \<Rightarrow> dir res" where
  "make_dir n d =
     (case d n of
        None \<Rightarrow> Inr (d(n \<mapsto> Directory))
      | Some Directory \<Rightarrow> Inr d
      | Some (Symlink b isdir) \<Rightarrow> if b \<and> isdir then Inr d else Inl (OSError ''FileExistsError'')
      | Some (File _) \<Rightarrow> Inl (OSError ''FileExistsError''))"

text \<open>\<open>output.mkdir(parents=True, exist_ok=True)\<close>.\<close>

fun make_output :: "outdir \<Rightarrow> dir res" where
  "make_output Missing = Inr Map.empty"
| "make_output (Present d) = Inr d"
| "make_output Not_A_Directory = Inl (OSError ''FileExistsError'')"

text \<open>One operation after another on the directory, keeping what was done before an exception.\<close>

fun run_ops :: "(nat \<Rightarrow> dir \<Rightarrow> dir) \<Rightarrow> nat \<Rightarrow> (dir \<Rightarrow> dir res) list \<Rightarrow> dir \<Rightarrow> unit res \<times> dir" where
  "run_ops env i [] d = (Inr (), d)"
| "run_ops env i (f # fs) d =
     (case f (env i d) of
        Inl e \<Rightarrow> (Inl e, env i d)
      | Inr d' \<Rightarrow> run_ops env (Suc i) fs d')"

definition create_ops :: "(string \<times> string) list \<Rightarrow> (dir \<Rightarrow> dir res) list" where
  "create_ops files = map (\<lambda>(n, content). create_exclusive n content) files"

definition no_env :: "nat \<Rightarrow> dir \<Rightarrow> dir" where
  "no_env i d = d"

text \<open>Another process may add entries but leaves the present ones alone.\<close>

definition env_adds :: "(nat \<Rightarrow> dir \<Rightarrow> dir) \<Rightarrow> bool" where
  "env_adds env \<longleftrightarrow> (\<forall>i d. d \<subseteq>\<^sub>m env i d)"

section \<open>The contract of exclusive creation\<close>

locale exclusive_store =
  fixes create :: "string \<Rightarrow> string \<Rightarrow> dir \<Rightarrow> dir res"
  assumes create_fresh: "create n c d = Inr d' \<Longrightarrow> d n = None \<and> d' = d(n \<mapsto> File c)"
    and create_taken: "d n \<noteq> None \<Longrightarrow> \<not> returns (create n c d)"
begin

lemma create_keeps: "create n c d = Inr d' \<Longrightarrow> d \<subseteq>\<^sub>m d'"
  by (auto dest!: create_fresh simp: map_le_def)

lemma run_creates_keep:
  assumes "env_adds env"
    and "run_ops env i (map (\<lambda>(n, c). create n c) files) d = (r, d')"
  shows "d \<subseteq>\<^sub>m d'"
  using assms(2)
proof (induction files arbitrary: i d)
  case Nil
  then show ?case by simp
next
  case (Cons f files)
  obtain n c where f: "f = (n, c)" by (cases f)
  have env: "d \<subseteq>\<^sub>m env i d" using assms(1) by (simp add: env_adds_def)
  show ?case
  proof (cases "create n c (env i d)")
    case (Inl e)
    with Cons.prems f env show ?thesis by simp
  next
    case (Inr d1)
    then have "d1 \<subseteq>\<^sub>m d'" using Cons f by simp
    then show ?thesis using create_keeps [OF Inr] env by (meson map_le_trans)
  qed
qed

lemma run_creates_written:
  assumes "env_adds env"
    and "run_ops env i (map (\<lambda>(n, c). create n c) files) d = (Inr u, d')"
    and "(n, c) \<in> set files"
  shows "d' n = Some (File c)"
  using assms(2,3)
proof (induction files arbitrary: i d)
  case Nil
  then show ?case by simp
next
  case (Cons f files)
  obtain m b where f: "f = (m, b)" by (cases f)
  obtain d1 where d1: "create m b (env i d) = Inr d1"
    and rest: "run_ops env (Suc i) (map (\<lambda>(n, c). create n c) files) d1 = (Inr u, d')"
    using Cons.prems(1) f by (auto split: sum.splits)
  show ?case
  proof (cases "(n, c) \<in> set files")
    case True
    then show ?thesis using Cons.IH rest by blast
  next
    case False
    then have "f = (n, c)" using Cons.prems(2) by auto
    then have "d1 n = Some (File c)" using create_fresh [OF d1] f by simp
    moreover have "d1 \<subseteq>\<^sub>m d'" using run_creates_keep [OF assms(1) rest] .
    ultimately show ?thesis by (auto simp: map_le_def dom_def)
  qed
qed

lemma run_creates_succeed:
  assumes "\<forall>n \<in> fst ` set files. d n = None" and "distinct (map fst files)"
    and progress: "\<And>n c d. d n = None \<Longrightarrow> returns (create n c d)"
  shows "fst (run_ops no_env i (map (\<lambda>(n, c). create n c) files) d) = Inr ()"
  using assms(1,2)
proof (induction files arbitrary: i d)
  case Nil
  then show ?case by simp
next
  case (Cons f files)
  obtain n c where f: "f = (n, c)" by (cases f)
  obtain d1 where d1: "create n c d = Inr d1"
    using progress [of d n c] Cons.prems(1) f by (auto simp: returns_iff)
  have "d1 = d(n \<mapsto> File c)" using create_fresh [OF d1] by simp
  then have "\<forall>m \<in> fst ` set files. d1 m = None" using Cons.prems f by auto
  moreover have "distinct (map fst files)" using Cons.prems(2) by simp
  ultimately have "fst (run_ops no_env (Suc i) (map (\<lambda>(n, c). create n c) files) d1) = Inr ()"
    by (rule Cons.IH)
  then show ?case using f d1 by (simp add: no_env_def [of i d])
qed

lemma run_creates_refused:
  assumes "(n, c) \<in> set files" and "d n \<noteq> None" and "env_adds env"
  shows "\<not> returns (fst (run_ops env i (map (\<lambda>(n, c). create n c) files) d))"
  using assms(1,2)
proof (induction files arbitrary: i d)
  case Nil
  then show ?case by simp
next
  case (Cons f files)
  obtain m b where f: "f = (m, b)" by (cases f)
  have keep: "env i d n \<noteq> None" using Cons.prems(2) assms(3) by (auto simp: env_adds_def map_le_def dom_def)
  show ?case
  proof (cases "create m b (env i d)")
    case (Inr d1)
    then have "m \<noteq> n" using create_taken [of "env i d" n b] keep by auto
    then have "(n, c) \<in> set files" using Cons.prems(1) f by simp
    moreover have "d1 n \<noteq> None" using create_fresh [OF Inr] keep by simp
    ultimately have "\<not> returns (fst (run_ops env (Suc i) (map (\<lambda>(n, c). create n c) files) d1))"
      by (rule Cons.IH)
    then show ?thesis using f Inr by simp
  qed (use f in simp)
qed

end

interpretation files: exclusive_store create_exclusive
  by unfold_locales (auto simp: create_exclusive_def split: option.splits)

lemma create_exclusive_progress: "d n = None \<Longrightarrow> returns (create_exclusive n c d)"
  by (simp add: create_exclusive_def)

lemma make_dir_keeps: "make_dir n d = Inr d' \<Longrightarrow> d \<subseteq>\<^sub>m d'"
  by (auto simp: make_dir_def map_le_def split: option.splits entry.splits if_splits)

lemma run_make_dirs_keep:
  assumes "env_adds env" and "run_ops env i (map make_dir ns) d = (r, d')"
  shows "d \<subseteq>\<^sub>m d'"
  using assms(2)
proof (induction ns arbitrary: i d)
  case (Cons n ns)
  have env: "d \<subseteq>\<^sub>m env i d" using assms(1) by (simp add: env_adds_def)
  show ?case
  proof (cases "make_dir n (env i d)")
    case (Inr d1)
    then have "d1 \<subseteq>\<^sub>m d'" using Cons by simp
    then show ?thesis using make_dir_keeps [OF Inr] env by (meson map_le_trans)
  qed (use Cons.prems env in simp)
qed simp

lemma run_ops_append:
  "run_ops env i (fs @ gs) d =
     (case run_ops env i fs d of
        (Inl e, d') \<Rightarrow> (Inl e, d')
      | (Inr _, d') \<Rightarrow> run_ops env (i + length fs) gs d')"
  by (induction fs arbitrary: i d) (auto split: sum.splits prod.splits)

end
