(* ===== verification/Connections.thy ===== *)
theory Connections
  imports Py_Ipaddress Py_Value Py_Files
begin

text \<open>
  \<open>deploy/connections.py\<close>: the generator of an optional nftables SYN budget for a direct listener.
  \<open>conn_options\<close> is the frozen dataclass \<open>Options\<close>, \<open>conn_validate\<close> its \<open>validate\<close>, \<open>conn_nft_config\<close>
  the ruleset text, \<open>conn_write_bundle\<close> the writer of the three files, \<open>conn_main\<close> the command after
  argument parsing.
\<close>

record conn_options =
  c_listen_address :: string
  c_listen_port :: int
  c_interface :: string
  c_connection_rate :: int
  c_connection_burst :: int
  c_reset_rate :: int
  c_reset_burst :: int
  c_table :: string

section \<open>Validation\<close>

definition iface_char :: "char \<Rightarrow> bool" where
  "iface_char c \<longleftrightarrow> is_alpha c \<or> is_digit c \<or> c \<in> {CHR ''_'', CHR ''.'', CHR '':'', CHR ''-''}"

definition word_char :: "char \<Rightarrow> bool" where
  "word_char c \<longleftrightarrow> is_alpha c \<or> is_digit c \<or> c = CHR ''_''"

definition valid_interface :: "string \<Rightarrow> bool" where
  "valid_interface s \<longleftrightarrow> s \<noteq> [] \<and> length s \<le> 15 \<and> list_all iface_char s"

definition valid_table :: "string \<Rightarrow> bool" where
  "valid_table s \<longleftrightarrow> s \<noteq> [] \<and> is_alpha (hd s) \<and> length (tl s) \<le> 47 \<and> list_all word_char (tl s)"

definition conn_validate :: "conn_options \<Rightarrow> unit res" where
  "conn_validate o' =
     bindE (py_ip_address (c_listen_address o')) (\<lambda>address.
     seqE (ensure (\<not> (is_unspecified address \<or> is_multicast address \<or> CHR ''%'' \<in> set (c_listen_address o')))
       (ValueError ''use an explicit unicast listener IP without a scope suffix''))
     (seqE (ensure (1 \<le> c_listen_port o' \<and> c_listen_port o' \<le> 65535)
       (ValueError ''listen port must be in 1..65535''))
     (seqE (ensure (valid_interface (c_interface o')) (ValueError ''invalid interface name''))
     (seqE (ensure (valid_table (c_table o')) (ValueError ''invalid nftables table name''))
     (forE (\<lambda>amount. ensure (1 \<le> amount \<and> amount \<le> 1000000000)
         (ValueError ''calibrated rates and bursts must be explicit positive values <= 1000000000''))
       [c_connection_rate o', c_connection_burst o', c_reset_rate o', c_reset_burst o'])))))"

section \<open>The ruleset\<close>

definition dq :: string where
  "dq = [CHR 0x22]"

definition unlines :: "string list \<Rightarrow> string" where
  "unlines ls = concat (map (\<lambda>l. l @ [newline]) ls)"

definition nft_lines :: "conn_options \<Rightarrow> string \<Rightarrow> string list" where
  "nft_lines o' family =
     [''# Generated by deploy/connections.py. SYN packets, including retries, are counted.'',
      ''# Only this explicit listener/interface is policed; existing connections pass.'',
      ''table inet '' @ c_table o' @ '' {'',
      ''    counter syn_attempts { }'',
      ''    counter syn_over_limit { }'',
      ''    counter syn_resets { }'',
      ''    counter syn_drops { }'',
      ''    chain reject_connection {'',
      ''        limit rate '' @ str_of_int (c_reset_rate o') @ ''/second burst '' @ str_of_int (c_reset_burst o')
        @ '' packets counter name syn_resets reject with tcp reset'',
      ''        counter name syn_drops drop'',
      ''    }'',
      ''    chain incoming {'',
      ''        type filter hook prerouting priority -300; policy accept;'',
      ''        iifname '' @ dq @ c_interface o' @ dq @ '' '' @ family @ '' daddr '' @ c_listen_address o'
        @ '' tcp dport '' @ str_of_int (c_listen_port o')
        @ '' tcp flags & (syn | ack) == syn counter name syn_attempts limit rate over ''
        @ str_of_int (c_connection_rate o') @ ''/second burst '' @ str_of_int (c_connection_burst o')
        @ '' packets counter name syn_over_limit jump reject_connection'',
      ''    }'',
      ''}'']"

definition conn_nft_config :: "conn_options \<Rightarrow> string res" where
  "conn_nft_config o' =
     seqE (conn_validate o')
     (bindE (py_ip_address (c_listen_address o')) (\<lambda>address.
      Inr (unlines (nft_lines o' (if ip_version address = 6 then ''ip6'' else ''ip'')))))"

section \<open>The bundle\<close>

definition conn_asdict :: "conn_options \<Rightarrow> (string \<times> val) list" where
  "conn_asdict o' =
     [(''listen_address'', VStr (c_listen_address o')),
      (''listen_port'', VInt (c_listen_port o')),
      (''interface'', VStr (c_interface o')),
      (''connection_rate'', VInt (c_connection_rate o')),
      (''connection_burst'', VInt (c_connection_burst o')),
      (''reset_rate'', VInt (c_reset_rate o')),
      (''reset_burst'', VInt (c_reset_burst o')),
      (''table'', VStr (c_table o'))]"

definition delete_table :: "string \<Rightarrow> string" where
  "delete_table t = ''delete table inet '' @ t @ [newline]"

definition conn_files :: "(rat \<Rightarrow> string) \<Rightarrow> conn_options \<Rightarrow> (string \<times> string) list res" where
  "conn_files fr o' =
     bindE (conn_nft_config o') (\<lambda>nft.
     Inr [(''connections.nft'', nft),
          (''remove-connections.nft'', delete_table (c_table o')),
          (''limits.json'', json_dumps fr (VDict (conn_asdict o')) @ [newline])])"

definition already_configured :: exn where
  "already_configured = ValueError ''output already contains a configuration; choose a new directory''"

definition conn_write_bundle ::
  "(rat \<Rightarrow> string) \<Rightarrow> (nat \<Rightarrow> dir \<Rightarrow> dir) \<Rightarrow> conn_options \<Rightarrow> outdir \<Rightarrow> unit res \<times> outdir" where
  "conn_write_bundle fr env o' w =
     (case seqE (conn_validate o') (conn_files fr o') of
        Inl e \<Rightarrow> (Inl e, w)
      | Inr files \<Rightarrow>
          if list_ex (\<lambda>f. path_exists w (fst f)) files then (Inl already_configured, w)
          else (case make_output w of
              Inl e \<Rightarrow> (Inl e, w)
            | Inr d \<Rightarrow> (case run_ops env 0 (create_ops files) d of (r, d') \<Rightarrow> (r, Present d'))))"

text \<open>\<open>main\<close> turns a \<open>ValueError\<close> or an \<open>OSError\<close> into a usage error and prints the directory otherwise.\<close>

definition conn_main ::
  "(rat \<Rightarrow> string) \<Rightarrow> (nat \<Rightarrow> dir \<Rightarrow> dir) \<Rightarrow> conn_options \<Rightarrow> string \<Rightarrow> outdir \<Rightarrow> string res \<times> outdir" where
  "conn_main fr env o' output_name w =
     (case conn_write_bundle fr env o' w of
        (Inl (ValueError m), w') \<Rightarrow> (Inl (ParserError m), w')
      | (Inl (OSError m), w') \<Rightarrow> (Inl (ParserError m), w')
      | (Inl e, w') \<Rightarrow> (Inl e, w')
      | (Inr _, w') \<Rightarrow> (Inr (''Wrote direct-listener connection policy to '' @ output_name), w'))"

section \<open>What validation guarantees\<close>

text \<open>
  The characters that structure an nftables or NGINX configuration, and texts free of them.
\<close>

definition structural :: "char \<Rightarrow> bool" where
  "structural c \<longleftrightarrow> c \<in> {newline, CHR ''{'', CHR ''}'', CHR 0x22, CHR 0x27, CHR '';'', CHR ''#'', CHR ''$''}"

definition skeleton :: "string \<Rightarrow> string" where
  "skeleton s = filter structural s"

definition plain :: "string \<Rightarrow> bool" where
  "plain s \<longleftrightarrow> (\<forall>c \<in> set s. \<not> structural c)"

lemma skeleton_append [simp]: "skeleton (s @ t) = skeleton s @ skeleton t"
  by (simp add: skeleton_def)

lemma skeleton_Nil [simp]: "skeleton [] = []"
  by (simp add: skeleton_def)

lemma skeleton_Cons:
  "structural c \<Longrightarrow> skeleton (c # s) = c # skeleton s"
  "\<not> structural c \<Longrightarrow> skeleton (c # s) = skeleton s"
  by (simp_all add: skeleton_def)

lemmas skeleton_eval = skeleton_Cons structural_def newline_def

lemma skeleton_plain [simp]: "plain s \<Longrightarrow> skeleton s = []"
  by (auto simp: plain_def skeleton_def filter_empty_conv)

lemma skeleton_unlines: "skeleton (unlines ls) = concat (map (\<lambda>l. skeleton l @ [newline]) ls)"
  by (induction ls) (simp_all add: unlines_def skeleton_Cons structural_def)

lemma structural_codes: "structural c \<Longrightarrow> char_code c \<in> {10, 123, 125, 34, 39, 59, 35, 36}"
  by (auto simp: structural_def newline_def char_code_def)

lemma iface_char_plain: "iface_char c \<Longrightarrow> \<not> structural c"
  by (auto dest!: structural_codes simp: iface_char_def is_alpha_def is_upper_def is_lower_def is_digit_def)
    (auto simp: char_code_def)

lemma addr_char_plain: "addr_char c \<Longrightarrow> \<not> structural c"
  by (auto dest!: structural_codes simp: addr_char_def is_hex_def is_digit_def) (auto simp: char_code_def)

lemma plain_interface: "valid_interface s \<Longrightarrow> plain s"
  by (auto simp: valid_interface_def plain_def list_all_iff dest: iface_char_plain)

lemma plain_table: "valid_table s \<Longrightarrow> plain s"
proof -
  assume valid: "valid_table s"
  have "iface_char c" if "c \<in> set s" for c
    using valid that by (cases s) (auto simp: valid_table_def list_all_iff word_char_def iface_char_def)
  then show ?thesis by (auto simp: plain_def dest: iface_char_plain)
qed

lemma plain_int: "plain (str_of_int i)"
proof -
  have "iface_char c" if "c \<in> set (str_of_int i)" for c
    using str_of_int_chars [OF that] by (auto simp: iface_char_def)
  then show ?thesis by (auto simp: plain_def dest: iface_char_plain)
qed

lemma plain_address: "ip_address s = Some a \<Longrightarrow> CHR ''%'' \<notin> set s \<Longrightarrow> plain s"
  by (auto simp: plain_def dest: ip_address_chars addr_char_plain)

lemmas conn_validate_simps = conn_validate_def py_ip_address_def py_ok

lemma conn_validate_ok:
  assumes "conn_validate o' = Inr u"
  shows "\<exists>a. ip_address (c_listen_address o') = Some a \<and> \<not> is_unspecified a \<and> \<not> is_multicast a"
    and "CHR ''%'' \<notin> set (c_listen_address o')"
    and "1 \<le> c_listen_port o' \<and> c_listen_port o' \<le> 65535"
    and "valid_interface (c_interface o')" and "valid_table (c_table o')"
    and "\<forall>n \<in> {c_connection_rate o', c_connection_burst o', c_reset_rate o', c_reset_burst o'}. 1 \<le> n \<and> n \<le> 1000000000"
  using assms by (auto simp: conn_validate_simps)

lemma conn_nft_config_ok:
  assumes "conn_nft_config o' = Inr t"
  shows "conn_validate o' = Inr ()" and "\<exists>f \<in> {''ip'', ''ip6''}. t = unlines (nft_lines o' f)"
  using assms by (auto simp: conn_nft_config_def py_ok)

lemma nft_lines_plain:
  assumes "conn_validate o' = Inr ()"
  shows "plain (c_table o')" "plain (c_interface o')" "plain (c_listen_address o')"
  using conn_validate_ok [OF assms] by (auto intro: plain_table plain_interface plain_address)

lemma nft_lines_skeleton:
  assumes "conn_validate o' = Inr ()" and "f \<in> {''ip'', ''ip6''}"
  shows "map skeleton (nft_lines o' f) =
    [''#'', ''#;'', ''{'', ''{}'', ''{}'', ''{}'', ''{}'', ''{'', [], [], ''}'', ''{'', '';;'', dq @ dq, ''}'', ''}'']"
proof -
  have f: "skeleton f = []" using assms(2) by (auto simp: skeleton_eval)
  show ?thesis
    using nft_lines_plain [OF assms(1)] f by (simp add: nft_lines_def plain_int dq_def skeleton_eval)
qed

section \<open>Properties\<close>

text \<open>
  C6: generated nftables text cannot be altered through an option value.  Whatever options pass
  validation, the sequence of the characters that structure the ruleset (line ends, braces, quotes,
  semicolons, comment and variable marks) is the one of the sixteen-line template.
\<close>

theorem conn_nft_config_no_injection:
  assumes "conn_nft_config o' = Inr t"
  shows "skeleton t = unlines [''#'', ''#;'', ''{'', ''{}'', ''{}'', ''{}'', ''{}'', ''{'', [], [], ''}'', ''{'',
    '';;'', dq @ dq, ''}'', ''}'']"
proof -
  obtain f where f: "f \<in> {''ip'', ''ip6''}" and t: "t = unlines (nft_lines o' f)"
    using conn_nft_config_ok(2) [OF assms] by blast
  have "skeleton t = unlines (map skeleton (nft_lines o' f))"
    unfolding t by (simp only: skeleton_unlines) (simp add: unlines_def comp_def)
  then show ?thesis by (simp only: nft_lines_skeleton [OF conn_nft_config_ok(1) [OF assms] f])
qed

definition sample_conn :: conn_options where
  "sample_conn = \<lparr>c_listen_address = ''192.0.2.7'', c_listen_port = 8080, c_interface = ''eth0'',
     c_connection_rate = 1000, c_connection_burst = 200, c_reset_rate = 50, c_reset_burst = 10,
     c_table = ''zhtps_connections''\<rparr>"

lemma sample_conn_valid: "conn_validate sample_conn = Inr ()"
  by code_simp

lemma sample_conn_config: "conn_nft_config sample_conn = Inr (unlines (nft_lines sample_conn ''ip''))"
  by code_simp

theorem conn_nft_config_no_injection_witness:
  "conn_nft_config sample_conn = Inr (unlines (nft_lines sample_conn ''ip'')) \<and>
   skeleton (unlines (nft_lines sample_conn ''ip'')) =
     unlines [''#'', ''#;'', ''{'', ''{}'', ''{}'', ''{}'', ''{}'', ''{'', [], [], ''}'', ''{'', '';;'', dq @ dq, ''}'', ''}'']"
  using conn_nft_config_no_injection [OF sample_conn_config] sample_conn_config by blast

text \<open>
  The ruleset is generated for exactly the valid options: an explicit unicast address without a
  scope suffix, a port in 1..65535, an interface and a table name of the accepted alphabet and length,
  and four budgets in 1..1000000000.  Every other input raises \<open>ValueError\<close>.
\<close>

theorem conn_nft_config_iff_valid:
  "(returns (conn_nft_config o') \<longleftrightarrow>
     (\<exists>a. ip_address (c_listen_address o') = Some a \<and> \<not> is_unspecified a \<and> \<not> is_multicast a) \<and>
     CHR ''%'' \<notin> set (c_listen_address o') \<and>
     1 \<le> c_listen_port o' \<and> c_listen_port o' \<le> 65535 \<and>
     valid_interface (c_interface o') \<and> valid_table (c_table o') \<and>
     (\<forall>n \<in> {c_connection_rate o', c_connection_burst o', c_reset_rate o', c_reset_burst o'}.
        1 \<le> n \<and> n \<le> 1000000000)) \<and>
   raises_only (\<lambda>e. \<exists>m. e = ValueError m) (conn_nft_config o')"
proof
  show "raises_only (\<lambda>e. \<exists>m. e = ValueError m) (conn_nft_config o')"
    unfolding conn_nft_config_def conn_validate_def py_ip_address_def
    by (intro raises_intro) (auto intro!: raises_intro)
qed (auto simp: returns_iff conn_nft_config_def conn_validate_simps)

theorem conn_nft_config_iff_valid_witness:
  "returns (conn_nft_config sample_conn) \<and> c_connection_rate sample_conn \<le> 1000000000 \<and>
   \<not> returns (conn_nft_config (sample_conn\<lparr>c_reset_burst := 0\<rparr>))"
proof -
  have "returns (conn_nft_config sample_conn)" by (simp only: sample_conn_config returns_simps)
  then show ?thesis
    using conn_nft_config_iff_valid [of sample_conn] conn_nft_config_iff_valid [of "sample_conn\<lparr>c_reset_burst := 0\<rparr>"]
    by simp
qed

lemma conn_files_ok:
  assumes "conn_validate o' = Inr ()"
  obtains t where "conn_nft_config o' = Inr t"
    and "conn_files fr o' = Inr [(''connections.nft'', t),
      (''remove-connections.nft'', delete_table (c_table o')),
      (''limits.json'', json_dumps fr (VDict (conn_asdict o')) @ [newline])]"
  using assms by (fastforce simp: conn_files_def conn_nft_config_def conn_validate_simps)

lemma conn_write_bundle_cases:
  assumes "conn_write_bundle fr env o' w = (r, w')"
  obtains (kept) e where "r = Inl e" and "w' = w"
  | (wrote) files d d' where "conn_validate o' = Inr ()" and "conn_files fr o' = Inr files"
      and "\<forall>f \<in> set files. \<not> path_exists w (fst f)" and "make_output w = Inr d"
      and "run_ops env 0 (create_ops files) d = (r, d')" and "w' = Present d'"
  using assms
  by (auto simp: conn_write_bundle_def list_ex_iff seqE_eq_Inr split: sum.splits prod.splits if_splits)

text \<open>
  C30: writing a bundle never changes or removes an entry that is already in the output directory,
  whether it succeeds or fails, also when other processes add files or symbolic links between the
  check for an existing configuration and the exclusive creations.
\<close>

theorem conn_write_bundle_keeps_entries:
  assumes "env_adds env" and "conn_write_bundle fr env o' (Present d) = (r, w')"
  shows "\<exists>d'. w' = Present d' \<and> d \<subseteq>\<^sub>m d'"
  using assms(2)
proof (cases rule: conn_write_bundle_cases)
  case (wrote files d0 d')
  then show ?thesis
    using files.run_creates_keep [OF assms(1), of 0 files] by (simp add: create_ops_def)
qed simp

definition racing_env :: "nat \<Rightarrow> dir \<Rightarrow> dir" where
  "racing_env i d = (if i = 1 then [''limits.json'' \<mapsto> Symlink False False] ++ d else d)"

lemma racing_env_adds: "env_adds racing_env"
  by (auto simp: env_adds_def racing_env_def)

theorem conn_write_bundle_keeps_entries_witness:
  "\<exists>r w' d'. conn_write_bundle (\<lambda>_. []) racing_env sample_conn (Present [''notes'' \<mapsto> File ''keep'']) = (r, w') \<and>
     w' = Present d' \<and> [''notes'' \<mapsto> File ''keep''] \<subseteq>\<^sub>m d'"
proof -
  obtain r w' where w': "conn_write_bundle (\<lambda>_. []) racing_env sample_conn (Present [''notes'' \<mapsto> File ''keep'']) = (r, w')"
    by fastforce
  then show ?thesis using conn_write_bundle_keeps_entries [OF racing_env_adds w'] by blast
qed

text \<open>
  A bundle that is reported as written holds the three files with exactly the generated contents:
  the validated ruleset, the command that removes its table, and the options as JSON.
\<close>

theorem conn_write_bundle_contents:
  assumes "env_adds env" and "conn_write_bundle fr env o' w = (Inr u, w')"
  shows "\<exists>d' t. w' = Present d' \<and> conn_nft_config o' = Inr t \<and>
    d' ''connections.nft'' = Some (File t) \<and>
    d' ''remove-connections.nft'' = Some (File (delete_table (c_table o'))) \<and>
    d' ''limits.json'' = Some (File (json_dumps fr (VDict (conn_asdict o')) @ [newline]))"
  using assms(2)
proof (cases rule: conn_write_bundle_cases)
  case (wrote files d d')
  obtain t where t: "conn_nft_config o' = Inr t"
    and files: "files = [(''connections.nft'', t), (''remove-connections.nft'', delete_table (c_table o')),
      (''limits.json'', json_dumps fr (VDict (conn_asdict o')) @ [newline])]"
    using conn_files_ok [OF wrote(1), of fr] wrote(2) by auto
  have "d' n = Some (File c)" if "(n, c) \<in> set files" for n c
    using files.run_creates_written [OF assms(1) _ that] wrote(5) by (auto simp: create_ops_def)
  then show ?thesis using t files wrote(6) by simp
qed simp

lemma conn_write_bundle_run:
  assumes "conn_validate o' = Inr ()" and "conn_files fr o' = Inr files"
    and "\<forall>f \<in> set files. d (fst f) = None"
  shows "conn_write_bundle fr env o' (Present d) =
    (case run_ops env 0 (create_ops files) d of (r, d') \<Rightarrow> (r, Present d'))"
  using assms by (auto simp: conn_write_bundle_def path_exists_def entry_exists_def list_ex_iff)

text \<open>
  With valid options and no interference, writing succeeds exactly when none of the three names
  is taken: a regular file, a directory or a symbolic link, even a dangling one, makes it fail.
\<close>

theorem conn_write_bundle_succeeds_iff:
  assumes "conn_validate o' = Inr ()"
  shows "returns (fst (conn_write_bundle fr no_env o' (Present d))) \<longleftrightarrow>
    d ''connections.nft'' = None \<and> d ''remove-connections.nft'' = None \<and> d ''limits.json'' = None"
proof -
  obtain t where files: "conn_files fr o' = Inr [(''connections.nft'', t), (''remove-connections.nft'', delete_table (c_table o')),
      (''limits.json'', json_dumps fr (VDict (conn_asdict o')) @ [newline])]" (is "_ = Inr ?files")
    using conn_files_ok [OF assms, of fr] by auto
  show ?thesis
  proof
    assume ok: "returns (fst (conn_write_bundle fr no_env o' (Present d)))"
    obtain r w' where w': "conn_write_bundle fr no_env o' (Present d) = (r, w')" by fastforce
    from w' show "d ''connections.nft'' = None \<and> d ''remove-connections.nft'' = None \<and> d ''limits.json'' = None"
    proof (cases rule: conn_write_bundle_cases)
      case (wrote fs d0 d')
      have "d n = None" if "(n, c) \<in> set ?files" for n c
        using files.run_creates_refused [OF that, of d no_env 0] ok w' wrote(2,4,5) files
        by (cases "d n") (auto simp: create_ops_def env_adds_def no_env_def)
      then show ?thesis by auto
    qed (use ok w' in simp)
  next
    assume free: "d ''connections.nft'' = None \<and> d ''remove-connections.nft'' = None \<and> d ''limits.json'' = None"
    have "fst (run_ops no_env 0 (create_ops ?files) d) = Inr ()"
      unfolding create_ops_def
      by (rule files.run_creates_succeed) (use free create_exclusive_progress in auto)
    then show "returns (fst (conn_write_bundle fr no_env o' (Present d)))"
      using conn_write_bundle_run [OF assms files, of d no_env] free by (simp add: case_prod_unfold)
  qed
qed

theorem conn_write_bundle_succeeds_iff_witness:
  "conn_validate sample_conn = Inr () \<and>
   returns (fst (conn_write_bundle (\<lambda>_. []) no_env sample_conn (Present Map.empty))) \<and>
   \<not> returns (fst (conn_write_bundle (\<lambda>_. []) no_env sample_conn (Present [''limits.json'' \<mapsto> Symlink False False])))"
  using conn_write_bundle_succeeds_iff [OF sample_conn_valid, of "\<lambda>_. []" Map.empty]
    conn_write_bundle_succeeds_iff [OF sample_conn_valid, of "\<lambda>_. []" "[''limits.json'' \<mapsto> Symlink False False]"]
    sample_conn_valid by simp

theorem conn_write_bundle_contents_witness:
  "\<exists>w' d'. conn_write_bundle (\<lambda>_. []) no_env sample_conn (Present Map.empty) = (Inr (), w') \<and> w' = Present d' \<and>
     d' ''connections.nft'' = Some (File (unlines (nft_lines sample_conn ''ip'')))"
proof -
  have env: "env_adds no_env" by (simp add: env_adds_def no_env_def)
  obtain t where files: "conn_files (\<lambda>_. []) sample_conn = Inr [(''connections.nft'', t), (''remove-connections.nft'', delete_table (c_table sample_conn)),
      (''limits.json'', json_dumps (\<lambda>_. []) (VDict (conn_asdict sample_conn)) @ [newline])]" (is "_ = Inr ?files")
    using conn_files_ok [OF sample_conn_valid, of "\<lambda>_. []"] by auto
  have "fst (run_ops no_env 0 (create_ops ?files) Map.empty) = Inr ()"
    unfolding create_ops_def by (rule files.run_creates_succeed) (use create_exclusive_progress in auto)
  then obtain w' where w': "conn_write_bundle (\<lambda>_. []) no_env sample_conn (Present Map.empty) = (Inr (), w')"
    using conn_write_bundle_run [OF sample_conn_valid files, of Map.empty no_env] by (auto split: prod.splits)
  then show ?thesis
    using conn_write_bundle_contents [OF env w'] sample_conn_config by auto
qed

end
