(* ===== verification/Ingress.thy ===== *)
theory Ingress
  imports Connections
begin

text \<open>
  \<open>deploy/ingress.py\<close>: the generator of an optional NGINX request gate with an independent SYN
  policer.  \<open>ing_options\<close> is the dataclass \<open>Options\<close> (fields in the source's order), the three budget
  functions and \<open>ing_validate\<close> are its methods; \<open>ing_nginx_config\<close> and \<open>ing_nft_config\<close> produce the
  texts, the latter through \<open>deploy/connections.py\<close>; \<open>ing_write_bundle\<close> writes the directory and
  \<open>ing_main\<close> is the command after argument parsing, with the merge of a captured origin
  configuration.  The numbers of that snapshot are integers, as the server prints them; another
  type is a \<open>TypeError\<close> of the model.
\<close>

record ing_options =
  i_listen_address :: string
  i_listen_port :: int
  i_origin_address :: string
  i_origin_port :: int
  i_interface :: string
  i_request_rate :: int
  i_request_burst :: int
  i_connection_rate :: int
  i_connection_burst :: int
  i_reset_rate :: int
  i_reset_burst :: int
  i_origin_workers :: int
  i_origin_slots :: int
  i_origin_active_per_worker :: "int option"
  i_proxy_workers :: int
  i_proxy_connections :: int
  i_max_body_bytes :: int
  i_keepalive_requests :: int
  i_access_log :: bool
  i_table :: string

section \<open>Budgets and validation\<close>

definition connection_budget :: "ing_options \<Rightarrow> int" where
  "connection_budget o' = i_origin_workers o' * max 1 (i_origin_slots o' * 3 div 4)"

definition idle_per_worker :: "ing_options \<Rightarrow> int" where
  "idle_per_worker o' = min 32 (connection_budget o' div (2 * i_proxy_workers o'))"

definition active_budget :: "ing_options \<Rightarrow> int" where
  "active_budget o' =
     (let available = connection_budget o' - i_proxy_workers o' * idle_per_worker o' in
      case i_origin_active_per_worker o' of
        None \<Rightarrow> available
      | Some a \<Rightarrow> min available (i_origin_workers o' * a))"

definition ing_check_address :: "string \<Rightarrow> unit res" where
  "ing_check_address address =
     bindE (py_ip_address address) (\<lambda>parsed.
     ensure (\<not> (is_unspecified parsed \<or> is_multicast parsed \<or> CHR ''%'' \<in> set address))
       (ValueError ''use explicit unicast listen and origin IP addresses without scope suffixes''))"

definition not_own_listener :: "ing_options \<Rightarrow> unit res" where
  "not_own_listener o' =
     bindE (py_ip_address (i_listen_address o')) (\<lambda>listen.
     bindE (py_ip_address (i_origin_address o')) (\<lambda>origin.
     ensure (\<not> (listen = origin \<and> i_listen_port o' = i_origin_port o'))
       (ValueError ''ingress cannot proxy to its own listener'')))"

definition ing_validate :: "ing_options \<Rightarrow> unit res" where
  "ing_validate o' = checks
     [forE ing_check_address [i_listen_address o', i_origin_address o'],
      forE (\<lambda>port. ensure (1 \<le> port \<and> port \<le> 65535) (ValueError ''ports must be in 1..65535''))
        [i_listen_port o', i_origin_port o'],
      not_own_listener o',
      ensure (valid_interface (i_interface o')) (ValueError ''invalid interface name''),
      ensure (valid_table (i_table o')) (ValueError ''invalid nftables table name''),
      forE (\<lambda>rate. ensure (1 \<le> rate \<and> rate \<le> 1000000000)
          (ValueError ''calibrated rates must be explicit positive values <= 1000000000''))
        [i_request_rate o', i_connection_rate o', i_reset_rate o'],
      forE (\<lambda>burst. ensure (1 \<le> burst \<and> burst \<le> 1000000000)
          (ValueError ''connection and reset bursts must be positive''))
        [i_connection_burst o', i_reset_burst o'],
      ensure (0 \<le> i_request_burst o' \<and> i_request_burst o' \<le> 1000000000)
        (ValueError ''request burst must be in 0..1000000000''),
      ensure (1 \<le> i_origin_workers o' \<and> i_origin_workers o' \<le> 256 \<and>
          1 \<le> i_origin_slots o' \<and> i_origin_slots o' \<le> 8176)
        (ValueError ''invalid origin worker/connection budget''),
      ensure (case i_origin_active_per_worker o' of None \<Rightarrow> True
          | Some a \<Rightarrow> 1 \<le> a \<and> a \<le> i_origin_slots o')
        (ValueError ''invalid origin active-request budget''),
      ensure (1 \<le> i_proxy_workers o' \<and> i_proxy_workers o' \<le> 256 \<and>
          16 \<le> i_proxy_connections o' \<and> i_proxy_connections o' \<le> 1000000)
        (ValueError ''invalid proxy worker/connection budget''),
      ensure (1 \<le> i_max_body_bytes o' \<and> i_max_body_bytes o' \<le> 2 ^ 32 - 1 \<and>
          1 \<le> i_keepalive_requests o' \<and> i_keepalive_requests o' \<le> 2 ^ 32 - 1)
        (ValueError ''invalid body/connection lifetime bound''),
      ensure (\<not> connection_budget o' < 2 * i_proxy_workers o')
        (ValueError ''origin budget must leave an active and an idle slot per proxy worker''),
      ensure (\<not> 2 * active_budget o' + idle_per_worker o' \<ge> i_proxy_connections o')
        (ValueError ''proxy connection budget must leave room for both client and origin sockets'')]"

section \<open>The NGINX configuration\<close>

definition endpoint :: "string \<Rightarrow> int \<Rightarrow> string res" where
  "endpoint address port =
     bindE (py_ip_address address) (\<lambda>a.
     Inr (if ip_version a = 6 then ''['' @ address @ '']:'' @ str_of_int port
          else address @ '':'' @ str_of_int port))"

definition sq :: string where
  "sq = [CHR 0x27]"

definition burst_text :: "ing_options \<Rightarrow> string" where
  "burst_text o' = (if i_request_burst o' \<noteq> 0 then '' burst='' @ str_of_int (i_request_burst o') else [])"

definition access_text :: "ing_options \<Rightarrow> string" where
  "access_text o' =
     (if i_access_log o' then ''access_log logs/access.json admission buffer=256k flush=1s;''
      else ''access_log off;'')"

definition nginx_head :: "ing_options \<Rightarrow> string list" where
  "nginx_head o' =
     [''# Generated by deploy/ingress.py. NGINX 1.30 or newer; budgets are aggregate.'',
      ''worker_processes '' @ str_of_int (i_proxy_workers o') @ '';'',
      ''pid logs/nginx.pid;'',
      ''error_log logs/error.log crit;'',
      ''events { worker_connections '' @ str_of_int (i_proxy_connections o') @ ''; }'',
      ''http {'',
      ''    # A constant key shares one budget across clients and proxy workers.'',
      ''    limit_req_zone '' @ dq @ ''zhtps_origin'' @ dq @ '' zone=requests:64k rate=''
        @ str_of_int (i_request_rate o') @ ''r/s;'',
      ''    limit_conn_zone '' @ dq @ ''zhtps_origin'' @ dq @ '' zone=active:64k;'',
      ''    log_format admission escape=json '' @ sq @ ''{'' @ dq @ ''status'' @ dq @ '':$status,'' @ dq @ ''limit''
        @ dq @ '':'' @ dq @ ''$limit_req_status'' @ dq @ '','' @ sq,
      ''        '' @ sq @ dq @ ''upstream'' @ dq @ '':'' @ dq @ ''$upstream_status'' @ dq @ '','' @ dq @ ''request_time''
        @ dq @ '':$request_time}'' @ sq @ '';'',
      ''    '' @ access_text o',
      ''    client_body_temp_path body_temp;'',
      ''    proxy_temp_path proxy_temp;'',
      ''    client_header_timeout 5s;'',
      ''    client_body_timeout 30s;'',
      ''    send_timeout 5s;'',
      ''    reset_timedout_connection on;'',
      ''    keepalive_timeout 15s;'',
      ''    keepalive_requests '' @ str_of_int (i_keepalive_requests o') @ '';'',
      ''    client_max_body_size '' @ str_of_int (i_max_body_bytes o') @ '';'']"

definition nginx_upstream :: "ing_options \<Rightarrow> string \<Rightarrow> string list" where
  "nginx_upstream o' origin =
     [''    upstream origin {'',
      ''        zone origin 64k;'',
      ''        server '' @ origin @ '' max_conns='' @ str_of_int (active_budget o') @ '' max_fails=0;'',
      ''        # Active + idle connections remain inside the configured origin budget.'',
      ''        keepalive '' @ str_of_int (idle_per_worker o') @ '';'',
      ''        keepalive_timeout 10s;'',
      ''        keepalive_requests '' @ str_of_int (i_keepalive_requests o') @ '';'',
      ''    }'']"

definition nginx_server :: "ing_options \<Rightarrow> string \<Rightarrow> string list" where
  "nginx_server o' listen =
     [''    server {'',
      ''        listen '' @ listen @ '';'',
      ''        server_name zhtps_ingress;'',
      ''        limit_req_status 503;'',
      ''        limit_req_log_level notice;'',
      ''        limit_conn_status 503;'',
      ''        limit_conn_log_level notice;'',
      ''        location / {'',
      ''            # No waiting room for excess requests or busy origin connections.'',
      ''            limit_req zone=requests'' @ burst_text o' @ '' nodelay;'',
      ''            limit_conn active '' @ str_of_int (active_budget o') @ '';'',
      ''            proxy_pass http://origin;'',
      ''            proxy_http_version 1.1;'',
      ''            proxy_set_header Connection '' @ dq @ dq @ '';'',
      ''            proxy_set_header Host $http_host;'',
      ''            proxy_request_buffering off;'',
      ''            proxy_buffering off;'',
      ''            proxy_next_upstream off;'',
      ''            proxy_connect_timeout 1s;'',
      ''            proxy_read_timeout 5s;'',
      ''            proxy_send_timeout 5s;'',
      ''        }'',
      ''    }'',
      ''}'']"

definition ing_nginx_config :: "ing_options \<Rightarrow> string res" where
  "ing_nginx_config o' =
     seqE (ing_validate o')
     (bindE (endpoint (i_origin_address o') (i_origin_port o')) (\<lambda>origin.
      bindE (endpoint (i_listen_address o') (i_listen_port o')) (\<lambda>listen.
      Inr (unlines (nginx_head o' @ nginx_upstream o' origin @ nginx_server o' listen)))))"

section \<open>The SYN policer and the bundle\<close>

definition ing_conn_options :: "ing_options \<Rightarrow> conn_options" where
  "ing_conn_options o' =
     \<lparr>c_listen_address = i_listen_address o', c_listen_port = i_listen_port o',
      c_interface = i_interface o', c_connection_rate = i_connection_rate o',
      c_connection_burst = i_connection_burst o', c_reset_rate = i_reset_rate o',
      c_reset_burst = i_reset_burst o', c_table = i_table o'\<rparr>"

definition ing_nft_config :: "ing_options \<Rightarrow> string res" where
  "ing_nft_config o' = seqE (ing_validate o') (conn_nft_config (ing_conn_options o'))"

definition ing_limits :: "ing_options \<Rightarrow> (string \<times> val) list" where
  "ing_limits o' =
     [(''listen_address'', VStr (i_listen_address o')),
      (''listen_port'', VInt (i_listen_port o')),
      (''origin_address'', VStr (i_origin_address o')),
      (''origin_port'', VInt (i_origin_port o')),
      (''interface'', VStr (i_interface o')),
      (''request_rate'', VInt (i_request_rate o')),
      (''request_burst'', VInt (i_request_burst o')),
      (''connection_rate'', VInt (i_connection_rate o')),
      (''connection_burst'', VInt (i_connection_burst o')),
      (''reset_rate'', VInt (i_reset_rate o')),
      (''reset_burst'', VInt (i_reset_burst o')),
      (''origin_workers'', VInt (i_origin_workers o')),
      (''origin_slots'', VInt (i_origin_slots o')),
      (''origin_active_per_worker'', (case i_origin_active_per_worker o' of None \<Rightarrow> VNone | Some a \<Rightarrow> VInt a)),
      (''proxy_workers'', VInt (i_proxy_workers o')),
      (''proxy_connections'', VInt (i_proxy_connections o')),
      (''max_body_bytes'', VInt (i_max_body_bytes o')),
      (''keepalive_requests'', VInt (i_keepalive_requests o')),
      (''access_log'', VBool (i_access_log o')),
      (''table'', VStr (i_table o')),
      (''origin_connection_budget'', VInt (connection_budget o')),
      (''origin_active_budget'', VInt (active_budget o')),
      (''idle_connections_per_proxy_worker'', VInt (idle_per_worker o'))]"

definition ing_files :: "(rat \<Rightarrow> string) \<Rightarrow> ing_options \<Rightarrow> val option \<Rightarrow> (string \<times> string) list res" where
  "ing_files fr o' origin_config =
     bindE (ing_nginx_config o') (\<lambda>nginx.
     bindE (ing_nft_config o') (\<lambda>nft.
     Inr ([(''nginx.conf'', nginx),
           (''connections.nft'', nft),
           (''remove-connections.nft'', delete_table (i_table o')),
           (''limits.json'', json_dumps fr (VDict (ing_limits o')) @ [newline])]
          @ (case origin_config of None \<Rightarrow> []
             | Some c \<Rightarrow> [(''origin-config.json'', json_dumps fr c @ [newline])]))))"

definition ing_dirs :: "string list" where
  "ing_dirs = [''logs'', ''body_temp'', ''proxy_temp'']"

text \<open>
  Unlike \<open>connections.write_bundle\<close>, the output directory is created before the check for an
  existing configuration.
\<close>

definition ing_write_bundle ::
  "(rat \<Rightarrow> string) \<Rightarrow> (nat \<Rightarrow> dir \<Rightarrow> dir) \<Rightarrow> ing_options \<Rightarrow> val option \<Rightarrow> outdir \<Rightarrow> unit res \<times> outdir" where
  "ing_write_bundle fr env o' origin_config w =
     (case ing_validate o' of
        Inl e \<Rightarrow> (Inl e, w)
      | Inr _ \<Rightarrow>
          (case make_output w of
             Inl e \<Rightarrow> (Inl e, w)
           | Inr d \<Rightarrow>
               (case ing_files fr o' origin_config of
                  Inl e \<Rightarrow> (Inl e, Present d)
                | Inr files \<Rightarrow>
                    if list_ex (\<lambda>f. path_exists (Present d) (fst f)) files
                    then (Inl already_configured, Present d)
                    else (case run_ops env 0 (map make_dir ing_dirs @ create_ops files) d of
                            (r, d') \<Rightarrow> (r, Present d')))))"

section \<open>The command\<close>

text \<open>
  \<open>ing_arguments\<close> is the namespace \<open>parse_args\<close> returns: the options with the three origin values
  optional, and the parsed \<open>--origin-config\<close> file.
\<close>

record ing_arguments =
  a_options :: ing_options
  a_origin_workers :: "int option"
  a_origin_slots :: "int option"
  a_origin_active :: "int option"
  a_origin_config :: "val option"

definition json_int :: "val \<Rightarrow> int option res" where
  "json_int v = (case v of VNone \<Rightarrow> Inr None | VInt n \<Rightarrow> Inr (Some n) | _ \<Rightarrow> Inl TypeError)"

definition merge_field :: "string \<Rightarrow> int option \<Rightarrow> int option \<Rightarrow> int option res" where
  "merge_field field argument captured =
     (if argument \<noteq> None \<and> captured \<noteq> None \<and> argument \<noteq> captured
      then Inl (ParserError (field @ '' conflicts with the effective origin configuration''))
      else Inr (if argument = None then captured else argument))"

definition ing_merge :: "ing_arguments \<Rightarrow> ing_arguments res" where
  "ing_merge a =
     (case a_origin_config a of
        None \<Rightarrow> Inr a
      | Some c \<Rightarrow>
          bindE (bindE (idx c ''workers'') json_int) (\<lambda>workers.
          bindE (bindE (idx c ''max_connections'') json_int) (\<lambda>slots.
          bindE (get_dflt c ''admission'' (VDict [])) (\<lambda>admission.
          bindE (bindE (get_dflt admission ''max_active'' VNone) json_int) (\<lambda>active.
          bindE (merge_field ''origin_workers'' (a_origin_workers a) workers) (\<lambda>w.
          bindE (merge_field ''origin_slots'' (a_origin_slots a) slots) (\<lambda>s.
          bindE (merge_field ''origin_active_per_worker'' (a_origin_active a) active) (\<lambda>act.
          Inr (a\<lparr>a_origin_workers := w, a_origin_slots := s, a_origin_active := act\<rparr>)))))))))"

definition ing_effective_options :: "ing_arguments \<Rightarrow> ing_options res" where
  "ing_effective_options a =
     bindE (ing_merge a) (\<lambda>m.
     (case (a_origin_workers m, a_origin_slots m) of
        (Some w, Some s) \<Rightarrow>
          Inr ((a_options m)\<lparr>i_origin_workers := w, i_origin_slots := s,
                i_origin_active_per_worker := a_origin_active m\<rparr>)
      | _ \<Rightarrow> Inl (ParserError ''supply --origin-config or both --origin-workers and --origin-slots'')))"

definition ing_main ::
  "(rat \<Rightarrow> string) \<Rightarrow> (nat \<Rightarrow> dir \<Rightarrow> dir) \<Rightarrow> ing_arguments \<Rightarrow> string \<Rightarrow> outdir \<Rightarrow> string res \<times> outdir" where
  "ing_main fr env a output_name w =
     (case ing_effective_options a of
        Inl e \<Rightarrow> (Inl e, w)
      | Inr o' \<Rightarrow>
          (case ing_write_bundle fr env o' (a_origin_config a) w of
             (Inl (ValueError m), w') \<Rightarrow> (Inl (ParserError m), w')
           | (Inl (OSError m), w') \<Rightarrow> (Inl (ParserError m), w')
           | (Inl e, w') \<Rightarrow> (Inl e, w')
           | (Inr _, w') \<Rightarrow> (Inr (''Wrote ingress configuration to '' @ output_name), w')))"

section \<open>What validation guarantees\<close>

lemmas ing_validate_simps = ing_validate_def ing_check_address_def not_own_listener_def py_ip_address_def py_ok

lemma ing_validate_ok:
  assumes "ing_validate o' = Inr ()"
  shows "\<exists>a. ip_address (i_listen_address o') = Some a \<and> \<not> is_unspecified a \<and> \<not> is_multicast a"
    and "\<exists>a. ip_address (i_origin_address o') = Some a \<and> \<not> is_unspecified a \<and> \<not> is_multicast a"
    and "CHR ''%'' \<notin> set (i_listen_address o')" and "CHR ''%'' \<notin> set (i_origin_address o')"
    and "1 \<le> i_listen_port o' \<and> i_listen_port o' \<le> 65535"
    and "valid_interface (i_interface o')" and "valid_table (i_table o')"
    and "1 \<le> i_connection_rate o' \<and> i_connection_rate o' \<le> 1000000000"
    and "1 \<le> i_reset_rate o' \<and> i_reset_rate o' \<le> 1000000000"
    and "1 \<le> i_connection_burst o' \<and> i_connection_burst o' \<le> 1000000000"
    and "1 \<le> i_reset_burst o' \<and> i_reset_burst o' \<le> 1000000000"
  using assms by (auto simp: ing_validate_simps)

lemma ing_validate_budgets:
  assumes "ing_validate o' = Inr ()"
  shows "1 \<le> i_origin_workers o'" and "1 \<le> i_origin_slots o'" and "1 \<le> i_proxy_workers o'"
    and "i_origin_active_per_worker o' = Some a \<Longrightarrow> 1 \<le> a"
    and "2 * i_proxy_workers o' \<le> connection_budget o'"
    and "2 * active_budget o' + idle_per_worker o' < i_proxy_connections o'"
  using assms by (auto simp: ing_validate_simps)

lemma ing_conn_options_valid:
  assumes "ing_validate o' = Inr ()"
  shows "conn_validate (ing_conn_options o') = Inr ()"
  using ing_validate_ok [OF assms] by (auto simp: conn_validate_simps ing_conn_options_def)

definition endpoint_text :: "string \<Rightarrow> int \<Rightarrow> ipaddr \<Rightarrow> string" where
  "endpoint_text address port a =
     (if ip_version a = 6 then ''['' @ address @ '']:'' @ str_of_int port else address @ '':'' @ str_of_int port)"

lemma endpoint_ok: "ip_address address = Some a \<Longrightarrow> endpoint address port = Inr (endpoint_text address port a)"
  by (simp add: endpoint_def endpoint_text_def py_ip_address_def)

lemma ing_nginx_config_ok:
  assumes "ing_validate o' = Inr ()"
  obtains a b where "ip_address (i_origin_address o') = Some a" and "ip_address (i_listen_address o') = Some b"
    and "ing_nginx_config o' = Inr (unlines (nginx_head o' @
      nginx_upstream o' (endpoint_text (i_origin_address o') (i_origin_port o') a) @
      nginx_server o' (endpoint_text (i_listen_address o') (i_listen_port o') b)))"
  using ing_validate_ok(1,2) [OF assms] assms by (auto simp: ing_nginx_config_def endpoint_ok)

lemma ing_configs_exist:
  assumes "ing_validate o' = Inr ()"
  shows "\<exists>nginx nft. ing_nginx_config o' = Inr nginx \<and> ing_nft_config o' = Inr nft"
proof -
  have "\<exists>nft. conn_nft_config (ing_conn_options o') = Inr nft"
    using conn_validate_ok [OF ing_conn_options_valid [OF assms]]
    by (auto simp: conn_nft_config_def conn_validate_simps)
  then show ?thesis
    using ing_nginx_config_ok [OF assms] assms by (metis ing_nft_config_def seqE_simps(2))
qed

lemma idle_half:
  assumes "1 \<le> i_proxy_workers o'" and "0 \<le> connection_budget o'"
  shows "2 * (i_proxy_workers o' * idle_per_worker o') \<le> connection_budget o'"
proof -
  have "2 * i_proxy_workers o' * (connection_budget o' div (2 * i_proxy_workers o')) \<le> connection_budget o'"
    using assms by (simp add: minus_mod_eq_mult_div [symmetric])
  moreover have "i_proxy_workers o' * idle_per_worker o' \<le>
      i_proxy_workers o' * (connection_budget o' div (2 * i_proxy_workers o'))"
    using assms by (intro mult_left_mono) (auto simp: idle_per_worker_def)
  ultimately show ?thesis by linarith
qed

lemma idle_positive:
  assumes "1 \<le> i_proxy_workers o'" and "2 * i_proxy_workers o' \<le> connection_budget o'"
  shows "1 \<le> idle_per_worker o'"
proof -
  have "2 * i_proxy_workers o' div (2 * i_proxy_workers o') \<le> connection_budget o' div (2 * i_proxy_workers o')"
    using assms by (intro zdiv_mono1) auto
  then show ?thesis using assms by (simp add: idle_per_worker_def)
qed

lemma connection_budget_le:
  assumes "1 \<le> i_origin_workers o'" and "1 \<le> i_origin_slots o'"
  shows "connection_budget o' \<le> i_origin_workers o' * i_origin_slots o'"
  unfolding connection_budget_def using assms by (intro mult_left_mono) auto

section \<open>Properties\<close>

text \<open>
  C3: the budgets of every accepted configuration fit together.  Each proxy worker keeps at least one
  idle and there is at least one active origin connection; active and idle connections together stay
  inside the connection budget, which stays inside the origin's slots; the active budget respects the
  per-worker request limit; and the proxy has sockets left for both sides of every active request.
\<close>

theorem ing_budgets_fit:
  assumes "ing_validate o' = Inr ()"
  shows "1 \<le> idle_per_worker o' \<and> idle_per_worker o' \<le> 32 \<and> 1 \<le> active_budget o' \<and>
    active_budget o' + i_proxy_workers o' * idle_per_worker o' \<le> connection_budget o' \<and>
    connection_budget o' \<le> i_origin_workers o' * i_origin_slots o' \<and>
    (\<forall>a. i_origin_active_per_worker o' = Some a \<longrightarrow> active_budget o' \<le> i_origin_workers o' * a) \<and>
    2 * active_budget o' + idle_per_worker o' < i_proxy_connections o'"
proof -
  note b = ing_validate_budgets [OF assms]
  have half: "2 * (i_proxy_workers o' * idle_per_worker o') \<le> connection_budget o'"
    using idle_half b(3,5) by simp
  have available: "1 \<le> connection_budget o' - i_proxy_workers o' * idle_per_worker o'"
    using half b(3,5) by linarith
  have "1 \<le> i_origin_workers o' * a" if "i_origin_active_per_worker o' = Some a" for a
    using mult_mono [of 1 "i_origin_workers o'" 1 a] b(1) b(4) [OF that] by simp
  then have "1 \<le> active_budget o'"
    using available by (auto simp: active_budget_def Let_def split: option.split)
  moreover have "active_budget o' + i_proxy_workers o' * idle_per_worker o' \<le> connection_budget o'"
    by (auto simp: active_budget_def Let_def split: option.split)
  moreover have "active_budget o' \<le> i_origin_workers o' * a" if "i_origin_active_per_worker o' = Some a" for a
    using that by (simp add: active_budget_def)
  moreover have "idle_per_worker o' \<le> 32" by (simp add: idle_per_worker_def)
  ultimately show ?thesis
    using idle_positive [OF b(3,5)] connection_budget_le [OF b(1,2)] b(6) by blast
qed

definition sample_ing :: ing_options where
  "sample_ing = \<lparr>i_listen_address = ''192.0.2.7'', i_listen_port = 80, i_origin_address = ''2001:db8::5'',
     i_origin_port = 8080, i_interface = ''eth0'', i_request_rate = 5000, i_request_burst = 100,
     i_connection_rate = 1000, i_connection_burst = 200, i_reset_rate = 50, i_reset_burst = 10,
     i_origin_workers = 2, i_origin_slots = 512, i_origin_active_per_worker = Some 256,
     i_proxy_workers = 2, i_proxy_connections = 4096, i_max_body_bytes = 67108864,
     i_keepalive_requests = 1000, i_access_log = False, i_table = ''zhtps_ingress''\<rparr>"

lemma sample_ing_valid: "ing_validate sample_ing = Inr ()"
  by code_simp

theorem ing_budgets_fit_witness:
  "ing_validate sample_ing = Inr () \<and>
   1 \<le> active_budget sample_ing \<and> active_budget sample_ing = 512 \<and> idle_per_worker sample_ing = 32"
proof -
  have "active_budget sample_ing = 512 \<and> idle_per_worker sample_ing = 32" by code_simp
  then show ?thesis using ing_budgets_fit [OF sample_ing_valid] sample_ing_valid by blast
qed

text \<open>
  C40: the ingress checks imply the checks of the SYN policer it embeds, so one validation decides
  everything: both generated texts exist exactly for the options \<open>validate\<close> accepts.
\<close>

theorem ing_configs_iff_valid:
  "(returns (ing_nginx_config o') \<longleftrightarrow> ing_validate o' = Inr ()) \<and>
   (returns (ing_nft_config o') \<longleftrightarrow> ing_validate o' = Inr ()) \<and>
   (ing_validate o' = Inr () \<longrightarrow> ing_nft_config o' = conn_nft_config (ing_conn_options o'))"
proof -
  have "returns (ing_nginx_config o') \<and> returns (ing_nft_config o')" if "ing_validate o' = Inr ()"
    using ing_configs_exist [OF that] by auto
  moreover have "ing_validate o' = Inr ()" if "returns (ing_nginx_config o') \<or> returns (ing_nft_config o')"
    using that by (auto simp: returns_iff ing_nginx_config_def ing_nft_config_def py_ok)
  moreover have "ing_nft_config o' = conn_nft_config (ing_conn_options o')" if "ing_validate o' = Inr ()"
    using that by (simp add: ing_nft_config_def)
  ultimately show ?thesis by blast
qed

theorem ing_configs_iff_valid_witness:
  "returns (ing_nginx_config sample_ing) \<and> ing_nft_config sample_ing = conn_nft_config (ing_conn_options sample_ing)"
  using ing_configs_iff_valid [of sample_ing] sample_ing_valid by blast

lemma ing_texts_plain:
  assumes "ing_validate o' = Inr ()"
  shows "plain (i_listen_address o')" and "plain (i_origin_address o')"
  using ing_validate_ok(1-4) [OF assms] by (auto intro: plain_address)

lemma skeleton_endpoint: "plain address \<Longrightarrow> skeleton (endpoint_text address port a) = []"
  by (simp add: endpoint_text_def plain_int skeleton_eval)

lemma nginx_head_skeleton:
  "map skeleton (nginx_head o') =
    [''#;'', '';'', '';'', '';'', ''{;}'', ''{'', ''#'', dq @ dq @ '';'', dq @ dq @ '';'',
     sq @ ''{'' @ dq @ dq @ ''$'' @ dq @ dq @ dq @ ''$'' @ dq @ sq,
     sq @ dq @ dq @ dq @ ''$'' @ dq @ dq @ dq @ ''$}'' @ sq @ '';'',
     '';'', '';'', '';'', '';'', '';'', '';'', '';'', '';'', '';'', '';'']"
  by (simp add: nginx_head_def access_text_def plain_int dq_def sq_def skeleton_eval)

lemma nginx_upstream_skeleton:
  "skeleton origin = [] \<Longrightarrow>
   map skeleton (nginx_upstream o' origin) = [''{'', '';'', '';'', ''#'', '';'', '';'', '';'', ''}'']"
  by (simp add: nginx_upstream_def plain_int skeleton_eval)

lemma nginx_server_skeleton:
  "skeleton listen = [] \<Longrightarrow>
   map skeleton (nginx_server o' listen) =
    [''{'', '';'', '';'', '';'', '';'', '';'', '';'', ''{'', ''#'', '';'', '';'', '';'', '';'', dq @ dq @ '';'', ''$;'',
     '';'', '';'', '';'', '';'', '';'', '';'', ''}'', ''}'', ''}'']"
  by (simp add: nginx_server_def burst_text_def plain_int dq_def skeleton_eval)

text \<open>The structural characters of the NGINX template, line by line.\<close>

definition nginx_skeleton :: "string list" where
  "nginx_skeleton =
    [''#;'', '';'', '';'', '';'', ''{;}'', ''{'', ''#'', dq @ dq @ '';'', dq @ dq @ '';'',
     sq @ ''{'' @ dq @ dq @ ''$'' @ dq @ dq @ dq @ ''$'' @ dq @ sq,
     sq @ dq @ dq @ dq @ ''$'' @ dq @ dq @ dq @ ''$}'' @ sq @ '';'',
     '';'', '';'', '';'', '';'', '';'', '';'', '';'', '';'', '';'', '';'',
     ''{'', '';'', '';'', ''#'', '';'', '';'', '';'', ''}'',
     ''{'', '';'', '';'', '';'', '';'', '';'', '';'', ''{'', ''#'', '';'', '';'', '';'', '';'', dq @ dq @ '';'', ''$;'',
     '';'', '';'', '';'', '';'', '';'', '';'', ''}'', ''}'', ''}'']"

text \<open>
  C7: generated NGINX text cannot be altered through an option value: its line ends, braces, quotes,
  semicolons, comment and variable marks are those of the template, for every accepted configuration.
\<close>

theorem ing_nginx_config_no_injection:
  assumes "ing_nginx_config o' = Inr t"
  shows "skeleton t = unlines nginx_skeleton"
proof -
  have valid: "ing_validate o' = Inr ()" using assms by (auto simp: ing_nginx_config_def py_ok)
  obtain a b where t: "t = unlines (nginx_head o' @
      nginx_upstream o' (endpoint_text (i_origin_address o') (i_origin_port o') a) @
      nginx_server o' (endpoint_text (i_listen_address o') (i_listen_port o') b))"
    using ing_nginx_config_ok [OF valid] assms by (metis sum.inject(2))
  have "skeleton t = unlines (map skeleton (nginx_head o' @
      nginx_upstream o' (endpoint_text (i_origin_address o') (i_origin_port o') a) @
      nginx_server o' (endpoint_text (i_listen_address o') (i_listen_port o') b)))"
    unfolding t by (simp only: skeleton_unlines) (simp add: unlines_def comp_def)
  then show ?thesis
    using ing_texts_plain [OF valid]
    by (simp add: nginx_skeleton_def nginx_head_skeleton nginx_upstream_skeleton nginx_server_skeleton skeleton_endpoint)
qed

theorem ing_nginx_config_no_injection_witness:
  "\<exists>t. ing_nginx_config sample_ing = Inr t \<and> skeleton t = unlines nginx_skeleton"
proof -
  obtain t where t: "ing_nginx_config sample_ing = Inr t"
    using ing_nginx_config_ok [OF sample_ing_valid] by blast
  then show ?thesis using ing_nginx_config_no_injection [OF t] by blast
qed

section \<open>The bundle on disk\<close>

lemma ing_write_bundle_cases:
  assumes "ing_write_bundle fr env o' c w = (r, w')"
  obtains (kept) "\<not> returns r" and "w' = w"
  | (created) d where "make_output w = Inr d" and "\<not> returns r" and "w' = Present d"
  | (wrote) files d d' where "ing_validate o' = Inr ()" and "ing_files fr o' c = Inr files"
      and "make_output w = Inr d"
      and "run_ops env 0 (map make_dir ing_dirs @ create_ops files) d = (r, d')" and "w' = Present d'"
proof (cases "ing_validate o'")
  case (Inl e)
  with assms have "(Inl e, w) = (r, w')" by (simp add: ing_write_bundle_def)
  then show ?thesis by (intro kept) auto
next
  case valid: (Inr u)
  show ?thesis
  proof (cases "make_output w")
    case (Inl e)
    with assms valid have "(Inl e, w) = (r, w')" by (simp add: ing_write_bundle_def)
    then show ?thesis by (intro kept) auto
  next
    case dir: (Inr d)
    with assms valid show ?thesis
      using created [of d] wrote [of _ d]
      by (auto simp: ing_write_bundle_def split: sum.splits prod.splits if_splits)
  qed
qed

lemma make_output_Present [simp]: "make_output (Present d) = Inr d'' \<longleftrightarrow> d'' = d"
  by auto

lemma bundle_ops_keep:
  assumes "env_adds env" and "run_ops env 0 (map make_dir ns @ create_ops files) d = (r, d')"
  shows "d \<subseteq>\<^sub>m d'"
proof -
  obtain r1 d1 where d1: "run_ops env 0 (map make_dir ns) d = (r1, d1)" by fastforce
  have "d \<subseteq>\<^sub>m d1" by (rule run_make_dirs_keep [OF assms(1) d1])
  moreover have "d1 \<subseteq>\<^sub>m d'"
    using assms(2) d1 files.run_creates_keep [OF assms(1), of "length ns" files d1 r d']
    by (auto simp: run_ops_append create_ops_def split: sum.splits)
  ultimately show ?thesis by (rule map_le_trans)
qed

text \<open>
  Writing an ingress bundle never changes or removes an entry that is already in the output
  directory, whatever its outcome and whatever other processes add while it runs.
\<close>

theorem ing_write_bundle_keeps_entries:
  assumes "env_adds env" and "ing_write_bundle fr env o' c (Present d) = (r, w')"
  shows "\<exists>d'. w' = Present d' \<and> d \<subseteq>\<^sub>m d'"
  using assms(2)
proof (cases rule: ing_write_bundle_cases)
  case (wrote files d0 d')
  then show ?thesis using bundle_ops_keep [OF assms(1) wrote(4)] by simp
qed auto

theorem ing_write_bundle_keeps_entries_witness:
  "\<exists>r w' d'. ing_write_bundle (\<lambda>_. []) racing_env sample_ing None (Present [''nginx.conf'' \<mapsto> File ''keep'']) = (r, w') \<and>
     w' = Present d' \<and> [''nginx.conf'' \<mapsto> File ''keep''] \<subseteq>\<^sub>m d'"
proof -
  obtain r w' where w': "ing_write_bundle (\<lambda>_. []) racing_env sample_ing None (Present [''nginx.conf'' \<mapsto> File ''keep'']) = (r, w')"
    by fastforce
  then show ?thesis using ing_write_bundle_keeps_entries [OF racing_env_adds w'] by blast
qed

text \<open>
  A bundle that is reported as written holds the validated NGINX configuration, the SYN policer
  for the same listener, the command that removes its table, the limits with the derived budgets,
  and the captured origin configuration when one was given.
\<close>

theorem ing_write_bundle_contents:
  assumes "env_adds env" and "ing_write_bundle fr env o' c w = (Inr u, w')"
  shows "\<exists>d' nginx nft. w' = Present d' \<and> ing_nginx_config o' = Inr nginx \<and>
    conn_nft_config (ing_conn_options o') = Inr nft \<and>
    d' ''nginx.conf'' = Some (File nginx) \<and> d' ''connections.nft'' = Some (File nft) \<and>
    d' ''remove-connections.nft'' = Some (File (delete_table (i_table o'))) \<and>
    d' ''limits.json'' = Some (File (json_dumps fr (VDict (ing_limits o')) @ [newline])) \<and>
    (\<forall>j. c = Some j \<longrightarrow> d' ''origin-config.json'' = Some (File (json_dumps fr j @ [newline])))"
  using assms(2)
proof (cases rule: ing_write_bundle_cases)
  case (wrote files d d')
  obtain nginx nft where texts: "ing_nginx_config o' = Inr nginx" "conn_nft_config (ing_conn_options o') = Inr nft"
    and files: "set files = {(''nginx.conf'', nginx), (''connections.nft'', nft),
      (''remove-connections.nft'', delete_table (i_table o')),
      (''limits.json'', json_dumps fr (VDict (ing_limits o')) @ [newline])} \<union>
      (case c of None \<Rightarrow> {} | Some j \<Rightarrow> {(''origin-config.json'', json_dumps fr j @ [newline])})"
    using wrote(2) by (auto simp: ing_files_def ing_nft_config_def py_ok split: option.splits)
  obtain d1 where "run_ops env (length (map make_dir ing_dirs)) (create_ops files) d1 = (Inr u, d')"
    using wrote(4) by (auto simp: run_ops_append split: prod.splits sum.splits)
  then have "d' n = Some (File b)" if "(n, b) \<in> set files" for n b
    using files.run_creates_written [OF assms(1) _ that] by (auto simp: create_ops_def)
  then show ?thesis using texts files wrote(5) by auto
qed simp_all

lemma sample_ing_written:
  "\<exists>w'. ing_write_bundle (\<lambda>_. []) no_env sample_ing None Missing = (Inr (), w')"
proof -
  obtain nginx nft where files: "ing_files (\<lambda>_. []) sample_ing None = Inr [(''nginx.conf'', nginx), (''connections.nft'', nft),
      (''remove-connections.nft'', delete_table (i_table sample_ing)),
      (''limits.json'', json_dumps (\<lambda>_. []) (VDict (ing_limits sample_ing)) @ [newline])]" (is "_ = Inr ?files")
    using ing_configs_exist [OF sample_ing_valid] by (fastforce simp: ing_files_def)
  have dirs: "run_ops no_env 0 (map make_dir ing_dirs) Map.empty =
      (Inr (), [''logs'' \<mapsto> Directory, ''body_temp'' \<mapsto> Directory, ''proxy_temp'' \<mapsto> Directory])"
    by (simp add: ing_dirs_def make_dir_def no_env_def)
  have "fst (run_ops no_env (Suc (Suc (Suc 0))) (create_ops ?files)
      [''logs'' \<mapsto> Directory, ''body_temp'' \<mapsto> Directory, ''proxy_temp'' \<mapsto> Directory]) = Inr ()"
    unfolding create_ops_def by (rule files.run_creates_succeed) (use create_exclusive_progress in auto)
  then have "fst (run_ops no_env 0 (map make_dir ing_dirs @ create_ops ?files) Map.empty) = Inr ()"
    by (simp add: run_ops_append dirs) (simp add: ing_dirs_def)
  then show ?thesis
    by (auto simp: ing_write_bundle_def sample_ing_valid files path_exists_def entry_exists_def split: prod.split)
qed

theorem ing_write_bundle_contents_witness:
  "\<exists>d' nginx. ing_write_bundle (\<lambda>_. []) no_env sample_ing None Missing = (Inr (), Present d') \<and>
     ing_nginx_config sample_ing = Inr nginx \<and> d' ''nginx.conf'' = Some (File nginx)"
proof -
  have env: "env_adds no_env" by (simp add: env_adds_def no_env_def)
  obtain w' where w': "ing_write_bundle (\<lambda>_. []) no_env sample_ing None Missing = (Inr (), w')"
    using sample_ing_written by blast
  then show ?thesis using ing_write_bundle_contents [OF env w'] by auto
qed

section \<open>The captured origin configuration\<close>

lemma merge_field_ok:
  "merge_field f a c = Inr r \<longleftrightarrow>
     (a = None \<or> c = None \<or> a = c) \<and> r = (if a = None then c else a)"
  by (auto simp: merge_field_def)

text \<open>
  When an origin snapshot is given, the effective options carry its worker count, slot count and
  active-request limit, and an explicit argument that disagrees with the snapshot is refused, so the
  generated budgets always describe the captured origin.
\<close>

theorem ing_effective_options_snapshot:
  assumes "ing_effective_options a = Inr o'" and "a_origin_config a = Some (VDict d)"
    and "map_of d ''workers'' = Some (VInt w)" and "map_of d ''max_connections'' = Some (VInt s)"
    and "map_of d ''admission'' = Some (VDict adm)" and "map_of adm ''max_active'' = Some (VInt m)"
  shows "i_origin_workers o' = w \<and> i_origin_slots o' = s \<and> i_origin_active_per_worker o' = Some m \<and>
    a_origin_workers a \<in> {None, Some w} \<and> a_origin_slots a \<in> {None, Some s} \<and> a_origin_active a \<in> {None, Some m}"
  using assms
  by (auto simp: ing_effective_options_def ing_merge_def py_ok json_int_def dict_get_def merge_field_ok
      split: option.splits if_splits)

definition sample_args :: ing_arguments where
  "sample_args = \<lparr>a_options = sample_ing, a_origin_workers = Some 4, a_origin_slots = None, a_origin_active = None,
     a_origin_config = Some (VDict [(''workers'', VInt 4), (''max_connections'', VInt 256),
       (''admission'', VDict [(''max_active'', VInt 128)])])\<rparr>"

theorem ing_effective_options_snapshot_witness:
  "ing_effective_options sample_args =
     Inr (sample_ing\<lparr>i_origin_workers := 4, i_origin_slots := 256, i_origin_active_per_worker := Some 128\<rparr>) \<and>
   i_origin_slots (sample_ing\<lparr>i_origin_workers := 4, i_origin_slots := 256, i_origin_active_per_worker := Some 128\<rparr>) = 256"
proof -
  have eff: "ing_effective_options sample_args =
     Inr (sample_ing\<lparr>i_origin_workers := 4, i_origin_slots := 256, i_origin_active_per_worker := Some 128\<rparr>)"
    by code_simp
  show ?thesis
    using ing_effective_options_snapshot [OF eff, of "[(''workers'', VInt 4), (''max_connections'', VInt 256),
       (''admission'', VDict [(''max_active'', VInt 128)])]" 4 256 "[(''max_active'', VInt 128)]" 128] eff
    by (simp add: sample_args_def)
qed

end
