(* ===== verification/Worker_Cpus.thy ===== *)
theory Worker_Cpus
  imports Py_Files Py_Value
begin

text \<open>
  \<open>deploy/worker_cpus.py\<close>: the choice of worker CPUs from the topology of a network interface, and
  the optional launch of the server with it.  The kernel's \<open>/sys\<close> and \<open>/proc\<close> are a \<open>tree\<close>, a
  parameter; Python's sets of CPU numbers are finite HOL sets, and a loop over such a set visits it
  in increasing order (the program does not depend on the order, except for which of several
  possible errors is reported first).
\<close>

section \<open>The kernel's file trees\<close>

record tree =
  t_read :: "string \<Rightarrow> string option"
  t_is_dir :: "string \<Rightarrow> bool"
  t_names :: "string \<Rightarrow> string list"

definition slash :: "string \<Rightarrow> string \<Rightarrow> string" where
  "slash p q = p @ ''/'' @ q"

definition read_text :: "tree \<Rightarrow> string \<Rightarrow> string res" where
  "read_text fs p = of_option (OSError p) (t_read fs p)"

definition tree_exists :: "tree \<Rightarrow> string \<Rightarrow> bool" where
  "tree_exists fs p \<longleftrightarrow> t_read fs p \<noteq> None \<or> t_is_dir fs p"

definition glob_prefix :: "tree \<Rightarrow> string \<Rightarrow> string \<Rightarrow> string list" where
  "glob_prefix fs p pre = filter (\<lambda>n. startswith n pre) (t_names fs p)"

section \<open>CPU lists\<close>

definition cpu_part :: "string \<Rightarrow> string \<Rightarrow> int set \<Rightarrow> int set res" where
  "cpu_part txt part cpus =
     (if part = [] then Inr cpus
      else (case split_on CHR ''-'' part of
          [a] \<Rightarrow> bindE (py_int a) (\<lambda>n. Inr (insert n cpus))
        | [a, b] \<Rightarrow> bindE (py_int a) (\<lambda>x. bindE (py_int b) (\<lambda>y.
            if x \<le> y then Inr (cpus \<union> {x..y})
            else Inl (ValueError (''invalid CPU list: '' @ txt))))
        | _ \<Rightarrow> Inl (ValueError (''invalid CPU list: '' @ txt))))"

definition cpu_list :: "string \<Rightarrow> int set res" where
  "cpu_list txt = foldE (cpu_part txt) (split_on CHR '','' (strip txt)) {}"

text \<open>\<open>int(text, 16)\<close>: white space, a sign, an optional \<open>0x\<close> and single underscores are accepted.\<close>

fun hex_us :: "int \<Rightarrow> string \<Rightarrow> int option" where
  "hex_us n [] = Some n"
| "hex_us n (c # cs) =
     (if is_hex c then hex_us (16 * n + hex_val c) cs
      else if c = CHR ''_'' \<and> cs \<noteq> [] \<and> is_hex (hd cs) then hex_us n cs
      else None)"

definition hex_nat :: "string \<Rightarrow> int option" where
  "hex_nat s =
     (let t = (if startswith s ''0x'' \<or> startswith s ''0X''
               then (if drop 2 s \<noteq> [] \<and> hd (drop 2 s) = CHR ''_'' then drop 3 s else drop 2 s) else s)
      in if t \<noteq> [] \<and> is_hex (hd t) then hex_us 0 t else None)"

definition hex_int :: "string \<Rightarrow> int res" where
  "hex_int s =
     (let t = strip s in
      of_option (ValueError ''invalid literal for int() with base 16'')
        (if t \<noteq> [] \<and> hd t = CHR ''-'' then map_option uminus (hex_nat (tl t))
         else if t \<noteq> [] \<and> hd t = CHR ''+'' then hex_nat (tl t)
         else hex_nat t))"

section \<open>Reading the topology\<close>

definition worker_iface_char :: "char \<Rightarrow> bool" where
  "worker_iface_char c \<longleftrightarrow>
     is_alpha c \<or> is_digit c \<or> c \<in> {CHR ''_'', CHR ''.'', CHR '':'', CHR ''-''}"

definition worker_iface :: "string \<Rightarrow> bool" where
  "worker_iface s \<longleftrightarrow> s \<noteq> [] \<and> (is_alpha (hd s) \<or> is_digit (hd s) \<or> hd s = CHR ''_'') \<and>
     list_all worker_iface_char s"

definition check_rps :: "tree \<Rightarrow> string \<Rightarrow> string \<Rightarrow> unit res" where
  "check_rps fs nic queue =
     (let rps = slash (slash (slash nic ''queues'') queue) ''rps_cpus'' in
      if tree_exists fs rps
      then bindE (read_text fs rps) (\<lambda>txt.
           bindE (hex_int (filter (\<lambda>c. c \<noteq> CHR '','') (strip txt))) (\<lambda>mask.
           ensure (mask = 0)
             (ValueError ''RPS is enabled; measure its processing CPUs before choosing an explicit mapping'')))
      else Inr ())"

definition nic_irqs :: "tree \<Rightarrow> string \<Rightarrow> int list res" where
  "nic_irqs fs nic =
     bindE (mapE py_int (glob_prefix fs (slash nic ''device/msi_irqs'') [])) (\<lambda>irqs.
       if irqs \<noteq> [] then Inr (sort irqs)
       else (let irq_file = slash nic ''device/irq'' in
             if tree_exists fs irq_file
             then bindE (bindE (read_text fs irq_file) py_int) (\<lambda>n. Inr (if n > 0 then [n] else []))
             else Inr []))"

definition irq_effective :: "tree \<Rightarrow> string \<Rightarrow> int set \<Rightarrow> int list \<Rightarrow> (string \<times> int list) list res" where
  "irq_effective fs procfs online irqs =
     foldE (\<lambda>irq eff.
         bindE (read_text fs (procfs @ ''/irq/'' @ str_of_int irq @ ''/effective_affinity_list'')) (\<lambda>txt.
         bindE (cpu_list txt) (\<lambda>cpus.
         if cpus \<inter> online = {} then Inl (ValueError (''IRQ '' @ str_of_int irq @ '' has no effective online CPU''))
         else Inr (dict_set (str_of_int irq) (sorted_list_of_set (cpus \<inter> online)) eff))))
       irqs []"

definition cpu_dir :: "string \<Rightarrow> int \<Rightarrow> string" where
  "cpu_dir cpu_root cpu = cpu_root @ ''/cpu'' @ str_of_int cpu"

definition siblings :: "tree \<Rightarrow> string \<Rightarrow> int \<Rightarrow> int set res" where
  "siblings fs cpu_root cpu =
     bindE (read_text fs (cpu_dir cpu_root cpu @ ''/topology/thread_siblings_list'')) cpu_list"

fun l3_search :: "tree \<Rightarrow> int \<Rightarrow> string list \<Rightarrow> int set res" where
  "l3_search fs cpu [] = Inl (ValueError (''CPU '' @ str_of_int cpu @ '' has no exposed L3 topology''))"
| "l3_search fs cpu (cache # caches) =
     bindE (read_text fs (slash cache ''level'')) (\<lambda>level.
       if strip level = ''3'' then bindE (read_text fs (slash cache ''shared_cpu_list'')) cpu_list
       else l3_search fs cpu caches)"

definition l3 :: "tree \<Rightarrow> string \<Rightarrow> int \<Rightarrow> int set res" where
  "l3 fs cpu_root cpu =
     (let d = slash (cpu_dir cpu_root cpu) ''cache'' in
      l3_search fs cpu (map (slash d) (sort (glob_prefix fs d ''index''))))"

section \<open>Spreading workers over cache domains\<close>

text \<open>
  One pass of the inner loop over the groups: the list selected so far, the CPUs in use and the flag
  \<open>advanced\<close>.  The pass stops as soon as enough workers are placed.
\<close>

fun spread_pass ::
  "(int \<Rightarrow> int set res) \<Rightarrow> int \<Rightarrow> int list list \<Rightarrow> int list \<times> int set \<times> bool
     \<Rightarrow> (int list \<times> int set \<times> bool) res" where
  "spread_pass sib workers [] st = Inr st"
| "spread_pass sib workers (cores # groups) (selected, used, advanced) =
     (case find (\<lambda>cpu. cpu \<notin> used) cores of
        None \<Rightarrow> spread_pass sib workers groups (selected, used, advanced)
      | Some cpu \<Rightarrow>
          bindE (sib cpu) (\<lambda>s.
            if int (length (selected @ [cpu])) = workers then Inr (selected @ [cpu], used \<union> s, True)
            else spread_pass sib workers groups (selected @ [cpu], used \<union> s, True)))"

lemma spread_pass_advances:
  assumes "spread_pass sib workers groups (selected, used, adv) = Inr (selected', used', adv')"
  shows "length selected \<le> length selected' \<and> (adv' \<longrightarrow> adv \<or> length selected < length selected')"
  using assms
proof (induction groups arbitrary: selected used adv)
  case (Cons cores groups)
  then show ?case by (fastforce simp: bindE_eq_Inr split: option.splits if_splits)
qed auto

function (sequential) spread ::
  "(int \<Rightarrow> int set res) \<Rightarrow> int \<Rightarrow> int list list \<Rightarrow> int list \<Rightarrow> int set \<Rightarrow> int list res" where
  "spread sib workers groups selected used =
     (if int (length selected) < workers
      then bindE (spread_pass sib workers groups (selected, used, False)) (\<lambda>st.
             case st of (selected', used', advanced) \<Rightarrow>
               if advanced then spread sib workers groups selected' used'
               else Inl (ValueError (''only '' @ str_of_int (int (length selected')) @
                      '' allowed physical cores share IRQ L3 caches; requested '' @ str_of_int workers)))
      else Inr selected)"
  by pat_completeness auto
termination
proof (relation "measure (\<lambda>(_, workers, _, selected, _). nat (workers - int (length selected)))")
  fix sib :: "int \<Rightarrow> int set res" and workers groups selected used st selected' rest used' advanced
  assume "int (length selected) < workers"
    and "spread_pass sib workers groups (selected, used, False) = Inr st"
    and "(selected', rest) = st" and "(used', advanced) = rest" and "advanced"
  then show "((sib, workers, groups, selected', used'), sib, workers, groups, selected, used)
      \<in> measure (\<lambda>(_, workers, _, selected, _). nat (workers - int (length selected)))"
    using spread_pass_advances [of sib workers groups selected used False selected' used' advanced] by auto
qed simp

declare spread.simps [simp del]

section \<open>Suggestion\<close>

definition candidate_cpus :: "int set \<Rightarrow> int set \<Rightarrow> int set \<Rightarrow> int set" where
  "candidate_cpus allowed online excluded = allowed \<inter> online \<inter> ({0..<1024} - excluded)"

lemma candidate_cpus_code [code]:
  "candidate_cpus allowed online excluded =
     Set.filter (\<lambda>c. c \<in> online \<and> 0 \<le> c \<and> c < 1024 \<and> c \<notin> excluded) allowed"
  by (auto simp: candidate_cpus_def)

record suggestion =
  s_interface :: string
  s_irq_affinity :: "(string \<times> int list) list"
  s_excluded_irq_siblings :: "int list"
  s_allowed_online_cpus :: "int list"
  s_worker_cpus :: "int list"
  s_arguments :: "string list"

definition suggest :: "tree \<Rightarrow> string \<Rightarrow> int \<Rightarrow> int set \<Rightarrow> string \<Rightarrow> string \<Rightarrow> suggestion res" where
  "suggest fs interface workers allowed sysfs procfs =
     seqE (ensure (worker_iface interface) (ValueError ''invalid interface name''))
    (seqE (ensure (1 \<le> workers \<and> workers \<le> 256) (ValueError ''workers must be between 1 and 256''))
    (let nic = slash (slash sysfs ''class/net'') interface in
     seqE (ensure (t_is_dir fs nic) (ValueError (''interface '' @ interface @ '' does not exist'')))
    (seqE (forE (check_rps fs nic) (glob_prefix fs (slash nic ''queues'') ''rx-''))
    (bindE (nic_irqs fs nic) (\<lambda>irqs.
     seqE (ensure (irqs \<noteq> []) (ValueError ''no physical NIC IRQs found; use an explicit mapping for virtual interfaces''))
    (let cpu_root = slash sysfs ''devices/system/cpu'' in
     bindE (bindE (read_text fs (slash cpu_root ''online'')) cpu_list) (\<lambda>online.
     bindE (irq_effective fs procfs online irqs) (\<lambda>effective.
     let irq_cpus = \<Union> (set (map (\<lambda>e. set (snd e)) effective)) in
     bindE (mapE (siblings fs cpu_root) (sorted_list_of_set irq_cpus)) (\<lambda>sibs.
     let excluded = \<Union> (set sibs) in
     bindE (mapE (l3 fs cpu_root) (sorted_list_of_set irq_cpus)) (\<lambda>l3s.
     seqE (ensure ({} \<notin> set l3s) (ValueError ''min() arg is an empty sequence''))
    (let domains = sort_key Min (distinct_list l3s);
         candidates = candidate_cpus allowed online excluded;
         groups = map (\<lambda>domain. sorted_list_of_set (domain \<inter> candidates)) domains in
     bindE (spread (siblings fs cpu_root) workers groups [] excluded) (\<lambda>selected.
     Inr \<lparr>s_interface = interface, s_irq_affinity = effective,
          s_excluded_irq_siblings = sorted_list_of_set excluded,
          s_allowed_online_cpus = sorted_list_of_set (allowed \<inter> online),
          s_worker_cpus = selected,
          s_arguments = [''--workers'', str_of_int workers, ''--worker-cpus'',
                         join '','' (map str_of_int selected)]\<rparr>))))))))))))"

section \<open>Launching\<close>

definition launch_arguments :: "suggestion \<Rightarrow> string \<Rightarrow> string list \<Rightarrow> string list res" where
  "launch_arguments result executable arguments =
     (let arguments' = (if take 1 arguments = [''--''] then tl arguments else arguments) in
      seqE (forE (\<lambda>argument.
              ensure (fst (partition_on CHR ''='' argument) \<notin> {''--workers'', ''--worker-cpus''})
                (ValueError ''set worker count on the launcher; worker mapping comes from NIC topology''))
            arguments')
        (Inr (executable # s_arguments result @ arguments')))"

record worker_args =
  w_interface :: string
  w_workers :: int
  w_json :: bool
  w_executable :: "string option"
  w_arguments :: "string list"

datatype worker_outcome = Usage_error string | Exec string "string list" | Printed string | Uncaught exn

definition suggestion_json :: "suggestion \<Rightarrow> val" where
  "suggestion_json s = VDict
     [(''interface'', VStr (s_interface s)),
      (''irq_affinity'', VDict (map (\<lambda>(k, v). (k, VList (map VInt v))) (s_irq_affinity s))),
      (''excluded_irq_siblings'', VList (map VInt (s_excluded_irq_siblings s))),
      (''allowed_online_cpus'', VList (map VInt (s_allowed_online_cpus s))),
      (''worker_cpus'', VList (map VInt (s_worker_cpus s))),
      (''arguments'', VList (map VStr (s_arguments s)))]"

text \<open>
  \<open>main\<close> after argument parsing: \<open>affinity\<close> is \<open>os.sched_getaffinity(0)\<close>, and \<open>exec_ok\<close> says whether
  \<open>os.execvp\<close> replaces the process (it raises \<open>OSError\<close> otherwise).
\<close>

definition worker_main ::
  "(rat \<Rightarrow> string) \<Rightarrow> tree \<Rightarrow> int set \<Rightarrow> (string \<Rightarrow> bool) \<Rightarrow> worker_args \<Rightarrow> worker_outcome" where
  "worker_main fr fs affinity exec_ok args =
     (let exe = (case w_executable args of None \<Rightarrow> [] | Some e \<Rightarrow> e) in
      if w_json args \<and> exe \<noteq> [] then Usage_error ''--json and --exec are mutually exclusive''
      else if w_arguments args \<noteq> [] \<and> exe = [] then Usage_error ''server arguments require --exec''
      else (case bindE (suggest fs (w_interface args) (w_workers args) affinity ''/sys'' ''/proc'') (\<lambda>result.
              if exe \<noteq> []
              then bindE (launch_arguments result exe (w_arguments args)) (\<lambda>command.
                     if exec_ok exe then Inr (Exec exe command) else Inl (OSError exe))
              else Inr (Printed (if w_json args then json_dumps fr (suggestion_json result)
                                 else join '' '' (s_arguments result)))) of
          Inl (ValueError m) \<Rightarrow> Usage_error m
        | Inl (OSError m) \<Rightarrow> Usage_error m
        | Inl e \<Rightarrow> Uncaught e
        | Inr out \<Rightarrow> out))"

section \<open>The spreading loop\<close>

text \<open>
  What holds of the selection at every step: the selected CPUs are distinct members of the groups,
  none was excluded at the start, and none is an SMT sibling of one selected before it; every CPU of
  the initial exclusion and every sibling of a selected CPU is in use.
\<close>

definition spread_inv :: "(int \<Rightarrow> int set res) \<Rightarrow> int set \<Rightarrow> int set \<Rightarrow> int list \<Rightarrow> int set \<Rightarrow> bool" where
  "spread_inv sib pool excluded selected used \<longleftrightarrow>
     set selected \<subseteq> pool - excluded \<and> excluded \<subseteq> used \<and>
     (\<forall>c \<in> set selected. \<exists>s. sib c = Inr s \<and> s \<subseteq> used) \<and>
     (\<forall>i < length selected. \<forall>j < i. \<forall>s. sib (selected ! j) = Inr s \<longrightarrow> selected ! i \<notin> s) \<and>
     used \<subseteq> excluded \<union> (\<Union>c \<in> set selected. \<Union>s \<in> {s. sib c = Inr s}. s)"

lemma spread_inv_step:
  assumes inv: "spread_inv sib pool excluded selected used"
    and cpu: "cpu \<in> pool" "cpu \<notin> used" and s: "sib cpu = Inr s"
  shows "spread_inv sib pool excluded (selected @ [cpu]) (used \<union> s)"
proof -
  have known: "\<exists>r. sib c = Inr r \<and> r \<subseteq> used" if "c \<in> set selected" for c
    using inv that by (simp add: spread_inv_def)
  have fresh: "cpu \<notin> r" if "j < length selected" "sib (selected ! j) = Inr r" for j r
    using known [OF nth_mem [OF that(1)]] that(2) cpu(2) by auto
  have old: "selected ! i \<notin> r" if "i < length selected" "j < i" "sib (selected ! j) = Inr r" for i j r
    using inv that by (simp add: spread_inv_def)
  have "(selected @ [cpu]) ! i \<notin> r"
    if "i < length (selected @ [cpu])" "j < i" "sib ((selected @ [cpu]) ! j) = Inr r" for i j r
  proof (cases "i = length selected")
    case True
    then show ?thesis using fresh [of j r] that by (simp add: nth_append)
  next
    case False
    then show ?thesis using old [of i j r] that by (simp add: nth_append)
  qed
  moreover have "\<exists>r. sib c = Inr r \<and> r \<subseteq> used \<union> s" if "c \<in> set (selected @ [cpu])" for c
    using that known [of c] s by (cases "c = cpu") auto
  moreover have "set (selected @ [cpu]) \<subseteq> pool - excluded" "excluded \<subseteq> used \<union> s"
    using inv cpu by (auto simp: spread_inv_def)
  moreover have "used \<union> s \<subseteq> excluded \<union> (\<Union>c \<in> set (selected @ [cpu]). \<Union>s \<in> {s. sib c = Inr s}. s)"
  proof -
    have "used \<subseteq> excluded \<union> (\<Union>c \<in> set selected. \<Union>s \<in> {s. sib c = Inr s}. s)"
      using inv by (simp add: spread_inv_def)
    then show ?thesis using s by auto
  qed
  ultimately show ?thesis unfolding spread_inv_def by blast
qed

lemma spread_pass_inv:
  assumes "spread_pass sib workers groups (selected, used, adv) = Inr (selected', used', adv')"
    and "spread_inv sib pool excluded selected used" and "\<Union> (set ` set groups) \<subseteq> pool"
    and "int (length selected) < workers"
  shows "spread_inv sib pool excluded selected' used' \<and> int (length selected') \<le> workers"
  using assms
proof (induction groups arbitrary: selected used adv)
  case (Cons cores groups)
  show ?case
  proof (cases "find (\<lambda>cpu. cpu \<notin> used) cores")
    case None
    then show ?thesis using Cons.prems Cons.IH [of selected used adv] by simp
  next
    case (Some cpu)
    then have cpu: "cpu \<in> pool" "cpu \<notin> used" using Cons.prems(3) by (auto simp: find_Some_iff)
    obtain s where s: "sib cpu = Inr s" using Cons.prems(1) Some by (auto simp: bindE_eq_Inr)
    have "spread_inv sib pool excluded (selected @ [cpu]) (used \<union> s)"
      by (rule spread_inv_step [OF Cons.prems(2) cpu s])
    then show ?thesis using Cons.prems Cons.IH [of "selected @ [cpu]" "used \<union> s" True] Some s
      by (auto split: if_splits)
  qed
qed auto

lemma spread_pass_stuck:
  assumes "spread_pass sib workers groups (selected, used, False) = Inr (selected', used', False)"
  shows "selected' = selected \<and> used' = used \<and> \<Union> (set ` set groups) \<subseteq> used"
  using assms
proof (induction groups)
  case (Cons cores groups)
  have mono: "adv'" if "spread_pass sib workers gs (sel, us, True) = Inr (sel', us', adv')" for gs sel us sel' us' adv'
    using that by (induction gs arbitrary: sel us) (auto simp: bindE_eq_Inr split: option.splits if_splits)
  have none: "find (\<lambda>cpu. cpu \<notin> used) cores = None"
    using Cons.prems by (auto simp: bindE_eq_Inr split: option.splits if_splits dest: mono)
  then have "set cores \<subseteq> used" by (auto simp: find_None_iff)
  then show ?case using Cons none by simp
qed auto

lemma spread_sound:
  assumes "spread sib workers groups selected used = Inr selected'"
    and "spread_inv sib pool excluded selected used" and "\<Union> (set ` set groups) \<subseteq> pool"
    and "int (length selected) \<le> workers"
  shows "(\<exists>used'. spread_inv sib pool excluded selected' used') \<and> int (length selected') = workers"
  using assms
proof (induction sib workers groups selected used rule: spread.induct)
  case (1 sib workers groups selected used)
  show ?case
  proof (cases "int (length selected) < workers")
    case True
    then obtain sel us where pass: "spread_pass sib workers groups (selected, used, False) = Inr (sel, us, True)"
      and rest: "spread sib workers groups sel us = Inr selected'"
      using "1.prems"(1) by (auto simp: spread.simps [of sib workers groups selected] bindE_eq_Inr split: if_splits)
    then show ?thesis
      using "1.IH" [OF True pass refl refl _ rest] spread_pass_inv [OF pass "1.prems"(2,3) True] "1.prems"(3) by simp
  next
    case False
    then show ?thesis using "1.prems" by (auto simp: spread.simps [of sib workers groups selected])
  qed
qed

lemma spread_complete_aux:
  assumes "spread sib workers groups selected used = Inl e"
    and "spread_inv sib pool excluded selected used" and "\<Union> (set ` set groups) \<subseteq> pool"
    and "\<forall>c \<in> pool. returns (sib c)"
  shows "\<exists>selected' used'. spread_inv sib pool excluded selected' used' \<and> int (length selected') < workers \<and>
    \<Union> (set ` set groups) \<subseteq> used' \<and>
    e = ValueError (''only '' @ str_of_int (int (length selected')) @
          '' allowed physical cores share IRQ L3 caches; requested '' @ str_of_int workers)"
  using assms
proof (induction sib workers groups selected used rule: spread.induct)
  case (1 sib workers groups selected used)
  have reads: "spread_pass sib workers gs (sel, us, adv) \<noteq> Inl e'" if "\<Union> (set ` set gs) \<subseteq> pool" for gs sel us adv e'
    using that
  proof (induction gs arbitrary: sel us adv)
    case (Cons cores gs)
    have "sib c \<noteq> Inl e'" if "find p cores = Some c" for p c
      using that Cons.prems "1.prems"(4) by (fastforce simp: find_Some_iff returns_iff dest: nth_mem)
    then show ?case using Cons by (auto simp: bindE_eq_Inl split: option.splits)
  qed auto
  have more: "int (length selected) < workers"
    using "1.prems"(1) by (auto simp: spread.simps [of sib workers groups selected] split: if_splits)
  obtain sel us adv where pass: "spread_pass sib workers groups (selected, used, False) = Inr (sel, us, adv)"
    using reads [OF "1.prems"(3)] by (metis old.sum.exhaust prod.exhaust)
  show ?case
  proof (cases adv)
    case True
    then have "spread sib workers groups sel us = Inl e"
      using "1.prems"(1) more pass by (simp add: spread.simps [of sib workers groups selected])
    then show ?thesis
      using "1.IH" [OF more pass refl refl True] spread_pass_inv [OF pass "1.prems"(2,3) more] "1.prems"(3,4) by simp
  next
    case False
    then show ?thesis
      using "1.prems" more pass spread_pass_stuck [of sib workers groups selected used sel us]
      by (auto simp: spread.simps [of sib workers groups selected])
  qed
qed

definition reported :: "exn \<Rightarrow> bool" where
  "reported e \<longleftrightarrow> (\<exists>m. e = ValueError m \<or> e = OSError m)"

lemma reported_simps [simp]: "reported (ValueError m)" "reported (OSError m)"
  by (auto simp: reported_def)

lemma raises_only_py_int [raises_intro]: "raises_only reported (py_int s)"
  unfolding py_int_def by (intro raises_intro) simp

lemma raises_only_cpu_list [raises_intro]: "raises_only reported (cpu_list s)"
  unfolding cpu_list_def cpu_part_def
  by (auto intro!: raises_intro split: list.split)

lemma raises_only_read_text [raises_intro]: "raises_only reported (read_text fs p)"
  unfolding read_text_def by (intro raises_intro) simp

lemma raises_only_siblings [raises_intro]: "raises_only reported (siblings fs r c)"
  unfolding siblings_def by (intro raises_intro)

lemma raises_only_l3_search [raises_intro]: "raises_only reported (l3_search fs c ps)"
  by (induction ps) (auto intro!: raises_intro)

lemma raises_only_l3 [raises_intro]: "raises_only reported (l3 fs r c)"
  unfolding l3_def by (intro raises_intro)

lemma raises_only_spread_pass:
  "(\<And>c. raises_only P (sib c)) \<Longrightarrow> raises_only P (spread_pass sib w gs st)"
  by (induction sib w gs st rule: spread_pass.induct) (auto intro!: raises_intro split: option.split)

lemma raises_only_spread [raises_intro]:
  "(\<And>c. raises_only reported (sib c)) \<Longrightarrow> raises_only reported (spread sib w gs sel used)"
proof (induction sib w gs sel used rule: spread.induct)
  case (1 sib workers groups selected used)
  show ?case
    using 1 by (subst spread.simps) (auto intro!: raises_intro raises_only_spread_pass split: prod.split)
qed

lemma raises_only_hex_int [raises_intro]: "raises_only reported (hex_int s)"
  unfolding hex_int_def by (intro raises_intro) simp

lemma raises_only_suggest: "raises_only reported (suggest fs i w allowed sysfs procfs)"
  unfolding suggest_def check_rps_def nic_irqs_def irq_effective_def
  by (intro raises_intro) simp_all

section \<open>Correctness of a suggestion\<close>

lemma suggest_ok:
  assumes "suggest fs interface workers allowed sysfs procfs = Inr r"
  obtains online eff sibs l3s where
    "bindE (read_text fs (slash (slash sysfs ''devices/system/cpu'') ''online'')) cpu_list = Inr online"
    and "mapE (siblings fs (slash sysfs ''devices/system/cpu''))
          (sorted_list_of_set (\<Union> (set (map (\<lambda>e. set (snd e)) eff)))) = Inr sibs"
    and "mapE (l3 fs (slash sysfs ''devices/system/cpu''))
          (sorted_list_of_set (\<Union> (set (map (\<lambda>e. set (snd e)) eff)))) = Inr l3s"
    and "spread (siblings fs (slash sysfs ''devices/system/cpu'')) workers
          (map (\<lambda>domain. sorted_list_of_set (domain \<inter> candidate_cpus allowed online (\<Union> (set sibs))))
            (sort_key Min (distinct_list l3s))) [] (\<Union> (set sibs)) = Inr (s_worker_cpus r)"
    and "s_irq_affinity r = eff"
    and "s_arguments r = [''--workers'', str_of_int workers, ''--worker-cpus'',
          join '','' (map str_of_int (s_worker_cpus r))]"
    and "1 \<le> workers" and "workers \<le> 256"
    and "\<forall>q \<in> set (glob_prefix fs (slash (slash (slash sysfs ''class/net'') interface) ''queues'') ''rx-'').
          check_rps fs (slash (slash sysfs ''class/net'') interface) q = Inr ()"
  using assms unfolding suggest_def Let_def by (auto simp: py_ok)

lemma mapE_mem: "mapE f xs = Inr ys \<Longrightarrow> x \<in> set xs \<Longrightarrow> \<exists>y \<in> set ys. f x = Inr y"
  by (induction xs arbitrary: ys) (auto simp: bindE_eq_Inr)

lemma mapE_mem': "mapE f xs = Inr ys \<Longrightarrow> y \<in> set ys \<Longrightarrow> \<exists>x \<in> set xs. f x = Inr y"
  by (induction xs arbitrary: ys) (auto simp: bindE_eq_Inr)

lemma suggest_selection:
  assumes r: "suggest fs interface workers allowed sysfs procfs = Inr r"
  obtains online eff sibs l3s used where
    "bindE (read_text fs (slash (slash sysfs ''devices/system/cpu'') ''online'')) cpu_list = Inr online"
    and "s_irq_affinity r = eff"
    and "mapE (siblings fs (slash sysfs ''devices/system/cpu''))
          (sorted_list_of_set (\<Union> (set (map (\<lambda>e. set (snd e)) eff)))) = Inr sibs"
    and "mapE (l3 fs (slash sysfs ''devices/system/cpu''))
          (sorted_list_of_set (\<Union> (set (map (\<lambda>e. set (snd e)) eff)))) = Inr l3s"
    and "spread_inv (siblings fs (slash sysfs ''devices/system/cpu''))
          (\<Union> (set l3s) \<inter> candidate_cpus allowed online (\<Union> (set sibs))) (\<Union> (set sibs)) (s_worker_cpus r) used"
    and "int (length (s_worker_cpus r)) = workers"
proof -
  obtain online eff sibs l3s where o:
    "bindE (read_text fs (slash (slash sysfs ''devices/system/cpu'') ''online'')) cpu_list = Inr online"
    "mapE (siblings fs (slash sysfs ''devices/system/cpu''))
          (sorted_list_of_set (\<Union> (set (map (\<lambda>e. set (snd e)) eff)))) = Inr sibs"
    "mapE (l3 fs (slash sysfs ''devices/system/cpu''))
          (sorted_list_of_set (\<Union> (set (map (\<lambda>e. set (snd e)) eff)))) = Inr l3s"
    "spread (siblings fs (slash sysfs ''devices/system/cpu'')) workers
          (map (\<lambda>domain. sorted_list_of_set (domain \<inter> candidate_cpus allowed online (\<Union> (set sibs))))
            (sort_key Min (distinct_list l3s))) [] (\<Union> (set sibs)) = Inr (s_worker_cpus r)"
    "s_irq_affinity r = eff" "1 \<le> workers"
    by (rule suggest_ok [OF r]) blast
  let ?cand = "candidate_cpus allowed online (\<Union> (set sibs))"
  have fin: "finite (domain \<inter> ?cand)" for domain by (rule finite_subset [of _ "{0..<1024}"]) (auto simp: candidate_cpus_def)
  have pool: "\<Union> (set ` set (map (\<lambda>domain. sorted_list_of_set (domain \<inter> ?cand)) (sort_key Min (distinct_list l3s))))
      \<subseteq> \<Union> (set l3s) \<inter> ?cand"
    using fin by auto
  have "spread_inv (siblings fs (slash sysfs ''devices/system/cpu'')) (\<Union> (set l3s) \<inter> ?cand) (\<Union> (set sibs)) [] (\<Union> (set sibs))"
    by (simp add: spread_inv_def)
  from spread_sound [OF o(4) this pool] obtain used where
    "spread_inv (siblings fs (slash sysfs ''devices/system/cpu'')) (\<Union> (set l3s) \<inter> ?cand) (\<Union> (set sibs)) (s_worker_cpus r) used"
    "int (length (s_worker_cpus r)) = workers" using o(6) by auto
  then show ?thesis using that o by blast
qed

text \<open>A machine with three two-thread cores behind one L3 cache and one interrupt on CPU 0.\<close>

definition sample_tree :: tree where
  "sample_tree = \<lparr>
     t_read = map_of
       [(''/sys/class/net/eth0/queues/rx-0/rps_cpus'', ''00,00''),
        (''/sys/devices/system/cpu/online'', ''0-5''),
        (''/proc/irq/40/effective_affinity_list'', ''0''),
        (''/sys/devices/system/cpu/cpu0/topology/thread_siblings_list'', ''0-1''),
        (''/sys/devices/system/cpu/cpu2/topology/thread_siblings_list'', ''2,3''),
        (''/sys/devices/system/cpu/cpu4/topology/thread_siblings_list'', ''4-5''),
        (''/sys/devices/system/cpu/cpu0/cache/index3/level'', ''3''),
        (''/sys/devices/system/cpu/cpu0/cache/index3/shared_cpu_list'', ''0-5'')],
     t_is_dir = (\<lambda>p. p = ''/sys/class/net/eth0''),
     t_names = (\<lambda>p. if p = ''/sys/class/net/eth0/queues'' then [''rx-0'', ''tx-0'']
                     else if p = ''/sys/class/net/eth0/device/msi_irqs'' then [''40'']
                     else if p = ''/sys/devices/system/cpu/cpu0/cache'' then [''index3''] else [])\<rparr>"

definition sample_suggestion :: suggestion where
  "sample_suggestion = \<lparr>s_interface = ''eth0'', s_irq_affinity = [(''40'', [0])],
     s_excluded_irq_siblings = [0, 1], s_allowed_online_cpus = [0, 1, 2, 3, 4, 5],
     s_worker_cpus = [2, 4], s_arguments = [''--workers'', ''2'', ''--worker-cpus'', ''2,4'']\<rparr>"

lemma sample_suggest: "suggest sample_tree ''eth0'' 2 {0, 1, 2, 3, 4, 5} ''/sys'' ''/proc'' = Inr sample_suggestion"
  by code_simp

text \<open>
  C4: a suggestion names exactly the requested number of CPUs.  All are allowed, online, below 1024 and
  in the L3 domain of an interrupt CPU; none is an SMT sibling of an interrupt CPU, and none is an SMT
  sibling of a CPU chosen before it.  When the kernel lists every chosen CPU among its own siblings,
  the CPUs are distinct.
\<close>

theorem suggest_worker_cpus:
  assumes r: "suggest fs interface workers allowed sysfs procfs = Inr r"
  shows "int (length (s_worker_cpus r)) = workers \<and>
    ((\<forall>c \<in> set (s_worker_cpus r). \<forall>s. siblings fs (slash sysfs ''devices/system/cpu'') c = Inr s \<longrightarrow> c \<in> s) \<longrightarrow> distinct (s_worker_cpus r)) \<and>
    (\<exists>online. bindE (read_text fs (slash (slash sysfs ''devices/system/cpu'') ''online'')) cpu_list = Inr online \<and>
       set (s_worker_cpus r) \<subseteq> allowed \<inter> online \<inter> {0..<1024}) \<and>
    (\<forall>i < length (s_worker_cpus r). \<forall>j < i. \<forall>s.
       siblings fs (slash sysfs ''devices/system/cpu'') (s_worker_cpus r ! j) = Inr s \<longrightarrow> s_worker_cpus r ! i \<notin> s) \<and>
    (\<forall>(irq, cpus) \<in> set (s_irq_affinity r). \<forall>c \<in> set cpus. \<exists>s.
       siblings fs (slash sysfs ''devices/system/cpu'') c = Inr s \<and> set (s_worker_cpus r) \<inter> s = {}) \<and>
    (\<forall>c \<in> set (s_worker_cpus r). \<exists>(irq, cpus) \<in> set (s_irq_affinity r). \<exists>d \<in> set cpus. \<exists>domain.
       l3 fs (slash sysfs ''devices/system/cpu'') d = Inr domain \<and> c \<in> domain)"
proof (rule suggest_selection [OF r])
  fix online used :: "int set" and eff :: "(string \<times> int list) list" and sibs l3s :: "int set list"
  let ?root = "slash sysfs ''devices/system/cpu''"
  let ?irq_cpus = "\<Union> (set (map (\<lambda>e. set (snd e)) eff))"
  assume online: "bindE (read_text fs (slash ?root ''online'')) cpu_list = Inr online"
    and eff: "s_irq_affinity r = eff"
    and sibs: "mapE (siblings fs ?root) (sorted_list_of_set ?irq_cpus) = Inr sibs"
    and l3s: "mapE (l3 fs ?root) (sorted_list_of_set ?irq_cpus) = Inr l3s"
    and inv: "spread_inv (siblings fs ?root) (\<Union> (set l3s) \<inter> candidate_cpus allowed online (\<Union> (set sibs)))
      (\<Union> (set sibs)) (s_worker_cpus r) used"
    and len: "int (length (s_worker_cpus r)) = workers"
  have fin: "finite ?irq_cpus" by auto
  have apart: "s_worker_cpus r ! i \<notin> s"
    if "i < length (s_worker_cpus r)" "j < i" "siblings fs ?root (s_worker_cpus r ! j) = Inr s" for i j s
    using inv that by (simp add: spread_inv_def)
  have known: "\<exists>s. siblings fs ?root c = Inr s" if "c \<in> set (s_worker_cpus r)" for c
    using inv that by (auto simp: spread_inv_def)
  have dist: "distinct (s_worker_cpus r)" if own: "\<forall>c \<in> set (s_worker_cpus r). \<forall>s. siblings fs ?root c = Inr s \<longrightarrow> c \<in> s"
  proof -
    have "s_worker_cpus r ! j \<noteq> s_worker_cpus r ! i" if "i < length (s_worker_cpus r)" "j < i" for i j
      using known [of "s_worker_cpus r ! j"] apart [OF that] own that nth_mem [of j "s_worker_cpus r"] by fastforce
    then show ?thesis by (metis distinct_conv_nth linorder_neqE_nat)
  qed
  have sub: "set (s_worker_cpus r) \<subseteq> \<Union> (set l3s) \<inter> candidate_cpus allowed online (\<Union> (set sibs)) - \<Union> (set sibs)"
    using inv by (simp add: spread_inv_def)
  have irq: "\<exists>s. siblings fs ?root c = Inr s \<and> set (s_worker_cpus r) \<inter> s = {}" if "c \<in> ?irq_cpus" for c
    using mapE_mem [OF sibs, of c] fin that sub by fastforce
  have dom: "\<exists>d \<in> ?irq_cpus. \<exists>domain. l3 fs ?root d = Inr domain \<and> c \<in> domain"
    if c: "c \<in> set (s_worker_cpus r)" for c
  proof -
    obtain domain where "domain \<in> set l3s" "c \<in> domain" using sub c by blast
    moreover obtain d where "d \<in> set (sorted_list_of_set ?irq_cpus)" "l3 fs ?root d = Inr domain"
      using mapE_mem' [OF l3s \<open>domain \<in> set l3s\<close>] by blast
    ultimately show ?thesis using fin by (metis set_sorted_list_of_set)
  qed
  have set_ok: "set (s_worker_cpus r) \<subseteq> allowed \<inter> online \<inter> {0..<1024}"
    using sub by (auto simp: candidate_cpus_def)
  have irq': "\<forall>(irq, cpus) \<in> set (s_irq_affinity r). \<forall>c \<in> set cpus. \<exists>s.
       siblings fs ?root c = Inr s \<and> set (s_worker_cpus r) \<inter> s = {}"
    unfolding eff using irq by (fastforce split: prod.split)
  have "\<exists>(irq, cpus) \<in> set eff. \<exists>d \<in> set cpus. \<exists>domain. l3 fs ?root d = Inr domain \<and> c \<in> domain"
    if "c \<in> set (s_worker_cpus r)" for c
    using dom [OF that] by (fastforce split: prod.split)
  then have dom': "\<forall>c \<in> set (s_worker_cpus r). \<exists>(irq, cpus) \<in> set (s_irq_affinity r). \<exists>d \<in> set cpus. \<exists>domain.
       l3 fs ?root d = Inr domain \<and> c \<in> domain"
    unfolding eff by blast
  show ?thesis using len dist online set_ok apart irq' dom' by blast
qed

theorem suggest_worker_cpus_witness:
  "suggest sample_tree ''eth0'' 2 {0, 1, 2, 3, 4, 5} ''/sys'' ''/proc'' = Inr sample_suggestion \<and>
   int (length (s_worker_cpus sample_suggestion)) = 2 \<and> distinct (s_worker_cpus sample_suggestion)"
proof -
  have "siblings sample_tree (slash ''/sys'' ''devices/system/cpu'') 2 = Inr {2, 3}"
    "siblings sample_tree (slash ''/sys'' ''devices/system/cpu'') 4 = Inr {4, 5}" by code_simp+
  then have "\<forall>c \<in> set (s_worker_cpus sample_suggestion). \<forall>s.
      siblings sample_tree (slash ''/sys'' ''devices/system/cpu'') c = Inr s \<longrightarrow> c \<in> s"
    by (auto simp: sample_suggestion_def)
  then show ?thesis using sample_suggest suggest_worker_cpus [OF sample_suggest] by blast
qed

text \<open>
  The search gives up only when it has to: if every sibling list can be read and \<open>spread\<close> still
  refuses, then it placed fewer workers than requested and every candidate CPU is excluded or an SMT
  sibling of a CPU it placed, so no candidate is left on a free physical core.
\<close>

theorem spread_refuses_only_when_full:
  assumes "spread sib workers groups [] excluded = Inl e"
    and "\<forall>g \<in> set groups. \<forall>c \<in> set g. returns (sib c)"
  shows "\<exists>placed. int (length placed) < workers \<and>
    e = ValueError (''only '' @ str_of_int (int (length placed)) @
          '' allowed physical cores share IRQ L3 caches; requested '' @ str_of_int workers) \<and>
    (\<forall>g \<in> set groups. \<forall>c \<in> set g. c \<in> excluded \<or> (\<exists>p \<in> set placed. \<exists>s. sib p = Inr s \<and> c \<in> s))"
proof -
  have inv: "spread_inv sib (\<Union> (set ` set groups)) excluded [] excluded" by (simp add: spread_inv_def)
  have sib: "\<forall>c \<in> \<Union> (set ` set groups). returns (sib c)" using assms(2) by blast
  obtain placed used where p: "spread_inv sib (\<Union> (set ` set groups)) excluded placed used"
    "int (length placed) < workers" "\<Union> (set ` set groups) \<subseteq> used"
    "e = ValueError (''only '' @ str_of_int (int (length placed)) @
          '' allowed physical cores share IRQ L3 caches; requested '' @ str_of_int workers)"
    using spread_complete_aux [OF assms(1) inv subset_refl sib] by blast
  have "used \<subseteq> excluded \<union> (\<Union>c \<in> set placed. \<Union>s \<in> {s. sib c = Inr s}. s)"
    using p(1) by (simp add: spread_inv_def)
  then show ?thesis using p(2-4) by (intro exI [of _ placed]) blast
qed

definition pair_siblings :: "int \<Rightarrow> int set res" where
  "pair_siblings c = Inr (if even c then {c, c + 1} else {c - 1, c})"

theorem spread_refuses_only_when_full_witness:
  "\<exists>placed. spread pair_siblings 3 [[2, 3, 4, 5]] [] {0, 1} = Inl (ValueError (''only '' @ str_of_int (int (length placed)) @
          '' allowed physical cores share IRQ L3 caches; requested '' @ str_of_int 3)) \<and>
    (\<forall>c \<in> {2, 3, 4, 5}. \<exists>p \<in> set placed. \<exists>s. pair_siblings p = Inr s \<and> c \<in> s)"
proof -
  have refuse: "spread pair_siblings 3 [[2, 3, 4, 5]] [] {0, 1} =
      Inl (ValueError ''only 2 allowed physical cores share IRQ L3 caches; requested 3'')"
    by code_simp
  have sib: "\<forall>g \<in> set [[2, 3, 4, 5]]. \<forall>c \<in> set g. returns (pair_siblings c)" by (simp add: pair_siblings_def)
  from spread_refuses_only_when_full [OF refuse sib] obtain placed where
    e: "ValueError ''only 2 allowed physical cores share IRQ L3 caches; requested 3'' =
      ValueError (''only '' @ str_of_int (int (length placed)) @
          '' allowed physical cores share IRQ L3 caches; requested '' @ str_of_int 3)"
    and all: "\<forall>g \<in> set [[2, 3, 4, 5]]. \<forall>c \<in> set g.
      c \<in> {0, 1} \<or> (\<exists>p \<in> set placed. \<exists>s. pair_siblings p = Inr s \<and> c \<in> s)" by blast
  show ?thesis
  proof (intro exI conjI)
    show "spread pair_siblings 3 [[2, 3, 4, 5]] [] {0, 1} = Inl (ValueError (''only '' @ str_of_int (int (length placed)) @
          '' allowed physical cores share IRQ L3 caches; requested '' @ str_of_int 3))"
      by (rule trans [OF refuse arg_cong [where f = Inl, OF e]])
    show "\<forall>c \<in> {2, 3, 4, 5}. \<exists>p \<in> set placed. \<exists>s. pair_siblings p = Inr s \<and> c \<in> s"
      using all by simp
  qed
qed

section \<open>The argument text and the launch\<close>

lemma cpu_part_number [simp]: "0 \<le> n \<Longrightarrow> cpu_part txt (str_of_int n) cpus = Inr (insert n cpus)"
proof -
  assume n: "0 \<le> n"
  then have "CHR ''-'' \<notin> set (str_of_int n)"
    using str_of_nat_digits [of n] by (auto simp: str_of_int_def is_digit_def char_code_def)
  then show ?thesis by (simp add: cpu_part_def split_on_no_sep)
qed

lemma cpu_parts_numbers:
  "\<forall>n \<in> set ns. 0 \<le> n \<Longrightarrow> foldE (cpu_part txt) (map str_of_int ns) cpus = Inr (set ns \<union> cpus)"
  by (induction ns arbitrary: cpus) auto

lemma digits_no_comma: "0 \<le> n \<Longrightarrow> CHR '','' \<notin> set (str_of_int n)"
  using str_of_nat_digits [of n] by (auto simp: str_of_int_def is_digit_def char_code_def)

lemma join_ends:
  "xs \<noteq> [] \<Longrightarrow> (\<forall>x \<in> set xs. x \<noteq> [] \<and> \<not> is_space (hd x) \<and> \<not> is_space (last x)) \<Longrightarrow>
     join sep xs \<noteq> [] \<and> \<not> is_space (hd (join sep xs)) \<and> \<not> is_space (last (join sep xs))"
  by (induction sep xs rule: join.induct) auto

lemma str_of_int_ends: "0 \<le> n \<Longrightarrow> \<not> is_space (hd (str_of_int n)) \<and> \<not> is_space (last (str_of_int n))"
  using hd_str_of_nat [of n] last_str_of_nat [of n] by (auto simp: str_of_int_def is_digit_not_space)

lemma cpu_list_join:
  assumes "ns \<noteq> []" and "\<forall>n \<in> set ns. 0 \<le> n"
  shows "cpu_list (join '','' (map str_of_int ns)) = Inr (set ns)"
proof -
  have "strip (join '','' (map str_of_int ns)) = join '','' (map str_of_int ns)"
    using join_ends [of "map str_of_int ns" "'',''"] str_of_int_ends assms by (intro strip_id) auto
  moreover have "split_on CHR '','' (join '','' (map str_of_int ns)) = map str_of_int ns"
    using assms digits_no_comma by (intro split_on_join) auto
  ultimately show ?thesis using cpu_parts_numbers [OF assms(2), of "join '','' (map str_of_int ns)" "{}"]
    by (simp add: cpu_list_def)
qed

text \<open>
  The arguments handed to the server carry the suggestion itself: the count after \<open>--workers\<close> reads
  back as the number of chosen CPUs and the text after \<open>--worker-cpus\<close> as the set of chosen CPUs.
\<close>

theorem suggest_arguments_roundtrip:
  assumes r: "suggest fs interface workers allowed sysfs procfs = Inr r"
  shows "\<exists>n cpus. s_arguments r = [''--workers'', n, ''--worker-cpus'', cpus] \<and>
    py_int n = Inr (int (length (s_worker_cpus r))) \<and> cpu_list cpus = Inr (set (s_worker_cpus r))"
proof (rule suggest_selection [OF r])
  fix online used :: "int set" and eff :: "(string \<times> int list) list" and sibs l3s :: "int set list"
  assume inv: "spread_inv (siblings fs (slash sysfs ''devices/system/cpu''))
      (\<Union> (set l3s) \<inter> candidate_cpus allowed online (\<Union> (set sibs))) (\<Union> (set sibs)) (s_worker_cpus r) used"
    and len: "int (length (s_worker_cpus r)) = workers"
  have args: "s_arguments r = [''--workers'', str_of_int workers, ''--worker-cpus'', join '','' (map str_of_int (s_worker_cpus r))]"
    and w: "1 \<le> workers" by (rule suggest_ok [OF r], simp)+
  have "\<forall>c \<in> set (s_worker_cpus r). 0 \<le> c" using inv by (auto simp: spread_inv_def candidate_cpus_def)
  moreover have "s_worker_cpus r \<noteq> []" using w len by auto
  ultimately show ?thesis using args len cpu_list_join by simp
qed

theorem suggest_arguments_roundtrip_witness:
  "\<exists>n cpus. s_arguments sample_suggestion = [''--workers'', n, ''--worker-cpus'', cpus] \<and>
    py_int n = Inr (int (length (s_worker_cpus sample_suggestion))) \<and>
    cpu_list cpus = Inr (set (s_worker_cpus sample_suggestion))"
  by (rule suggest_arguments_roundtrip [OF sample_suggest])

text \<open>
  The launched command is the executable, the suggested arguments and then the caller's arguments
  without a leading separator; a command is produced exactly when none of them sets the worker count
  or the mapping, in either the separate or the \<open>=\<close> form.
\<close>

theorem launch_arguments_iff:
  "launch_arguments result executable arguments = Inr command \<longleftrightarrow>
     command = executable # s_arguments result @ (if take 1 arguments = [''--''] then tl arguments else arguments) \<and>
     \<not> (\<exists>a \<in> set (if take 1 arguments = [''--''] then tl arguments else arguments).
          a \<in> {''--workers'', ''--worker-cpus''} \<or>
          (\<exists>v. a = ''--workers='' @ v \<or> a = ''--worker-cpus='' @ v))"
proof -
  have count: "fst (partition_on CHR ''='' a) = ''--workers'' \<longleftrightarrow> a = ''--workers'' \<or> (\<exists>v. a = ''--workers='' @ v)" for a
    using partition_on_fst [of "CHR ''=''" "''--workers''" a] by simp
  have mapping: "fst (partition_on CHR ''='' a) = ''--worker-cpus'' \<longleftrightarrow> a = ''--worker-cpus'' \<or> (\<exists>v. a = ''--worker-cpus='' @ v)" for a
    using partition_on_fst [of "CHR ''=''" "''--worker-cpus''" a] by simp
  have iff: "fst (partition_on CHR ''='' a) \<notin> {''--workers'', ''--worker-cpus''} \<longleftrightarrow>
      \<not> (a \<in> {''--workers'', ''--worker-cpus''} \<or> (\<exists>v. a = ''--workers='' @ v \<or> a = ''--worker-cpus='' @ v))" for a
    unfolding insert_iff count mapping by blast
  show ?thesis unfolding launch_arguments_def Let_def seqE_eq_Inr forE_eq_Inr ensure_eq_Inr iff by blast
qed

text \<open>
  Every failure of the selection reaches the user as a usage error: no exception of the suggestion,
  of the argument check or of the launch escapes \<open>main\<close>.
\<close>

theorem worker_main_catches_all: "worker_main fr fs affinity exec_ok args \<noteq> Uncaught e"
proof -
  have launch: "raises_only reported (launch_arguments result exe arguments)" for result exe arguments
    unfolding launch_arguments_def by (intro raises_intro) simp
  let ?exe = "case w_executable args of None \<Rightarrow> [] | Some e \<Rightarrow> e"
  let ?run = "bindE (suggest fs (w_interface args) (w_workers args) affinity ''/sys'' ''/proc'') (\<lambda>result.
      if ?exe \<noteq> [] then bindE (launch_arguments result ?exe (w_arguments args)) (\<lambda>command.
             if exec_ok ?exe then Inr (Exec ?exe command) else Inl (OSError ?exe))
      else Inr (Printed (if w_json args then json_dumps fr (suggestion_json result) else join '' '' (s_arguments result))))"
  have run: "raises_only reported ?run"
    by (intro raises_intro raises_only_suggest launch) simp_all
  have out: "worker_main fr fs affinity exec_ok args =
      (if w_json args \<and> ?exe \<noteq> [] then Usage_error ''--json and --exec are mutually exclusive''
       else if w_arguments args \<noteq> [] \<and> ?exe = [] then Usage_error ''server arguments require --exec''
       else (case ?run of Inl (ValueError m) \<Rightarrow> Usage_error m | Inl (OSError m) \<Rightarrow> Usage_error m
             | Inl e \<Rightarrow> Uncaught e | Inr out \<Rightarrow> out))"
    by (simp only: worker_main_def Let_def)
  show ?thesis
  proof (cases ?run)
    case (Inl e')
    then have "reported e'" by (rule raises_onlyD [OF run])
    then show ?thesis unfolding out Inl by (auto simp: reported_def)
  next
    case (Inr o')
    then have "o' \<noteq> Uncaught e" by (auto simp: bindE_eq_Inr split: if_splits)
    then show ?thesis unfolding out Inr by auto
  qed
qed

end
