(* ===== verification/Py_Shlex.thy ===== *)
theory Py_Shlex
  imports Py_Text
begin

text \<open>
  \<open>shlex.split\<close>, \<open>shlex.quote\<close> and \<open>shlex.join\<close> of the standard library, and the law the programs rely
  on: splitting a joined command gives back its words, whatever characters they hold.
\<close>

section \<open>shlex.split\<close>

text \<open>
  The POSIX lexer of the standard library with \<open>whitespace_split\<close> and no comment characters: the state
  it is in, the token read so far and whether the token was quoted.
\<close>

datatype lex_state = Lex_space | Lex_word | Lex_quote char | Lex_escape lex_state

definition lex_blank :: "char \<Rightarrow> bool" where
  "lex_blank c \<longleftrightarrow> c \<in> {CHR '' '', CHR 0x09, CHR 0x0D, CHR 0x0A}"

definition lex_quote_char :: "char \<Rightarrow> bool" where
  "lex_quote_char c \<longleftrightarrow> c \<in> {CHR 0x22, CHR 0x27}"

definition backslash :: char where
  "backslash = CHR 0x5C"

fun lex :: "lex_state \<Rightarrow> string \<Rightarrow> bool \<Rightarrow> string \<Rightarrow> string list res" where
  "lex Lex_space tok q [] = Inr []"
| "lex Lex_space tok q (c # cs) =
     (if lex_blank c then lex Lex_space [] False cs
      else if c = backslash then lex (Lex_escape Lex_word) [] False cs
      else if lex_quote_char c then lex (Lex_quote c) [] False cs
      else lex Lex_word [c] False cs)"
| "lex Lex_word tok q [] = Inr (if tok \<noteq> [] \<or> q then [tok] else [])"
| "lex Lex_word tok q (c # cs) =
     (if lex_blank c
      then (if tok \<noteq> [] \<or> q then bindE (lex Lex_space [] False cs) (\<lambda>ts. Inr (tok # ts))
            else lex Lex_space [] False cs)
      else if lex_quote_char c then lex (Lex_quote c) tok q cs
      else if c = backslash then lex (Lex_escape Lex_word) tok q cs
      else lex Lex_word (tok @ [c]) q cs)"
| "lex (Lex_quote d) tok q [] = Inl (ValueError ''No closing quotation'')"
| "lex (Lex_quote d) tok q (c # cs) =
     (if c = d then lex Lex_word tok True cs
      else if c = backslash \<and> d = CHR 0x22 then lex (Lex_escape (Lex_quote d)) tok True cs
      else lex (Lex_quote d) (tok @ [c]) True cs)"
| "lex (Lex_escape back) tok q [] = Inl (ValueError ''No escaped character'')"
| "lex (Lex_escape back) tok q (c # cs) =
     lex back
       (case back of
          Lex_quote d \<Rightarrow> if c \<noteq> backslash \<and> c \<noteq> d then tok @ [backslash, c] else tok @ [c]
        | _ \<Rightarrow> tok @ [c]) q cs"

definition shlex_split :: "string \<Rightarrow> string list res" where
  "shlex_split s = lex Lex_space [] False s"

section \<open>shlex.quote and shlex.join\<close>

definition shell_safe :: "char \<Rightarrow> bool" where
  "shell_safe c \<longleftrightarrow> is_alpha c \<or> is_digit c \<or>
     c \<in> {CHR ''_'', CHR ''@'', CHR ''%'', CHR ''+'', CHR ''='', CHR '':'', CHR '','', CHR ''.'', CHR ''/'', CHR ''-''}"

definition escape_quote :: "char \<Rightarrow> string" where
  "escape_quote c = (if c = CHR 0x27 then [CHR 0x27, CHR 0x22, CHR 0x27, CHR 0x22, CHR 0x27] else [c])"

definition shlex_quote :: "string \<Rightarrow> string" where
  "shlex_quote s =
     (if s = [] then [CHR 0x27, CHR 0x27]
      else if list_all shell_safe s then s
      else [CHR 0x27] @ concat (map escape_quote s) @ [CHR 0x27])"

definition shlex_join :: "string list \<Rightarrow> string" where
  "shlex_join ws = join '' '' (map shlex_quote ws)"

section \<open>Splitting a joined command\<close>

definition bare_word :: "string \<Rightarrow> bool" where
  "bare_word w \<longleftrightarrow> w \<noteq> [] \<and> (\<forall>c \<in> set w. \<not> lex_blank c \<and> \<not> lex_quote_char c \<and> c \<noteq> backslash)"

lemma lex_word_chars:
  assumes "\<forall>c \<in> set w. \<not> lex_blank c \<and> \<not> lex_quote_char c \<and> c \<noteq> backslash"
  shows "lex Lex_word tok q (w @ rest) = lex Lex_word (tok @ w) q rest"
  using assms by (induction w arbitrary: tok) auto

lemma lex_bare_word: "bare_word w \<Longrightarrow> lex Lex_space tok q (w @ rest) = lex Lex_word w False rest"
  using lex_word_chars [of "tl w" "[hd w]" False rest] by (cases w) (auto simp: bare_word_def)

lemma shell_safe_bare: "s \<noteq> [] \<Longrightarrow> list_all shell_safe s \<Longrightarrow> bare_word s"
  by (auto simp: bare_word_def list_all_iff shell_safe_def lex_blank_def lex_quote_char_def backslash_def
      is_alpha_def is_upper_def is_lower_def is_digit_def char_code_def)

lemma lex_escaped:
  "lex (Lex_quote CHR 0x27) tok q (concat (map escape_quote s) @ CHR 0x27 # rest) = lex Lex_word (tok @ s) True rest"
proof (induction s arbitrary: tok q)
  case (Cons c s)
  show ?case
  proof (cases "c = CHR 0x27")
    case True
    then show ?thesis
      using Cons.IH [of "tok @ [CHR 0x27]" True]
      by (simp add: escape_quote_def lex_blank_def lex_quote_char_def backslash_def)
  next
    case False
    then show ?thesis using Cons.IH [of "tok @ [c]" True] by (simp add: escape_quote_def)
  qed
qed simp

lemma lex_quoted:
  "\<exists>q. lex Lex_space tok q' (shlex_quote s @ rest) = lex Lex_word s q rest \<and> (s \<noteq> [] \<or> q)"
proof (cases "s \<noteq> [] \<and> list_all shell_safe s")
  case True
  then show ?thesis using lex_bare_word [OF shell_safe_bare] by (auto simp: shlex_quote_def)
next
  case False
  have start: "lex Lex_space tok q' (CHR 0x27 # r) = lex (Lex_quote CHR 0x27) [] False r" for r
    by (simp add: lex_blank_def lex_quote_char_def backslash_def)
  have "shlex_quote s = CHR 0x27 # concat (map escape_quote s) @ [CHR 0x27]"
    using False by (auto simp: shlex_quote_def)
  then show ?thesis using lex_escaped [of "[]" False s rest] start by auto
qed

lemma shlex_split_join: "shlex_split (shlex_join ws) = Inr ws"
proof -
  have blank: "lex_blank CHR '' ''" by (simp add: lex_blank_def)
  have "lex Lex_space tok q (join '' '' (map shlex_quote ws)) = Inr ws" for tok q
  proof (induction ws arbitrary: tok q)
    case (Cons w ws)
    obtain p where p: "lex Lex_space tok q (shlex_quote w @ r) = lex Lex_word w (p r) r \<and> (w \<noteq> [] \<or> p r)" for r
      using lex_quoted [of tok q w] by metis
    show ?case
    proof (cases ws)
      case Nil
      then show ?thesis using p [of "[]"] by auto
    next
      case (Cons v vs)
      then show ?thesis
        using p [of "'' '' @ join '' '' (map shlex_quote ws)"] blank Cons.IH [of "[]" False] by auto
    qed
  qed simp
  then show ?thesis by (simp add: shlex_split_def shlex_join_def)
qed

end
