(* ===== verification/Openssl_Inputs.thy ===== *)
theory Openssl_Inputs
  imports Py_Value Py_Shlex "HOL-Library.Product_Lexorder"
begin

text \<open>
  \<open>build/openssl/regenerate.py\<close>: the derivation of the OpenSSL build inputs from a configured release.
  The tools the program runs (\<open>Configure\<close>, \<open>make\<close>, \<open>zig fmt\<close>) are outside the model; what they
  print and the files they leave are parameters: \<open>unified\<close> is \<open>%unified_info\<close> of the configuration,
  \<open>commands\<close> the text of \<open>make -n build_libs\<close>, \<open>work\<close> the files of the private copy, \<open>zig_fmt\<close> the
  formatted manifest.  The output directory is a list of relative names and contents.
  Sets of names are finite sets; a loop over such a set visits it in sorted order.
\<close>

section \<open>The configuration\<close>

record unified =
  u_sources :: "(string \<times> string list) list"
  u_depends :: "(string \<times> string list) list"
  u_libraries :: "string list"
  u_generate :: "string list"

definition sources_of :: "unified \<Rightarrow> string \<Rightarrow> string list res" where
  "sources_of u name = of_option (KeyError name) (map_of (u_sources u) name)"

definition depends_of :: "unified \<Rightarrow> string \<Rightarrow> string list" where
  "depends_of u name = dict_get [] name (u_depends u)"

definition is_object :: "string \<Rightarrow> bool" where
  "is_object name \<longleftrightarrow> endswith name ''.o''"

section \<open>The object walk\<close>

text \<open>
  \<open>visit\<close> with its call stack made explicit: \<open>Visit l\<close> is a call \<open>visit(l)\<close>, \<open>Child c\<close> one turn of the
  loop over the sources, \<open>Dependency d\<close> one turn of the loop over the dependencies.  The state is the
  pair of the two sets the closure updates, \<open>visited\<close> and \<open>objects\<close>.
\<close>

datatype task = Visit string | Child string | Dependency string

fun task_weight :: "task \<Rightarrow> nat" where
  "task_weight (Visit _) = 1"
| "task_weight (Child _) = 2"
| "task_weight (Dependency _) = 2"

function visit :: "unified \<Rightarrow> task list \<Rightarrow> string set \<times> string set \<Rightarrow> (string set \<times> string set) res" where
  "visit u [] st = Inr st"
| "visit u (Visit l # ts) (visited, objects) =
     (if l \<in> visited then visit u ts (visited, objects)
      else bindE (sources_of u l) (\<lambda>children.
        visit u (map Child children @ map Dependency (depends_of u l) @ ts) (insert l visited, objects)))"
| "visit u (Child c # ts) (visited, objects) =
     (if is_object c then visit u ts (visited, insert c objects)
      else visit u (Visit c # ts) (visited, objects))"
| "visit u (Dependency d # ts) (visited, objects) =
     (if d \<in> set (u_libraries u) then visit u (Visit d # ts) (visited, objects)
      else visit u ts (visited, objects))"
  by pat_completeness auto
termination
proof (relation "measures [\<lambda>(u, ts, visited, objects). card (set (map fst (u_sources u)) - visited),
    \<lambda>(u, ts, visited, objects). sum_list (map task_weight ts)]", goal_cases)
  case (3 u l ts visited objects children)
  then have "l \<in> set (map fst (u_sources u)) - visited"
    by (force simp: sources_of_def of_option_eq_Inr dest: map_of_SomeD)
  then have "card (set (map fst (u_sources u)) - insert l visited) < card (set (map fst (u_sources u)) - visited)"
    by (intro psubset_card_mono) auto
  then show ?case by simp
qed simp_all

definition library_objects :: "unified \<Rightarrow> string set res" where
  "library_objects u =
     bindE (visit u [Visit ''libssl''] ({}, {})) (\<lambda>st.
     bindE (visit u [Visit ''libcrypto''] st) (\<lambda>(visited, objects). Inr objects))"

section \<open>Generated inputs\<close>

definition generated_sources :: "unified \<Rightarrow> string set \<Rightarrow> string set res" where
  "generated_sources u objects =
     bindE (mapE (sources_of u) (sorted_list_of_set objects)) (\<lambda>names.
       Inr (set (filter (\<lambda>name. name \<in> set (u_generate u)) (concat names))))"

definition generated_headers :: "unified \<Rightarrow> string set" where
  "generated_headers u = set (filter (\<lambda>name. endswith name ''.h'' \<and>
     (startswith name ''include/'' \<or> startswith name ''crypto/'' \<or> startswith name ''providers/'') \<and>
     name \<noteq> ''crypto/buildinf.h'') (u_generate u))"

section \<open>Compile recipes\<close>

record group_files =
  g_upstream :: "string list"
  g_generated :: "string list"

type_synonym group_key = "string list \<times> string list"
type_synonym groups = "(group_key \<times> group_files) list"

fun index_of :: "'a \<Rightarrow> 'a list \<Rightarrow> nat" where
  "index_of x [] = 0"
| "index_of x (y # ys) = (if x = y then 0 else Suc (index_of x ys))"

definition add_to_group :: "bool \<Rightarrow> string \<Rightarrow> group_files \<Rightarrow> group_files" where
  "add_to_group gen name g =
     (if gen then g\<lparr>g_generated := g_generated g @ [name]\<rparr> else g\<lparr>g_upstream := g_upstream g @ [name]\<rparr>)"

text \<open>One line of the dry run; the state is \<open>compiled\<close> and \<open>groups\<close>.\<close>

definition recipe_line ::
  "unified \<Rightarrow> string set \<Rightarrow> string set \<Rightarrow> string \<Rightarrow> string set \<times> groups \<Rightarrow> (string set \<times> groups) res" where
  "recipe_line u objects gen_sources line st =
     (case st of (compiled, groups) \<Rightarrow>
      if \<not> startswith line ''cc '' then Inr st
      else bindE (shlex_split line) (\<lambda>args.
        if ''-c'' \<notin> set args \<or> ''-o'' \<notin> set args then Inr st
        else if Suc (index_of ''-o'' args) \<ge> length args then Inl IndexError
        else (let obj = args ! Suc (index_of ''-o'' args) in
          if obj \<notin> objects then Inr st
          else (let name = last args in
            bindE (sources_of u obj) (\<lambda>srcs.
            if srcs \<noteq> [name] then Inl (ValueError (''unexpected source mapping for '' @ obj))
            else (let includes = map (drop 2) (filter (\<lambda>arg. startswith arg ''-I'') args);
                      flags = filter (\<lambda>arg. startswith arg ''-D'' \<and> arg \<noteq> ''-DNDEBUG'') args;
                      key = (includes, flags);
                      old = dict_get \<lparr>g_upstream = [], g_generated = []\<rparr> key groups in
              Inr (insert obj compiled, dict_set key (add_to_group (name \<in> gen_sources) name old) groups)))))))"

definition compile_groups :: "unified \<Rightarrow> string set \<Rightarrow> string set \<Rightarrow> string \<Rightarrow> groups res" where
  "compile_groups u objects gen_sources commands =
     bindE (foldE (recipe_line u objects gen_sources)
              (splitlines (replace_sub [backslash, newline] '' '' commands)) ({}, [])) (\<lambda>(compiled, groups).
       if compiled \<noteq> objects
       then Inl (ValueError (''missing compile recipes: '' @ join '', '' (sorted_list_of_set (objects - compiled))))
       else Inr groups)"

section \<open>The CPU initializer\<close>

definition tab :: string where
  "tab = [CHR 0x09]"

definition cpuid_initializer :: string where
  "cpuid_initializer = ''.section'' @ tab @ ''.init'' @ [newline] @ tab @ ''call'' @ tab @ ''OPENSSL_cpuid_setup'' @ [newline]"

definition cpuid_array :: string where
  "cpuid_array = ''.section'' @ tab @ ''.init_array,'' @ [CHR 0x22] @ ''aw'' @ [CHR 0x22] @ '',@init_array'' @ [newline] @
     ''.p2align'' @ tab @ ''3'' @ [newline] @ ''.quad'' @ tab @ ''OPENSSL_cpuid_setup'' @ [newline]"

definition cpuid_banner :: string where
  "cpuid_banner = ''# Modified by ZHTPS: register CPU initialization through .init_array'' @ [newline] @
     ''# for Zig'' @ [CHR 0x27] @ ''s native ELF linker. The initializer itself is unchanged.'' @ [newline]"

definition adapt_cpuid :: "string \<Rightarrow> string res" where
  "adapt_cpuid assembly =
     (if count_sub cpuid_initializer assembly \<noteq> 1
      then Inl (ValueError ''upstream CPU initialization changed; review the .init_array adaptation'')
      else Inr (cpuid_banner @ replace_sub cpuid_initializer cpuid_array assembly))"

section \<open>Version and manifest\<close>

definition version_fields :: "string \<Rightarrow> (string \<times> string) list" where
  "version_fields txt =
     dict_of (map (\<lambda>line. case partition_on CHR ''='' line of (k, _, v) \<Rightarrow> (k, v))
       (filter (\<lambda>line. CHR ''='' \<in> set line \<and> \<not> startswith line ''#'') (splitlines txt)))"

definition release_of :: "string \<Rightarrow> string res" where
  "release_of txt =
     bindE (mapE (\<lambda>key. of_option (KeyError key) (map_of (version_fields txt) key)) [''MAJOR'', ''MINOR'', ''PATCH''])
       (\<lambda>parts. Inr (join ''.'' parts))"

definition manifest_block :: "string \<times> string list \<Rightarrow> string list" where
  "manifest_block e =
     (case e of (key, values) \<Rightarrow>
        [''            .'' @ key @ '' = .{''] @
        map (\<lambda>item. ''                '' @ json_string item @ '','') values @ [''            },''])"

definition manifest_group :: "group_key \<times> group_files \<Rightarrow> string list" where
  "manifest_group e =
     (case e of ((includes, flags), files) \<Rightarrow>
        [''        .{''] @
        concat (map manifest_block
          [(''includes'', includes), (''flags'', flags), (''upstream'', sort (g_upstream files)),
           (''generated'', sort (g_generated files))]) @ [''        },''])"

definition manifest_lines :: "string \<Rightarrow> string \<Rightarrow> groups \<Rightarrow> string list" where
  "manifest_lines release version_file groups =
     [''// Generated by regenerate.py from OpenSSL'' @ [CHR 0x27] @ ''s configured library build.'',
      ''.{'',
      ''    .version = '' @ json_string release @ '','',
      ''    .version_file = '' @ json_string version_file @ '','',
      ''    .groups = .{''] @
     concat (map manifest_group (sort_key fst groups)) @ [''    },'', ''}'', []]"

section \<open>Regeneration\<close>

record regenerated =
  o_generated :: "(string \<times> string) list"
  o_manifest :: string
  o_release :: string
  o_counts :: "nat \<times> nat \<times> nat"

definition copy_generated :: "(string \<Rightarrow> string option) \<Rightarrow> string list \<Rightarrow> (string \<times> string) list res" where
  "copy_generated work names =
     mapE (\<lambda>name. bindE (of_option (OSError name) (work name)) (\<lambda>b. Inr (name, b))) names"

definition replace_file :: "string \<Rightarrow> (string \<Rightarrow> string res) \<Rightarrow> (string \<times> string) list \<Rightarrow> (string \<times> string) list res" where
  "replace_file name f files =
     bindE (of_option (OSError name) (map_of files name)) (\<lambda>b. bindE (f b) (\<lambda>b'. Inr (dict_set name b' files)))"

text \<open>The output directory: \<open>generated\<close> is removed and written anew, the formatted manifest replaces \<open>sources.zon\<close>.\<close>

definition in_generated :: "string \<Rightarrow> string" where
  "in_generated name = ''generated/'' @ name"

definition write_output :: "string \<Rightarrow> (string \<times> string) list \<Rightarrow> (string \<times> string) list \<Rightarrow> (string \<times> string) list" where
  "write_output manifest files output =
     dict_set ''sources.zon'' manifest
      (filter (\<lambda>(name, b). \<not> startswith name ''generated/'') output @ map (\<lambda>(name, b). (in_generated name, b)) files)"

definition generate ::
  "bool \<Rightarrow> unified \<Rightarrow> string \<Rightarrow> (string \<Rightarrow> string option) \<Rightarrow> (string \<Rightarrow> string res) \<Rightarrow> (string \<times> string) list \<Rightarrow> (regenerated \<times> (string \<times> string) list) res" where
  "generate configured u commands work zig_fmt output =
     seqE (ensure (\<not> configured) (ValueError ''use a clean, unconfigured OpenSSL release directory''))
    (bindE (library_objects u) (\<lambda>objects.
     bindE (generated_sources u objects) (\<lambda>gen_sources.
     let gen_headers = generated_headers u in
     bindE (compile_groups u objects gen_sources commands) (\<lambda>groups.
     bindE (copy_generated work (sorted_list_of_set (gen_sources \<union> gen_headers))) (\<lambda>files.
     bindE (replace_file ''crypto/x86_64cpuid.s'' adapt_cpuid files) (\<lambda>files'.
     bindE (of_option (OSError ''VERSION.dat'') (work ''VERSION.dat'')) (\<lambda>version_file.
     bindE (release_of version_file) (\<lambda>release.
     bindE (zig_fmt (join [newline] (manifest_lines release version_file groups))) (\<lambda>manifest.
     Inr (\<lparr>o_generated = files', o_manifest = manifest, o_release = release,
            o_counts = (card objects, card gen_sources, card gen_headers)\<rparr>, write_output manifest files' output))))))))))"

text \<open>No file of an earlier regeneration survives, and nothing else in the directory is touched.\<close>

lemma write_output_files:
  "map_of (write_output manifest files old) (in_generated name) = map_of files name"
  "name \<noteq> ''sources.zon'' \<Longrightarrow> \<not> startswith name ''generated/'' \<Longrightarrow> map_of (write_output manifest files old) name = map_of old name"
  "map_of (write_output manifest files old) ''sources.zon'' = Some manifest"
proof -
  have fresh: "map_of (map (\<lambda>(n, b). (in_generated n, b)) files) (in_generated name) = map_of files name"
    by (induction files) (auto simp: in_generated_def)
  have stale: "map_of (filter (\<lambda>(n, b). \<not> startswith n ''generated/'') old) (in_generated name) = None"
    by (induction old) (auto simp: in_generated_def startswith_def)
  show "map_of (write_output manifest files old) (in_generated name) = map_of files name"
    using fresh stale by (simp add: write_output_def map_of_dict_set map_add_def) (simp add: in_generated_def)
  show "map_of (write_output manifest files old) name = map_of old name" if name: "name \<noteq> ''sources.zon''" "\<not> startswith name ''generated/''"
  proof -
    have "map_of (map (\<lambda>(n, b). (in_generated n, b)) files) name = None"
      using name(2) by (induction files) (auto simp: in_generated_def startswith_def)
    moreover have "map_of (filter (\<lambda>(n, b). \<not> startswith n ''generated/'') old) name = map_of old name"
      using name(2) by (induction old) auto
    ultimately show ?thesis using name(1) by (simp add: write_output_def map_of_dict_set map_add_def split: option.split)
  qed
  show "map_of (write_output manifest files old) ''sources.zon'' = Some manifest" by (simp add: write_output_def map_of_dict_set)
qed

section \<open>The walk finds exactly the reachable objects\<close>

text \<open>
  The reference definition: the libraries reached from \<open>libssl\<close> and \<open>libcrypto\<close> over sources that are
  not objects and over dependencies that are libraries; an object belongs to the build when it is a
  source of a reached library.
\<close>

inductive reached :: "unified \<Rightarrow> string set \<Rightarrow> string \<Rightarrow> bool" for u roots where
  root: "l \<in> roots \<Longrightarrow> reached u roots l"
| source: "reached u roots l \<Longrightarrow> map_of (u_sources u) l = Some cs \<Longrightarrow> c \<in> set cs \<Longrightarrow> \<not> is_object c \<Longrightarrow>
    reached u roots c"
| dependency: "reached u roots l \<Longrightarrow> d \<in> set (depends_of u l) \<Longrightarrow> d \<in> set (u_libraries u) \<Longrightarrow>
    reached u roots d"

definition library_sources :: "unified \<Rightarrow> string set \<Rightarrow> string set" where
  "library_sources u roots =
     {c. is_object c \<and> (\<exists>l cs. reached u roots l \<and> map_of (u_sources u) l = Some cs \<and> c \<in> set cs)}"

fun task_ok :: "unified \<Rightarrow> string set \<Rightarrow> task \<Rightarrow> bool" where
  "task_ok u roots (Visit l) = reached u roots l"
| "task_ok u roots (Child c) = (if is_object c then c \<in> library_sources u roots else reached u roots c)"
| "task_ok u roots (Dependency d) = (d \<in> set (u_libraries u) \<longrightarrow> reached u roots d)"

lemma visit_sound:
  assumes "visit u ts (visited, objects) = Inr (visited', objects')"
    and "\<forall>t \<in> set ts. task_ok u roots t" and "\<forall>l \<in> visited. reached u roots l" and "objects \<subseteq> library_sources u roots"
  shows "(\<forall>l \<in> visited'. reached u roots l) \<and> objects' \<subseteq> library_sources u roots"
  using assms
proof (induction u ts "(visited, objects)" arbitrary: visited objects rule: visit.induct)
  case (2 u l ts visited objects)
  show ?case
  proof (cases "l \<in> visited")
    case False
    obtain cs where cs: "map_of (u_sources u) l = Some cs"
      and rest: "visit u (map Child cs @ map Dependency (depends_of u l) @ ts) (insert l visited, objects) = Inr (visited', objects')"
      using "2.prems"(1) False by (auto simp: bindE_eq_Inr sources_of_def of_option_eq_Inr)
    have l: "reached u roots l" using "2.prems"(2) by simp
    have "task_ok u roots (Child c)" if "c \<in> set cs" for c
      using reached.source [OF l cs that] l cs that by (auto simp: library_sources_def)
    moreover have "task_ok u roots (Dependency d)" if "d \<in> set (depends_of u l)" for d
      using reached.dependency [OF l that] by simp
    ultimately have "\<forall>t \<in> set (map Child cs @ map Dependency (depends_of u l) @ ts). task_ok u roots t"
      using "2.prems"(2) by auto
    then show ?thesis
      using "2.hyps"(2) [OF False _ rest] cs l "2.prems"(3,4) by (simp add: sources_of_def)
  qed (use 2 in simp)
qed (auto split: if_splits)

text \<open>A task is done when what it asks for has happened.\<close>

fun task_done :: "unified \<Rightarrow> string set \<times> string set \<Rightarrow> task \<Rightarrow> bool" where
  "task_done u st (Visit l) = (l \<in> fst st)"
| "task_done u st (Child c) = (if is_object c then c \<in> snd st else c \<in> fst st)"
| "task_done u st (Dependency d) = (d \<in> set (u_libraries u) \<longrightarrow> d \<in> fst st)"

definition expanded :: "unified \<Rightarrow> string set \<times> string set \<Rightarrow> string \<Rightarrow> bool" where
  "expanded u st l \<longleftrightarrow> (\<exists>cs. map_of (u_sources u) l = Some cs \<and>
     (\<forall>t \<in> set (map Child cs @ map Dependency (depends_of u l)). task_done u st t))"

lemma task_done_mono: "task_done u st t \<Longrightarrow> fst st \<subseteq> fst st' \<Longrightarrow> snd st \<subseteq> snd st' \<Longrightarrow> task_done u st' t"
  by (cases t) auto

lemma visit_complete:
  assumes "visit u ts (visited, objects) = Inr st'"
  shows "visited \<subseteq> fst st' \<and> objects \<subseteq> snd st' \<and> (\<forall>t \<in> set ts. task_done u st' t) \<and>
    (\<forall>l \<in> fst st' - visited. expanded u st' l)"
  using assms
proof (induction u ts "(visited, objects)" arbitrary: visited objects rule: visit.induct)
  case (2 u l ts visited objects)
  show ?case
  proof (cases "l \<in> visited")
    case False
    obtain cs where cs: "map_of (u_sources u) l = Some cs"
      and rest: "visit u (map Child cs @ map Dependency (depends_of u l) @ ts) (insert l visited, objects) = Inr st'"
      using "2.prems"(1) False by (auto simp: bindE_eq_Inr sources_of_def of_option_eq_Inr)
    then have IH: "insert l visited \<subseteq> fst st' \<and> objects \<subseteq> snd st' \<and>
        (\<forall>t \<in> set (map Child cs @ map Dependency (depends_of u l) @ ts). task_done u st' t) \<and>
        (\<forall>l' \<in> fst st' - insert l visited. expanded u st' l')"
      using "2.hyps"(2) [OF False _ rest] by (simp add: sources_of_def)
    then have "expanded u st' l" using cs by (auto simp: expanded_def)
    then show ?thesis using IH by auto
  next
    case True
    then show ?thesis using "2.hyps"(1) "2.prems" by auto
  qed
qed (auto split: if_splits)

lemma library_objects_states:
  assumes "library_objects u = Inr objects"
  obtains v1 o1 v2 where "visit u [Visit ''libssl''] ({}, {}) = Inr (v1, o1)"
    and "visit u [Visit ''libcrypto''] (v1, o1) = Inr (v2, objects)"
  using assms by (auto simp: library_objects_def bindE_eq_Inr split: prod.splits)

lemma expanded_child:
  assumes "expanded u st l" and "map_of (u_sources u) l = Some cs" and "c \<in> set cs"
  shows "if is_object c then c \<in> snd st else c \<in> fst st"
proof -
  have "\<forall>t \<in> set (map Child cs). task_done u st t" using assms(1,2) by (auto simp: expanded_def)
  then have "task_done u st (Child c)" using assms(3) by auto
  then show ?thesis by simp
qed

lemma expanded_dependency:
  assumes "expanded u st l" and "d \<in> set (depends_of u l)" and "d \<in> set (u_libraries u)"
  shows "d \<in> fst st"
proof -
  obtain cs where "\<forall>t \<in> set (map Child cs @ map Dependency (depends_of u l)). task_done u st t"
    using assms(1) unfolding expanded_def by blast
  moreover have "Dependency d \<in> set (map Child cs @ map Dependency (depends_of u l))" using assms(2) by simp
  ultimately have "task_done u st (Dependency d)" by blast
  then show ?thesis using assms(3) by simp
qed

lemma closed_reached:
  assumes "reached u roots l" and "roots \<subseteq> fst st" and "\<forall>l \<in> fst st. expanded u st l"
  shows "l \<in> fst st"
  using assms(1)
proof induction
  case (source l cs c)
  then show ?case using assms(3) expanded_child [of u st l cs c] by simp
next
  case (dependency l d)
  then show ?case using assms(3) expanded_dependency [of u st l d] by simp
qed (use assms(2) in auto)

text \<open>
  C8: the walk collects exactly the objects of the libraries reachable from \<open>libssl\<close> and \<open>libcrypto\<close>,
  through convenience libraries listed as sources and through library dependencies, cycles included.
\<close>

theorem library_objects_reachable:
  assumes "library_objects u = Inr objects"
  shows "objects = library_sources u {''libssl'', ''libcrypto''}"
proof -
  let ?roots = "{''libssl'', ''libcrypto''}"
  obtain v1 o1 v2 where r1: "visit u [Visit ''libssl''] ({}, {}) = Inr (v1, o1)"
    and r2: "visit u [Visit ''libcrypto''] (v1, o1) = Inr (v2, objects)"
    by (rule library_objects_states [OF assms])
  have s1: "(\<forall>l \<in> v1. reached u ?roots l) \<and> o1 \<subseteq> library_sources u ?roots"
    by (rule visit_sound [OF r1]) (auto intro: reached.root)
  have s2: "(\<forall>l \<in> v2. reached u ?roots l) \<and> objects \<subseteq> library_sources u ?roots"
    by (rule visit_sound [OF r2]) (use s1 in \<open>auto intro: reached.root\<close>)
  note c1 = visit_complete [OF r1] and c2 = visit_complete [OF r2]
  have mono: "expanded u (v2, objects) l" if "expanded u (v1, o1) l" for l
    using that c2 task_done_mono [of u "(v1, o1)" _ "(v2, objects)"] by (fastforce simp: expanded_def)
  have closed: "\<forall>l \<in> fst (v2, objects). expanded u (v2, objects) l"
    using c1 c2 mono by auto
  have "?roots \<subseteq> fst (v2, objects)" using c1 c2 by auto
  then have all: "l \<in> v2" if "reached u ?roots l" for l
    using closed_reached [OF that _ closed] by simp
  have "c \<in> objects" if c: "c \<in> library_sources u ?roots" for c
  proof -
    obtain l cs where "reached u ?roots l" "map_of (u_sources u) l = Some cs" "c \<in> set cs" "is_object c"
      using c by (auto simp: library_sources_def)
    then show ?thesis using expanded_child [of u "(v2, objects)" l cs c] closed all by simp
  qed
  then show ?thesis using s2 by blast
qed

definition sample_unified :: unified where
  "sample_unified = \<lparr>u_sources = [(''libssl'', [''ssl/a.o'', ''providers/libcommon.a'']), (''libcrypto'', [''crypto/b.o'']),
       (''providers/libcommon.a'', [''providers/c.o'']), (''ssl/a.o'', [''ssl/a.c'']), (''crypto/b.o'', [''crypto/x86_64cpuid.s'']),
       (''providers/c.o'', [''providers/c.c''])],
     u_depends = [(''libssl'', [''libcrypto'']), (''libcrypto'', [''libssl'', ''include/x.h''])],
     u_libraries = [''libssl'', ''libcrypto'', ''providers/libcommon.a''],
     u_generate = [''crypto/x86_64cpuid.s'', ''include/x.h'', ''crypto/buildinf.h'']\<rparr>"

lemma sample_library_objects: "library_objects sample_unified = Inr {''ssl/a.o'', ''crypto/b.o'', ''providers/c.o''}"
  by code_simp

theorem library_objects_reachable_witness:
  "library_sources sample_unified {''libssl'', ''libcrypto''} = {''ssl/a.o'', ''crypto/b.o'', ''providers/c.o''}"
  using library_objects_reachable [OF sample_library_objects] by (rule sym)

section \<open>The recipes cover the objects\<close>

definition group_names :: "groups \<Rightarrow> string set" where
  "group_names gs = (\<Union>(k, g) \<in> set gs. set (g_upstream g) \<union> set (g_generated g))"

definition recipes_inv :: "unified \<Rightarrow> string set \<Rightarrow> string set \<Rightarrow> string set \<times> groups \<Rightarrow> bool" where
  "recipes_inv u objects gen st \<longleftrightarrow>
     fst st \<subseteq> objects \<and> distinct (map fst (snd st)) \<and>
     (\<forall>obj \<in> fst st. \<exists>name \<in> group_names (snd st). map_of (u_sources u) obj = Some [name]) \<and>
     (\<forall>name \<in> group_names (snd st). \<exists>obj \<in> fst st. map_of (u_sources u) obj = Some [name]) \<and>
     (\<forall>(k, g) \<in> set (snd st). set (g_generated g) \<subseteq> gen \<and> set (g_upstream g) \<inter> gen = {})"

lemma dict_set_mem: "distinct (map fst d) \<Longrightarrow> set (dict_set k v d) = insert (k, v) {e \<in> set d. fst e \<noteq> k}"
  by (induction k v d rule: dict_set.induct) auto

lemma dict_get_mem: "distinct (map fst d) \<Longrightarrow> (k, v) \<in> set d \<Longrightarrow> dict_get dflt k d = v"
  by (simp add: dict_get_def)

lemma group_names_dict_set:
  assumes "distinct (map fst gs)"
  shows "group_names (dict_set key (add_to_group b name (dict_get \<lparr>g_upstream = [], g_generated = []\<rparr> key gs)) gs) =
    insert name (group_names gs)"
proof (cases "map_of gs key")
  case None
  then have "key \<notin> fst ` set gs" by (simp add: map_of_eq_None_iff)
  then have "{e \<in> set gs. fst e \<noteq> key} = set gs" by force
  then show ?thesis using None
    by (auto simp: group_names_def dict_set_mem [OF assms] dict_get_def add_to_group_def)
next
  case (Some g)
  then have "(key, g) \<in> set gs" by (rule map_of_SomeD)
  then have gs: "set gs = insert (key, g) {e \<in> set gs. fst e \<noteq> key}"
    using assms Some by (force simp: eq_key_imp_eq_value)
  have "group_names gs = set (g_upstream g) \<union> set (g_generated g) \<union>
      (\<Union>(k, g) \<in> {e \<in> set gs. fst e \<noteq> key}. set (g_upstream g) \<union> set (g_generated g))"
    unfolding group_names_def by (subst gs) simp
  then show ?thesis using Some
    by (auto simp: group_names_def [of "dict_set _ _ _"] dict_set_mem [OF assms] dict_get_def add_to_group_def)
qed

lemma recipe_line_cases:
  assumes "recipe_line u objects gen line (compiled, gs) = Inr st'"
  obtains (skip) "st' = (compiled, gs)"
  | (recipe) obj name key where "obj \<in> objects" and "map_of (u_sources u) obj = Some [name]"
      and "st' = (insert obj compiled,
        dict_set key (add_to_group (name \<in> gen) name (dict_get \<lparr>g_upstream = [], g_generated = []\<rparr> key gs)) gs)"
  using assms unfolding recipe_line_def Let_def
  by (auto simp: bindE_eq_Inr sources_of_def of_option_eq_Inr split: if_splits)

lemma recipe_line_inv:
  assumes "recipes_inv u objects gen st" and "recipe_line u objects gen line st = Inr st'"
  shows "recipes_inv u objects gen st'"
proof -
  obtain compiled gs where st: "st = (compiled, gs)" by (cases st)
  from assms(2) [unfolded st] show ?thesis
  proof (cases rule: recipe_line_cases)
    case skip
    then show ?thesis using assms(1) st by simp
  next
    case (recipe obj name key)
    let ?old = "dict_get \<lparr>g_upstream = [], g_generated = []\<rparr> key gs"
    have dist: "distinct (map fst gs)" using assms(1) st by (simp add: recipes_inv_def)
    have old: "set (g_generated ?old) \<subseteq> gen \<and> set (g_upstream ?old) \<inter> gen = {}"
      using assms(1) st by (cases "map_of gs key") (auto simp: dict_get_def recipes_inv_def dest!: map_of_SomeD)
    have "\<forall>(k, g) \<in> set (snd st'). set (g_generated g) \<subseteq> gen \<and> set (g_upstream g) \<inter> gen = {}"
      using assms(1) st recipe(3) old by (auto simp: recipes_inv_def dict_set_mem [OF dist] add_to_group_def)
    moreover have "group_names (snd st') = insert name (group_names gs)"
      using recipe(3) group_names_dict_set [OF dist] by simp
    ultimately show ?thesis
      using assms(1) st recipe(1-3) dist by (auto simp: recipes_inv_def dict_set_distinct)
  qed
qed

text \<open>
  When the recipes are accepted, they cover the build: every object has a recipe, the files named in
  the groups are exactly the single sources of the objects, and a file is listed as generated exactly
  when it is a generated source.
\<close>

theorem compile_groups_cover:
  assumes "compile_groups u objects gen commands = Inr gs"
  shows "(\<forall>obj \<in> objects. \<exists>name \<in> group_names gs. map_of (u_sources u) obj = Some [name]) \<and>
    (\<forall>name \<in> group_names gs. \<exists>obj \<in> objects. map_of (u_sources u) obj = Some [name]) \<and>
    (\<forall>(k, g) \<in> set gs. set (g_generated g) \<subseteq> gen \<and> set (g_upstream g) \<inter> gen = {})"
proof -
  obtain compiled where loop: "foldE (recipe_line u objects gen)
      (splitlines (replace_sub [backslash, newline] '' '' commands)) ({}, []) = Inr (compiled, gs)"
    and all: "compiled = objects"
    using assms by (auto simp: compile_groups_def bindE_eq_Inr split: if_splits prod.splits)
  have "recipes_inv u objects gen (compiled, gs)"
    by (rule foldE_invariant [OF loop]) (auto simp: recipes_inv_def [of _ _ _ "({}, [])"] group_names_def intro: recipe_line_inv)
  then show ?thesis using all by (simp add: recipes_inv_def)
qed

definition sample_commands :: string where
  "sample_commands = ''cc -Iinclude -DA -DNDEBUG '' @ [backslash, newline] @ '' -c -o ssl/a.o ssl/a.c'' @ [newline] @
     ''ar rcs libssl.a ssl/a.o'' @ [newline] @ ''cc  -Iinclude -DA -c -o crypto/b.o crypto/x86_64cpuid.s'' @ [newline] @
     ''cc -I. -DV='' @ [CHR 0x27] @ ''x y'' @ [CHR 0x27] @ '' -c -o providers/c.o providers/c.c'' @ [newline]"

definition sample_groups :: groups where
  "sample_groups =
     [(([''include''], [''-DA'']), \<lparr>g_upstream = [''ssl/a.c''], g_generated = [''crypto/x86_64cpuid.s'']\<rparr>),
      (([''.''], [''-DV=x y'']), \<lparr>g_upstream = [''providers/c.c''], g_generated = []\<rparr>)]"

lemma sample_compile_groups:
  "compile_groups sample_unified {''ssl/a.o'', ''crypto/b.o'', ''providers/c.o''} {''crypto/x86_64cpuid.s''} sample_commands = Inr sample_groups"
  by code_simp

theorem compile_groups_cover_witness:
  "\<exists>name \<in> group_names sample_groups. map_of (u_sources sample_unified) ''ssl/a.o'' = Some [name]"
proof -
  have "''ssl/a.o'' \<in> {''ssl/a.o'', ''crypto/b.o'', ''providers/c.o''}" by (rule insertI1)
  then show ?thesis using compile_groups_cover [OF sample_compile_groups] by blast
qed

section \<open>The initializer is registered once\<close>

lemma cut_None: "cut p s = None \<Longrightarrow> \<not> (\<exists>a b. s = a @ p @ b)"
proof (induction p s rule: cut.induct)
  case (2 p c cs)
  then have "\<not> startswith (c # cs) p" "\<not> (\<exists>a b. cs = a @ p @ b)" by (auto split: if_splits)
  then show ?case by (metis append_Cons append_Nil list.inject neq_Nil_conv startswith_append)
qed (auto split: if_splits)

text \<open>
  An accepted assembly file contains the legacy initializer once; the result is the banner followed
  by the same text with that one fragment replaced by the entry in \<open>.init_array\<close>, everything before and
  after it unchanged, and no further fragment after it.
\<close>

theorem adapt_cpuid_replaces_once:
  assumes "adapt_cpuid assembly = Inr result"
  shows "\<exists>before after. assembly = before @ cpuid_initializer @ after \<and>
    result = cpuid_banner @ before @ cpuid_array @ after \<and> \<not> (\<exists>a b. after = a @ cpuid_initializer @ b)"
proof -
  have ne: "cpuid_initializer \<noteq> []" by (simp add: cpuid_initializer_def)
  have one: "count_sub cpuid_initializer assembly = 1"
    and result: "result = cpuid_banner @ replace_sub cpuid_initializer cpuid_array assembly"
    using assms by (auto simp: adapt_cpuid_def split: if_splits)
  have pos: "0 \<le> count_sub p s" if "p \<noteq> []" for p s
    using that by (induction p s rule: count_sub.induct) (subst count_sub.simps, auto split: option.split)
  obtain a b where ab: "cut cpuid_initializer assembly = Some (a, b)"
    using one ne by (subst (asm) count_sub.simps) (auto split: option.splits)
  then have "count_sub cpuid_initializer b = 0"
    using one ne by (subst (asm) count_sub.simps) simp
  moreover have "count_sub cpuid_initializer b > 0" if "cut cpuid_initializer b = Some (a', b')" for a' b'
    using that ne pos [OF ne, of b'] by (subst count_sub.simps) simp
  ultimately have none: "cut cpuid_initializer b = None"
    by (cases "cut cpuid_initializer b") auto
  have "replace_sub cpuid_initializer cpuid_array b = b"
    using none ne by (subst replace_sub.simps) simp
  then have "replace_sub cpuid_initializer cpuid_array assembly = a @ cpuid_array @ b"
    using ab ne by (subst replace_sub.simps) simp
  then show ?thesis using result cut_Some [OF ab] cut_None [OF none] by blast
qed

theorem adapt_cpuid_replaces_once_witness:
  "\<exists>before after. ''.text'' @ [newline] @ cpuid_initializer = before @ cpuid_initializer @ after \<and>
     cpuid_banner @ ''.text'' @ [newline] @ cpuid_array = cpuid_banner @ before @ cpuid_array @ after"
proof -
  have "adapt_cpuid (''.text'' @ [newline] @ cpuid_initializer) = Inr (cpuid_banner @ ''.text'' @ [newline] @ cpuid_array)"
    by code_simp
  from adapt_cpuid_replaces_once [OF this] show ?thesis by blast
qed

end
