(* ===== verification/Overload_Summary.thy ===== *)
theory Overload_Summary
  imports Py_Value
begin

text \<open>
  \<open>bench/summarize_overload.py\<close>: the summary of a completed overload report.  A report is the JSON
  document \<open>bench/overload.py\<close> writes, a \<open>val\<close>; every access, comparison and division of the source is
  an operation of \<open>Py_Value\<close>, so a malformed report raises where the source raises.
\<close>

section \<open>One phase\<close>

definition phase_samples :: "val \<Rightarrow> val \<Rightarrow> val list res" where
  "phase_samples report phase =
     selectE (idx report ''samples'') (\<lambda>sample.
       andE (leE (idx phase ''start_unix_ns'') (idx sample ''unix_ns''))
            (leE (idx sample ''unix_ns'') (idx phase ''end_unix_ns'')))"

definition phase_failures :: "val \<Rightarrow> val res" where
  "phase_failures phase = bindE (idx phase ''failures'') (\<lambda>f. Inr (or_empty f))"

definition phase_unsent :: "val \<Rightarrow> val res" where
  "phase_unsent phase = addE (idx phase ''generator_queue_drops'') (idx phase ''generator_expired'')"

definition check_balance :: "val \<Rightarrow> val \<Rightarrow> val \<Rightarrow> unit res" where
  "check_balance phase failures unsent =
     bindE (neE (addE (addE (idx phase ''successes'') (bindE (dict_values failures) py_sum)) (Inr unsent))
                (idx phase ''offered''))
       (\<lambda>b. ensure (\<not> b) (ValueError ''offer accounting does not balance''))"

definition failures_sum :: "(string \<Rightarrow> bool) \<Rightarrow> val \<Rightarrow> val res" where
  "failures_sum p failures = bindE (items failures) (\<lambda>d. py_sum (map snd (filter (p \<circ> fst) d)))"

definition p99_ms :: "val \<Rightarrow> string \<Rightarrow> val res" where
  "p99_ms phase field = divE (path phase [field, ''p99_us'']) (pI 1000)"

definition p99_ms_if_counted :: "val \<Rightarrow> string \<Rightarrow> val res" where
  "p99_ms_if_counted phase field =
     ifE (truthE (path phase [field, ''count''])) (p99_ms phase field) (Inr VNone)"

definition base_fields :: "val \<Rightarrow> val \<Rightarrow> val \<Rightarrow> val list \<Rightarrow> (string \<times> val res) list" where
  "base_fields phase failures unsent samples =
     [(''label'', getE phase ''label''),
      (''offered_rate'', idx phase ''offered_rate''),
      (''seconds'', idx phase ''duration_seconds''),
      (''sent_rate'', idx phase ''sent_per_second''),
      (''goodput'', idx phase ''window_successes_per_second''),
      (''success_percent'', divE (mulE (pI 100) (idx phase ''successes'')) (idx phase ''offered'')),
      (''unsent_percent'', divE (mulE (pI 100) (Inr unsent)) (idx phase ''offered'')),
      (''http_failures_per_second'',
        divE (failures_sum (\<lambda>kind. startswith kind ''http_'') failures) (idx phase ''duration_seconds'')),
      (''transport_failures_per_second'',
        divE (failures_sum (\<lambda>kind. \<not> startswith kind ''http_'') failures) (idx phase ''duration_seconds'')),
      (''success_p99_ms'', p99_ms phase ''success_latency''),
      (''service_p99_ms'', p99_ms phase ''success_service_latency''),
      (''rejection_p99_ms'', p99_ms_if_counted phase ''rejection_latency''),
      (''failure_p99_ms'', p99_ms_if_counted phase ''failure_latency''),
      (''scheduler_p99_ms'', p99_ms phase ''scheduler_lag''),
      (''failures'', Inr failures),
      (''admin_errors'', sumE (mapE (\<lambda>sample. pB (inE ''admin_error'' sample)) samples))]"

definition tail_field :: "val \<Rightarrow> string \<Rightarrow> string \<Rightarrow> string \<Rightarrow> string \<times> val res" where
  "tail_field phase label field quantile =
     (label @ ''_'' @ quantile @ ''_ms'',
      bindE (idx phase field) (\<lambda>distribution.
      bindE (getE distribution (quantile @ ''_us'')) (\<lambda>value.
      ifE (if is_none value then Inr False else truthE (idx distribution ''count''))
        (divE (Inr value) (pI 1000)) (Inr VNone))))"

definition latency_fields :: "val \<Rightarrow> string \<times> string \<Rightarrow> (string \<times> val res) list" where
  "latency_fields phase e =
     (case e of (label, field) \<Rightarrow>
        (label @ ''_latency_count'', path phase [field, ''count'']) #
        map (tail_field phase label field) [''p999'', ''p9999'', ''max''])"

definition all_latency_fields :: "val \<Rightarrow> (string \<times> val res) list" where
  "all_latency_fields phase =
     concat (map (latency_fields phase)
       [(''success'', ''success_latency''), (''service'', ''success_service_latency''),
        (''rejection'', ''rejection_latency''), (''failure'', ''failure_latency''),
        (''scheduler'', ''scheduler_lag'')]) @
     [(''dial_attempts'', getE phase ''dial_attempts''),
      (''request_bytes_written'', getE phase ''request_bytes_written''),
      (''response_bytes_validated'', getE phase ''response_bytes_validated'')]"

definition meets_field :: "(string \<times> val) list \<Rightarrow> (string \<times> val res) list" where
  "meets_field row =
     [(''meets_baseline_target'',
       pB (andE (geE (idx (VDict row) ''success_percent'') (pF (999 / 10)))
                (leE (idx (VDict row) ''success_p99_ms'') (pI 10))))]"

definition memory_fields :: "val list \<Rightarrow> (string \<times> val res) list" where
  "memory_fields samples =
     [(''rss_min_mib'', divE (minE (mapE (\<lambda>s. path s [''server'', ''VmRSS'']) samples)) (pI (2 ^ 20))),
      (''rss_max_mib'', divE (maxE (mapE (\<lambda>s. path s [''server'', ''VmRSS'']) samples)) (pI (2 ^ 20))),
      (''fds_max'', maxE (mapE (\<lambda>s. path s [''server'', ''fds'']) samples)),
      (''tcp_time_wait_max'', maxE (mapE (\<lambda>s. bindE (idx s ''kernel'') (\<lambda>k. get_dflt k ''tcp_tw'' (VInt 0))) samples)),
      (''tcp_mem_pages_max'', maxE (mapE (\<lambda>s. bindE (idx s ''kernel'') (\<lambda>k. get_dflt k ''tcp_mem'' (VInt 0))) samples))]"

section \<open>Rates between the first and the last sample\<close>

definition client_clock :: "val \<Rightarrow> val res" where
  "client_clock sample =
     bindE (idx sample ''client'') (\<lambda>c. bindE (idx sample ''unix_ns'') (\<lambda>d. get_dflt c ''unix_ns'' d))"

definition client_cpu_field :: "val list \<Rightarrow> (string \<times> val) list \<Rightarrow> (string \<times> val) list res" where
  "client_cpu_field samples row =
     bindE (filterE (inE ''client'') samples) (\<lambda>client_samples.
       if length client_samples \<ge> 2
       then (let client_first = hd client_samples; client_last = last client_samples in
         bindE (divE (subE (client_clock client_last) (client_clock client_first)) (pF 1000000000)) (\<lambda>client_elapsed.
         ifE (gtE (Inr client_elapsed) (pI 0))
           (fieldsE [(''client_cpu_cores'',
              divE (subE (path client_last [''client'', ''cpu_seconds'']) (path client_first [''client'', ''cpu_seconds'']))
                   (Inr client_elapsed))] row)
           (Inr row)))
       else Inr row)"

type_synonym core_totals = "val \<times> val \<times> (string \<times> val) list"

definition core_step :: "val \<Rightarrow> string \<times> val \<Rightarrow> core_totals \<Rightarrow> core_totals res" where
  "core_step last_cores e st =
     (case (e, st) of ((name, ticks), (busy, ticks_total, per_core)) \<Rightarrow>
      bindE (elems ticks) (\<lambda>begins.
      bindE (bindE (idx last_cores name) elems) (\<lambda>ends.
      bindE (mapE (\<lambda>(b, e). py_sub e b) (zip begins ends)) (\<lambda>delta.
      bindE (py_sum (take 8 delta)) (\<lambda>core_total.
      bindE (subE (subE (Inr core_total) (nth_val (VList delta) 3)) (nth_val (VList delta) 4)) (\<lambda>core_busy.
      bindE (py_add ticks_total core_total) (\<lambda>total'.
      bindE (py_add busy core_busy) (\<lambda>busy'.
      if truthy core_total
      then bindE (divE (mulE (pI 100) (Inr core_busy)) (Inr core_total)) (\<lambda>share.
             Inr (busy', total', dict_set name share per_core))
      else Inr (busy', total', per_core)))))))))"

definition core_fields :: "val \<Rightarrow> val \<Rightarrow> (string \<times> val) list \<Rightarrow> (string \<times> val) list res" where
  "core_fields first last' row =
     ifE (inE ''server_cores'' first)
       (bindE (bindE (idx first ''server_cores'') items) (\<lambda>cores.
        bindE (foldE (\<lambda>e st. bindE (idx last' ''server_cores'') (\<lambda>lc. core_step lc e st)) cores (VInt 0, VInt 0, [])) (\<lambda>st.
        case st of (busy, ticks_total, per_core) \<Rightarrow>
          if truthy ticks_total
          then fieldsE
            [(''server_core_busy_percent'', divE (mulE (pI 100) (Inr busy)) (Inr ticks_total)),
             (''server_core_busy_percent_by_cpu'', Inr (VDict per_core)),
             (''server_core_busy_percent_max'', py_max (map snd per_core))] row
          else Inr row)))
       (Inr row)"

definition rate_fields :: "val list \<Rightarrow> (string \<times> val) list \<Rightarrow> (string \<times> val) list res" where
  "rate_fields samples row =
     (let first = hd samples; last' = last samples in
      bindE (divE (subE (idx last' ''unix_ns'') (idx first ''unix_ns'')) (pF 1000000000)) (\<lambda>elapsed.
      bindE (fieldsE [(''server_cpu_cores'',
        divE (subE (path last' [''server'', ''cpu_seconds'']) (path first [''server'', ''cpu_seconds''])) (Inr elapsed))] row) (\<lambda>row.
      bindE (client_cpu_field samples row) (\<lambda>row.
      bindE (core_fields first last' row) (\<lambda>row.
      bindE (ifE (andE (inE ''counters'' first) (inE ''counters'' last'))
        (fieldsE (map (\<lambda>name. (''sampled_'' @ name @ ''_per_second'',
            divE (subE (path last' [''counters'', name]) (path first [''counters'', name])) (Inr elapsed)))
          [''requests_admitted_total'', ''requests_rejected_total'']) row)
        (Inr row)) (\<lambda>row.
      fieldsE [(''sampled_listen_overflows'',
        subE (path last' [''kernel'', ''ListenOverflows'']) (path first [''kernel'', ''ListenOverflows'']))] row))))))"

definition summarize_phase :: "val \<Rightarrow> val \<Rightarrow> val res" where
  "summarize_phase report phase =
     bindE (phase_samples report phase) (\<lambda>samples.
     bindE (phase_failures phase) (\<lambda>failures.
     bindE (phase_unsent phase) (\<lambda>unsent.
     seqE (check_balance phase failures unsent)
    (bindE (fieldsE (base_fields phase failures unsent samples) []) (\<lambda>row.
     bindE (fieldsE (all_latency_fields phase) row) (\<lambda>row.
     bindE (fieldsE (meets_field row) row) (\<lambda>row.
     bindE (if samples \<noteq> [] then fieldsE (memory_fields samples) row else Inr row) (\<lambda>row.
     bindE (if length samples \<ge> 2 then rate_fields samples row else Inr row) (\<lambda>row.
     Inr (VDict row))))))))))"

section \<open>The report\<close>

definition kernel_counters :: "string list" where
  "kernel_counters = [''ListenOverflows'', ''ListenDrops'', ''TCPReqQFullDoCookies'', ''TCPReqQFullDrop'', ''TCPBacklogDrop'']"

definition check_complete :: "val \<Rightarrow> unit res" where
  "check_complete report =
     bindE (orE (neE (idx report ''status'') (pS ''complete'')) (neE (idx report ''server_exit'') (pI 0)))
       (\<lambda>b. ensure (\<not> b) (ValueError ''require a completed run and clean server exit''))"

definition summarize_overload :: "val \<Rightarrow> val res" where
  "summarize_overload report =
     seqE (check_complete report)
    (bindE (collectE (path report [''client'', ''phases'']) (summarize_phase report)) (\<lambda>phases.
     dictE [(''config'', idx report ''config''), (''phases'', Inr (VList phases)),
            (''server_exit'', idx report ''server_exit''),
            (''kernel_delta'', dictE (map (\<lambda>name. (name,
               subE (path report [''kernel_after'', name]) (path report [''kernel_before'', name]))) kernel_counters))]))"

definition summarize_overload_main :: "(string \<times> val) list \<Rightarrow> val res" where
  "summarize_overload_main reports =
     bindE (mapE (\<lambda>(p, report). bindE (summarize_overload report) (\<lambda>s. Inr (p, s))) reports)
       (\<lambda>results. Inr (VDict (dict_of results)))"

section \<open>Rows keep their base fields\<close>

definition base_keys :: "string list" where
  "base_keys = [''label'', ''offered_rate'', ''seconds'', ''sent_rate'', ''goodput'', ''success_percent'', ''unsent_percent'',
     ''http_failures_per_second'', ''transport_failures_per_second'', ''success_p99_ms'', ''service_p99_ms'',
     ''rejection_p99_ms'', ''failure_p99_ms'', ''scheduler_p99_ms'', ''failures'', ''admin_errors'']"

definition latency_keys :: "string list" where
  "latency_keys = concat (map (\<lambda>l. [l @ ''_latency_count'', l @ ''_p999_ms'', l @ ''_p9999_ms'', l @ ''_max_ms''])
     [''success'', ''service'', ''rejection'', ''failure'', ''scheduler'']) @
     [''dial_attempts'', ''request_bytes_written'', ''response_bytes_validated'']"

definition late_keys :: "string list" where
  "late_keys = [''meets_baseline_target'', ''rss_min_mib'', ''rss_max_mib'', ''fds_max'', ''tcp_time_wait_max'', ''tcp_mem_pages_max'',
     ''server_cpu_cores'', ''client_cpu_cores'', ''server_core_busy_percent'', ''server_core_busy_percent_by_cpu'',
     ''server_core_busy_percent_max'', ''sampled_requests_admitted_total_per_second'',
     ''sampled_requests_rejected_total_per_second'', ''sampled_listen_overflows'']"

lemma base_fields_keys: "map fst (base_fields phase failures unsent samples) = base_keys"
  by (simp add: base_fields_def base_keys_def)

lemma latency_fields_keys: "map fst (all_latency_fields phase) = latency_keys"
  by (simp add: all_latency_fields_def latency_fields_def latency_keys_def tail_field_def)

lemma row_keys_distinct: "distinct (base_keys @ latency_keys @ late_keys)"
  by code_simp

lemma fieldsE_keeps: "fieldsE fs row = Inr row' \<Longrightarrow> set (map fst fs) \<subseteq> set ks \<Longrightarrow> k \<notin> set ks \<Longrightarrow> map_of row' k = map_of row k"
  by (rule fieldsE_other) auto

lemma client_cpu_field_keeps:
  "client_cpu_field samples row = Inr row' \<Longrightarrow> k \<notin> set late_keys \<Longrightarrow> map_of row' k = map_of row k"
  by (auto simp: client_cpu_field_def Let_def py_ok map_of_dict_set late_keys_def split: if_splits)

lemma core_fields_keeps:
  "core_fields first last' row = Inr row' \<Longrightarrow> k \<notin> set late_keys \<Longrightarrow> map_of row' k = map_of row k"
  by (auto simp: core_fields_def py_ok map_of_dict_set late_keys_def split: if_splits)

lemma rate_fields_keeps:
  assumes "rate_fields samples row = Inr row'" and "k \<notin> set late_keys"
  shows "map_of row' k = map_of row k"
proof -
  have single: "map_of r' k = map_of r k" if "fieldsE [(k', m)] r = Inr r'" "k' \<in> set late_keys" for k' m r r'
    using that assms(2) by (auto simp: bindE_eq_Inr map_of_dict_set)
  have double: "map_of r' k = map_of r k"
    if "fieldsE [(k', m), (k'', m')] r = Inr r'" "k' \<in> set late_keys" "k'' \<in> set late_keys" for k' k'' m m' r r'
    using that assms(2) by (auto simp: bindE_eq_Inr map_of_dict_set)
  obtain elapsed r1 r2 r3 r4 b where
    "fieldsE [(''server_cpu_cores'', divE (subE (path (last samples) [''server'', ''cpu_seconds''])
        (path (hd samples) [''server'', ''cpu_seconds''])) (Inr elapsed))] row = Inr r1"
    "client_cpu_field samples r1 = Inr r2" "core_fields (hd samples) (last samples) r2 = Inr r3"
    "(if b then fieldsE (map (\<lambda>name. (''sampled_'' @ name @ ''_per_second'',
            divE (subE (path (last samples) [''counters'', name]) (path (hd samples) [''counters'', name])) (Inr elapsed)))
          [''requests_admitted_total'', ''requests_rejected_total'']) r3 else Inr r3) = Inr r4"
    "fieldsE [(''sampled_listen_overflows'',
        subE (path (last samples) [''kernel'', ''ListenOverflows'']) (path (hd samples) [''kernel'', ''ListenOverflows'']))] r4 = Inr row'"
    using assms(1) by (auto simp only: rate_fields_def Let_def bindE_eq_Inr ifE_eq_Inr)
  then show ?thesis
    using single double client_cpu_field_keeps [OF _ assms(2)] core_fields_keeps [OF _ assms(2)]
    by (auto simp: late_keys_def split: if_splits)
qed

lemma base_keys_apart: "k \<in> set base_keys \<Longrightarrow> k \<notin> set latency_keys \<and> k \<notin> set late_keys"
  using row_keys_distinct by auto

lemma latency_keys_apart: "k \<in> set latency_keys \<Longrightarrow> k \<notin> set late_keys"
  using row_keys_distinct by auto

lemma key_mem: "(k, m) \<in> set fs \<Longrightarrow> map fst fs = ks \<Longrightarrow> k \<in> set ks"
  by force

lemma summarize_phase_ok:
  assumes "summarize_phase report phase = Inr r"
  obtains samples failures unsent row where "r = VDict row"
    and "phase_samples report phase = Inr samples" and "phase_failures phase = Inr failures"
    and "phase_unsent phase = Inr unsent" and "check_balance phase failures unsent = Inr ()"
    and "\<forall>(k, m) \<in> set (base_fields phase failures unsent samples). m = idx r k \<and> returns m"
    and "\<forall>(k, m) \<in> set (all_latency_fields phase). m = idx r k \<and> returns m"
proof -
  obtain samples failures unsent row0 row1 row2 row3 row where
    s: "phase_samples report phase = Inr samples" and f: "phase_failures phase = Inr failures"
    and u: "phase_unsent phase = Inr unsent" and b: "check_balance phase failures unsent = Inr ()"
    and r0: "fieldsE (base_fields phase failures unsent samples) [] = Inr row0"
    and r1: "fieldsE (all_latency_fields phase) row0 = Inr row1"
    and r2: "fieldsE (meets_field row1) row1 = Inr row2"
    and r3: "(if samples \<noteq> [] then fieldsE (memory_fields samples) row2 else Inr row2) = Inr row3"
    and r4: "(if length samples \<ge> 2 then rate_fields samples row3 else Inr row3) = Inr row"
    and r: "r = VDict row"
    using assms unfolding summarize_phase_def bindE_eq_Inr seqE_eq_Inr by auto
  have late: "map_of row k = map_of row1 k" if "k \<notin> set late_keys" for k
  proof -
    have "map_of row k = map_of row3 k" using r4 rate_fields_keeps that by (auto split: if_splits)
    also have "map_of row3 k = map_of row2 k"
      using r3 that fieldsE_keeps [of "memory_fields samples" row2 row3 late_keys k]
      by (auto simp: memory_fields_def late_keys_def split: if_splits)
    also have "map_of row2 k = map_of row1 k"
      using r2 that fieldsE_keeps [of "meets_field row1" row1 row2 late_keys k]
      by (auto simp: meets_field_def late_keys_def)
    finally show ?thesis .
  qed
  have base: "m = idx r k \<and> returns m" if "(k, m) \<in> set (base_fields phase failures unsent samples)" for k m
  proof -
    have k: "k \<in> set base_keys" by (rule key_mem [OF that base_fields_keys])
    have "\<exists>v. m = Inr v \<and> map_of row0 k = Some v"
      using fieldsE_field [OF r0 that] row_keys_distinct by (simp add: base_fields_keys)
    moreover have "map_of row k = map_of row0 k"
      using late [of k] fieldsE_other [OF r1, of k] base_keys_apart [OF k]
      by (simp add: latency_fields_keys flip: set_map)
    ultimately show ?thesis using r by auto
  qed
  have latency: "m = idx r k \<and> returns m" if "(k, m) \<in> set (all_latency_fields phase)" for k m
  proof -
    have k: "k \<in> set latency_keys" by (rule key_mem [OF that latency_fields_keys])
    have "\<exists>v. m = Inr v \<and> map_of row1 k = Some v"
      using fieldsE_field [OF r1 that] row_keys_distinct by (simp add: latency_fields_keys)
    then show ?thesis using late [of k] latency_keys_apart [OF k] r by auto
  qed
  show ?thesis using that [OF r s f u b] base latency by blast
qed

section \<open>Offers are accounted for\<close>

lemma summarize_overload_rows:
  assumes "summarize_overload report = Inr s"
  obtains phases rows where "path report [''client'', ''phases''] = Inr phases"
    and "check_complete report = Inr ()" and "idx s ''phases'' = Inr (VList rows)"
    and "bindE (elems phases) (mapE (summarize_phase report)) = Inr rows" and "idx s ''server_exit'' = idx report ''server_exit''"
  using assms unfolding summarize_overload_def
  by (auto simp: py_ok collectE_def dictE_def map_of_dict_set)

definition int_counts :: "(string \<times> int) list \<Rightarrow> val" where
  "int_counts fs = VDict (map (\<lambda>(k, n). (k, VInt n)) fs)"

lemma dict_values_int_counts: "bindE (dict_values (int_counts fs)) py_sum = Inr (VInt (sum_list (map snd fs)))"
proof -
  have "map snd (map (\<lambda>(k, n). (k, VInt n)) fs) = map VInt (map snd fs)" by auto
  then show ?thesis using py_sum_ints [of "map snd fs"] by (simp add: dict_values_def int_counts_def del: map_map)
qed

lemma or_empty_int_counts [simp]: "or_empty (int_counts fs) = int_counts fs"
  by (simp add: or_empty_def int_counts_def)

lemma failures_sum_int_counts:
  "failures_sum p (int_counts fs) = Inr (VInt (sum_list (map snd (filter (p \<circ> fst) fs))))"
proof -
  have "map snd (filter (p \<circ> fst) (map (\<lambda>(k, n). (k, VInt n)) fs)) = map VInt (map snd (filter (p \<circ> fst) fs))"
    by (induction fs) auto
  then show ?thesis
    using py_sum_ints [of "map snd (filter (p \<circ> fst) fs)"]
    by (simp add: failures_sum_def int_counts_def del: map_map)
qed

lemma sum_list_partition: "sum_list (map f (filter p xs)) + sum_list (map f (filter (\<lambda>x. \<not> p x) xs)) = (sum_list (map f xs) :: int)"
  by (induction xs) auto

lemma percent_range:
  assumes "0 \<le> a" and "a \<le> (b :: int)" and "0 < b"
  shows "0 \<le> fl (of_int (100 * a) / of_int b) \<and> fl (of_int (100 * a) / of_int b) \<le> 100"
proof
  have "of_int (100 * a) / of_int b \<le> (of_int 100 :: rat)" using assms by (simp add: divide_le_eq)
  then have "fl (of_int (100 * a) / of_int b) \<le> fl (of_int 100)" by (rule fl_mono)
  then show "fl (of_int (100 * a) / of_int b) \<le> 100" using fl_of_int [of 100] by simp
qed (use assms in \<open>simp add: fl_nonneg\<close>)


text \<open>A report of one phase in which 9 of 10 offers succeeded and one was rejected.\<close>

definition sample_latency :: "int \<Rightarrow> int \<Rightarrow> val" where
  "sample_latency n us = VDict [(''count'', VInt n), (''p99_us'', VInt us), (''p999_us'', VInt us), (''p9999_us'', VInt us), (''max_us'', VInt us)]"

definition sample_phase :: "string \<Rightarrow> int \<Rightarrow> int \<Rightarrow> int \<Rightarrow> int \<Rightarrow> val" where
  "sample_phase label start seconds offered rejected = VDict
     [(''label'', VStr label), (''start_unix_ns'', VInt start), (''end_unix_ns'', VInt (start + seconds)),
      (''offered_rate'', VInt (offered div seconds)), (''duration_seconds'', VInt seconds), (''sent_per_second'', VInt (offered div seconds)),
      (''window_successes_per_second'', VInt ((offered - rejected) div seconds)), (''successes'', VInt (offered - rejected)),
      (''failures'', int_counts [(''http_503'', rejected)]), (''generator_queue_drops'', VInt 0), (''generator_expired'', VInt 0),
      (''offered'', VInt offered), (''sent'', VInt offered),
      (''success_latency'', sample_latency 9 2000), (''success_service_latency'', sample_latency 9 1000),
      (''rejection_latency'', sample_latency 1 500), (''failure_latency'', sample_latency 0 0), (''scheduler_lag'', sample_latency 10 10)]"

definition sample_sample :: "int \<Rightarrow> int \<Rightarrow> val" where
  "sample_sample now ticks = VDict
     [(''unix_ns'', VInt now), (''server'', VDict [(''VmRSS'', VInt 1048576), (''fds'', VInt 12), (''cpu_seconds'', VInt 1)]),
      (''server_cores'', VDict [(''cpu0'', VList (map VInt [ticks, 0, 0, ticks, 0, 0, 0, 0]))]),
      (''kernel'', VDict [(''ListenOverflows'', VInt 0)])]"

definition kernel_zero :: val where
  "kernel_zero = VDict (map (\<lambda>name. (name, VInt 0)) kernel_counters)"

definition sample_report :: "val list \<Rightarrow> val list \<Rightarrow> val" where
  "sample_report phases samples = VDict
     [(''status'', VStr ''complete''), (''server_exit'', VInt 0), (''config'', VDict []),
      (''client'', VDict [(''phases'', VList phases), (''churn'', VBool False)]), (''samples'', VList samples),
      (''kernel_before'', kernel_zero), (''kernel_after'', kernel_zero),
      (''server_identity'', VDict [(''boot_id'', VStr ''a'')]),
      (''remote_client'', VDict [(''identity'', VDict [(''boot_id'', VStr ''b'')]), (''separate_kernel'', VBool True),
         (''clock_uncertainty_ns'', VInt 1000000)])]"

definition one_phase_report :: val where
  "one_phase_report = sample_report [sample_phase ''baseline'' 0 1 10 1] [sample_sample 0 10, sample_sample 1 20]"

lemma one_phase_summary: "returns (summarize_overload one_phase_report)"
  by code_simp


end
