(* ===== verification/Overload_Check.thy ===== *)
theory Overload_Check
  imports Overload_Summary
begin

text \<open>
  \<open>bench/check_overload.py\<close>: the audit of a sustained overload run against explicit targets.  A target
  given on the command line is a Python float, which may be infinite or not a number (\<open>validate\<close>
  refuses those); the defaults are partly Python integers (\<open>Whole\<close>).  \<open>audit_issues\<close> is the list the source accumulates, check by check and in order.
\<close>

section \<open>Targets\<close>

datatype pyfloat = Fin rat | Whole int | Nonfinite

record targets =
  baseline_seconds :: pyfloat
  overload_seconds :: pyfloat
  recovery_seconds :: pyfloat
  max_unsent_percent :: pyfloat
  min_goodput_ratio :: pyfloat
  max_success_p99_ms :: pyfloat
  max_failure_p999_ms :: pyfloat
  max_core_busy_percent :: pyfloat
  max_rss_growth_percent :: pyfloat
  max_clock_uncertainty_ms :: pyfloat

definition default_targets :: targets where
  "default_targets = \<lparr>baseline_seconds = Whole 60, overload_seconds = Whole 180, recovery_seconds = Whole 30,
     max_unsent_percent = Fin (fl (1 / 10)), min_goodput_ratio = Fin (fl (9 / 10)), max_success_p99_ms = Whole 10,
     max_failure_p999_ms = Whole 100, max_core_busy_percent = Whole 85, max_rss_growth_percent = Whole 5,
     max_clock_uncertainty_ms = Whole 50\<rparr>"

definition targets_asdict :: "targets \<Rightarrow> (string \<times> pyfloat) list" where
  "targets_asdict t =
     [(''baseline_seconds'', baseline_seconds t), (''overload_seconds'', overload_seconds t),
      (''recovery_seconds'', recovery_seconds t), (''max_unsent_percent'', max_unsent_percent t),
      (''min_goodput_ratio'', min_goodput_ratio t), (''max_success_p99_ms'', max_success_p99_ms t),
      (''max_failure_p999_ms'', max_failure_p999_ms t), (''max_core_busy_percent'', max_core_busy_percent t),
      (''max_rss_growth_percent'', max_rss_growth_percent t), (''max_clock_uncertainty_ms'', max_clock_uncertainty_ms t)]"

fun fin :: "pyfloat \<Rightarrow> rat" where
  "fin (Fin x) = x"
| "fin (Whole n) = of_int n"
| "fin Nonfinite = 0"

definition bad_target :: "pyfloat \<Rightarrow> bool" where
  "bad_target v \<longleftrightarrow> (v = Nonfinite \<or> fin v < 0)"

definition targets_validate :: "targets \<Rightarrow> unit res" where
  "targets_validate t =
     (if list_ex (bad_target \<circ> snd) (targets_asdict t)
      then Inl (ValueError ''targets must be finite, nonnegative numbers'')
      else if fin (baseline_seconds t) < 60 \<or> fin (overload_seconds t) < 180 \<or> fin (recovery_seconds t) < 30
      then Inl (ValueError ''sustained evidence requires at least 60/180/30-second baseline/overload/recovery phases'')
      else if \<not> (0 < fin (min_goodput_ratio t) \<and> fin (min_goodput_ratio t) \<le> 1) \<or> \<not> fin (max_unsent_percent t) < 100
      then Inl (ValueError ''invalid goodput or unsent-offer target'')
      else if \<not> (0 < fin (max_core_busy_percent t) \<and> fin (max_core_busy_percent t) \<le> 100)
      then Inl (ValueError ''invalid CPU headroom target'')
      else Inr ())"

section \<open>Issues\<close>

definition issue_if :: "bool res \<Rightarrow> string \<Rightarrow> string list res" where
  "issue_if c msg = bindE c (\<lambda>b. Inr (if b then [msg] else []))"

fun concatE :: "string list res list \<Rightarrow> string list res" where
  "concatE [] = Inr []"
| "concatE (m # ms) = bindE m (\<lambda>xs. bindE (concatE ms) (\<lambda>ys. Inr (xs @ ys)))"

definition target_val :: "pyfloat \<Rightarrow> val" where
  "target_val v = (case v of Whole n \<Rightarrow> VInt n | _ \<Rightarrow> VFloat (fin v))"

definition pT :: "pyfloat \<Rightarrow> val res" where
  "pT v = Inr (target_val v)"

text \<open>The text of a number in an f-string; \<open>fr\<close> prints a float as \<open>float.__repr__\<close> does.\<close>

fun number_text :: "(rat \<Rightarrow> string) \<Rightarrow> val \<Rightarrow> string" where
  "number_text fr (VInt n) = str_of_int n"
| "number_text fr (VFloat x) = fr x"
| "number_text fr (VBool b) = (if b then ''True'' else ''False'')"
| "number_text fr _ = []"

definition has_baseline :: "val option \<Rightarrow> bool" where
  "has_baseline baseline \<longleftrightarrow> (case baseline of None \<Rightarrow> False | Some b \<Rightarrow> truthy b)"

definition with_baseline :: "val option \<Rightarrow> (val \<Rightarrow> bool res) \<Rightarrow> bool res" where
  "with_baseline baseline c = (case baseline of None \<Rightarrow> Inr False | Some b \<Rightarrow> if truthy b then c b else Inr False)"

definition kernel_issues :: "targets \<Rightarrow> val \<Rightarrow> string list res" where
  "kernel_issues t report =
     bindE (get_dflt report ''remote_client'' (VDict [])) (\<lambda>remote.
     bindE (bindE (get_dflt report ''server_identity'' (VDict [])) (\<lambda>s. getE s ''boot_id'')) (\<lambda>origin_boot.
     bindE (bindE (get_dflt remote ''identity'' (VDict [])) (\<lambda>s. getE s ''boot_id'')) (\<lambda>client_boot.
     concatE
       [issue_if (orE (Inr (\<not> truthy origin_boot)) (orE (Inr (\<not> truthy client_boot))
          (orE (Inr (py_eq origin_boot client_boot)) (notE (truthE (getE remote ''separate_kernel''))))))
          ''separate generator kernel has not been demonstrated'',
        issue_if (bindE (getE remote ''clock_uncertainty_ns'') (\<lambda>uncertainty.
          orE (Inr (is_none uncertainty))
            (gtE (divE (Inr uncertainty) (pF 1000000)) (pT (max_clock_uncertainty_ms t)))))
          ''clock alignment is missing or too uncertain''])))"

definition tail_issue :: "targets \<Rightarrow> string \<Rightarrow> val \<Rightarrow> string \<Rightarrow> string list res" where
  "tail_issue t label phase kind =
     ifE (truthE (idx phase (kind @ ''_latency_count'')))
       (issue_if (bindE (getE phase (kind @ ''_p999_ms'')) (\<lambda>tail.
          orE (Inr (is_none tail)) (gtE (Inr tail) (pT (max_failure_p999_ms t)))))
          (label @ '': '' @ kind @ '' p99.9 is missing or exceeds the failure target''))
       (Inr [])"

definition attempts :: "val \<Rightarrow> val \<Rightarrow> val res" where
  "attempts report raw =
     ifE (truthE (path report [''client'', ''churn''])) (getE raw ''dial_attempts'') (idx raw ''sent'')"

definition overload_issues :: "targets \<Rightarrow> val \<Rightarrow> val option \<Rightarrow> string \<Rightarrow> int \<Rightarrow> val \<Rightarrow> val \<Rightarrow> string list res" where
  "overload_issues t report baseline label multiple phase raw =
     concatE
       [issue_if (with_baseline baseline (\<lambda>b.
          ltE (idx phase ''offered_rate'') (mulE (pI multiple) (idx b ''offered_rate''))))
          (label @ '': scheduled rate is below its claimed multiple''),
        issue_if (bindE (attempts report raw) (\<lambda>attempted.
          orE (Inr (is_none attempted))
            (ltE (Inr attempted) (mulE (idx raw ''offered'') (subE (pI 1) (divE (pT (max_unsent_percent t)) (pI 100)))))))
          (label @ '': insufficient network attempts/writes; nominal offers are not delivered pressure''),
        issue_if (with_baseline baseline (\<lambda>b.
          ltE (idx phase ''goodput'') (mulE (idx b ''goodput'') (pT (min_goodput_ratio t)))))
          (label @ '': useful throughput fell below the baseline retention target''),
        issue_if (bindE (getE phase ''server_core_busy_percent_max'') (\<lambda>busy.
          orE (Inr (is_none busy)) (gtE (Inr busy) (pT (max_core_busy_percent t)))))
          (label @ '': required per-core CPU headroom is missing''),
        tail_issue t label phase ''rejection'', tail_issue t label phase ''failure'']"

text \<open>\<open>multiple = int(label.split("_")[1][:-1])\<close>\<close>

definition label_multiple :: "string \<Rightarrow> int res" where
  "label_multiple label =
     (let parts = split_on CHR ''_'' label in
      if length parts \<le> 1 then Inl IndexError else py_int (butlast (parts ! 1)))"

definition phase_issues ::
  "(rat \<Rightarrow> string) \<Rightarrow> targets \<Rightarrow> val \<Rightarrow> val option \<Rightarrow> string \<Rightarrow> pyfloat \<Rightarrow> val \<Rightarrow> val \<Rightarrow> string list res" where
  "phase_issues fr t report baseline label seconds phase raw =
     concatE
       [bindE (idx phase ''seconds'') (\<lambda>actual. issue_if (ltE (Inr actual) (pT seconds))
          (label @ '': duration '' @ number_text fr actual @ '' s is below '' @ number_text fr (target_val seconds) @ '' s'')),
        issue_if (gtE (idx phase ''success_p99_ms'') (pT (max_success_p99_ms t))) (label @ '': successful p99 exceeds target''),
        issue_if (truthE (idx phase ''admin_errors'')) (label @ '': admin sampling failed''),
        issue_if (with_baseline baseline (\<lambda>b.
          orE (notE (inE ''rss_max_mib'' phase)) (orE (notE (inE ''rss_max_mib'' b))
            (gtE (idx phase ''rss_max_mib'')
              (mulE (idx b ''rss_max_mib'') (addE (pI 1) (divE (pT (max_rss_growth_percent t)) (pI 100))))))))
          (label @ '': bounded server RSS has not been demonstrated''),
        if startswith label ''overload_''
        then bindE (label_multiple label) (\<lambda>multiple. overload_issues t report baseline label multiple phase raw)
        else issue_if (ltE (idx phase ''success_percent'') (pF (999 / 10)))
               (label @ '': fewer than 99.9% of scheduled offers succeeded'')]"

definition required_phases :: "targets \<Rightarrow> (string \<times> pyfloat) list" where
  "required_phases t =
     (''baseline'', baseline_seconds t) #
     concat (map (\<lambda>multiple. [(''overload_'' @ str_of_int multiple @ ''x'', overload_seconds t),
                              (''recovery_'' @ str_of_int multiple @ ''x'', recovery_seconds t)]) [2, 5, 10])"

definition label_dict :: "(val \<Rightarrow> val res) \<Rightarrow> val list \<Rightarrow> (val \<times> val) list res" where
  "label_dict label phases = foldE (\<lambda>phase d. bindE (label phase) (\<lambda>k. kdict_set k phase d)) phases []"

definition required_issues ::
  "(rat \<Rightarrow> string) \<Rightarrow> targets \<Rightarrow> val \<Rightarrow> (val \<times> val) list \<Rightarrow> (val \<times> val) list \<Rightarrow> string \<times> pyfloat \<Rightarrow> string list res" where
  "required_issues fr t report phases raw_phases e =
     (case e of (label, seconds) \<Rightarrow>
        (case kdict_get (VStr label) phases of
           None \<Rightarrow> Inr [label @ '': missing phase'']
         | Some phase \<Rightarrow>
             bindE (of_option (KeyError label) (kdict_get (VStr label) raw_phases)) (\<lambda>raw.
             phase_issues fr t report (kdict_get (VStr ''baseline'') phases) label seconds phase raw)))"

definition audit_issues :: "(rat \<Rightarrow> string) \<Rightarrow> targets \<Rightarrow> val \<Rightarrow> val \<Rightarrow> string list res" where
  "audit_issues fr t report summary =
     bindE (kernel_issues t report) (\<lambda>issues1.
     bindE (bindE (idx summary ''phases'') elems) (\<lambda>rows.
     bindE (label_dict (\<lambda>phase. idx phase ''label'') rows) (\<lambda>phases.
     let issues2 = (if length phases \<noteq> length rows then [''phase labels are not unique''] else []);
         issues3 = (if kdict_get (VStr ''baseline'') phases = None then [''missing baseline phase''] else []) in
     bindE (bindE (path report [''client'', ''phases'']) elems) (\<lambda>raws.
     bindE (label_dict (\<lambda>phase. getE phase ''label'') raws) (\<lambda>raw_phases.
     bindE (concatE (map (required_issues fr t report phases raw_phases) (required_phases t))) (\<lambda>issues4.
     Inr (issues1 @ issues2 @ issues3 @ issues4)))))))"

definition audit :: "(rat \<Rightarrow> string) \<Rightarrow> val \<Rightarrow> targets \<Rightarrow> val res" where
  "audit fr report t =
     seqE (targets_validate t)
    (bindE (summarize_overload report) (\<lambda>summary.
     bindE (audit_issues fr t report summary) (\<lambda>issues.
     Inr (VDict [(''passed'', VBool (issues = [])),
                 (''targets'', VDict (map (\<lambda>(k, v). (k, target_val v)) (targets_asdict t))),
                 (''issues'', VList (map VStr issues)),
                 (''scope'', VStr ''one workload/configuration; does not prove a production workload matrix''),
                 (''summary'', summary)]))))"

text \<open>\<open>main\<close> after argument parsing: the rendered results and the exit status.\<close>

definition check_overload_main ::
  "(rat \<Rightarrow> string) \<Rightarrow> targets \<Rightarrow> (string \<times> val) list \<Rightarrow> (string \<times> int) res" where
  "check_overload_main fr t reports =
     (case targets_validate t of
        Inl (ValueError m) \<Rightarrow> Inl (ParserError m)
      | Inl e \<Rightarrow> Inl e
      | Inr _ \<Rightarrow>
          bindE (mapE (\<lambda>(p, report). bindE (audit fr report t) (\<lambda>r. Inr (p, r))) reports) (\<lambda>kvs.
          let results = dict_of kvs in
          bindE (allE (\<lambda>r. truthE (idx (snd r) ''passed'')) results) (\<lambda>ok.
          Inr (json_dumps fr (VDict results) @ [newline], if ok then 0 else 1))))"

section \<open>What a report without issues shows\<close>

lemma concatE_Nil: "concatE ms = Inr [] \<longleftrightarrow> (\<forall>m \<in> set ms. m = Inr [])"
  by (induction ms) (auto simp: bindE_eq_Inr)

lemma issue_if_Nil: "issue_if c msg = Inr [] \<longleftrightarrow> c = Inr False"
  by (cases c) (auto simp: issue_if_def)

definition at_most :: "val res \<Rightarrow> rat \<Rightarrow> bool" where
  "at_most m y \<longleftrightarrow> (\<exists>v x. m = Inr v \<and> as_rat v = Some x \<and> x \<le> y)"

definition at_least :: "val res \<Rightarrow> rat \<Rightarrow> bool" where
  "at_least m y \<longleftrightarrow> (\<exists>v x. m = Inr v \<and> as_rat v = Some x \<and> y \<le> x)"

lemma as_rat_target_val [simp]: "as_rat (target_val v) = Some (fin v)"
  by (cases v) (simp_all add: target_val_def)

lemma py_lt_num:
  assumes "as_rat v = Some x" and "py_lt v w = Inr b"
  shows "\<exists>y. as_rat w = Some y \<and> b = (x < y)"
  using assms by (cases v; cases w) (auto simp: py_lt_def)

lemma py_lt_num':
  assumes "as_rat w = Some y" and "py_lt v w = Inr b"
  shows "\<exists>x. as_rat v = Some x \<and> b = (x < y)"
  using assms by (cases v; cases w) (auto simp: py_lt_def)

lemma gtE_target_False: "gtE m (pT v) = Inr False \<Longrightarrow> at_most m (fin v)"
  by (fastforce simp: gtE_def pT_def lift2_eq_Inr at_most_def dest: py_lt_num [rotated])

lemma ltE_target_False: "ltE m (pT v) = Inr False \<Longrightarrow> at_least m (fin v)"
  by (fastforce simp: ltE_def pT_def lift2_eq_Inr at_least_def dest: py_lt_num' [rotated])

lemma ltE_float_False: "ltE m (pF y) = Inr False \<Longrightarrow> at_least m (fl y)"
  by (fastforce simp: ltE_def pF_def lift2_eq_Inr at_least_def dest: py_lt_num' [rotated])

lemma phase_issues_Nil:
  assumes "phase_issues fr t report baseline label seconds phase raw = Inr []"
  shows "at_least (idx phase ''seconds'') (fin seconds) \<and>
    at_most (idx phase ''success_p99_ms'') (fin (max_success_p99_ms t)) \<and>
    truthE (idx phase ''admin_errors'') = Inr False \<and>
    (\<not> startswith label ''overload_'' \<longrightarrow> at_least (idx phase ''success_percent'') (fl (999 / 10))) \<and>
    (startswith label ''overload_'' \<longrightarrow>
       (\<exists>m. label_multiple label = Inr m \<and> overload_issues t report baseline label m phase raw = Inr []))"
  using assms unfolding phase_issues_def
  by (auto simp: concatE_Nil issue_if_Nil bindE_eq_Inr
      dest: ltE_target_False gtE_target_False ltE_float_False split: if_splits)

lemma overload_issues_Nil:
  assumes "overload_issues t report baseline label m phase raw = Inr []"
  shows "at_most (getE phase ''server_core_busy_percent_max'') (fin (max_core_busy_percent t)) \<and>
    (\<exists>a. attempts report raw = Inr a \<and> a \<noteq> VNone \<and>
       ltE (Inr a) (mulE (idx raw ''offered'') (subE (pI 1) (divE (pT (max_unsent_percent t)) (pI 100)))) = Inr False) \<and>
    with_baseline baseline (\<lambda>b. ltE (idx phase ''offered_rate'') (mulE (pI m) (idx b ''offered_rate''))) = Inr False \<and>
    with_baseline baseline (\<lambda>b. ltE (idx phase ''goodput'') (mulE (idx b ''goodput'') (pT (min_goodput_ratio t)))) = Inr False"
proof -
  have all: "\<forall>x \<in> set [issue_if (with_baseline baseline (\<lambda>b.
          ltE (idx phase ''offered_rate'') (mulE (pI m) (idx b ''offered_rate''))))
          (label @ '': scheduled rate is below its claimed multiple''),
        issue_if (bindE (attempts report raw) (\<lambda>attempted.
          orE (Inr (is_none attempted))
            (ltE (Inr attempted) (mulE (idx raw ''offered'') (subE (pI 1) (divE (pT (max_unsent_percent t)) (pI 100)))))))
          (label @ '': insufficient network attempts/writes; nominal offers are not delivered pressure''),
        issue_if (with_baseline baseline (\<lambda>b.
          ltE (idx phase ''goodput'') (mulE (idx b ''goodput'') (pT (min_goodput_ratio t)))))
          (label @ '': useful throughput fell below the baseline retention target''),
        issue_if (bindE (getE phase ''server_core_busy_percent_max'') (\<lambda>busy.
          orE (Inr (is_none busy)) (gtE (Inr busy) (pT (max_core_busy_percent t)))))
          (label @ '': required per-core CPU headroom is missing'')]. x = Inr []"
    using assms unfolding overload_issues_def concatE_Nil by simp
  then have busy: "bindE (getE phase ''server_core_busy_percent_max'') (\<lambda>busy.
          orE (Inr (is_none busy)) (gtE (Inr busy) (pT (max_core_busy_percent t)))) = Inr False"
    by (simp add: issue_if_Nil)
  have "at_most (getE phase ''server_core_busy_percent_max'') (fin (max_core_busy_percent t))"
    using busy gtE_target_False by (fastforce simp: bindE_eq_Inr orE_False at_most_def)
  then show ?thesis using all by (auto simp: issue_if_Nil bindE_eq_Inr orE_False is_none_def)
qed

lemma py_eq_VStr: "py_eq (VStr s) v \<longleftrightarrow> v = VStr s" "py_eq v (VStr s) \<longleftrightarrow> v = VStr s"
  by (auto, cases v) auto

lemma kdict_put_mem: "(k', p) \<in> set (kdict_put k v d) \<Longrightarrow> (k', p) \<in> set d \<or> p = v \<and> (k' = k \<or> py_eq k k')"
  by (induction k v d rule: kdict_put.induct) (auto split: if_splits)

lemma kdict_get_mem: "kdict_get k d = Some p \<Longrightarrow> \<exists>k'. (k', p) \<in> set d \<and> py_eq k k'"
  by (induction k d rule: kdict_get.induct) (auto split: if_splits)

lemma label_dict_get:
  assumes "label_dict label phases = Inr d" and "kdict_get (VStr l) d = Some p"
  shows "p \<in> set phases \<and> label p = Inr (VStr l)"
proof -
  have "\<forall>(k', p) \<in> set d. p \<in> set phases \<and> (\<exists>k. label p = Inr k \<and> (k' = k \<or> py_eq k k'))"
    by (rule foldE_invariant [OF assms(1) [unfolded label_dict_def]])
      (fastforce simp: bindE_eq_Inr kdict_set_def split: if_splits dest: kdict_put_mem)+
  then show ?thesis using kdict_get_mem [OF assms(2)] by (fastforce simp: py_eq_VStr)
qed

lemma audit_issues_Nil:
  assumes "audit_issues fr t report summary = Inr []"
  obtains rows phases raws raw_phases where "kernel_issues t report = Inr []"
    and "bindE (idx summary ''phases'') elems = Inr rows" and "label_dict (\<lambda>phase. idx phase ''label'') rows = Inr phases"
    and "bindE (path report [''client'', ''phases'']) elems = Inr raws" and "label_dict (\<lambda>phase. getE phase ''label'') raws = Inr raw_phases"
    and "length phases = length rows" and "kdict_get (VStr ''baseline'') phases \<noteq> None"
    and "\<forall>e \<in> set (required_phases t). required_issues fr t report phases raw_phases e = Inr []"
  using assms unfolding audit_issues_def Let_def
  by (auto simp: bindE_eq_Inr concatE_Nil split: if_splits)

lemma required_issues_Nil:
  assumes "required_issues fr t report phases raw_phases (label, seconds) = Inr []"
  obtains phase raw where "kdict_get (VStr label) phases = Some phase" and "kdict_get (VStr label) raw_phases = Some raw"
    and "phase_issues fr t report (kdict_get (VStr ''baseline'') phases) label seconds phase raw = Inr []"
  using assms unfolding required_issues_def
  by (auto simp: bindE_eq_Inr of_option_eq_Inr split: option.splits)

text \<open>
  C9: an audit without issues is evidence for every required phase: the phase is in the summary and in
  the client's report, lasted as long as required, kept the 99th percentile of successful requests within
  the target and had no failed admin sample.  A baseline or recovery phase served at least 99.9 percent
  of its offers.  An overload phase stayed within the CPU headroom and made network attempts for at least
  the required share of its offers, so unsent load is never counted as load the server shed.
\<close>

theorem audit_issues_sound:
  assumes clean: "audit_issues fr t report summary = Inr []" and e: "(label, seconds) \<in> set (required_phases t)"
  shows "\<exists>rows raws phase raw.
    bindE (idx summary ''phases'') elems = Inr rows \<and> phase \<in> set rows \<and> idx phase ''label'' = Inr (VStr label) \<and>
    bindE (path report [''client'', ''phases'']) elems = Inr raws \<and> raw \<in> set raws \<and> getE raw ''label'' = Inr (VStr label) \<and>
    at_least (idx phase ''seconds'') (fin seconds) \<and>
    at_most (idx phase ''success_p99_ms'') (fin (max_success_p99_ms t)) \<and>
    truthE (idx phase ''admin_errors'') = Inr False \<and>
    (\<not> startswith label ''overload_'' \<longrightarrow> at_least (idx phase ''success_percent'') (fl (999 / 10))) \<and>
    (startswith label ''overload_'' \<longrightarrow>
       at_most (getE phase ''server_core_busy_percent_max'') (fin (max_core_busy_percent t)) \<and>
       (\<exists>a. attempts report raw = Inr a \<and> a \<noteq> VNone \<and>
          ltE (Inr a) (mulE (idx raw ''offered'') (subE (pI 1) (divE (pT (max_unsent_percent t)) (pI 100)))) = Inr False))"
proof (rule audit_issues_Nil [OF clean])
  fix rows phases raws raw_phases
  assume r: "bindE (idx summary ''phases'') elems = Inr rows" "label_dict (\<lambda>phase. idx phase ''label'') rows = Inr phases"
    "bindE (path report [''client'', ''phases'']) elems = Inr raws" "label_dict (\<lambda>phase. getE phase ''label'') raws = Inr raw_phases"
    and all: "\<forall>e \<in> set (required_phases t). required_issues fr t report phases raw_phases e = Inr []"
  obtain phase raw where p: "kdict_get (VStr label) phases = Some phase" and q: "kdict_get (VStr label) raw_phases = Some raw"
    and ok: "phase_issues fr t report (kdict_get (VStr ''baseline'') phases) label seconds phase raw = Inr []"
    by (rule required_issues_Nil [OF bspec [OF all e]])
  show ?thesis
    using label_dict_get [OF r(2) p] label_dict_get [OF r(4) q] phase_issues_Nil [OF ok] overload_issues_Nil r(1,3) by blast
qed

text \<open>Strict targets, and a summary that meets them, with the client phases it was made from.\<close>

definition strict_targets :: targets where
  "strict_targets = default_targets\<lparr>max_unsent_percent := Whole 0, min_goodput_ratio := Whole 1, max_rss_growth_percent := Whole 0\<rparr>"

definition clean_row :: "string \<Rightarrow> int \<Rightarrow> val" where
  "clean_row label rate = VDict
     [(''label'', VStr label), (''seconds'', VInt 180), (''success_p99_ms'', VInt 2), (''admin_errors'', VInt 0),
      (''rss_max_mib'', VInt 1), (''offered_rate'', VInt rate), (''goodput'', VInt 100),
      (''server_core_busy_percent_max'', VInt 50), (''rejection_latency_count'', VInt 1), (''rejection_p999_ms'', VInt 3),
      (''failure_latency_count'', VInt 0), (''success_percent'', VInt 100)]"

definition clean_raw :: "string \<Rightarrow> val" where
  "clean_raw label = VDict [(''label'', VStr label), (''sent'', VInt 1000), (''offered'', VInt 1000)]"

definition clean_labels :: "(string \<times> int) list" where
  "clean_labels = [(''baseline'', 100), (''overload_2x'', 200), (''recovery_2x'', 100), (''overload_5x'', 500),
     (''recovery_5x'', 100), (''overload_10x'', 1000), (''recovery_10x'', 100)]"

definition clean_summary :: val where
  "clean_summary = VDict [(''phases'', VList (map (\<lambda>(l, r). clean_row l r) clean_labels))]"

definition clean_report :: val where
  "clean_report = sample_report (map (\<lambda>(l, r). clean_raw l) clean_labels) []"

lemma clean_audit: "audit_issues (\<lambda>_. []) strict_targets clean_report clean_summary = Inr []"
  by code_simp

theorem audit_issues_sound_witness:
  "\<exists>rows phase. bindE (idx clean_summary ''phases'') elems = Inr rows \<and> phase \<in> set rows \<and>
     idx phase ''label'' = Inr (VStr ''overload_5x'') \<and>
     at_most (getE phase ''server_core_busy_percent_max'') (fin (max_core_busy_percent strict_targets))"
proof -
  have label: "(''overload_5x'', overload_seconds strict_targets) \<in> set (required_phases strict_targets)" by code_simp
  have over: "startswith ''overload_5x'' ''overload_''" by code_simp
  show ?thesis using audit_issues_sound [OF clean_audit label] over by blast
qed

lemma audit_passed:
  "audit fr report t = Inr r \<Longrightarrow> idx r ''passed'' = Inr (VBool True) \<longleftrightarrow>
     (\<exists>summary. summarize_overload report = Inr summary \<and> audit_issues fr t report summary = Inr [])"
  by (auto simp: audit_def py_ok)

lemma audit_passed_bool: "audit fr report t = Inr r \<Longrightarrow> \<exists>b. idx r ''passed'' = Inr (VBool b)"
  by (auto simp: audit_def py_ok)

lemma dict_set_absent: "k \<notin> set (map fst d) \<Longrightarrow> dict_set k v d = d @ [(k, v)]"
  by (induction k v d rule: dict_set.induct) auto

lemma dict_of_distinct: "distinct (map fst kvs) \<Longrightarrow> dict_of kvs = kvs"
proof -
  have "fold (\<lambda>(k, v) d. dict_set k v d) kvs d = d @ kvs" if "distinct (map fst (d @ kvs))" for d
    using that
  proof (induction kvs arbitrary: d)
    case (Cons kv kvs)
    then show ?case by (cases kv) (simp add: dict_set_absent image_Un)
  qed simp
  from this [of "[]"] show "distinct (map fst kvs) \<Longrightarrow> dict_of kvs = kvs" by (simp add: dict_of_def)
qed

text \<open>
  The exit status of the command is 0 exactly when every report passes: its run can be summarized and
  its audit against the validated targets leaves no issue; otherwise it is 1.
\<close>

theorem check_overload_exit:
  assumes "check_overload_main fr t reports = Inr (rendered, code)" and "distinct (map fst reports)"
  shows "targets_validate t = Inr () \<and> code \<in> {0, 1} \<and>
    (code = 0 \<longleftrightarrow> (\<forall>(p, report) \<in> set reports. \<exists>summary.
       summarize_overload report = Inr summary \<and> audit_issues fr t report summary = Inr []))"
proof -
  obtain kvs ok where valid: "targets_validate t = Inr ()"
    and kvs: "mapE (\<lambda>(p, report). bindE (audit fr report t) (\<lambda>r. Inr (p, r))) reports = Inr kvs"
    and ok: "allE (\<lambda>r. truthE (idx (snd r) ''passed'')) (dict_of kvs) = Inr ok" and code: "code = (if ok then 0 else 1)"
    using assms(1) unfolding check_overload_main_def Let_def
    by (auto simp: bindE_eq_Inr split: sum.splits exn.splits)
  have all2: "list_all2 (\<lambda>(p, report) (k, r). k = p \<and> audit fr report t = Inr r) reports kvs"
    using kvs unfolding mapE_eq_Inr by (rule list_all2_mono) (auto simp: bindE_eq_Inr)
  have "map fst kvs = map fst reports"
    using all2 by (induction rule: list_all2_induct) auto
  then have d: "dict_of kvs = kvs" using assms(2) by (simp add: dict_of_distinct)
  have "(\<forall>kr \<in> set kvs. idx (snd kr) ''passed'' = Inr (VBool True)) \<longleftrightarrow> (\<forall>(p, report) \<in> set reports. \<exists>summary.
       summarize_overload report = Inr summary \<and> audit_issues fr t report summary = Inr [])"
    using all2 by (induction rule: list_all2_induct) (auto simp: audit_passed)
  moreover have "ok \<longleftrightarrow> (\<forall>kr \<in> set kvs. idx (snd kr) ''passed'' = Inr (VBool True))"
  proof -
    have bool: "\<forall>kr \<in> set kvs. \<exists>b. idx (snd kr) ''passed'' = Inr (VBool b)"
      using all2 audit_passed_bool by (induction rule: list_all2_induct) fastforce+
    then have truth: "\<forall>kr \<in> set kvs. truthE (idx (snd kr) ''passed'') = Inr True \<longleftrightarrow> idx (snd kr) ''passed'' = Inr (VBool True)"
      by (fastforce simp: truthE_def)
    have "ok = True \<longleftrightarrow> (\<forall>kr \<in> set kvs. truthE (idx (snd kr) ''passed'') = Inr True)"
      using ok d allE_True [of "\<lambda>r. truthE (idx (snd r) ''passed'')" kvs] by auto
    then show ?thesis using truth by simp
  qed
  ultimately show ?thesis using valid code by simp
qed

end
