(* ===== verification/Py_Base64.thy ===== *)
theory Py_Base64
  imports Py_Text
begin

text \<open>
  \<open>base64.b64encode\<close> and \<open>base64.b64decode(text, validate=True)\<close> on bytes, which are characters here:
  three bytes are four digits of the alphabet, and one or two trailing bytes are padded with \<open>=\<close>.
  Decoding refuses every character outside the alphabet, misplaced padding and a wrong length.
\<close>

definition b64_digit :: "int \<Rightarrow> char" where
  "b64_digit n = char_of (if n < 26 then 65 + n else if n < 52 then 71 + n else if n < 62 then n - 4
     else if n = 62 then 43 else 47)"

definition b64_value :: "char \<Rightarrow> int option" where
  "b64_value c =
     (let n = char_code c in
      if 65 \<le> n \<and> n \<le> 90 then Some (n - 65) else if 97 \<le> n \<and> n \<le> 122 then Some (n - 71)
      else if 48 \<le> n \<and> n \<le> 57 then Some (n + 4) else if n = 43 then Some 62 else if n = 47 then Some 63 else None)"

definition pad :: char where
  "pad = CHR ''=''"

fun b64encode :: "string \<Rightarrow> string" where
  "b64encode [] = []"
| "b64encode [a] =
     (let n = char_code a in [b64_digit (n div 4), b64_digit (n mod 4 * 16), pad, pad])"
| "b64encode [a, b] =
     (let n = char_code a * 256 + char_code b in
      [b64_digit (n div 1024), b64_digit (n div 16 mod 64), b64_digit (n mod 16 * 4), pad])"
| "b64encode (a # b # c # r) =
     (let n = (char_code a * 256 + char_code b) * 256 + char_code c in
      b64_digit (n div 262144) # b64_digit (n div 4096 mod 64) # b64_digit (n div 64 mod 64) # b64_digit (n mod 64) #
      b64encode r)"

fun b64decode :: "string \<Rightarrow> string option" where
  "b64decode [] = Some []"
| "b64decode (w # x # y # z # r) =
     (case (b64_value w, b64_value x) of
        (Some a, Some b) \<Rightarrow>
          if y = pad \<and> z = pad \<and> r = [] then Some [char_of ((a * 64 + b) div 16)]
          else (case b64_value y of
              None \<Rightarrow> None
            | Some c \<Rightarrow>
                if z = pad \<and> r = []
                then (let n = ((a * 64 + b) * 64 + c) div 4 in Some [char_of (n div 256), char_of (n mod 256)])
                else (case b64_value z of
                    None \<Rightarrow> None
                  | Some d \<Rightarrow>
                      (let n = ((a * 64 + b) * 64 + c) * 64 + d in
                       map_option (\<lambda>s. char_of (n div 65536) # char_of (n div 256 mod 256) # char_of (n mod 256) # s)
                         (b64decode r))))
      | _ \<Rightarrow> None)"
| "b64decode _ = None"

lemma char_code_char_of: "0 \<le> n \<Longrightarrow> n < 256 \<Longrightarrow> char_code (char_of n) = n"
  by (simp add: char_code_def)

lemma char_of_char_code [simp]: "char_of (char_code c) = c"
  by (simp add: char_code_def)

lemma b64_value_digit [simp]: "0 \<le> n \<Longrightarrow> n < 64 \<Longrightarrow> b64_value (b64_digit n) = Some n"
  by (auto simp: b64_value_def b64_digit_def char_code_char_of Let_def)

lemma b64_digit_not_pad [simp]: "0 \<le> n \<Longrightarrow> n < 64 \<Longrightarrow> b64_digit n \<noteq> pad"
proof
  assume n: "0 \<le> n" "n < 64" and "b64_digit n = pad"
  then have "b64_value pad = Some n" using b64_value_digit [OF n] by simp
  then show False by (simp add: b64_value_def pad_def char_code_def)
qed

lemma join_digits:
  fixes n :: int
  shows "n div 1024 * 64 + n div 16 mod 64 = n div 16"
    and "n div 262144 * 64 + n div 4096 mod 64 = n div 4096"
    and "n div 4096 * 64 + n div 64 mod 64 = n div 64"
    and "n div 64 * 64 + n mod 64 = n"
proof -
  show "n div 1024 * 64 + n div 16 mod 64 = n div 16"
    using div_mult_mod_eq [of "n div 16" 64] by (simp add: zdiv_zmult2_eq [symmetric])
  show "n div 262144 * 64 + n div 4096 mod 64 = n div 4096"
    using div_mult_mod_eq [of "n div 4096" 64] by (simp add: zdiv_zmult2_eq [symmetric])
  show "n div 4096 * 64 + n div 64 mod 64 = n div 64"
    using div_mult_mod_eq [of "n div 64" 64] by (simp add: zdiv_zmult2_eq [symmetric])
  show "n div 64 * 64 + n mod 64 = n" by simp
qed

lemma div_less_bound: "0 < k \<Longrightarrow> x < m * k \<Longrightarrow> x div k < m" for x k m :: int
proof -
  assume k: "0 < k" "x < m * k"
  have "x div k * k \<le> x" using div_mult_mod_eq [of x k] pos_mod_sign [of k x] k by linarith
  then have "x div k * k < m * k" using k by linarith
  then show "x div k < m" using k by simp
qed

lemma byte_pair:
  fixes a b :: int
  assumes "0 \<le> b" and "b < 256"
  shows "(a * 256 + b) div 256 = a" and "(a * 256 + b) mod 256 = b"
  using assms by simp_all

lemma decode_one:
  assumes "0 \<le> a" "a < 64" "0 \<le> b" "b < 64"
  shows "b64decode [b64_digit a, b64_digit b, pad, pad] = Some [char_of ((a * 64 + b) div 16)]"
  using assms by simp

lemma decode_two:
  assumes "0 \<le> a" "a < 64" "0 \<le> b" "b < 64" "0 \<le> c" "c < 64" and "((a * 64 + b) * 64 + c) div 4 = n"
  shows "b64decode [b64_digit a, b64_digit b, b64_digit c, pad] = Some [char_of (n div 256), char_of (n mod 256)]"
  using assms by (simp add: Let_def)

lemma decode_three:
  assumes "0 \<le> a" "a < 64" "0 \<le> b" "b < 64" "0 \<le> c" "c < 64" "0 \<le> d" "d < 64"
    and "((a * 64 + b) * 64 + c) * 64 + d = n"
  shows "b64decode (b64_digit a # b64_digit b # b64_digit c # b64_digit d # r) =
    map_option (\<lambda>s. char_of (n div 65536) # char_of (n div 256 mod 256) # char_of (n mod 256) # s) (b64decode r)"
  using assms by (simp add: Let_def)

lemma b64_one:
  assumes "0 \<le> n" and "n < 256"
  shows "b64decode [b64_digit (n div 4), b64_digit (n mod 4 * 16), pad, pad] = Some [char_of n]"
proof -
  have "n div 4 * 64 + n mod 4 * 16 = n * 16" using div_mult_mod_eq [of n 4] by linarith
  then have eq: "(n div 4 * 64 + n mod 4 * 16) div 16 = n" by (simp only: nonzero_mult_div_cancel_right)
  have "0 \<le> n mod 4" "n mod 4 < 4" by simp_all
  then have "0 \<le> n div 4" "n div 4 < 64" "0 \<le> n mod 4 * 16" "n mod 4 * 16 < 64"
    using assms div_less_bound [of 4 n 64] by simp_all
  from decode_one [OF this] show ?thesis unfolding eq .
qed

lemma digit_range: "0 \<le> x mod 64" "x mod 64 < 64" for x :: int
  by simp_all

lemma b64_two:
  assumes "0 \<le> n" and "n < 65536"
  shows "b64decode [b64_digit (n div 1024), b64_digit (n div 16 mod 64), b64_digit (n mod 16 * 4), pad] =
    Some [char_of (n div 256), char_of (n mod 256)]"
proof (rule decode_two)
  show "n div 1024 < 64" by (rule div_less_bound) (use assms in simp_all)
  show "0 \<le> n div 1024" using assms by (simp only: pos_imp_zdiv_nonneg_iff)
  have "0 \<le> n mod 16" "n mod 16 < 16" by simp_all
  then show "0 \<le> n mod 16 * 4" "n mod 16 * 4 < 64" by linarith+
  have "n div 16 * 64 + n mod 16 * 4 = n * 4" using div_mult_mod_eq [of n 16] by linarith
  then show "((n div 1024 * 64 + n div 16 mod 64) * 64 + n mod 16 * 4) div 4 = n"
    unfolding join_digits by (simp only: nonzero_mult_div_cancel_right)
qed (rule digit_range)+

lemma b64_three:
  assumes "0 \<le> n" and "n < 16777216"
  shows "b64decode (b64_digit (n div 262144) # b64_digit (n div 4096 mod 64) # b64_digit (n div 64 mod 64) # b64_digit (n mod 64) # r) =
    map_option (\<lambda>s. char_of (n div 65536) # char_of (n div 256 mod 256) # char_of (n mod 256) # s) (b64decode r)"
proof (rule decode_three)
  show "n div 262144 < 64" by (rule div_less_bound) (use assms in simp_all)
  show "0 \<le> n div 262144" using assms by (simp only: pos_imp_zdiv_nonneg_iff)
  show "((n div 262144 * 64 + n div 4096 mod 64) * 64 + n div 64 mod 64) * 64 + n mod 64 = n"
    unfolding join_digits ..
qed (rule digit_range)+

lemma b64_roundtrip: "b64decode (b64encode s) = Some s"
proof (induction s rule: b64encode.induct)
  case (2 a)
  have "b64decode (b64encode [a]) = Some [char_of (char_code a)]"
    unfolding b64encode.simps Let_def by (rule b64_one) (use char_code_range [of a] in simp_all)
  then show ?case by (simp only: char_of_char_code)
next
  case (3 a b)
  let ?n = "char_code a * 256 + char_code b"
  have r: "0 \<le> ?n" "?n < 65536" "0 \<le> char_code b" "char_code b < 256"
    using char_code_range [of a] char_code_range [of b] by linarith+
  have "b64decode (b64encode [a, b]) = Some [char_of (?n div 256), char_of (?n mod 256)]"
    unfolding b64encode.simps Let_def by (rule b64_two [OF r(1,2)])
  then show ?case by (simp only: byte_pair [OF r(3,4)] char_of_char_code)
next
  case (4 a b c r)
  let ?m = "char_code a * 256 + char_code b"
  let ?n = "?m * 256 + char_code c"
  have r: "0 \<le> ?n" "?n < 16777216" "0 \<le> char_code b" "char_code b < 256" "0 \<le> char_code c" "char_code c < 256"
    using char_code_range [of a] char_code_range [of b] char_code_range [of c] by auto
  have "?n div 65536 = ?n div 256 div 256" using zdiv_zmult2_eq [of 256 ?n 256] by simp
  then have top: "?n div 65536 = char_code a" by (simp only: byte_pair [OF r(3,4)] byte_pair [OF r(5,6)])
  have "b64decode (b64encode (a # b # c # r)) =
      map_option (\<lambda>s. char_of (?n div 65536) # char_of (?n div 256 mod 256) # char_of (?n mod 256) # s) (b64decode (b64encode r))"
    unfolding b64encode.simps Let_def by (rule b64_three [OF r(1,2)])
  then show ?case by (simp only: top byte_pair [OF r(3,4)] byte_pair [OF r(5,6)] char_of_char_code 4 option.map)
qed simp

end
