(* ===== verification/Remote_Load.thy ===== *)
theory Remote_Load
  imports Py_Value Py_Base64 Py_Shlex
begin

text \<open>
  \<open>bench/remote_load.py\<close>: the collection of a load-client run over SSH.  The module is both the remote
  agent (\<open>agent\<close>) and the local collector (\<open>RemoteLoad\<close>).  A message on the wire is the JSON value it
  carries; what the remote host does is the record \<open>host\<close>: its clock, CPUs, descriptor limits, files,
  the child process and the observations of the watch loop, one \<open>tick\<close> per turn.  The collector's
  state is the record \<open>collector\<close>; the reader thread appends to its queue.
\<close>

section \<open>Stopping a child\<close>

datatype process = Running bool | Exited int

text \<open>\<open>Running obeys\<close>: a live process, and whether it exits within the grace period after \<open>terminate\<close>.\<close>

datatype signal = Terminate | Kill

definition stop_child :: "process option \<Rightarrow> process option \<times> signal list" where
  "stop_child p =
     (case p of
        Some (Running obeys) \<Rightarrow>
          if obeys then (Some (Exited (-15)), [Terminate]) else (Some (Exited (-9)), [Terminate, Kill])
      | _ \<Rightarrow> (p, []))"

text \<open>
  \<open>RemoteLoad.stop\<close>: closing the agent's input lets it exit within the grace period, or not.
\<close>

definition remote_stop :: "bool \<Rightarrow> process option \<Rightarrow> process option \<times> signal list" where
  "remote_stop exits_on_close p =
     (case p of
        Some (Running _) \<Rightarrow> if exits_on_close then (Some (Exited 0), []) else stop_child p
      | _ \<Rightarrow> (p, []))"

section \<open>Events\<close>

definition event :: "string \<Rightarrow> (string \<times> val) list \<Rightarrow> val" where
  "event kind fields = VDict ((''kind'', VStr kind) # fields)"

definition quoted :: "string \<Rightarrow> string \<Rightarrow> string" where
  "quoted name m = name @ ''('' @ [CHR 0x27] @ m @ [CHR 0x27] @ '')''"

fun exn_repr :: "exn \<Rightarrow> string" where
  "exn_repr (ValueError m) = quoted ''ValueError'' m"
| "exn_repr (KeyError m) = quoted ''KeyError'' m"
| "exn_repr TypeError = ''TypeError()''"
| "exn_repr IndexError = ''IndexError()''"
| "exn_repr (AttributeError m) = quoted ''AttributeError'' m"
| "exn_repr ZeroDivisionError = ''ZeroDivisionError()''"
| "exn_repr (AssertionError m) = quoted ''AssertionError'' m"
| "exn_repr (RuntimeError m) = quoted ''RuntimeError'' m"
| "exn_repr (TimeoutError m) = quoted ''TimeoutError'' m"
| "exn_repr (OSError m) = quoted ''OSError'' m"
| "exn_repr StopIteration = ''StopIteration()''"
| "exn_repr (ParserError m) = quoted ''SystemExit'' m"
| "exn_repr StructError = ''error()''"

definition error_event :: "exn \<Rightarrow> val" where
  "error_event e = event ''error'' [(''error'', VStr (exn_repr e))]"

section \<open>The remote host\<close>

datatype sampling = Sampled val | Vanished bool

text \<open>
  \<open>Vanished exits\<close>: sampling failed because files of the child were gone, and whether the child then
  exits within the tenth of a second the agent waits.
\<close>

record tick =
  k_exited :: bool
  k_stopping :: bool
  k_silence :: rat
  k_now :: rat
  k_sampling :: sampling

record host =
  h_identity :: val
  h_clock :: "nat \<Rightarrow> int"
  h_affinity :: "int set"
  h_hard :: int
  h_resolve :: "string \<Rightarrow> string"
  h_read :: "string \<Rightarrow> string option"
  h_sha256 :: "string \<Rightarrow> string"
  h_folder :: string
  h_spawns :: bool
  h_pid :: int
  h_started_at :: rat
  h_ticks :: "tick list"
  h_exits :: bool
  h_exit_code :: int
  h_stderr :: string
  h_output_size :: int
  h_output :: "val res"

section \<open>The agent\<close>

text \<open>The command loop: the messages it answers and the run command, \<open>None\<close> at end of input.\<close>

fun agent_commands :: "host \<Rightarrow> nat \<Rightarrow> val res list \<Rightarrow> val list \<times> val option res" where
  "agent_commands h i [] = ([], Inr None)"
| "agent_commands h i (line # lines) =
     (case bindE line (\<lambda>c. bindE (idx c ''kind'') (\<lambda>k. Inr (c, k))) of
        Inl e \<Rightarrow> ([], Inl e)
      | Inr (command, kind) \<Rightarrow>
          if py_eq kind (VStr ''clock'')
          then (case agent_commands h (Suc i) lines of
                  (es, r) \<Rightarrow> (event ''clock'' [(''unix_ns'', VInt (h_clock h i))] # es, r))
          else if py_eq kind (VStr ''run'') then ([], Inr (Some command))
          else ([], Inl (ValueError ''unsupported agent command'')))"

definition max_upload :: nat where
  "max_upload = 64 * 1024 * 1024"

definition agent_file :: "host \<Rightarrow> string \<times> val \<Rightarrow> string list \<times> (string \<times> val) list \<Rightarrow> (string list \<times> (string \<times> val) list) res" where
  "agent_file h e st =
     (case (e, st) of ((flag, encoded), (arguments, uploads)) \<Rightarrow>
      seqE (ensure (flag \<in> {''-request-body'', ''-expect-body''}) (ValueError ''unsupported workload file''))
     (bindE (str_val encoded) (\<lambda>txt.
      bindE (of_option (ValueError ''Invalid base64'') (b64decode txt)) (\<lambda>content.
      seqE (ensure (length content \<le> max_upload) (ValueError ''workload file exceeds 64 MiB''))
     (Inr (arguments @ [flag, h_folder h @ ''/'' @ tl flag],
           dict_set flag (VDict [(''bytes'', VInt (int (length content))), (''sha256'', VStr (h_sha256 h content))]) uploads))))))"

record prepared =
  p_arguments :: "string list"
  p_cpus :: "int set"
  p_binary_sha256 :: string
  p_uploads :: "(string \<times> val) list"

definition agent_prepare :: "host \<Rightarrow> val \<Rightarrow> prepared res" where
  "agent_prepare h command =
     bindE (collectE (idx command ''cpus'') (\<lambda>v. of_option TypeError (as_int v))) (\<lambda>cpu_numbers.
     let cpus = set cpu_numbers in
     seqE (ensure (cpus \<noteq> {} \<and> cpus \<subseteq> h_affinity h) (ValueError ''client CPU list is not available on this host''))
    (bindE (bindE (idx command ''binary'') str_val) (\<lambda>name.
     let binary = h_resolve h name in
     bindE (of_option (OSError binary) (h_read h binary)) (\<lambda>bytes.
     bindE (addE (idx command ''connections'') (pI 256)) (\<lambda>needed.
     bindE (ltE (pI (h_hard h)) (Inr needed)) (\<lambda>short.
     seqE (ensure (\<not> short) (ValueError ''remote hard descriptor limit is below the requested client capacity''))
    (bindE (collectE (idx command ''arguments'') str_val) (\<lambda>args.
     bindE (bindE (get_dflt command ''files'' (VDict [])) items) (\<lambda>files.
     bindE (foldE (agent_file h) files (binary # args, [])) (\<lambda>(arguments, uploads).
     Inr \<lparr>p_arguments = arguments, p_cpus = cpus, p_binary_sha256 = h_sha256 h bytes, p_uploads = uploads\<rparr>))))))))))"

definition started_event :: "host \<Rightarrow> prepared \<Rightarrow> val" where
  "started_event h p = event ''started''
     [(''pid'', VInt (h_pid h)), (''command'', VList (map VStr (p_arguments p))),
      (''binary_sha256'', VStr (p_binary_sha256 p)),
      (''cpus'', VList (map VInt (sorted_list_of_set (p_cpus p)))), (''files'', VDict (p_uploads p))]"

text \<open>
  The watch loop.  \<open>None\<close>: the child still runs after the observed turns; \<open>Some (Inr ())\<close>: the loop
  ended because the child did; \<open>Some (Inl e)\<close>: the exception that ends the run.
\<close>

fun agent_watch :: "val \<Rightarrow> val \<Rightarrow> tick list \<Rightarrow> val list \<times> unit res option" where
  "agent_watch deadline heartbeat [] = ([], None)"
| "agent_watch deadline heartbeat (t # ts) =
     (if k_exited t then ([], Some (Inr ()))
      else if k_stopping t then ([], Some (Inl (RuntimeError ''parent disconnected or cancelled the run'')))
      else (case gtE (Inr (VFloat (k_silence t))) (Inr heartbeat) of
          Inl e \<Rightarrow> ([], Some (Inl e))
        | Inr True \<Rightarrow> ([], Some (Inl (RuntimeError ''parent heartbeat expired'')))
        | Inr False \<Rightarrow>
            (case geE (Inr (VFloat (k_now t))) (Inr deadline) of
               Inl e \<Rightarrow> ([], Some (Inl e))
             | Inr True \<Rightarrow> ([], Some (Inl (TimeoutError ''remote client exceeded its run deadline'')))
             | Inr False \<Rightarrow>
                 (case k_sampling t of
                    Vanished exits \<Rightarrow> ([], Some (if exits then Inr () else Inl (OSError ''/proc'')))
                  | Sampled s \<Rightarrow>
                      (case agent_watch deadline heartbeat ts of
                         (es, r) \<Rightarrow> (event ''sample'' [(''sample'', s)] # es, r))))))"

text \<open>After the loop: the final report, as the event it sends or the exception it raises.\<close>

definition agent_finish :: "host \<Rightarrow> val res" where
  "agent_finish h =
     (if \<not> h_exits h then Inl (TimeoutError ''wait'')
      else if h_output_size h > 16 * 1024 * 1024 then Inl (ValueError ''load report exceeds 16 MiB'')
      else if h_exit_code h \<noteq> 0
      then Inr (event ''error''
        [(''error'', VStr (''load client exited '' @ str_of_int (h_exit_code h) @ '': '' @ h_stderr h)),
         (''client'', case h_output h of Inl _ \<Rightarrow> VNone | Inr v \<Rightarrow> v), (''exit_code'', VInt (h_exit_code h))])
      else bindE (h_output h) (\<lambda>result.
        Inr (event ''result'' [(''client'', result), (''stderr'', VStr (h_stderr h)), (''exit_code'', VInt (h_exit_code h))])))"

text \<open>How the agent ends: it returns, exits with status 1, or is still watching its child.\<close>

datatype ending = Returned | Exit_1 | Watching

definition agent_run :: "host \<Rightarrow> val \<Rightarrow> val list \<times> ending" where
  "agent_run h command =
     (case agent_prepare h command of
        Inl e \<Rightarrow> ([error_event e], Exit_1)
      | Inr p \<Rightarrow>
          if \<not> h_spawns h then ([error_event (OSError (hd (p_arguments p)))], Exit_1)
          else (case bindE (addE (Inr (VFloat (h_started_at h))) (idx command ''max_seconds'')) (\<lambda>d.
                     bindE (get_dflt command ''heartbeat_seconds'' (VInt 15)) (\<lambda>hb. Inr (d, hb))) of
              Inl e \<Rightarrow> ([started_event h p, error_event e], Exit_1)
            | Inr (deadline, heartbeat) \<Rightarrow>
                (case agent_watch deadline heartbeat (h_ticks h) of
                   (es, None) \<Rightarrow> (started_event h p # es, Watching)
                 | (es, Some (Inl e)) \<Rightarrow> (started_event h p # es @ [error_event e], Exit_1)
                 | (es, Some (Inr _)) \<Rightarrow>
                     (case agent_finish h of
                        Inl e \<Rightarrow> (started_event h p # es @ [error_event e], Exit_1)
                      | Inr final \<Rightarrow> (started_event h p # es @ [final], Returned)))))"

definition agent :: "host \<Rightarrow> val res list \<Rightarrow> val list \<times> ending" where
  "agent h lines =
     (case agent_commands h 0 lines of
        (es, r) \<Rightarrow>
          (case r of
             Inl e \<Rightarrow> (event ''hello'' [(''identity'', h_identity h)] # es @ [error_event e], Exit_1)
           | Inr None \<Rightarrow> (event ''hello'' [(''identity'', h_identity h)] # es, Returned)
           | Inr (Some command) \<Rightarrow>
               (case agent_run h command of
                  (es', end') \<Rightarrow> (event ''hello'' [(''identity'', h_identity h)] # es @ es', end'))))"

section \<open>The collector\<close>

record collector =
  q_events :: "val list"
  q_samples :: "val list"
  q_started :: val
  q_result :: val
  q_error :: val
  q_failure :: val
  q_last_heartbeat :: rat
  q_sent :: "val list"

definition new_collector :: collector where
  "new_collector = \<lparr>q_events = [], q_samples = [], q_started = VNone, q_result = VNone, q_error = VNone,
     q_failure = VNone, q_last_heartbeat = 0, q_sent = []\<rparr>"

definition valid_host :: "string \<Rightarrow> bool" where
  "valid_host name \<longleftrightarrow> \<not> startswith name ''-'' \<and> \<not> list_ex is_space name"

definition ssh_command :: "string \<Rightarrow> string \<Rightarrow> string list res" where
  "ssh_command name source =
     seqE (ensure (valid_host name) (ValueError ''invalid SSH host''))
       (Inr [''ssh'', ''-T'', ''-o'', ''BatchMode=yes'', ''-o'', ''StrictHostKeyChecking=yes'', ''-o'', ''ConnectTimeout=10'',
             ''-o'', ''ServerAliveInterval=5'', ''-o'', ''ServerAliveCountMax=3'', name,
             shlex_join [''python3'', ''-u'', ''-c'', source]])"

text \<open>\<open>read_events\<close>: the messages, the exception that ended them if any, and the end marker.\<close>

fun read_events :: "val res list \<Rightarrow> val list" where
  "read_events [] = [event ''eof'' []]"
| "read_events (Inr v # lines) = v # read_events lines"
| "read_events (Inl e # lines) = [error_event e, event ''eof'' []]"

definition next_event :: "string \<Rightarrow> val list \<Rightarrow> (val \<times> val list) res" where
  "next_event expected events =
     (case events of
        [] \<Rightarrow> Inl (TimeoutError ''queue.Empty'')
      | e # es \<Rightarrow> bindE (idx e ''kind'') (\<lambda>k.
          if py_eq k (VStr expected) then Inr (e, es)
          else Inl (RuntimeError (''expected '' @ expected))))"

text \<open>
  One clock exchange: local wall and monotonic time at the start, monotonic time at the answer, the
  answer's remote time.
\<close>

definition clock_estimate :: "int \<Rightarrow> int \<Rightarrow> int \<Rightarrow> int \<Rightarrow> int \<times> int" where
  "clock_estimate begin_wall begin_mono end_mono remote_unix_ns =
     (let elapsed = end_mono - begin_mono in (elapsed div 2, begin_wall + elapsed div 2 - remote_unix_ns))"

text \<open>\<open>min(estimates)\<close> on pairs compares lexicographically.\<close>

fun min_pair :: "(int \<times> int) list \<Rightarrow> (int \<times> int) option" where
  "min_pair [] = None"
| "min_pair (p # ps) =
     (case min_pair ps of
        None \<Rightarrow> Some p
      | Some q \<Rightarrow> Some (if fst q < fst p \<or> fst q = fst p \<and> snd q < snd p then q else p))"

definition upload_step :: "string \<times> string option \<Rightarrow> (string \<times> val) list \<Rightarrow> (string \<times> val) list res" where
  "upload_step f uploads =
     (case f of (flag, content) \<Rightarrow>
      bindE (of_option (OSError flag) content) (\<lambda>bytes.
      seqE (ensure (length bytes \<le> max_upload) (ValueError ''workload file exceeds 64 MiB''))
       (Inr (dict_set flag (VStr (b64encode bytes)) uploads))))"

definition start_uploads :: "(string \<times> string option) list \<Rightarrow> (string \<times> val) list res" where
  "start_uploads files = foldE upload_step files []"

definition run_message ::
  "string \<Rightarrow> string list \<Rightarrow> int list \<Rightarrow> int \<Rightarrow> val \<Rightarrow> (string \<times> val) list \<Rightarrow> val \<Rightarrow> val" where
  "run_message binary arguments cpus connections max_seconds uploads heartbeat_seconds = event ''run''
     [(''binary'', VStr binary), (''arguments'', VList (map VStr arguments)), (''cpus'', VList (map VInt cpus)),
      (''connections'', VInt connections), (''max_seconds'', max_seconds), (''files'', VDict uploads),
      (''heartbeat_seconds'', heartbeat_seconds)]"

definition start_run ::
  "string \<Rightarrow> string list \<Rightarrow> int list \<Rightarrow> int \<Rightarrow> val \<Rightarrow> (string \<times> string option) list \<Rightarrow> val \<Rightarrow> collector \<Rightarrow> collector res" where
  "start_run binary arguments cpus connections max_seconds files heartbeat_seconds c =
     bindE (start_uploads files) (\<lambda>uploads.
     bindE (next_event ''started'' (q_events c)) (\<lambda>(e, es).
     Inr (c\<lparr>q_sent := q_sent c @ [run_message binary arguments cpus connections max_seconds uploads heartbeat_seconds],
            q_started := e, q_events := es\<rparr>)))"

definition collect_event :: "val \<Rightarrow> collector \<Rightarrow> collector res" where
  "collect_event e c =
     bindE (idx e ''kind'') (\<lambda>kind.
       if py_eq kind (VStr ''sample'')
       then bindE (idx e ''sample'') (\<lambda>s. Inr (c\<lparr>q_samples := q_samples c @ [s]\<rparr>))
       else if py_eq kind (VStr ''result'') then Inr (c\<lparr>q_result := e\<rparr>)
       else if py_eq kind (VStr ''error'')
       then bindE (idx e ''error'') (\<lambda>m. Inr (c\<lparr>q_failure := e, q_error := m\<rparr>))
       else if py_eq kind (VStr ''eof'')
       then Inr (if q_result c = VNone \<and> q_error c = VNone
                 then c\<lparr>q_error := VStr ''remote agent closed without a result''\<rparr> else c)
       else Inr (c\<lparr>q_error := VStr ''unexpected remote event''\<rparr>))"

text \<open>\<open>collect\<close> at monotonic time \<open>now\<close>; \<open>pipe\<close> says whether the agent's input still accepts a write.\<close>

definition collect :: "rat \<Rightarrow> bool \<Rightarrow> collector \<Rightarrow> collector res" where
  "collect now pipe c =
     bindE (foldE collect_event (q_events c) c) (\<lambda>c1.
     let c2 = c1\<lparr>q_events := []\<rparr> in
     if truthy (q_error c2)
     then Inl (RuntimeError (case q_error c2 of VStr m \<Rightarrow> m | _ \<Rightarrow> []))
     else if truthy (q_started c2) \<and> q_result c2 = VNone \<and> fl (now - q_last_heartbeat c2) \<ge> 1 \<and> pipe
     then Inr (c2\<lparr>q_sent := q_sent c2 @ [event ''heartbeat'' []], q_last_heartbeat := now\<rparr>)
     else Inr c2)"

definition completed :: "rat \<Rightarrow> bool \<Rightarrow> collector \<Rightarrow> (bool \<times> collector) res" where
  "completed now pipe c = bindE (collect now pipe c) (\<lambda>c'. Inr (q_result c' \<noteq> VNone, c'))"

text \<open>
  The handshake of \<open>__init__\<close>: the greeting, then one clock exchange per entry of \<open>exchanges\<close> (the source
  makes five), each entry the local wall time, the monotonic time before and the one after.
\<close>

definition clock_step :: "int \<times> int \<times> int \<Rightarrow> val list \<times> (int \<times> int) list \<Rightarrow> (val list \<times> (int \<times> int) list) res" where
  "clock_step time st =
     (case (time, st) of ((begin_wall, begin_mono, end_mono), (events, estimates)) \<Rightarrow>
      bindE (next_event ''clock'' events) (\<lambda>(response, rest).
      bindE (bindE (idx response ''unix_ns'') (\<lambda>v. of_option TypeError (as_int v))) (\<lambda>remote.
      Inr (rest, estimates @ [clock_estimate begin_wall begin_mono end_mono remote]))))"

definition handshake :: "(int \<times> int \<times> int) list \<Rightarrow> val list \<Rightarrow> (val \<times> (int \<times> int) \<times> val list) res" where
  "handshake exchanges events =
     bindE (next_event ''hello'' events) (\<lambda>(hello, rest).
     bindE (idx hello ''identity'') (\<lambda>identity.
     bindE (foldE clock_step exchanges (rest, [])) (\<lambda>(rest', estimates).
     bindE (of_option (ValueError ''min() arg is an empty sequence'') (min_pair estimates)) (\<lambda>best.
     Inr (identity, best, rest')))))"

section \<open>Stopping\<close>

text \<open>
  After \<open>RemoteLoad.stop\<close> no transport process is left running; it is signalled only when it did not
  exit after its input was closed, killed only when it also ignored \<open>terminate\<close>, and a process that has
  already exited keeps its status and receives no signal.
\<close>

theorem remote_stop_stops:
  "remote_stop exits_on_close p = (p', signals) \<Longrightarrow>
     (\<forall>obeys. p' \<noteq> Some (Running obeys)) \<and>
     (signals \<noteq> [] \<longleftrightarrow> \<not> exits_on_close \<and> (\<exists>obeys. p = Some (Running obeys))) \<and>
     (Kill \<in> set signals \<longleftrightarrow> \<not> exits_on_close \<and> p = Some (Running False)) \<and>
     ((\<forall>obeys. p \<noteq> Some (Running obeys)) \<longrightarrow> p' = p)"
  by (auto simp: remote_stop_def stop_child_def split: option.splits process.splits if_splits)

theorem remote_stop_stops_witness:
  "(\<forall>obeys. Some (Exited (-9)) \<noteq> Some (Running obeys)) \<and> Kill \<in> set [Terminate, Kill]"
proof -
  have "remote_stop False (Some (Running False)) = (Some (Exited (-9)), [Terminate, Kill])"
    by (simp add: remote_stop_def stop_child_def)
  from remote_stop_stops [OF this] show ?thesis by simp
qed

section \<open>The command line\<close>

text \<open>
  The command starts SSH without a terminal in batch mode with strict host keys; the host argument
  cannot be read as an option, and the remote command is one shell word list: the interpreter, its two
  flags and the program text unchanged, whatever quotes or newlines it holds.
\<close>

theorem ssh_command_words:
  assumes "ssh_command name source = Inr command"
  shows "\<exists>options. command = [''ssh''] @ options @ [name, shlex_join [''python3'', ''-u'', ''-c'', source]] \<and>
    ''BatchMode=yes'' \<in> set options \<and> ''StrictHostKeyChecking=yes'' \<in> set options \<and>
    \<not> startswith name ''-'' \<and> (\<forall>c \<in> set name. \<not> is_space c) \<and>
    shlex_split (last command) = Inr [''python3'', ''-u'', ''-c'', source]"
proof -
  have valid: "valid_host name"
    and c: "command = [''ssh'', ''-T'', ''-o'', ''BatchMode=yes'', ''-o'', ''StrictHostKeyChecking=yes'', ''-o'', ''ConnectTimeout=10'',
             ''-o'', ''ServerAliveInterval=5'', ''-o'', ''ServerAliveCountMax=3'', name, shlex_join [''python3'', ''-u'', ''-c'', source]]"
    using assms by (auto simp: ssh_command_def py_ok)
  have "last command = shlex_join [''python3'', ''-u'', ''-c'', source]" unfolding c by simp
  then have "shlex_split (last command) = Inr [''python3'', ''-u'', ''-c'', source]" by (simp only: shlex_split_join)
  moreover have "command = [''ssh''] @ [''-T'', ''-o'', ''BatchMode=yes'', ''-o'', ''StrictHostKeyChecking=yes'', ''-o'', ''ConnectTimeout=10'',
             ''-o'', ''ServerAliveInterval=5'', ''-o'', ''ServerAliveCountMax=3''] @ [name, shlex_join [''python3'', ''-u'', ''-c'', source]]"
    unfolding c by simp
  ultimately show ?thesis using valid by (auto simp: valid_host_def list_ex_iff)
qed

theorem ssh_command_words_witness:
  "\<exists>command. ssh_command ''lab1'' ''print()'' = Inr command \<and>
     shlex_split (last command) = Inr [''python3'', ''-u'', ''-c'', ''print()'']"
proof -
  have "valid_host ''lab1''" by code_simp
  then have "returns (ssh_command ''lab1'' ''print()'')" by (simp add: ssh_command_def)
  then obtain command where c: "ssh_command ''lab1'' ''print()'' = Inr command" by (auto simp: returns_iff)
  from ssh_command_words [OF c] c show ?thesis by blast
qed

section \<open>The clock\<close>

lemma min_pair_None: "min_pair ps = None \<longleftrightarrow> ps = []"
  by (cases ps) (auto split: option.splits)

lemma min_pair_mem: "min_pair ps = Some p \<Longrightarrow> p \<in> set ps \<and> (\<forall>q \<in> set ps. fst p \<le> fst q)"
proof (induction ps arbitrary: p)
  case (Cons a ps)
  show ?case
  proof (cases "min_pair ps")
    case None
    then show ?thesis using Cons.prems by (simp add: min_pair_None)
  next
    case (Some q)
    then show ?thesis using Cons.IH [OF Some] Cons.prems by (auto split: if_splits)
  qed
qed simp

lemma clock_estimate_error:
  assumes "0 \<le> x" and "x \<le> end_mono - begin_mono"
  shows "\<bar>snd (clock_estimate begin_wall begin_mono end_mono remote) - (begin_wall + x - remote)\<bar>
    \<le> fst (clock_estimate begin_wall begin_mono end_mono remote) + 1"
  using assms by (auto simp: clock_estimate_def Let_def)

lemma next_event_ok:
  "next_event expected events = Inr (e, rest) \<Longrightarrow> events = e # rest \<and> idx e ''kind'' = Inr (VStr expected)"
proof -
  assume n: "next_event expected events = Inr (e, rest)"
  then obtain k where "events = e # rest" "idx e ''kind'' = Inr k" "py_eq k (VStr expected)"
    by (auto simp: next_event_def bindE_eq_Inr split: list.splits if_splits)
  moreover from this(3) have "k = VStr expected" by (cases k) auto
  ultimately show ?thesis by simp
qed

definition answered :: "val list \<Rightarrow> int \<times> int \<times> int \<Rightarrow> int \<times> int \<Rightarrow> bool" where
  "answered events exchange est \<longleftrightarrow>
     (case exchange of (begin_wall, begin_mono, end_mono) \<Rightarrow>
        \<exists>response \<in> set events. \<exists>v remote. idx response ''kind'' = Inr (VStr ''clock'') \<and>
          idx response ''unix_ns'' = Inr v \<and> as_int v = Some remote \<and>
          est = clock_estimate begin_wall begin_mono end_mono remote)"

lemma clock_step_ok:
  assumes "clock_step x (events, ests) = Inr (events', ests')"
  shows "set events' \<subseteq> set events \<and> (\<exists>est. ests' = ests @ [est] \<and> answered events x est)"
proof -
  obtain a b c where x: "x = (a, b, c)" by (cases x)
  obtain response v remote where r: "next_event ''clock'' events = Inr (response, events')"
    "idx response ''unix_ns'' = Inr v" "as_int v = Some remote" "ests' = ests @ [clock_estimate a b c remote]"
    using assms x by (auto simp: clock_step_def py_ok)
  then show ?thesis using next_event_ok [OF r(1)] x by (auto simp: answered_def)
qed

lemma answered_mono: "answered events' x est \<Longrightarrow> set events' \<subseteq> set events \<Longrightarrow> answered events x est"
  by (cases x) (auto simp: answered_def)

lemma clock_steps_ok:
  assumes "foldE clock_step xs (events, ests) = Inr (events', ests')"
  shows "\<exists>new. ests' = ests @ new \<and> list_all2 (answered events) xs new"
  using assms
proof (induction xs arbitrary: events ests)
  case (Cons x xs)
  then obtain es1 est1 where s: "clock_step x (events, ests) = Inr (es1, est1)"
    and rest: "foldE clock_step xs (es1, est1) = Inr (events', ests')" by (auto simp: bindE_eq_Inr)
  obtain est where est: "est1 = ests @ [est]" "answered events x est" "set es1 \<subseteq> set events"
    using clock_step_ok [OF s] by blast
  obtain new where new: "ests' = est1 @ new" "list_all2 (answered es1) xs new" using Cons.IH [OF rest] by blast
  have "list_all2 (answered events) xs new"
    using new(2) by (rule list_all2_mono) (use est(3) answered_mono in blast)
  then show ?case using est new by (intro exI [of _ "est # new"]) simp
qed simp

text \<open>
  C33: the clock offset of a session comes from one of its exchanges, one with the smallest uncertainty,
  and it is within one nanosecond of that uncertainty: if the remote time was read \<open>x\<close> nanoseconds after
  the exchange began and before it ended, the true offset of the local clock to the remote one at that
  instant is \<open>begin_wall + x - remote\<close>.
\<close>

theorem handshake_clock:
  assumes "handshake exchanges events = Inr (identity, (uncertainty, offset), rest)"
  shows "\<exists>(begin_wall, begin_mono, end_mono) \<in> set exchanges. \<exists>response \<in> set events. \<exists>v remote.
    idx response ''kind'' = Inr (VStr ''clock'') \<and> idx response ''unix_ns'' = Inr v \<and> as_int v = Some remote \<and>
    uncertainty = (end_mono - begin_mono) div 2 \<and>
    (\<forall>x. 0 \<le> x \<and> x \<le> end_mono - begin_mono \<longrightarrow> \<bar>offset - (begin_wall + x - remote)\<bar> \<le> uncertainty + 1) \<and>
    (\<forall>(w, b, e) \<in> set exchanges. uncertainty \<le> (e - b) div 2)"
proof -
  obtain hello rest0 ests where h: "next_event ''hello'' events = Inr (hello, rest0)"
    and steps: "foldE clock_step exchanges (rest0, []) = Inr (rest, ests)" and best: "min_pair ests = Some (uncertainty, offset)"
    using assms by (auto simp: handshake_def py_ok)
  have sub: "set rest0 \<subseteq> set events" using next_event_ok [OF h] by auto
  have all2: "list_all2 (answered rest0) exchanges ests" using clock_steps_ok [OF steps] by auto
  have len: "length ests = length exchanges" using list_all2_lengthD [OF all2] by simp
  have best': "(uncertainty, offset) \<in> set ests" "\<forall>q \<in> set ests. uncertainty \<le> fst q"
    using min_pair_mem [OF best] by auto
  obtain i where i: "i < length ests" "ests ! i = (uncertainty, offset)" using best'(1) by (auto simp: in_set_conv_nth)
  obtain w b e where x: "exchanges ! i = (w, b, e)" by (cases "exchanges ! i")
  have "answered rest0 (w, b, e) (uncertainty, offset)" using all2 i x by (auto simp: list_all2_conv_all_nth)
  then obtain response v remote where r: "response \<in> set events" "idx response ''kind'' = Inr (VStr ''clock'')"
    "idx response ''unix_ns'' = Inr v" "as_int v = Some remote" "(uncertainty, offset) = clock_estimate w b e remote"
    using sub by (auto simp: answered_def)
  have others: "uncertainty \<le> (e' - b') div 2" if m: "(w', b', e') \<in> set exchanges" for w' b' e'
  proof -
    obtain j where j: "j < length exchanges" "exchanges ! j = (w', b', e')" using m by (auto simp: in_set_conv_nth)
    then have "answered rest0 (w', b', e') (ests ! j)" using all2 by (auto simp: list_all2_conv_all_nth)
    then have "fst (ests ! j) = (e' - b') div 2" by (auto simp: answered_def clock_estimate_def Let_def)
    moreover have "ests ! j \<in> set ests" using j len by simp
    ultimately show ?thesis using best'(2) by metis
  qed
  have error: "\<bar>offset - (w + x - remote)\<bar> \<le> uncertainty + 1" if "0 \<le> x" "x \<le> e - b" for x
    using clock_estimate_error [OF that, of w remote] r(5) by (metis fst_conv snd_conv)
  have unc: "uncertainty = (e - b) div 2" using r(5) by (simp add: clock_estimate_def Let_def)
  have mem: "(w, b, e) \<in> set exchanges" using i x len nth_mem [of i exchanges] by simp
  show ?thesis
    using mem r(1-4) unc error others by blast
qed

theorem handshake_clock_witness:
  "\<exists>(begin_wall, begin_mono, end_mono) \<in> {(1000, 10, 21), (2000, 30, 50)}. \<exists>remote.
     (5 :: int) = (end_mono - begin_mono) div 2 \<and>
     (\<forall>x. 0 \<le> x \<and> x \<le> end_mono - begin_mono \<longrightarrow> \<bar>505 - (begin_wall + x - remote)\<bar> \<le> 5 + (1 :: int))"
proof -
  have "handshake [(1000, 10, 21), (2000, 30, 50)]
      [event ''hello'' [(''identity'', VNone)], event ''clock'' [(''unix_ns'', VInt 500)], event ''clock'' [(''unix_ns'', VInt 900)]] =
      Inr (VNone, (5, 505), [])"
    by code_simp
  from handshake_clock [OF this] show ?thesis by fastforce
qed

section \<open>Uploads\<close>

definition upload_entry :: "host \<Rightarrow> string \<Rightarrow> val" where
  "upload_entry h bytes = VDict [(''bytes'', VInt (int (length bytes))), (''sha256'', VStr (h_sha256 h bytes))]"

lemma upload_step_ok:
  "upload_step f u = Inr u' \<longleftrightarrow>
     (\<exists>flag bytes. f = (flag, Some bytes) \<and> length bytes \<le> max_upload \<and> u' = dict_set flag (VStr (b64encode bytes)) u)"
  by (cases f) (auto simp: upload_step_def py_ok)

lemma uploads_keep: "foldE upload_step fs a = Inr u \<Longrightarrow> flag \<notin> set (map fst fs) \<Longrightarrow> map_of u flag = map_of a flag"
  by (induction fs arbitrary: a) (auto simp: bindE_eq_Inr upload_step_ok map_of_dict_set)

lemma uploads_entry:
  assumes "foldE upload_step files acc = Inr uploads" and "distinct (map fst files)" and "(flag, content) \<in> set files"
  shows "\<exists>bytes. content = Some bytes \<and> map_of uploads flag = Some (VStr (b64encode bytes))"
  using assms
proof (induction files arbitrary: acc)
  case (Cons f files)
  then obtain fl' bytes where f: "f = (fl', Some bytes)"
    and rest: "foldE upload_step files (dict_set fl' (VStr (b64encode bytes)) acc) = Inr uploads"
    by (auto simp: bindE_eq_Inr upload_step_ok)
  show ?case
  proof (cases "(flag, content) = f")
    case True
    then show ?thesis using uploads_keep [OF rest, of flag] Cons.prems(2) f by (auto simp: map_of_dict_set)
  next
    case False
    then show ?thesis using Cons.IH [OF rest] Cons.prems(2,3) by auto
  qed
qed simp

lemma uploads_keys: "foldE upload_step fs a = Inr u \<Longrightarrow> distinct (map fst a) \<Longrightarrow> distinct (map fst u)"
  by (induction fs arbitrary: a) (auto simp: bindE_eq_Inr upload_step_ok dict_set_distinct)

lemma agent_file_ok:
  "agent_file h e st = Inr st' \<Longrightarrow> \<exists>flag txt content. e = (flag, VStr txt) \<and> b64decode txt = Some content \<and>
     st' = (fst st @ [flag, h_folder h @ ''/'' @ tl flag], dict_set flag (upload_entry h content) (snd st))"
proof -
  assume a: "agent_file h e st = Inr st'"
  obtain flag encoded where e: "e = (flag, encoded)" by (cases e)
  have "\<exists>txt. encoded = VStr txt" using a e by (cases encoded) (auto simp: agent_file_def py_ok split: prod.splits)
  then show ?thesis using a e by (auto simp: agent_file_def py_ok upload_entry_def split: prod.splits)
qed

lemma agent_files_keep: "foldE (agent_file h) fs st = Inr st' \<Longrightarrow> flag \<notin> set (map fst fs) \<Longrightarrow> map_of (snd st') flag = map_of (snd st) flag"
  by (induction fs arbitrary: st) (fastforce simp: bindE_eq_Inr map_of_dict_set dest!: agent_file_ok)+

lemma agent_files_entry:
  assumes "foldE (agent_file h) fs st = Inr st'" and "distinct (map fst fs)" and "(flag, VStr txt) \<in> set fs"
  shows "\<exists>content. b64decode txt = Some content \<and> map_of (snd st') flag = Some (upload_entry h content)"
  using assms
proof (induction fs arbitrary: st)
  case (Cons f fs)
  then obtain st1 where st1: "agent_file h f st = Inr st1" and rest: "foldE (agent_file h) fs st1 = Inr st'"
    by (auto simp: bindE_eq_Inr)
  show ?case
  proof (cases "f = (flag, VStr txt)")
    case True
    then show ?thesis
      using agent_file_ok [OF st1] agent_files_keep [OF rest, of flag] Cons.prems(2) by (auto simp: map_of_dict_set)
  next
    case False
    then show ?thesis using Cons.IH [OF rest] Cons.prems(2,3) by auto
  qed
qed simp

text \<open>
  C35: a workload file reaches the agent byte for byte: when the collector accepts the files and the agent
  accepts the upload, the agent's record for each file has the length and the digest of the local bytes.
\<close>

theorem uploads_arrive:
  assumes "start_uploads files = Inr uploads" and "distinct (map fst files)" and "(flag, content) \<in> set files"
    and "foldE (agent_file h) uploads (arguments, []) = Inr (arguments', received)"
  shows "\<exists>bytes. content = Some bytes \<and>
    map_of received flag = Some (VDict [(''bytes'', VInt (int (length bytes))), (''sha256'', VStr (h_sha256 h bytes))])"
proof -
  have up: "foldE upload_step files [] = Inr uploads" using assms(1) by (simp add: start_uploads_def)
  obtain bytes where b: "content = Some bytes" "map_of uploads flag = Some (VStr (b64encode bytes))"
    using uploads_entry [OF up assms(2,3)] by blast
  have "distinct (map fst uploads)" by (rule uploads_keys [OF up]) simp
  from agent_files_entry [OF assms(4) this map_of_SomeD [OF b(2)]] show ?thesis
    using b by (simp add: b64_roundtrip upload_entry_def)
qed

definition sample_host :: host where
  "sample_host = \<lparr>h_identity = VDict [], h_clock = int, h_affinity = {0, 1}, h_hard = 4096, h_resolve = (\<lambda>p. p),
     h_read = (\<lambda>p. if p = ''/bin/load'' then Some ''elf'' else None), h_sha256 = (\<lambda>b. take 2 b), h_folder = ''/tmp/x'', h_spawns = True, h_pid = 7,
     h_started_at = 0, h_ticks =
       [\<lparr>k_exited = False, k_stopping = False, k_silence = 0, k_now = 1, k_sampling = Sampled (VInt 1)\<rparr>,
        \<lparr>k_exited = True, k_stopping = False, k_silence = 0, k_now = 2, k_sampling = Sampled (VInt 2)\<rparr>],
     h_exits = True, h_exit_code = 0, h_stderr = [], h_output_size = 10, h_output = Inr (VDict [(''phases'', VList [])])\<rparr>"

theorem uploads_arrive_witness:
  "\<exists>uploads arguments' received. start_uploads [(''-request-body'', Some ''hello'')] = Inr uploads \<and>
     foldE (agent_file sample_host) uploads ([], []) = Inr (arguments', received) \<and>
     map_of received ''-request-body'' = Some (VDict [(''bytes'', VInt 5), (''sha256'', VStr ''he'')])"
proof -
  have up: "start_uploads [(''-request-body'', Some ''hello'')] = Inr [(''-request-body'', VStr (b64encode ''hello''))]"
    by (simp add: start_uploads_def upload_step_def max_upload_def del: b64encode.simps)
  have down: "foldE (agent_file sample_host) [(''-request-body'', VStr (b64encode ''hello''))] ([], []) =
      Inr ([''-request-body'', ''/tmp/x/request-body''],
           [(''-request-body'', VDict [(''bytes'', VInt 5), (''sha256'', VStr ''he'')])])"
    by (simp add: agent_file_def b64_roundtrip max_upload_def sample_host_def del: b64encode.simps)
  from uploads_arrive [OF up _ _ down, of "''-request-body''" "Some ''hello''"] up down show ?thesis by auto
qed

section \<open>A whole run\<close>

definition sample_event :: "val \<Rightarrow> val" where
  "sample_event s = event ''sample'' [(''sample'', s)]"

definition result_event :: "host \<Rightarrow> val \<Rightarrow> val" where
  "result_event h report = event ''result''
     [(''client'', report), (''stderr'', VStr (h_stderr h)), (''exit_code'', VInt (h_exit_code h))]"

lemma agent_watch_samples: "\<exists>ss. fst (agent_watch deadline heartbeat ts) = map sample_event ss"
proof (induction ts)
  case (Cons t ts)
  then obtain ss where ss: "fst (agent_watch deadline heartbeat ts) = map sample_event ss" by blast
  show ?case
    using ss by (auto simp: sample_event_def split: sum.splits bool.splits sampling.splits prod.splits
        intro: exI [of _ "_ # ss"] exI [of _ "[]"])
qed simp

lemma event_kind [simp]: "idx (event k fs) ''kind'' = Inr (VStr k)"
  by (simp add: event_def)

lemma collect_sample [simp]: "collect_event (sample_event s) c = Inr (c\<lparr>q_samples := q_samples c @ [s]\<rparr>)"
  by (simp add: collect_event_def sample_event_def) (simp add: event_def)

lemma collect_samples: "foldE collect_event (map sample_event ss) c = Inr (c\<lparr>q_samples := q_samples c @ ss\<rparr>)"
  by (induction ss arbitrary: c) simp_all

lemma collect_eof: "collect_event (event ''eof'' []) c =
    Inr (if q_result c = VNone \<and> q_error c = VNone then c\<lparr>q_error := VStr ''remote agent closed without a result''\<rparr> else c)"
  by (simp add: collect_event_def)

lemma collect_error:
  "map_of fs ''error'' = Some m \<Longrightarrow> collect_event (event ''error'' fs) c = Inr (c\<lparr>q_failure := event ''error'' fs, q_error := m\<rparr>)"
  by (simp add: collect_event_def) (simp add: event_def)

lemma collect_result: "collect_event (result_event h v) c = Inr (c\<lparr>q_result := result_event h v\<rparr>)"
  by (simp add: collect_event_def result_event_def)

lemma exn_repr_nonempty: "exn_repr e \<noteq> []"
  by (cases e) (simp_all add: quoted_def)

text \<open>What the agent sends after it started the client and until it ends.\<close>

lemma agent_run_shape:
  assumes "agent_run h command = (started # es, end')" and "end' \<noteq> Watching" and "idx started ''kind'' = Inr (VStr ''started'')"
  obtains (result) ss report where "es = map sample_event ss @ [result_event h report]" and "end' = Returned" and "h_exit_code h = 0"
  | (error) ss fs m where "es = map sample_event ss @ [event ''error'' fs]" and "map_of fs ''error'' = Some (VStr m)" and "m \<noteq> []"
      and "end' = Exit_1 \<or> h_exit_code h \<noteq> 0"
proof -
  obtain p where p: "agent_prepare h command = Inr p"
    using assms(1,3) by (cases "agent_prepare h command") (auto simp: agent_run_def error_event_def)
  have sp: "h_spawns h" using assms(1,3) p by (cases "h_spawns h") (auto simp: agent_run_def error_event_def)
  show ?thesis
  proof (cases "bindE (addE (Inr (VFloat (h_started_at h))) (idx command ''max_seconds'')) (\<lambda>d.
      bindE (get_dflt command ''heartbeat_seconds'' (VInt 15)) (\<lambda>hb. Inr (d, hb)))")
    case (Inl e)
    then have "es = map sample_event [] @ [error_event e]" "end' = Exit_1" using assms(1) p sp by (auto simp: agent_run_def)
    then show ?thesis using error [of "[]"] exn_repr_nonempty [of e] by (simp add: error_event_def)
  next
    case (Inr dh)
    obtain d hb where dh: "dh = (d, hb)" by (cases dh)
    obtain ws r where w: "agent_watch d hb (h_ticks h) = (ws, r)" by fastforce
    obtain ss where ss: "ws = map sample_event ss" using agent_watch_samples [of d hb "h_ticks h"] w by auto
    show ?thesis
    proof (cases r)
      case None
      then show ?thesis using assms(1,2) p sp Inr dh w by (auto simp: agent_run_def)
    next
      case (Some o')
      have es: "es = map sample_event ss @ [error_event e] \<and> end' = Exit_1" if "o' = Inl e \<or> o' = Inr () \<and> agent_finish h = Inl e" for e
        using assms(1) p sp Inr dh w ss Some that by (auto simp: agent_run_def)
      show ?thesis
      proof (cases "bindE o' (\<lambda>_. agent_finish h)")
        case (Inl e)
        then have "o' = Inl e \<or> o' = Inr () \<and> agent_finish h = Inl e" by (cases o') auto
        from es [OF this] show ?thesis using error [of ss] exn_repr_nonempty [of e] by (simp add: error_event_def)
      next
        case final: (Inr final)
        then have o': "o' = Inr ()" "agent_finish h = Inr final" by (cases o'; simp)+
        then have es': "es = map sample_event ss @ [final]" "end' = Returned"
          using assms(1) p sp Inr dh w ss Some by (auto simp: agent_run_def)
        show ?thesis
        proof (cases "h_exit_code h = 0")
          case True
          then obtain v where "final = result_event h v"
            using o'(2) by (auto simp: agent_finish_def bindE_eq_Inr result_event_def split: if_splits)
          then show ?thesis using result [of ss v] es' True by simp
        next
          case False
          then obtain fs m where "final = event ''error'' fs" "map_of fs ''error'' = Some (VStr m)" "m \<noteq> []"
            using o'(2) by (fastforce simp: agent_finish_def split: if_splits)
          then show ?thesis using error [of ss fs m] es' False by simp
        qed
      qed
    qed
  qed
qed

text \<open>An agent that never started the client sends one error and exits with status 1.\<close>

lemma agent_run_not_started:
  assumes "agent_run h command = (es, end')"
  obtains (started) p es' where "es = started_event h p # es'"
  | (refused) e where "es = [error_event e]" and "end' = Exit_1"
proof (cases "agent_prepare h command")
  case (Inl e)
  then show ?thesis using assms refused [of e] by (simp add: agent_run_def)
next
  case (Inr p)
  show ?thesis
  proof (cases "h_spawns h")
    case True
    then obtain es' where "es = started_event h p # es'"
      using assms Inr by (auto simp: agent_run_def split: sum.splits prod.splits option.splits)
    then show ?thesis by (rule started)
  next
    case False
    then show ?thesis using assms Inr refused [of "OSError (hd (p_arguments p))"] by (simp add: agent_run_def)
  qed
qed

lemma started_event_kind [simp]: "idx (started_event h p) ''kind'' = Inr (VStr ''started'')"
  by (simp add: started_event_def)

text \<open>What \<open>collect\<close> makes of the two ways a started run ends.\<close>

lemma collect_of_result:
  assumes "q_events c = map sample_event ss @ [result_event h report, event ''eof'' []]" and "q_error c = VNone" and "q_result c = VNone"
  shows "collect now pipe c = Inr (c\<lparr>q_samples := q_samples c @ ss, q_result := result_event h report, q_events := []\<rparr>)"
proof -
  have "foldE collect_event (q_events c) c =
      Inr (c\<lparr>q_samples := q_samples c @ ss, q_result := result_event h report\<rparr>)"
    using assms(2,3) by (simp add: assms(1) foldE_append collect_samples collect_result collect_eof) (simp add: result_event_def event_def)
  then show ?thesis using assms(2,3) by (simp add: collect_def Let_def) (simp add: result_event_def event_def)
qed

lemma collect_of_error:
  assumes "q_events c = map sample_event ss @ [event ''error'' fs, event ''eof'' []]"
    and "map_of fs ''error'' = Some (VStr m)" and "m \<noteq> []"
  shows "collect now pipe c = Inl (RuntimeError m)"
proof -
  have "foldE collect_event (q_events c) c =
      Inr (c\<lparr>q_samples := q_samples c @ ss, q_failure := event ''error'' fs, q_error := VStr m\<rparr>)"
    by (simp add: assms(1) foldE_append collect_samples collect_error [OF assms(2)] collect_eof)
  then show ?thesis using assms(3) by (simp add: collect_def Let_def)
qed

text \<open>
  C1: a finished run is never misread.  The parent sends the run command (\<open>start\<close>) and, once everything
  the agent sent for that command and the end of its output are in the queue, calls \<open>collect\<close>.  The two
  calls return exactly when the agent returned and the load client exited with status 0; the collector
  then holds the started event, the client's result and every sample in the order it was taken.  In every
  other case (a refused or failed preparation, a client that cannot be spawned, a lost parent, an expired
  deadline, a failed client) the parent gets a \<open>RuntimeError\<close>, from \<open>start\<close> when no client was started
  and from \<open>collect\<close> otherwise.
\<close>

theorem remote_run_outcome:
  fixes now :: rat and pipe :: bool
  assumes uploads: "start_uploads files = Inr uploads"
    and run: "agent_run h (run_message binary arguments cpus connections max_seconds uploads heartbeat) = (es, end')"
    and finished: "end' \<noteq> Watching"
    and queue: "q_events c = es @ [event ''eof'' []]" and fresh: "q_error c = VNone" "q_result c = VNone"
  defines "out \<equiv> bindE (start_run binary arguments cpus connections max_seconds files heartbeat c) (collect now pipe)"
  shows "(returns out \<longleftrightarrow> end' = Returned \<and> h_exit_code h = 0) \<and>
    (\<forall>c'. out = Inr c' \<longrightarrow>
       (\<exists>p ss report. es = started_event h p # map sample_event ss @ [result_event h report] \<and>
          q_started c' = started_event h p \<and> q_samples c' = q_samples c @ ss \<and> q_result c' = result_event h report)) \<and>
    (\<forall>e. out = Inl e \<longrightarrow> (\<exists>m. e = RuntimeError m))"
proof (rule agent_run_not_started [OF run])
  fix e
  assume es: "es = [error_event e]" and ex: "end' = Exit_1"
  then have "out = Inl (RuntimeError ''expected started'')"
    by (simp add: out_def start_run_def uploads queue next_event_def) (simp add: error_event_def)
  then show ?thesis using ex by simp
next
  fix p es'
  assume es: "es = started_event h p # es'"
  obtain c1 where c1: "start_run binary arguments cpus connections max_seconds files heartbeat c = Inr c1"
      "q_events c1 = es' @ [event ''eof'' []]" "q_error c1 = VNone" "q_result c1 = VNone"
      "q_started c1 = started_event h p" "q_samples c1 = q_samples c"
    using uploads queue es fresh by (simp add: start_run_def next_event_def)
  have out: "out = collect now pipe c1" by (simp add: out_def c1(1))
  show ?thesis
  proof (rule agent_run_shape [OF run [unfolded es] finished started_event_kind])
    fix ss report
    assume shape: "es' = map sample_event ss @ [result_event h report]" and ok: "end' = Returned" "h_exit_code h = 0"
    have "out = Inr (c1\<lparr>q_samples := q_samples c1 @ ss, q_result := result_event h report, q_events := []\<rparr>)"
      unfolding out by (rule collect_of_result) (simp_all add: c1 shape)
    then show ?thesis using ok es shape c1 by auto
  next
    fix ss fs m
    assume shape: "es' = map sample_event ss @ [event ''error'' fs]" and m: "map_of fs ''error'' = Some (VStr m)" "m \<noteq> []"
      and bad: "end' = Exit_1 \<or> h_exit_code h \<noteq> 0"
    have "out = Inl (RuntimeError m)" unfolding out by (rule collect_of_error [of _ ss fs]) (simp_all add: c1 shape m)
    then show ?thesis using bad by auto
  qed
qed

definition sample_command :: val where
  "sample_command = run_message ''/bin/load'' [''-path'', ''/''] [0] 8 (VInt 60) [] (VInt 15)"

lemma sample_run:
  "agent_run sample_host sample_command =
     ([started_event sample_host \<lparr>p_arguments = [''/bin/load'', ''-path'', ''/''], p_cpus = {0}, p_binary_sha256 = ''el'', p_uploads = []\<rparr>,
       sample_event (VInt 1), result_event sample_host (VDict [(''phases'', VList [])])], Returned)"
  by code_simp

theorem remote_run_outcome_witness:
  "\<exists>c'. bindE (start_run ''/bin/load'' [''-path'', ''/''] [0] 8 (VInt 60) [] (VInt 15)
       (new_collector\<lparr>q_events := fst (agent_run sample_host sample_command) @ [event ''eof'' []]\<rparr>)) (collect 0 True) = Inr c'"
proof -
  have up: "start_uploads [] = Inr []" by (simp add: start_uploads_def)
  have "returns (bindE (start_run ''/bin/load'' [''-path'', ''/''] [0] 8 (VInt 60) [] (VInt 15)
       (new_collector\<lparr>q_events := fst (agent_run sample_host sample_command) @ [event ''eof'' []]\<rparr>)) (collect 0 True))"
    using remote_run_outcome [OF up sample_run [unfolded sample_command_def], where c =
        "new_collector\<lparr>q_events := fst (agent_run sample_host sample_command) @ [event ''eof'' []]\<rparr>" and now = 0 and pipe = True]
    by (simp add: sample_run) (simp add: new_collector_def sample_host_def)
  then show ?thesis by (simp add: returns_iff)
qed

section \<open>Delivery and polling in any order\<close>

text \<open>
  The reader thread and the polling loop run concurrently.  A state is the list of events the collector
  has consumed, those the reader has still to deliver, and the collector; a session starts from a
  collector with an empty queue and no result or error, and each step either delivers one event or polls.
\<close>

inductive session :: "collector \<Rightarrow> val list \<Rightarrow> val list \<times> val list \<times> collector \<Rightarrow> bool" for c0 events where
  open_session: "q_events c0 = [] \<Longrightarrow> session c0 events ([], events, c0)"
| deliver: "session c0 events (seen, e # pending, c) \<Longrightarrow>
    session c0 events (seen, pending, c\<lparr>q_events := q_events c @ [e]\<rparr>)"
| poll: "session c0 events (seen, pending, c) \<Longrightarrow> collect now pipe c = Inr c' \<Longrightarrow>
    session c0 events (seen @ q_events c, pending, c')"

inductive_cases session_elim: "session c0 events (seen, pending, c)"

text \<open>The part of the collector that consuming an event can change.\<close>

definition collected :: "collector \<Rightarrow> val list \<times> val \<times> val \<times> val" where
  "collected c = (q_samples c, q_result c, q_error c, q_failure c)"

lemma collect_event_collected:
  assumes "collect_event e c = Inr c1" and "collected c = collected d"
  shows "\<exists>d1. collect_event e d = Inr d1 \<and> collected c1 = collected d1"
proof -
  obtain k where k: "idx e ''kind'' = Inr k" using assms(1) by (auto simp: collect_event_def bindE_eq_Inr)
  have same: "q_samples c = q_samples d" "q_result c = q_result d" "q_error c = q_error d" "q_failure c = q_failure d"
    using assms(2) by (simp_all add: collected_def)
  show ?thesis
    using assms(1) k same unfolding collect_event_def collected_def
    by (cases "idx e ''sample''"; cases "idx e ''error''") (auto split: if_splits)
qed

lemma collect_events_collected:
  assumes "foldE collect_event es c = Inr c1" and "collected c = collected d"
  shows "\<exists>d1. foldE collect_event es d = Inr d1 \<and> collected c1 = collected d1"
  using assms
proof (induction es arbitrary: c d)
  case (Cons e es)
  obtain c' where c': "collect_event e c = Inr c'" and rest: "foldE collect_event es c' = Inr c1"
    using Cons.prems(1) by (auto simp: bindE_eq_Inr)
  obtain d' where d': "collect_event e d = Inr d'" "collected c' = collected d'"
    using collect_event_collected [OF c' Cons.prems(2)] by blast
  show ?case using Cons.IH [OF rest d'(2)] d'(1) by simp
qed simp

lemma collect_ok:
  assumes "collect now pipe c = Inr c'"
  obtains c1 where "foldE collect_event (q_events c) c = Inr c1" and "collected c' = collected c1"
    and "q_events c' = []" and "\<not> truthy (q_error c')"
  using assms by (auto simp: collect_def Let_def bindE_eq_Inr collected_def split: if_splits)

lemma session_inv:
  assumes "session c0 events (seen, pending, c)"
  shows "seen @ q_events c @ pending = events \<and>
    (\<exists>d. foldE collect_event seen c0 = Inr d \<and> collected c = collected d)"
  using assms
proof (induction "(seen, pending, c)" arbitrary: seen pending c)
  case (deliver seen e pending c)
  then show ?case by (simp add: collected_def)
next
  case (poll seen pending c now pipe c')
  obtain d where d: "foldE collect_event seen c0 = Inr d" "collected c = collected d" using poll.hyps(2) by blast
  obtain c1 where c1: "foldE collect_event (q_events c) c = Inr c1" "collected c' = collected c1" "q_events c' = []"
    by (rule collect_ok [OF poll.hyps(3)])
  obtain d1 where "foldE collect_event (q_events c) d = Inr d1" "collected c1 = collected d1"
    using collect_events_collected [OF c1(1) d(2)] by blast
  then show ?case using poll.hyps(2) d c1 by (simp add: foldE_append)
qed simp

lemma collect_event_samples:
  assumes "collect_event e c = Inr c'"
  shows "q_samples c' = q_samples c @ (if idx e ''kind'' = Inr (VStr ''sample'') then [case idx e ''sample'' of Inr s \<Rightarrow> s] else []) \<and>
    (q_result c' = q_result c \<or> q_result c' = e \<and> idx e ''kind'' = Inr (VStr ''result''))"
proof -
  obtain k where k: "idx e ''kind'' = Inr k" using assms by (auto simp: collect_event_def bindE_eq_Inr)
  have str: "py_eq k (VStr s) \<longleftrightarrow> k = VStr s" for s by (cases k) auto
  show ?thesis using assms k by (auto simp: collect_event_def bindE_eq_Inr str split: if_splits)
qed

text \<open>The payloads of the sample events, in order.\<close>

definition sample_payloads :: "val list \<Rightarrow> val list" where
  "sample_payloads es = map (\<lambda>e. case idx e ''sample'' of Inr s \<Rightarrow> s) (filter (\<lambda>e. idx e ''kind'' = Inr (VStr ''sample'')) es)"

lemma collect_events_samples:
  assumes "foldE collect_event es c = Inr c'"
  shows "q_samples c' = q_samples c @ sample_payloads es \<and>
    (q_result c' = q_result c \<or> (\<exists>e \<in> set es. q_result c' = e \<and> idx e ''kind'' = Inr (VStr ''result'')))"
  using assms
proof (induction es arbitrary: c)
  case (Cons e es)
  obtain c1 where c1: "collect_event e c = Inr c1" and rest: "foldE collect_event es c1 = Inr c'"
    using Cons.prems by (auto simp: bindE_eq_Inr)
  show ?case using collect_event_samples [OF c1] Cons.IH [OF rest] by (auto simp: sample_payloads_def)
qed (simp add: sample_payloads_def)

text \<open>
  C2: whatever the interleaving of delivery and polling, the collector loses, repeats and reorders
  nothing: the events consumed, queued and pending are the events sent, the samples it holds are those of
  the events consumed, in order, and a result it reports is a result event the agent sent.
\<close>

theorem session_order:
  assumes "session c0 events (seen, pending, c)" and "q_samples c0 = []" and "q_result c0 = VNone"
  shows "seen @ q_events c @ pending = events \<and> q_samples c = sample_payloads seen \<and>
    (q_result c \<noteq> VNone \<longrightarrow> q_result c \<in> set seen \<and> idx (q_result c) ''kind'' = Inr (VStr ''result''))"
proof -
  obtain d where d: "foldE collect_event seen c0 = Inr d" "collected c = collected d"
    and order: "seen @ q_events c @ pending = events" using session_inv [OF assms(1)] by blast
  show ?thesis using collect_events_samples [OF d(1)] d(2) order assms(2,3) by (auto simp: collected_def)
qed

theorem session_order_witness:
  "\<exists>c. session new_collector [sample_event (VInt 1), result_event sample_host VNone] ([sample_event (VInt 1)], [result_event sample_host VNone], c) \<and>
     q_samples c = sample_payloads [sample_event (VInt 1)]"
proof -
  let ?es = "[sample_event (VInt 1), result_event sample_host VNone]"
  let ?c = "new_collector\<lparr>q_events := [sample_event (VInt 1)]\<rparr>"
  have start: "session new_collector ?es ([], ?es, new_collector)"
    by (rule session.open_session) (simp add: new_collector_def)
  have "session new_collector ?es ([], [result_event sample_host VNone], ?c)"
    using session.deliver [OF start] by (simp add: new_collector_def)
  moreover have "collect 0 True ?c = Inr (new_collector\<lparr>q_samples := [VInt 1]\<rparr>)"
    by code_simp
  ultimately have s: "session new_collector ?es ([sample_event (VInt 1)], [result_event sample_host VNone], new_collector\<lparr>q_samples := [VInt 1]\<rparr>)"
    using session.poll [of new_collector ?es "[]" "[result_event sample_host VNone]" ?c 0 True] by (simp add: new_collector_def)
  from session_order [OF s] s show ?thesis by (auto simp: new_collector_def)
qed

end
