(* ===== verification/Overload_Run.thy ===== *)
theory Overload_Run
  imports Remote_Load Worker_Cpus Py_Ipaddress
begin

text \<open>
  \<open>bench/overload.py\<close>: the fixed-rate run against a local server.  The kernel's \<open>/proc\<close> is a \<open>tree\<close>;
  \<open>proc_sample\<close>, \<open>kernel_sample\<close> and \<open>core_sample\<close> parse it as the source does, and \<open>sample_process\<close> is
  the shorter variant of \<open>bench/remote_load.py\<close>.  \<open>check_options\<close>, \<open>server_command\<close> and \<open>client_command\<close>
  are the parts of \<open>main\<close> before the run; \<open>overload_main\<close> is the supervised run itself, over what the
  clients and the server do.
\<close>

section \<open>CPU lists\<close>

definition overload_part :: "string \<Rightarrow> int list res" where
  "overload_part part =
     (let ends = split_on CHR ''-'' part in
      bindE (py_int (hd ends)) (\<lambda>a. bindE (py_int (last ends)) (\<lambda>b. Inr [a..b])))"

definition overload_cpu_list :: "string \<Rightarrow> int list res" where
  "overload_cpu_list value = bindE (mapE overload_part (split_on CHR '','' value)) (\<lambda>parts. Inr (concat parts))"

section \<open>Sampling a process\<close>

definition str_nth :: "string list \<Rightarrow> nat \<Rightarrow> string res" where
  "str_nth xs i = (if i < length xs then Inr (xs ! i) else Inl IndexError)"

definition int_nth :: "string list \<Rightarrow> nat \<Rightarrow> int res" where
  "int_nth xs i = bindE (str_nth xs i) py_int"

definition stat_fields :: "string \<Rightarrow> string list res" where
  "stat_fields txt = bindE (str_nth (rsplit1 CHR '')'' txt) 1) (\<lambda>r. Inr (split_ws r))"

definition seconds_of :: "int \<Rightarrow> int \<Rightarrow> val res" where
  "seconds_of hz ticks = py_truediv (VInt ticks) (VInt hz)"

definition is_memory_line :: "string \<Rightarrow> bool" where
  "is_memory_line line \<longleftrightarrow> startswith line ''VmRSS:'' \<or> startswith line ''VmHWM:'' \<or> startswith line ''VmSwap:''"

definition is_switch_line :: "string \<Rightarrow> bool" where
  "is_switch_line line \<longleftrightarrow> startswith line ''voluntary_ctxt_switches:'' \<or> startswith line ''nonvoluntary_ctxt_switches:''"

definition memory_line :: "string \<Rightarrow> (string \<times> val) list \<Rightarrow> (string \<times> val) list res" where
  "memory_line line status =
     (case split_ws line of
        [key, amount, _] \<Rightarrow> bindE (py_int amount) (\<lambda>n. Inr (dict_set (butlast key) (VInt (n * 1024)) status))
      | _ \<Rightarrow> Inl unpack_error)"

definition status_line :: "string \<Rightarrow> (string \<times> val) list \<Rightarrow> (string \<times> val) list res" where
  "status_line line status =
     (if is_memory_line line then memory_line line status
      else if is_switch_line line
      then (case split_ws line of
              [key, amount] \<Rightarrow> bindE (py_int amount) (\<lambda>n. Inr (dict_set (butlast key) (VInt n) status))
            | _ \<Rightarrow> Inl unpack_error)
      else Inr status)"

definition proc_path :: "int \<Rightarrow> string \<Rightarrow> string" where
  "proc_path pid name = ''/proc/'' @ str_of_int pid @ ''/'' @ name"

definition fd_count :: "tree \<Rightarrow> int \<Rightarrow> val res" where
  "fd_count fs pid =
     (if t_is_dir fs (proc_path pid ''fd'') then Inr (VInt (int (length (t_names fs (proc_path pid ''fd'')))))
      else Inl (OSError (proc_path pid ''fd'')))"

definition proc_sample :: "tree \<Rightarrow> int \<Rightarrow> int \<Rightarrow> val res" where
  "proc_sample fs hz pid =
     bindE (bindE (read_text fs (proc_path pid ''stat'')) stat_fields) (\<lambda>fields.
     bindE (read_text fs (proc_path pid ''status'')) (\<lambda>txt.
     bindE (foldE status_line (splitlines txt) []) (\<lambda>status.
     bindE (fieldsE
       [(''cpu_seconds'', bindE (int_nth fields 11) (\<lambda>u. bindE (int_nth fields 12) (\<lambda>s. seconds_of hz (u + s)))),
        (''user_seconds'', bindE (int_nth fields 11) (seconds_of hz)),
        (''system_seconds'', bindE (int_nth fields 12) (seconds_of hz)),
        (''minor_faults'', bindE (int_nth fields 7) (\<lambda>n. Inr (VInt n))),
        (''major_faults'', bindE (int_nth fields 9) (\<lambda>n. Inr (VInt n))),
        (''last_cpu'', bindE (int_nth fields 36) (\<lambda>n. Inr (VInt n))),
        (''fds'', fd_count fs pid)] status) (\<lambda>row. Inr (VDict row)))))"

definition sample_process :: "tree \<Rightarrow> int \<Rightarrow> int \<Rightarrow> int \<Rightarrow> val res" where
  "sample_process fs hz now pid =
     bindE (bindE (read_text fs (proc_path pid ''stat'')) stat_fields) (\<lambda>fields.
     bindE (fieldsE
       [(''unix_ns'', Inr (VInt now)),
        (''cpu_seconds'', bindE (int_nth fields 11) (\<lambda>u. bindE (int_nth fields 12) (\<lambda>s. seconds_of hz (u + s))))] []) (\<lambda>row.
     bindE (read_text fs (proc_path pid ''status'')) (\<lambda>txt.
     bindE (foldE (\<lambda>line r. if is_memory_line line then memory_line line r else Inr r) (splitlines txt) row) (\<lambda>row.
     bindE (fieldsE [(''fds'', fd_count fs pid)] row) (\<lambda>row. Inr (VDict row))))))"

section \<open>Sampling the kernel\<close>

definition int_list :: "string list \<Rightarrow> val res" where
  "int_list parts = bindE (mapE py_int parts) (\<lambda>ns. Inr (VList (map VInt ns)))"

fun find_tcpext :: "string list \<Rightarrow> (string \<times> string list) option" where
  "find_tcpext [] = None"
| "find_tcpext (line # lines) = (if startswith line ''TcpExt:'' then Some (line, lines) else find_tcpext lines)"

fun socket_pairs :: "string list \<Rightarrow> (string \<times> val) list res" where
  "socket_pairs [] = Inr []"
| "socket_pairs [k] = Inl IndexError"
| "socket_pairs (k # v # r) =
     bindE (py_int v) (\<lambda>n. bindE (socket_pairs r) (\<lambda>ps. Inr ((''tcp_'' @ k, VInt n) # ps)))"

definition socket_line :: "string \<Rightarrow> (string \<times> val) list \<Rightarrow> (string \<times> val) list res" where
  "socket_line line row =
     (if startswith line ''TCP:''
      then bindE (socket_pairs (tl (split_ws line))) (\<lambda>ps. Inr (fold (\<lambda>(k, v) d. dict_set k v d) (dict_of ps) row))
      else Inr row)"

definition softirq_line :: "string \<Rightarrow> (string \<times> val) list \<Rightarrow> (string \<times> val) list res" where
  "softirq_line line row =
     (let parts = split_ws line in
      if parts \<noteq> [] \<and> hd parts \<in> {''NET_RX:'', ''NET_TX:''}
      then bindE (int_list (tl parts)) (\<lambda>v. Inr (dict_set (butlast (hd parts)) v row))
      else Inr row)"

definition interface_names :: "string list" where
  "interface_names = [''rx_bytes'', ''rx_packets'', ''rx_errors'', ''rx_drops'', ''tx_bytes'', ''tx_packets'', ''tx_errors'', ''tx_drops'']"

definition interface_line :: "string \<Rightarrow> (string \<times> val) list \<Rightarrow> (string \<times> val) list res" where
  "interface_line line row =
     (case partition_on CHR '':'' line of (name, found, values) \<Rightarrow>
        if \<not> found then Inl unpack_error
        else bindE (mapE py_int (split_ws values)) (\<lambda>fields.
          Inr (dict_set (strip name)
            (VDict (zip interface_names (map VInt (take 4 fields @ take 4 (drop 8 fields))))) row)))"

definition selected_counters :: "string list" where
  "selected_counters = [''ListenOverflows'', ''ListenDrops'', ''TCPReqQFullDoCookies'', ''TCPReqQFullDrop'', ''TCPBacklogDrop'']"

definition kernel_sample :: "tree \<Rightarrow> val res" where
  "kernel_sample fs =
     bindE (read_text fs ''/proc/net/netstat'') (\<lambda>netstat.
     case find_tcpext (splitlines netstat) of
       None \<Rightarrow> Inr (VDict [])
     | Some (line, rest) \<Rightarrow>
         bindE (if rest = [] then Inl IndexError else mapE py_int (tl (split_ws (hd rest)))) (\<lambda>numbers.
         let fields = dict_of (zip (tl (split_ws line)) numbers);
             result = map (\<lambda>name. (name, VInt (dict_get 0 name fields))) selected_counters in
         bindE (bindE (read_text fs ''/proc/net/sockstat'') (\<lambda>txt. foldE socket_line (splitlines txt) result)) (\<lambda>result.
         bindE (bindE (read_text fs ''/proc/softirqs'') (\<lambda>txt. foldE softirq_line (splitlines txt) [])) (\<lambda>softirqs.
         bindE (bindE (read_text fs ''/proc/net/dev'') (\<lambda>txt. foldE interface_line (drop 2 (splitlines txt)) [])) (\<lambda>interfaces.
         Inr (VDict (dict_set ''interfaces'' (VDict interfaces) (dict_set ''softirqs'' (VDict softirqs) result))))))))"

definition core_sample :: "tree \<Rightarrow> int list \<Rightarrow> val res" where
  "core_sample fs cpus =
     bindE (read_text fs ''/proc/stat'') (\<lambda>txt.
     bindE (foldE (\<lambda>line row.
       let parts = split_ws line in
       if parts \<noteq> [] \<and> hd parts \<in> set (map (\<lambda>cpu. ''cpu'' @ str_of_int cpu) cpus)
       then bindE (int_list (tl parts)) (\<lambda>v. Inr (dict_set (hd parts) v row))
       else Inr row) (splitlines txt) []) (\<lambda>row. Inr (VDict row)))"

section \<open>The admin endpoint and stopping\<close>

definition get_json :: "string \<Rightarrow> (int \<times> val res) res \<Rightarrow> val res" where
  "get_json url response =
     bindE response (\<lambda>(status, body).
       if status \<noteq> 200 then Inl (RuntimeError (url @ '': HTTP '' @ str_of_int status)) else body)"

definition stop_process :: "process option \<Rightarrow> process option \<times> signal list" where
  "stop_process p =
     (case p of
        Some (Running obeys) \<Rightarrow>
          if obeys then (Some (Exited (-15)), [Terminate]) else (Some (Exited (-9)), [Terminate, Kill])
      | _ \<Rightarrow> (p, []))"

section \<open>Options and commands\<close>

record overload_options =
  v_server_address :: string
  v_server_port :: int
  v_target_address :: string
  v_client_host :: string
  v_remote_client_binary :: string
  v_remote_timeout :: rat
  v_schedule :: string
  v_labels :: string
  v_server_cpus :: string
  v_client_cpus :: string
  v_client_netns_pid :: "int option"
  v_workers :: int
  v_max_connections :: int
  v_connections :: int
  v_shards :: int
  v_queue :: int
  v_max_lag :: string
  v_rate_limit :: int
  v_burst :: "int option"
  v_max_active :: "int option"
  v_rejection_rate :: int
  v_churn :: bool
  v_access_log :: bool
  v_source_ips :: int
  v_method :: string
  v_path :: string
  v_content_type :: string
  v_allow_chunked :: bool
  v_client_max_requests :: int
  v_server_max_requests :: int
  v_timeout :: string
  v_server_binary :: string
  v_client_binary :: string

text \<open>
  An absent text option is the empty text: the source tests these options for truth only.  An exception
  of \<open>cpu_list\<close> or \<open>ip_address\<close> leaves \<open>main\<close> as it is.
\<close>

definition check_options :: "overload_options \<Rightarrow> unit res" where
  "check_options o' =
     (let remote = v_client_host o' \<noteq> [] in
      checks
       [ensure (\<not> (v_client_netns_pid o' \<noteq> None \<and> remote))
          (ParserError ''local network namespaces cannot be combined with a remote client''),
        if remote then Inr ()
        else bindE (overload_cpu_list (v_server_cpus o')) (\<lambda>s.
             bindE (overload_cpu_list (v_client_cpus o')) (\<lambda>c.
             ensure (set s \<inter> set c = {}) (ParserError ''server and client CPU lists must not overlap''))),
        if \<not> remote then Inr ()
        else checks
          [ensure (v_remote_client_binary o' \<noteq> [] \<and> 0 < v_remote_timeout o' \<and> v_remote_timeout o' \<le> 86400)
             (ParserError ''remote runs require a binary path and timeout in (0, 86400] seconds''),
           ensure (v_source_ips o' = 0) (ParserError ''loopback source IP sharding is not valid for a remote generator''),
           if v_target_address o' \<noteq> [] then Inr ()
           else bindE (py_ip_address (v_server_address o')) (\<lambda>a. ensure (\<not> is_loopback a)
             (ParserError ''remote runs require a reachable --server-address or an explicit --target-address''))],
        bindE (overload_cpu_list (v_server_cpus o')) (\<lambda>s.
          ensure (v_workers o' \<le> int (length s)) (ParserError ''provide at least one server CPU per worker''))])"

definition monitor_cpu :: "overload_options \<Rightarrow> int set \<Rightarrow> int option res" where
  "monitor_cpu o' affinity =
     bindE (overload_cpu_list (v_server_cpus o')) (\<lambda>s.
     bindE (if v_client_host o' \<noteq> [] then Inr [] else overload_cpu_list (v_client_cpus o')) (\<lambda>c.
     let monitor_cpus = affinity - set s - set c in
     Inr (if monitor_cpus = {} then None else Some (Min monitor_cpus))))"

definition descriptor_limit :: "overload_options \<Rightarrow> int \<Rightarrow> int \<Rightarrow> int" where
  "descriptor_limit o' soft hard =
     (let needed = v_connections o' + v_workers o' * v_max_connections o' + 256 in min (max soft needed) hard)"

definition flag_if :: "string \<Rightarrow> int option \<Rightarrow> string list" where
  "flag_if flag v = (case v of None \<Rightarrow> [] | Some n \<Rightarrow> [flag, str_of_int n])"

definition server_command :: "overload_options \<Rightarrow> string list" where
  "server_command o' =
     [''taskset'', ''-c'', v_server_cpus o', v_server_binary o', ''--address'', v_server_address o',
      ''--port'', str_of_int (v_server_port o'), ''--admin-port'', ''0'', ''--workers'', str_of_int (v_workers o'),
      ''--max-connections'', str_of_int (v_max_connections o'), ''--rate'', str_of_int (v_rate_limit o'),
      ''--rejection-rate'', str_of_int (v_rejection_rate o'), ''--max-requests'', str_of_int (v_server_max_requests o')] @
     (if v_access_log o' then [] else [''--no-access-log'']) @
     flag_if ''--burst'' (v_burst o') @ flag_if ''--max-active'' (v_max_active o')"

definition client_arguments :: "overload_options \<Rightarrow> int \<Rightarrow> string list" where
  "client_arguments o' port =
     [''-address'', if v_target_address o' \<noteq> [] then v_target_address o' else v_server_address o' @ '':'' @ str_of_int port,
      ''-schedule'', v_schedule o', ''-connections'', str_of_int (v_connections o'), ''-shards'', str_of_int (v_shards o'),
      ''-queue'', str_of_int (v_queue o'), ''-max-lag'', v_max_lag o', ''-timeout'', v_timeout o',
      ''-source-ips'', str_of_int (v_source_ips o'), ''-method'', v_method o', ''-path'', v_path o',
      ''-content-type'', v_content_type o', ''-max-requests'', str_of_int (v_client_max_requests o')] @
     (if v_churn o' then [''-churn''] else []) @ (if v_allow_chunked o' then [''-allow-chunked''] else [])"

definition client_command :: "overload_options \<Rightarrow> int \<Rightarrow> (string \<times> string) list \<Rightarrow> string list" where
  "client_command o' port workload_files =
     (case v_client_netns_pid o' of
        None \<Rightarrow> []
      | Some pid \<Rightarrow> [''nsenter'', ''--target'', str_of_int pid, ''--net'']) @
     [''taskset'', ''-c'', v_client_cpus o', v_client_binary o'] @ client_arguments o' port @
     concat (map (\<lambda>(flag, path). [flag, path]) workload_files)"

section \<open>The supervised run\<close>

text \<open>
  Waiting for the two listeners: at each look, whether the server has exited, the parsed lines of its log
  so far and whether the deadline has passed.  \<open>None\<close>: still waiting after the observed looks.
\<close>

record look =
  u_exited :: bool
  u_log :: "val res list"
  u_late :: bool

definition log_line :: "val res \<Rightarrow> (string \<times> val) list \<Rightarrow> (string \<times> val) list res" where
  "log_line line ports =
     bindE line (\<lambda>entry. bindE (getE entry ''event'') (\<lambda>kind.
       (case kind of
          VStr k \<Rightarrow> if k \<in> {''listening'', ''admin_listening''}
                   then bindE (idx entry ''port'') (\<lambda>port. Inr (dict_set k port ports)) else Inr ports
        | _ \<Rightarrow> Inr ports)))"

fun await_ports :: "look list \<Rightarrow> (string \<times> val) list \<Rightarrow> (string \<times> val) list res option" where
  "await_ports looks ports =
     (if length ports \<ge> 2 then Some (Inr ports)
      else (case looks of
          [] \<Rightarrow> None
        | u # us \<Rightarrow>
            if u_exited u then Some (Inl (RuntimeError ''server exited''))
            else (case foldE log_line (u_log u) ports of
                Inl e \<Rightarrow> Some (Inl e)
              | Inr ports' \<Rightarrow> if u_late u then Some (Inl (TimeoutError ''startup'')) else await_ports us ports')))"

declare await_ports.simps [simp del]

text \<open>
  One turn of the sampling loop: whether the client has finished, the sample taken (a sampling failure of
  the server is an exception), the admin answer with its duration (an I/O, HTTP or status error is
  recorded in the sample, HTTP errors being \<open>OSError\<close> here) and whether the server has exited by the end
  of the turn.
\<close>

record turn =
  n_finished :: bool
  n_sample :: "(string \<times> val) list res"
  n_metrics :: "(val \<times> val \<times> val) res"
  n_server_gone :: bool

definition admin_caught :: "exn \<Rightarrow> string option" where
  "admin_caught e = (case e of OSError m \<Rightarrow> Some m | TimeoutError m \<Rightarrow> Some m | RuntimeError m \<Rightarrow> Some m | _ \<Rightarrow> None)"

definition turn_sample :: "turn \<Rightarrow> val res" where
  "turn_sample n =
     bindE (n_sample n) (\<lambda>sample.
       (case n_metrics n of
          Inr (duration, counters, gauges) \<Rightarrow>
            Inr (VDict (sample @ [(''admin_duration_ns'', duration), (''counters'', counters), (''gauges'', gauges)]))
        | Inl e \<Rightarrow> (case admin_caught e of
                      Some m \<Rightarrow> Inr (VDict (sample @ [(''admin_error'', VStr m)]))
                    | None \<Rightarrow> Inl e)))"

text \<open>The loop: the samples it appended, and \<open>None\<close> when the client runs on after the observed turns.\<close>

fun sampling_loop :: "turn list \<Rightarrow> val list \<times> unit res option" where
  "sampling_loop [] = ([], None)"
| "sampling_loop (n # ns) =
     (if n_finished n then ([], Some (Inr ()))
      else (case turn_sample n of
          Inl e \<Rightarrow> ([], Some (Inl e))
        | Inr s \<Rightarrow>
            if n_server_gone n then ([s], Some (Inl (RuntimeError ''server exited during load'')))
            else (case sampling_loop ns of (ss, r) \<Rightarrow> (s # ss, r))))"

definition attach_labels :: "string \<Rightarrow> val \<Rightarrow> val res" where
  "attach_labels labels client =
     (if labels = [] then Inr client
      else bindE (bindE (idx client ''phases'') elems) (\<lambda>phases.
        let names = split_on CHR '','' labels in
        seqE (ensure (length names = length phases) (ValueError ''phase label count does not match''))
       (bindE (mapE (\<lambda>(phase, name). bindE (items phase) (\<lambda>d. Inr (VDict (dict_set ''label'' (VStr name) d)))) (zip phases names)) (\<lambda>phases'.
        bindE (items client) (\<lambda>d. Inr (VDict (dict_set ''phases'' (VList phases') d)))))))"

text \<open>The phases of a remote client, moved to the local clock.\<close>

definition shift_field :: "int \<Rightarrow> string \<Rightarrow> val \<Rightarrow> val res" where
  "shift_field offset field phase =
     bindE (addE (idx phase field) (pI offset)) (\<lambda>v. bindE (items phase) (\<lambda>d. Inr (VDict (dict_set field v d))))"

definition shift_clock :: "int \<Rightarrow> val \<Rightarrow> val res" where
  "shift_clock offset client =
     bindE (collectE (idx client ''phases'') (\<lambda>phase.
       bindE (shift_field offset ''start_unix_ns'' phase) (shift_field offset ''end_unix_ns''))) (\<lambda>phases.
     bindE (items client) (\<lambda>d. Inr (VDict (dict_set ''phases'' (VList phases) d))))"

text \<open>The summary line printed for each phase needs these fields.\<close>

definition printed_fields :: "string list" where
  "printed_fields = [''offered_rate'', ''duration_seconds'', ''sent_per_second'', ''window_successes_per_second'',
     ''success_latency'', ''failures'']"

definition print_phases :: "val \<Rightarrow> unit res" where
  "print_phases client =
     bindE (collectE (idx client ''phases'') (\<lambda>phase. dictE (map (\<lambda>k. (k, idx phase k)) printed_fields))) (\<lambda>_. Inr ())"

text \<open>
  What happens outside: the outcome of the set-up (opening the files and starting the server), the looks
  at the server's log, the outcome of the first queries and of starting the client, the clock offset when
  the client is remote, the turns of the loop, the outcome of stopping and collecting a remote client, the
  client's exit status and report, the final queries and the exit status of the server once stopped.
\<close>

record run_env =
  r_setup :: "unit res"
  r_looks :: "look list"
  r_client_start :: "unit res"
  r_clock_offset :: "int option"
  r_turns :: "turn list"
  r_collected :: "unit res"
  r_client_exit :: int
  r_client_report :: "val res"
  r_metrics_after :: "val res"
  r_server_exit :: int

record run_report =
  f_status :: string
  f_error :: string
  f_samples :: "val list"
  f_client :: val
  f_server_exit :: "int option"

text \<open>
  After the loop: the client report that \<open>report["client"]\<close> holds from then on, if any, and how the rest
  of the \<open>try\<close> block ends.
\<close>

definition client_report :: "run_env \<Rightarrow> val res" where
  "client_report env =
     (case r_clock_offset env of
        None \<Rightarrow> seqE (ensure (r_client_exit env = 0) (RuntimeError ''client exited'')) (r_client_report env)
      | Some offset \<Rightarrow>
          seqE (r_collected env)
         (seqE (ensure (r_client_exit env = 0) (RuntimeError (''remote collector exited '' @ str_of_int (r_client_exit env))))
            (bindE (r_client_report env) (shift_clock offset))))"

definition after_load :: "string \<Rightarrow> run_env \<Rightarrow> val \<times> unit res" where
  "after_load labels env =
     (case client_report env of
        Inl e \<Rightarrow> (VNone, Inl e)
      | Inr client \<Rightarrow>
          (case attach_labels labels client of
             Inl e \<Rightarrow> (client, Inl e)
           | Inr client' \<Rightarrow> (client', seqE (bindE (r_metrics_after env) (\<lambda>_. Inr ())) (print_phases client'))))"

definition run_load :: "run_env \<Rightarrow> val list \<times> unit res option" where
  "run_load env =
     (case r_setup env of
        Inl e \<Rightarrow> ([], Some (Inl e))
      | Inr _ \<Rightarrow>
          (case await_ports (r_looks env) [] of
             None \<Rightarrow> ([], None)
           | Some (Inl e) \<Rightarrow> ([], Some (Inl e))
           | Some (Inr _) \<Rightarrow>
               (case r_client_start env of
                  Inl e \<Rightarrow> ([], Some (Inl e))
                | Inr _ \<Rightarrow> sampling_loop (r_turns env))))"

text \<open>The exit status of the server: \<open>None\<close> where the server was never started.\<close>

definition server_exit :: "run_env \<Rightarrow> int option" where
  "server_exit env = (case r_setup env of Inl _ \<Rightarrow> None | Inr _ \<Rightarrow> Some (r_server_exit env))"

text \<open>
  The whole run: \<open>None\<close> while it goes on, otherwise the report that \<open>finally\<close> writes and the exception
  \<open>main\<close> re-raises, if any.  On a failure the report keeps the samples taken and the client report if
  there is one (a remote report whose phases lack a clock field counts as absent).
\<close>

definition overload_main :: "string \<Rightarrow> run_env \<Rightarrow> (run_report \<times> unit res) option" where
  "overload_main labels env =
     (case run_load env of
        (samples, None) \<Rightarrow> None
      | (samples, Some r) \<Rightarrow>
          (case (case r of Inl e \<Rightarrow> (VNone, Inl e) | Inr _ \<Rightarrow> after_load labels env) of
             (client, Inl e) \<Rightarrow> Some (\<lparr>f_status = ''failed'', f_error = exn_repr e, f_samples = samples, f_client = client,
                                       f_server_exit = server_exit env\<rparr>, Inl e)
           | (client, Inr _) \<Rightarrow> Some (\<lparr>f_status = ''complete'', f_error = [], f_samples = samples, f_client = client,
                                       f_server_exit = server_exit env\<rparr>, Inr ())))"

section \<open>Guarantees\<close>

lemma checks_Cons [simp]: "checks (c # cs) = Inr u \<longleftrightarrow> c = Inr () \<and> checks cs = Inr ()"
  by (simp add: seqE_eq_Inr)

text \<open>
  An accepted local run never shares a CPU between the server and its client, has a server CPU for
  every worker, and is monitored from a CPU that belongs to neither; an accepted remote run has a client
  binary, a bounded timeout and no loopback source sharding.
\<close>

theorem check_options_isolates:
  assumes "check_options o' = Inr ()"
  shows "\<exists>s. overload_cpu_list (v_server_cpus o') = Inr s \<and> v_workers o' \<le> int (length s) \<and>
    (v_client_host o' = [] \<longrightarrow> (\<exists>c. overload_cpu_list (v_client_cpus o') = Inr c \<and> set s \<inter> set c = {} \<and>
       (\<forall>affinity m. finite affinity \<and> monitor_cpu o' affinity = Inr (Some m) \<longrightarrow> m \<in> affinity \<and> m \<notin> set s \<union> set c))) \<and>
    (v_client_host o' \<noteq> [] \<longrightarrow> v_client_netns_pid o' = None \<and> v_remote_client_binary o' \<noteq> [] \<and>
       0 < v_remote_timeout o' \<and> v_remote_timeout o' \<le> 86400 \<and> v_source_ips o' = 0)"
proof -
  obtain s where s: "overload_cpu_list (v_server_cpus o') = Inr s" "v_workers o' \<le> int (length s)"
    using assms by (auto simp: check_options_def Let_def py_ok)
  have "\<exists>c. overload_cpu_list (v_client_cpus o') = Inr c \<and> set s \<inter> set c = {} \<and>
       (\<forall>affinity m. finite affinity \<and> monitor_cpu o' affinity = Inr (Some m) \<longrightarrow> m \<in> affinity \<and> m \<notin> set s \<union> set c)"
    if local: "v_client_host o' = []"
  proof -
    obtain c where c: "overload_cpu_list (v_client_cpus o') = Inr c" "set s \<inter> set c = {}"
      using assms local s by (auto simp: check_options_def Let_def py_ok)
    have "m \<in> affinity - set s - set c" if "finite affinity" "monitor_cpu o' affinity = Inr (Some m)" for affinity m
    proof -
      have "affinity - set s - set c \<noteq> {}" "m = Min (affinity - set s - set c)"
        using that(2) s c local by (auto simp: monitor_cpu_def Let_def split: if_splits)
      then show ?thesis using Min_in [of "affinity - set s - set c"] that(1) by simp
    qed
    then show ?thesis using c by blast
  qed
  moreover have "v_client_host o' \<noteq> [] \<longrightarrow> v_client_netns_pid o' = None \<and> v_remote_client_binary o' \<noteq> [] \<and>
       0 < v_remote_timeout o' \<and> v_remote_timeout o' \<le> 86400 \<and> v_source_ips o' = 0"
    using assms by (auto simp: check_options_def Let_def py_ok)
  ultimately show ?thesis using s by blast
qed

definition sample_options :: overload_options where
  "sample_options = \<lparr>v_server_address = ''127.0.0.1'', v_server_port = 0, v_target_address = [], v_client_host = [],
     v_remote_client_binary = [], v_remote_timeout = 3600, v_schedule = ''100:60s'', v_labels = ''baseline'', v_server_cpus = ''0'',
     v_client_cpus = ''1-3'', v_client_netns_pid = None, v_workers = 1, v_max_connections = 512, v_connections = 512, v_shards = 8,
     v_queue = 128, v_max_lag = ''10ms'', v_rate_limit = 0, v_burst = None, v_max_active = None, v_rejection_rate = 1000,
     v_churn = False, v_access_log = False, v_source_ips = 0, v_method = ''GET'', v_path = ''/'', v_content_type = ''application/octet-stream'',
     v_allow_chunked = False, v_client_max_requests = 0, v_server_max_requests = 4294967295, v_timeout = ''1s'',
     v_server_binary = ''zhtps'', v_client_binary = ''load''\<rparr>"

lemma sample_options_ok: "check_options sample_options = Inr ()"
  by code_simp

theorem check_options_isolates_witness:
  "\<exists>s c. overload_cpu_list (v_server_cpus sample_options) = Inr s \<and> overload_cpu_list (v_client_cpus sample_options) = Inr c \<and>
     set s \<inter> set c = {}"
proof -
  have "v_client_host sample_options = []" by (simp add: sample_options_def)
  then show ?thesis using check_options_isolates [OF sample_options_ok] by blast
qed

lemma sampling_loop_finished:
  assumes "sampling_loop ns = (ss, Some (Inr ()))"
  shows "\<exists>k < length ns. n_finished (ns ! k) \<and> length ss = k \<and>
    (\<forall>i < k. \<not> n_finished (ns ! i) \<and> \<not> n_server_gone (ns ! i) \<and> turn_sample (ns ! i) = Inr (ss ! i))"
  using assms
proof (induction ns arbitrary: ss)
  case (Cons n ns)
  show ?case
  proof (cases "n_finished n")
    case True
    then show ?thesis using Cons.prems by (intro exI [of _ 0]) auto
  next
    case False
    then obtain s ss' where s: "turn_sample n = Inr s" "\<not> n_server_gone n" "sampling_loop ns = (ss', Some (Inr ()))" "ss = s # ss'"
      using Cons.prems by (auto split: sum.splits if_splits prod.splits)
    obtain k where k: "k < length ns" "n_finished (ns ! k)" "length ss' = k"
      "\<forall>i < k. \<not> n_finished (ns ! i) \<and> \<not> n_server_gone (ns ! i) \<and> turn_sample (ns ! i) = Inr (ss' ! i)"
      using Cons.IH [OF s(3)] by blast
    show ?thesis
      using k s False by (intro exI [of _ "Suc k"]) (auto simp: nth_Cons split: nat.split)
  qed
qed simp

lemma attach_labels_ok:
  assumes "attach_labels labels client = Inr client'" and "labels \<noteq> []"
  shows "\<exists>phases'. path client' [''phases''] = Inr (VList phases') \<and>
    map (\<lambda>p. idx p ''label'') phases' = map (\<lambda>l. Inr (VStr l)) (split_on CHR '','' labels)"
proof -
  obtain phases phases' d where len: "length (split_on CHR '','' labels) = length phases"
    and ps: "mapE (\<lambda>(phase, name). bindE (items phase) (\<lambda>d. Inr (VDict (dict_set ''label'' (VStr name) d))))
        (zip phases (split_on CHR '','' labels)) = Inr phases'"
    and c: "client' = VDict (dict_set ''phases'' (VList phases') d)"
    using assms by (auto simp: attach_labels_def Let_def py_ok)
  have "map (\<lambda>p. idx p ''label'') phases' = map (\<lambda>l. Inr (VStr l)) names"
    if "mapE (\<lambda>(phase, name). bindE (items phase) (\<lambda>d. Inr (VDict (dict_set ''label'' (VStr name) d)))) (zip xs names) = Inr phases'"
      "length names = length xs" for xs names
    using that(2,1)
    by (induction names xs arbitrary: phases' rule: list_induct2) (auto simp: bindE_eq_Inr map_of_dict_set)
  then show ?thesis using ps len c by (simp add: map_of_dict_set)
qed

text \<open>
  C32: a report is marked complete exactly when \<open>main\<close> ends without an exception.  A complete report means
  that the client exited with status 0, that one sample was taken for each turn until the client finished,
  with the server alive at the end of each, and that every phase carries its label.  Every report records the
  server's exit status, and none exactly when the server was never started; a complete report has one.
\<close>

theorem overload_main_complete:
  assumes "overload_main labels env = Some (report, r)"
  shows "f_server_exit report = (if returns (r_setup env) then Some (r_server_exit env) else None) \<and> (f_status report = ''complete'' \<longleftrightarrow> r = Inr ()) \<and>
    (f_status report = ''complete'' \<or> f_status report = ''failed'' \<and> f_error report \<noteq> []) \<and>
    (f_status report = ''complete'' \<longrightarrow> r_client_exit env = 0 \<and> f_server_exit report = Some (r_server_exit env) \<and>
       (\<exists>k < length (r_turns env). n_finished (r_turns env ! k) \<and> length (f_samples report) = k \<and>
          (\<forall>i < k. \<not> n_server_gone (r_turns env ! i) \<and> turn_sample (r_turns env ! i) = Inr (f_samples report ! i))) \<and>
       (labels \<noteq> [] \<longrightarrow> (\<exists>phases. path (f_client report) [''phases''] = Inr (VList phases) \<and>
          map (\<lambda>p. idx p ''label'') phases = map (\<lambda>l. Inr (VStr l)) (split_on CHR '','' labels))))"
proof -
  obtain samples o' where loop: "run_load env = (samples, Some o')"
    using assms by (fastforce simp: overload_main_def split: prod.splits option.splits)
  obtain client r' where rest: "(case o' of Inl e \<Rightarrow> (VNone, Inl e) | Inr _ \<Rightarrow> after_load labels env) = (client, r')" by fastforce
  have exit: "server_exit env = (if returns (r_setup env) then Some (r_server_exit env) else None)"
    by (cases "r_setup env") (simp_all add: server_exit_def)
  show ?thesis
  proof (cases r')
    case (Inl e)
    then have "report = \<lparr>f_status = ''failed'', f_error = exn_repr e, f_samples = samples, f_client = client,
        f_server_exit = server_exit env\<rparr>" "r = Inl e"
      using assms loop rest by (auto simp: overload_main_def)
    then show ?thesis using exn_repr_nonempty [of e] exit by simp
  next
    case (Inr u)
    then have report: "report = \<lparr>f_status = ''complete'', f_error = [], f_samples = samples, f_client = client,
        f_server_exit = server_exit env\<rparr>" "r = Inr ()"
      using assms loop rest by (auto simp: overload_main_def)
    have o': "o' = Inr ()" "after_load labels env = (client, Inr ())" using rest Inr by (cases o'; simp)+
    have "sampling_loop (r_turns env) = (samples, Some (Inr ()))"
      using loop o' by (auto simp: run_load_def split: sum.splits option.splits)
    note turns = sampling_loop_finished [OF this]
    obtain client0 where "r_client_exit env = 0" and labels: "attach_labels labels client0 = Inr client"
      using o'(2) by (auto simp: after_load_def client_report_def py_ok split: option.splits sum.splits)
    moreover have "returns (r_setup env)" using loop o'(1) by (cases "r_setup env") (simp_all add: run_load_def)
    ultimately show ?thesis using report turns attach_labels_ok [OF labels] exit by auto
  qed
qed

definition sample_run_phase :: val where
  "sample_run_phase = VDict (map (\<lambda>k. (k, VInt 1)) printed_fields)"

definition sample_run_env :: run_env where
  "sample_run_env = \<lparr>r_setup = Inr (),
     r_looks = [\<lparr>u_exited = False, u_log = [Inr (VDict [(''event'', VStr ''listening''), (''port'', VInt 80)]),
        Inr (VDict [(''event'', VStr ''admin_listening''), (''port'', VInt 81)])], u_late = False\<rparr>],
     r_client_start = Inr (), r_clock_offset = None,
     r_turns = [\<lparr>n_finished = False, n_sample = Inr [(''unix_ns'', VInt 1)], n_metrics = Inl (TimeoutError ''timed out''), n_server_gone = False\<rparr>,
                \<lparr>n_finished = True, n_sample = Inr [], n_metrics = Inl TypeError, n_server_gone = False\<rparr>],
     r_collected = Inr (), r_client_exit = 0, r_client_report = Inr (VDict [(''phases'', VList [sample_run_phase])]), r_metrics_after = Inr VNone, r_server_exit = 0\<rparr>"

theorem overload_main_complete_witness:
  "\<exists>report. overload_main ''baseline'' sample_run_env = Some (report, Inr ()) \<and> r_client_exit sample_run_env = 0 \<and>
     (\<exists>phases. path (f_client report) [''phases''] = Inr (VList phases) \<and> map (\<lambda>p. idx p ''label'') phases = [Inr (VStr ''baseline'')])"
proof -
  have run: "overload_main ''baseline'' sample_run_env =
      Some (\<lparr>f_status = ''complete'', f_error = [], f_samples = [VDict [(''unix_ns'', VInt 1), (''admin_error'', VStr ''timed out'')]],
        f_client = VDict [(''phases'', VList [VDict (map (\<lambda>k. (k, VInt 1)) printed_fields @ [(''label'', VStr ''baseline'')])])],
        f_server_exit = Some 0\<rparr>, Inr ())"
    by code_simp
  have one: "split_on CHR '','' ''baseline'' = [''baseline'']" by code_simp
  show ?thesis using overload_main_complete [OF run] run one by auto
qed

section \<open>Parsing\<close>

lemma rsplit1_last:
  assumes "d \<notin> set rest"
  shows "rsplit1 d (a @ d # rest) = [a, rest]"
proof -
  have "takeWhile (\<lambda>c. c \<noteq> d) (rev rest @ d # rev a) = rev rest"
    "dropWhile (\<lambda>c. c \<noteq> d) (rev rest @ d # rev a) = d # rev a"
    using assms by (simp, induction rest rule: rev_induct) auto
  then show ?thesis by (simp add: rsplit1_def)
qed

text \<open>
  A process sample does not depend on the name of the process: the name in \<open>/proc/PID/stat\<close> may hold
  spaces and parentheses, and everything up to the last closing parenthesis is skipped.
\<close>

theorem proc_sample_ignores_name:
  assumes "CHR '')'' \<notin> set rest"
  shows "proc_sample (fs\<lparr>t_read := (t_read fs)(proc_path pid ''stat'' \<mapsto> name @ '')'' @ rest)\<rparr>) hz pid =
    proc_sample (fs\<lparr>t_read := (t_read fs)(proc_path pid ''stat'' \<mapsto> name' @ '')'' @ rest)\<rparr>) hz pid"
proof -
  have stat: "stat_fields (n @ '')'' @ rest) = Inr (split_ws rest)" for n
    using rsplit1_last [OF assms, of n] by (simp add: stat_fields_def str_nth_def)
  have "proc_path pid ''status'' \<noteq> proc_path pid ''stat''" by (simp add: proc_path_def)
  then show ?thesis by (simp add: proc_sample_def read_text_def fd_count_def stat del: append.simps)
qed

theorem proc_sample_ignores_name_witness:
  "proc_sample (sample_tree\<lparr>t_read := (t_read sample_tree)(proc_path 7 ''stat'' \<mapsto> ''7 (a) b'' @ '')'' @ '' S 1'')\<rparr>) 100 7 =
   proc_sample (sample_tree\<lparr>t_read := (t_read sample_tree)(proc_path 7 ''stat'' \<mapsto> ''7 (server'' @ '')'' @ '' S 1'')\<rparr>) 100 7"
  by (rule proc_sample_ignores_name) simp

lemma cpu_part_overload:
  assumes "cpu_part txt part cpus = Inr s" and "overload_part part = Inr xs"
  shows "s = cpus \<union> set xs"
proof -
  have ne: "part \<noteq> []" using assms(2) by (auto simp: overload_part_def py_int_def int_of_str_def nat_of_str_def strip_def py_ok)
  show ?thesis
  proof (cases "split_on CHR ''-'' part")
    case (Cons a r)
    show ?thesis
    proof (cases r)
      case Nil
      then show ?thesis using assms ne Cons by (auto simp: cpu_part_def overload_part_def Let_def bindE_eq_Inr)
    next
      case (Cons b r')
      then show ?thesis using assms ne \<open>split_on CHR ''-'' part = a # r\<close>
        by (cases r') (auto simp: cpu_part_def overload_part_def Let_def bindE_eq_Inr split: if_splits)
    qed
  qed simp
qed

lemma cpu_parts_overload:
  assumes "foldE (cpu_part txt) parts cpus = Inr s" and "mapE overload_part parts = Inr xss"
  shows "s = cpus \<union> set (concat xss)"
  using assms
proof (induction parts arbitrary: cpus xss)
  case (Cons part parts)
  then obtain s1 xs yss where s1: "cpu_part txt part cpus = Inr s1" "overload_part part = Inr xs"
    and rest: "foldE (cpu_part txt) parts s1 = Inr s" "mapE overload_part parts = Inr yss" and xss: "xss = xs # yss"
    by (auto simp: bindE_eq_Inr)
  then show ?case using Cons.IH [OF rest] cpu_part_overload [OF s1] by auto
qed simp

text \<open>
  The two readings of a CPU list agree: a list without surrounding blanks that both the deployment
  tool and the benchmark accept denotes the same CPUs in both.
\<close>

theorem cpu_lists_agree:
  assumes "cpu_list txt = Inr s" and "overload_cpu_list txt = Inr xs" and "strip txt = txt"
  shows "set xs = s"
proof -
  obtain xss where "mapE overload_part (split_on CHR '','' txt) = Inr xss" "xs = concat xss"
    using assms(2) by (auto simp: overload_cpu_list_def bindE_eq_Inr)
  then show ?thesis using cpu_parts_overload [OF assms(1) [unfolded cpu_list_def assms(3)]] by simp
qed

theorem cpu_lists_agree_witness: "set [0, 1, 2, 3, 7] = ({0, 1, 2, 3, 7} :: int set)"
proof -
  have a: "cpu_list ''0-3,7'' = Inr {0, 1, 2, 3, 7}" by code_simp
  have b: "overload_cpu_list ''0-3,7'' = Inr [0, 1, 2, 3, 7]" by code_simp
  have c: "strip ''0-3,7'' = ''0-3,7''" by code_simp
  show ?thesis by (rule cpu_lists_agree [OF a b c])
qed

end
