(* ===== verification/Compare.thy ===== *)
theory Compare
  imports Overload_Run "HOL-Library.Multiset"
begin

text \<open>
  \<open>bench/compare.py\<close>: the closed-loop comparison of the Zig variants with a Go server.  Modelled are the
  choice of physical cores, the wait for a ready server, the server and load commands, one run with a
  local or a remote load generator (\<open>run_one\<close>), the order of the runs, the summary and the checks of the options.
  What the started processes do is the record \<open>run_world\<close>.
\<close>

section \<open>Cores\<close>

definition core_key :: "tree \<Rightarrow> int \<Rightarrow> (string \<times> string) res" where
  "core_key fs cpu =
     (let topology = ''/sys/devices/system/cpu/cpu'' @ str_of_int cpu @ ''/topology'' in
      bindE (read_text fs (slash topology ''physical_package_id'')) (\<lambda>p.
      bindE (read_text fs (slash topology ''core_id'')) (\<lambda>c. Inr (strip p, strip c))))"

definition add_core :: "tree \<Rightarrow> int \<Rightarrow> ((string \<times> string) \<times> int) list \<Rightarrow> ((string \<times> string) \<times> int) list res" where
  "add_core fs cpu cores =
     bindE (core_key fs cpu) (\<lambda>key. Inr (if map_of cores key = None then cores @ [(key, cpu)] else cores))"

definition available_cores :: "tree \<Rightarrow> int set \<Rightarrow> int list res" where
  "available_cores fs affinity =
     bindE (foldE (add_core fs) (sorted_list_of_set affinity) []) (\<lambda>cores. Inr (map snd cores))"

definition cpu_seconds :: "tree \<Rightarrow> int \<Rightarrow> string \<Rightarrow> val res" where
  "cpu_seconds fs hz pid =
     bindE (bindE (read_text fs (''/proc/'' @ pid @ ''/stat'')) stat_fields) (\<lambda>fields.
     bindE (int_nth fields 11) (\<lambda>u. bindE (int_nth fields 12) (\<lambda>s. seconds_of hz (u + s))))"

section \<open>Waiting for a server\<close>

datatype attempt = Exited_with int | Refused | Answered int string "(string \<times> val) list"

text \<open>The attempts made before the deadline; after them the deadline has passed.\<close>

fun wait_ready :: "attempt list \<Rightarrow> val res" where
  "wait_ready [] = Inl (TimeoutError ''server did not become ready'')"
| "wait_ready (Exited_with code # _) =
     Inl (RuntimeError (''server exited with '' @ str_of_int code @ ''; io_uring must be permitted''))"
| "wait_ready (Refused # later) = wait_ready later"
| "wait_ready (Answered status body headers # _) =
     (if status \<noteq> 200 \<or> body \<noteq> ''ZHTPS'' @ [newline]
      then Inl (AssertionError ''server response does not match workload'')
      else Inr (VDict headers))"

definition admin_json :: "string \<Rightarrow> (int \<times> val res) res \<Rightarrow> val res" where
  "admin_json url response =
     bindE response (\<lambda>(status, body).
       if status \<noteq> 200 then Inl (RuntimeError (''admin '' @ url @ '': HTTP '' @ str_of_int status)) else body)"

section \<open>Commands\<close>

record cmp_options =
  m_duration :: rat
  m_warmup :: rat
  m_repeats :: int
  m_connections :: "int list"
  m_go_unrestricted :: bool
  m_client_cores :: int
  m_server_address :: string
  m_client_host :: string
  m_ssh_config :: string
  m_remote_client_binary :: string
  m_variants :: "string list"
  m_allow_errors :: bool
  m_zig_workers :: int
  m_zig_access_log :: bool
  m_zig_max_connections :: "int option"
  m_zig_max_active :: "int option"
  m_tls_certificate :: string
  m_tls_key :: string

definition zig_capacity :: "cmp_options \<Rightarrow> int \<Rightarrow> int" where
  "zig_capacity o' connections =
     (case m_zig_max_connections o' of
        Some n \<Rightarrow> n
      | None \<Rightarrow> if m_allow_errors o' then min (max connections 256) 8168 else max connections 256)"

definition zig_active :: "cmp_options \<Rightarrow> int \<Rightarrow> int" where
  "zig_active o' connections =
     (case m_zig_max_active o' of
        Some n \<Rightarrow> if n \<noteq> 0 then n else zig_capacity o' connections
      | None \<Rightarrow> zig_capacity o' connections)"

definition go_unrestricted :: "cmp_options \<Rightarrow> string \<Rightarrow> bool" where
  "go_unrestricted o' variant \<longleftrightarrow> variant = ''go'' \<and> m_go_unrestricted o'"

definition server_args :: "cmp_options \<Rightarrow> string \<Rightarrow> string \<Rightarrow> int \<Rightarrow> int \<Rightarrow> int \<Rightarrow> int \<Rightarrow> string list" where
  "server_args o' variant binary server_cpu port admin_port connections =
     (if go_unrestricted o' variant \<or> variant \<noteq> ''go'' \<and> m_zig_workers o' > 1 then [binary]
      else [''taskset'', ''-c'', str_of_int server_cpu, binary]) @
     (if variant = ''go'' then [''-listen'', m_server_address o' @ '':'' @ str_of_int port]
      else [''--port'', str_of_int port, ''--admin-port'', str_of_int admin_port, ''--max-requests'', ''4294967295'',
            ''--address'', m_server_address o'] @
           (if m_zig_workers o' > 1 then [''--workers'', str_of_int (m_zig_workers o')] else []) @
           (if m_zig_access_log o' then [] else [''--no-access-log'']) @
           [''--max-connections'', str_of_int (zig_capacity o' connections), ''--max-active'', str_of_int (zig_active o' connections)])"

definition tls_args :: "cmp_options \<Rightarrow> string \<Rightarrow> string list" where
  "tls_args o' variant =
     (if m_tls_certificate o' = [] then []
      else (let prefix = (if variant = ''go'' then ''-'' else ''--'') in
        [prefix @ ''tls-certificate'', m_tls_certificate o', prefix @ ''tls-key'', m_tls_key o']))"

text \<open>\<open>fr\<close> prints a float as \<open>float.__repr__\<close> does.\<close>

definition load_arguments :: "(rat \<Rightarrow> string) \<Rightarrow> cmp_options \<Rightarrow> int \<Rightarrow> int \<Rightarrow> string list" where
  "load_arguments fr o' port connections =
     [''-address'', m_server_address o' @ '':'' @ str_of_int port, ''-connections'', str_of_int connections,
      ''-duration'', fr (m_duration o') @ ''s'', ''-warmup'', fr (m_warmup o') @ ''s''] @
     (if m_tls_certificate o' \<noteq> [] then [''-tls''] else []) @ (if m_allow_errors o' then [''-allow-errors''] else [])"

definition load_command :: "string \<Rightarrow> int list \<Rightarrow> string list \<Rightarrow> string list" where
  "load_command load_binary client_cpus arguments =
     [''taskset'', ''-c'', join '','' (map str_of_int client_cpus), load_binary] @ arguments"

section \<open>One run\<close>

definition check_outcomes :: "bool \<Rightarrow> int \<Rightarrow> val \<Rightarrow> unit res" where
  "check_outcomes allow_errors connections result =
     checks
      [bindE (neE (idx result ''attempts'') (addE (idx result ''successes'') (idx result ''errors'')))
         (\<lambda>b. ensure (\<not> b) (AssertionError ''load outcomes do not account for every attempt'')),
       if allow_errors then Inr ()
       else bindE (orE (neE (idx result ''connections_ready'') (pI connections))
                       (neE (idx result ''connections_measured'') (pI connections)))
              (\<lambda>b. ensure (\<not> b) (AssertionError ''not every requested connection participated'')),
       if allow_errors then Inr ()
       else bindE (neE (idx result ''connections_opened'') (pI connections))
              (\<lambda>b. ensure (\<not> b) (AssertionError ''connection turnover invalidates a persistent-connection trial''))]"

text \<open>
  The \<open>finally\<close> block: a live server is asked to terminate (it has exited by itself when \<open>alive\<close> is
  false), and an unclean end replaces whatever the run returned or raised.
\<close>

definition finish_server :: "bool \<Rightarrow> int \<Rightarrow> 'a res \<Rightarrow> 'a res" where
  "finish_server exits_in_time returncode r =
     (if \<not> exits_in_time then Inl (RuntimeError ''server did not stop within eight seconds'')
      else if returncode \<notin> {0, -15} then Inl (RuntimeError (''server exited with '' @ str_of_int returncode))
      else r)"

text \<open>
  What the machines answer.  For a remote generator: the contents of \<open>remote_load.py\<close>, the identity that the
  greeting over a transport brings, this machine's boot identifier, the started event for a run message,
  the digest of this build's load program, the turns of the waiting loop (what \<open>completed()\<close> answers,
  whether the deadline has passed, whether the server has exited), and the client's report.
\<close>

record run_world =
  w_port :: int
  w_admin_port :: int
  w_probe :: "int \<times> string"
  w_popen :: "unit res"
  w_go_runtime :: "val res"
  w_attempts :: "attempt list"
  w_agent_source :: string
  w_connect :: "string list option \<Rightarrow> val res"
  w_boot_id :: "val res"
  w_affinity :: "int list"
  w_workers_before :: "val res"
  w_workers_after :: "val res"
  w_worker_seconds :: "val res"
  w_cpu_start :: "val res"
  w_cpu_end :: "val res"
  w_network_before :: "val res"
  w_network_after :: "val res"
  w_elapsed :: rat
  w_load_exit :: "int res"
  w_load_output :: "val res"
  w_started :: "val \<Rightarrow> val res"
  w_load_sha256 :: "string res"
  w_remote_turns :: "(bool res \<times> bool \<times> bool) list"
  w_remote_client :: "val res"
  w_remote_samples :: "val list"
  w_clock :: "int \<times> int"
  w_metrics_after :: "val res"
  w_stops :: bool
  w_returncode :: int

definition unsupported_run :: "string \<Rightarrow> int \<Rightarrow> int \<Rightarrow> string list \<Rightarrow> int \<times> string \<Rightarrow> val" where
  "unsupported_run variant repeat connections args probe = VDict
     [(''variant'', VStr variant), (''repeat'', VInt repeat), (''connections'', VInt connections),
      (''outcome'', VStr ''unsupported''), (''reason'', VStr ''InvalidLimit''),
      (''server_command'', VList (map VStr args)), (''server_returncode'', VInt (fst probe)),
      (''server_stderr'', VStr (snd probe)), (''public_connection_limit'', VInt 8168)]"

definition invalid_limit_text :: string where
  "invalid_limit_text = [CHR 0x22] @ ''reason'' @ [CHR 0x22] @ '':'' @ [CHR 0x22] @ ''InvalidLimit'' @ [CHR 0x22]"

definition none_unless :: "bool \<Rightarrow> val \<Rightarrow> val" where
  "none_unless b v = (if b then v else VNone)"

definition cmp_transport :: "cmp_options \<Rightarrow> string \<Rightarrow> string list option" where
  "cmp_transport o' source =
     (if m_ssh_config o' = [] then None
      else Some [''ssh'', ''-F'', m_ssh_config o', ''-T'', ''-o'', ''BatchMode=yes'', ''-o'', ''StrictHostKeyChecking=yes'',
        ''-o'', ''ConnectTimeout=10'', ''-o'', ''ServerAliveInterval=5'', ''-o'', ''ServerAliveCountMax=3'', m_client_host o',
        shlex_join [''python3'', ''-u'', ''-c'', source]])"

text \<open>The identity of the load host, which must not run on this kernel; \<open>None\<close> for a local generator.\<close>

definition remote_connect :: "cmp_options \<Rightarrow> run_world \<Rightarrow> val option res" where
  "remote_connect o' w =
     (if m_client_host o' = [] then Inr None
      else
       bindE (w_connect w (cmp_transport o' (w_agent_source w))) (\<lambda>identity.
       bindE (eqE (idx identity ''boot_id'') (w_boot_id w)) (\<lambda>same.
       if same then Inl (ValueError ''load generator shares the server kernel'') else Inr (Some identity))))"

fun remote_wait :: "(bool res \<times> bool \<times> bool) list \<Rightarrow> unit res" where
  "remote_wait [] = Inl (TimeoutError ''remote load did not finish'')"
| "remote_wait ((answer, late, exited) # turns) =
     bindE answer (\<lambda>done'.
       if done' then Inr ()
       else if late then Inl (TimeoutError ''remote load did not finish'')
       else if exited then Inl (RuntimeError ''server exited during remote load'')
       else remote_wait turns)"

definition load_timeout :: "cmp_options \<Rightarrow> rat" where
  "load_timeout o' = fl (fl (m_duration o' + m_warmup o') + 90)"

text \<open>The load: the generator's report, the command that made it, and the started event of a remote one.\<close>

definition remote_load :: "cmp_options \<Rightarrow> string list \<Rightarrow> int list \<Rightarrow> int \<Rightarrow> run_world \<Rightarrow> (val \<times> val \<times> val) res" where
  "remote_load o' arguments client_cpus connections w =
     bindE (w_started w (run_message (m_remote_client_binary o') arguments client_cpus connections (VFloat (load_timeout o')) [] (VInt 15))) (\<lambda>started.
     bindE (neE (idx started ''binary_sha256'') (bindE (w_load_sha256 w) pS)) (\<lambda>differ.
     if differ then Inl (ValueError ''remote load binary does not match this build'')
     else
      seqE (remote_wait (w_remote_turns w))
     (bindE (w_remote_client w) (\<lambda>result. bindE (idx started ''command'') (\<lambda>command. Inr (result, command, started))))))"

definition local_load :: "string \<Rightarrow> string list \<Rightarrow> int list \<Rightarrow> run_world \<Rightarrow> (val \<times> val \<times> val) res" where
  "local_load load_binary arguments client_cpus w =
     bindE (w_load_exit w) (\<lambda>code.
     seqE (ensure (code = 0) (RuntimeError ''load failed''))
    (bindE (w_load_output w) (\<lambda>result. Inr (result, VList (map VStr (load_command load_binary client_cpus arguments)), VNone))))"

text \<open>What a remote run adds to the report.\<close>

definition remote_client :: "val \<Rightarrow> val \<Rightarrow> run_world \<Rightarrow> val res" where
  "remote_client started identity w =
     bindE (items started) (\<lambda>kvs.
     bindE (fieldsE
       [(''identity'', Inr identity), (''separate_kernel'', Inr (VBool True)), (''samples'', Inr (VList (w_remote_samples w))),
        (''clock_offset_ns'', pI (fst (w_clock w))), (''clock_uncertainty_ns'', pI (snd (w_clock w)))] kvs) (\<lambda>kvs. Inr (VDict kvs)))"

definition remote_fields :: "val \<Rightarrow> val \<Rightarrow> val \<Rightarrow> run_world \<Rightarrow> val \<Rightarrow> val res" where
  "remote_fields started identity network_before w result =
     bindE (items result) (\<lambda>row.
     bindE (fieldsE
       [(''remote_client'', remote_client started identity w), (''server_network_before'', Inr network_before),
        (''server_network_after'', w_network_after w)] row) (\<lambda>row. Inr (VDict row)))"

definition final_fields ::
  "(rat \<Rightarrow> string) \<Rightarrow> cmp_options \<Rightarrow> string \<Rightarrow> string list \<Rightarrow> int \<Rightarrow> int \<Rightarrow> run_world \<Rightarrow> val \<Rightarrow> val \<Rightarrow> val \<Rightarrow> val \<times> val \<times> val \<times> val \<Rightarrow> val \<Rightarrow>
     (string \<times> val res) list" where
  "final_fields fr o' variant args connections repeat w headers go_runtime load_args reports cpu =
     (let zig = variant \<noteq> ''go'' in case reports of (workers_before, workers_after, worker_seconds, metrics_after) \<Rightarrow>
       [(''variant'', pS variant), (''repeat'', pI repeat), (''server_command'', Inr (VList (map VStr args))),
        (''client_command'', Inr load_args), (''response_headers'', Inr headers), (''outcome'', pS ''measured''),
        (''server_cpus'', Inr (VList (map VInt (w_affinity w)))), (''go_runtime'', Inr go_runtime),
        (''zig_workers'', Inr (none_unless zig (VInt (m_zig_workers o')))),
        (''workers_before'', Inr workers_before), (''workers_after'', Inr workers_after),
        (''worker_cpu_seconds_including_warmup'', Inr worker_seconds), (''metrics_after'', Inr metrics_after),
        (''zig_connection_capacity'', Inr (none_unless zig (VInt (zig_capacity o' connections)))),
        (''zig_max_active'', Inr (none_unless zig (VInt (zig_active o' connections)))),
        (''server_cpu_percent_including_warmup'', divE (mulE (pI 100) (Inr cpu)) (Inr (VFloat (w_elapsed w))))])"

definition measured_run ::
  "(rat \<Rightarrow> string) \<Rightarrow> cmp_options \<Rightarrow> string \<Rightarrow> string list \<Rightarrow> string \<Rightarrow> int list \<Rightarrow> int \<Rightarrow> int \<Rightarrow> run_world \<Rightarrow> val res" where
  "measured_run fr o' variant args load_binary client_cpus connections repeat w =
     (let zig = variant \<noteq> ''go''; workers = m_zig_workers o' > 1 \<and> zig; arguments = load_arguments fr o' (w_port w) connections in
      bindE (if zig then Inr VNone else w_go_runtime w) (\<lambda>go_runtime.
      bindE (wait_ready (w_attempts w)) (\<lambda>headers.
      bindE (remote_connect o' w) (\<lambda>remote.
      bindE (if workers then w_workers_before w else Inr VNone) (\<lambda>workers_before.
      bindE (w_cpu_start w) (\<lambda>cpu_start.
      bindE (if remote = None then Inr VNone else w_network_before w) (\<lambda>network_before.
      bindE (if remote = None then local_load load_binary arguments client_cpus w
             else remote_load o' arguments client_cpus connections w) (\<lambda>(result, load_args, started).
      bindE (subE (w_cpu_end w) (Inr cpu_start)) (\<lambda>cpu.
      bindE (case remote of None \<Rightarrow> Inr result | Some identity \<Rightarrow> remote_fields started identity network_before w result) (\<lambda>result.
      seqE (check_outcomes (m_allow_errors o') connections result)
     (bindE (if workers then w_workers_after w else Inr VNone) (\<lambda>workers_after.
      bindE (if truthy workers_before then w_worker_seconds w else Inr (VDict [])) (\<lambda>worker_seconds.
      bindE (if zig then w_metrics_after w else Inr VNone) (\<lambda>metrics_after.
      bindE (items result) (\<lambda>row.
      bindE (fieldsE (final_fields fr o' variant args connections repeat w headers go_runtime load_args
          (workers_before, workers_after, worker_seconds, metrics_after) cpu) row) (\<lambda>row.
      Inr (VDict row)))))))))))))))))"

definition run_one ::
  "(rat \<Rightarrow> string) \<Rightarrow> cmp_options \<Rightarrow> string \<Rightarrow> string \<Rightarrow> string \<Rightarrow> int \<Rightarrow> int list \<Rightarrow> int \<Rightarrow> int \<Rightarrow> run_world \<Rightarrow> val res" where
  "run_one fr o' variant binary load_binary server_cpu client_cpus connections repeat w =
     (let args = server_args o' variant binary server_cpu (w_port w) (w_admin_port w) connections in
      if variant \<noteq> ''go'' \<and> zig_capacity o' connections + 8 > 8176
      then (if fst (w_probe w) \<noteq> 2 \<or> \<not> is_infix invalid_limit_text (snd (w_probe w))
            then Inl (RuntimeError (''unexpected capacity probe: '' @ str_of_int (fst (w_probe w)) @ '' '' @ snd (w_probe w)))
            else Inr (unsupported_run variant repeat connections args (w_probe w)))
      else seqE (w_popen w) (finish_server (w_stops w) (w_returncode w)
             (measured_run fr o' variant (args @ tls_args o' variant) load_binary client_cpus connections repeat w)))"

section \<open>The summary\<close>

definition group_runs :: "val list \<Rightarrow> string \<Rightarrow> int \<Rightarrow> val list res" where
  "group_runs runs variant connections =
     filterE (\<lambda>run. andE (eqE (idx run ''variant'') (pS variant)) (eqE (idx run ''connections'') (pI connections))) runs"

definition field_median :: "string \<Rightarrow> val list \<Rightarrow> val res" where
  "field_median field runs = medianE (mapE (\<lambda>run. idx run field) runs)"

definition group_row :: "val list \<Rightarrow> string \<Rightarrow> int \<Rightarrow> val res" where
  "group_row runs variant connections =
     bindE (mapE (\<lambda>run. idx run ''requests_per_second'') runs) (\<lambda>rates.
     dictE
      [(''variant'', pS variant), (''connections'', pI connections), (''outcome'', pS ''measured''),
       (''requests_per_second_median'', median rates), (''requests_per_second_min'', py_min rates),
       (''requests_per_second_max'', py_max rates),
       (''window_successes_per_second_median'', field_median ''window_successes_per_second'' runs),
       (''window_successes_per_second_min'', minE (mapE (\<lambda>run. idx run ''window_successes_per_second'') runs)),
       (''window_successes_per_second_max'', maxE (mapE (\<lambda>run. idx run ''window_successes_per_second'') runs)),
       (''window_failures_per_run'', listE (mapE (\<lambda>run. bindE (idx run ''window_failures'') (\<lambda>f. Inr (or_empty f))) runs)),
       (''latency_us_median_of_runs'', dictE (map (\<lambda>key.
          (key, medianE (mapE (\<lambda>run. path run [''latency_us'', key]) runs))) [''p50'', ''p95'', ''p99''])),
       (''errors'', sumE (mapE (\<lambda>run. addE (idx run ''errors'') (idx run ''warmup_errors'')) runs)),
       (''server_cpu_percent_median'', field_median ''server_cpu_percent_including_warmup'' runs),
       (''generator_cpu_percent_median'', field_median ''generator_cpu_percent_including_warmup'' runs)])"

definition compare_row :: "val list \<Rightarrow> int \<times> string \<Rightarrow> val res" where
  "compare_row runs cell =
     (case cell of (connections, variant) \<Rightarrow>
      bindE (group_runs runs variant connections) (\<lambda>grp.
      bindE (allE (\<lambda>run. eqE (idx run ''outcome'') (pS ''unsupported'')) grp) (\<lambda>none.
      if none
      then dictE [(''variant'', pS variant), (''connections'', pI connections), (''outcome'', pS ''unsupported''),
                  (''reason'', if grp = [] then Inl IndexError else idx (hd grp) ''reason'')]
      else group_row grp variant connections)))"

definition compare_cells :: "int list \<Rightarrow> string list \<Rightarrow> (int \<times> string) list" where
  "compare_cells concurrency variants = concat (map (\<lambda>c. map (\<lambda>v. (c, v)) variants) concurrency)"

definition summarize_compare :: "val list \<Rightarrow> int list \<Rightarrow> string list \<Rightarrow> val list res" where
  "summarize_compare runs concurrency variants = mapE (compare_row runs) (compare_cells concurrency variants)"

section \<open>Options and the order of the runs\<close>

definition check_cmp_options :: "cmp_options \<Rightarrow> unit res" where
  "check_cmp_options o' =
     checks
      [ensure ((m_tls_certificate o' \<noteq> []) = (m_tls_key o' \<noteq> [])) (ParserError ''TLS requires both --tls-certificate and --tls-key''),
       ensure (0 < m_duration o' \<and> m_duration o' \<le> 60 \<and> 0 < m_warmup o' \<and> m_warmup o' \<le> 30 \<and> 1 \<le> m_repeats o' \<and> m_repeats o' \<le> 20 \<and>
               list_all (\<lambda>c. 1 \<le> c \<and> c \<le> 16384) (m_connections o') \<and> 1 \<le> m_client_cores o' \<and> m_client_cores o' \<le> 16)
         (ParserError ''require duration (0,60], warmup (0,30], repeats 1..20, connections 1..16384, client cores 1..16''),
       ensure (1 \<le> m_zig_workers o' \<and> m_zig_workers o' \<le> 32) (ParserError ''require 1..32 Zig workers''),
       ensure (case m_zig_max_connections o' of None \<Rightarrow> True | Some n \<Rightarrow> 1 \<le> n \<and> n \<le> 8168)
         (ParserError ''Zig public connection capacity must be 1..8168''),
       ensure (case m_zig_max_active o' of None \<Rightarrow> True | Some n \<Rightarrow> 1 \<le> n \<and> n \<le> 8192)
         (ParserError ''Zig active-request capacity must be 1..8192'')]"

definition choose_cpus :: "cmp_options \<Rightarrow> int list \<Rightarrow> (int \<times> int list) res" where
  "choose_cpus o' cores =
     (if m_client_host o' \<noteq> []
      then (if m_remote_client_binary o' = [] \<or> m_server_address o' \<in> {''127.0.0.1'', ''0.0.0.0'', ''localhost''}
            then Inl (ParserError ''remote load requires a binary path and a reachable --server-address'')
            else if cores = [] then Inl IndexError
            else Inr (hd cores, [0..m_client_cores o' - 1]))
      else if int (length cores) < m_client_cores o' + 1
      then Inl (ParserError ''require one physical core for Zig plus the requested client cores'')
      else Inr (hd cores, take (nat (m_client_cores o')) (drop 1 cores)))"

definition check_descriptors :: "cmp_options \<Rightarrow> int option \<Rightarrow> unit res" where
  "check_descriptors o' hard =
     (case (m_connections o', hard) of
        ([], _) \<Rightarrow> Inl (ValueError ''max() arg is an empty sequence'')
      | (cs, None) \<Rightarrow> Inr ()
      | (cs, Some h) \<Rightarrow> ensure (Max (set cs) + 256 \<le> h)
          (ParserError (''RLIMIT_NOFILE hard limit '' @ str_of_int h @ '' is below required '' @ str_of_int (Max (set cs) + 256))))"

definition run_order :: "string list \<Rightarrow> nat \<Rightarrow> string list" where
  "run_order variants repeat =
     (let offset = repeat mod length variants in drop offset variants @ take offset variants)"

definition run_schedule :: "cmp_options \<Rightarrow> (nat \<times> int \<times> string) list" where
  "run_schedule o' =
     concat (map (\<lambda>repeat. concat (map (\<lambda>connections. map (\<lambda>variant. (repeat + 1, connections, variant))
       (run_order (m_variants o') repeat)) (m_connections o'))) [0..<nat (m_repeats o')])"

section \<open>Correctness\<close>

definition cores_inv :: "tree \<Rightarrow> int set \<Rightarrow> ((string \<times> string) \<times> int) list \<Rightarrow> bool" where
  "cores_inv fs S cores \<longleftrightarrow> distinct (map fst cores) \<and> snd ` set cores \<subseteq> S \<and>
     (\<forall>e \<in> set cores. core_key fs (snd e) = Inr (fst e)) \<and> (\<forall>c \<in> S. \<exists>e \<in> set cores. core_key fs c = Inr (fst e))"

lemma add_core_inv:
  assumes inv: "cores_inv fs S cores" and step: "add_core fs cpu cores = Inr cores'"
  shows "cores_inv fs (insert cpu S) cores'"
proof -
  obtain key where key: "core_key fs cpu = Inr key"
    and cores': "cores' = (if map_of cores key = None then cores @ [(key, cpu)] else cores)"
    using step by (auto simp: add_core_def bindE_eq_Inr)
  have old: "distinct (map fst cores)" "snd ` set cores \<subseteq> S" "\<forall>e \<in> set cores. core_key fs (snd e) = Inr (fst e)"
    "\<forall>c \<in> S. \<exists>e \<in> set cores. core_key fs c = Inr (fst e)"
    using inv by (simp_all add: cores_inv_def)
  show ?thesis
  proof (cases "map_of cores key")
    case None
    then have "key \<notin> fst ` set cores" by (simp add: map_of_eq_None_iff)
    moreover have "cores' = cores @ [(key, cpu)]" using None cores' by simp
    ultimately show ?thesis using old key by (auto simp: cores_inv_def)
  next
    case (Some c)
    then have "(key, c) \<in> set cores" by (rule map_of_SomeD)
    moreover have "cores' = cores" using Some cores' by simp
    ultimately show ?thesis using old key by (force simp: cores_inv_def)
  qed
qed

lemma add_cores_inv:
  "foldE (add_core fs) cpus cores = Inr cores' \<Longrightarrow> cores_inv fs S cores \<Longrightarrow> cores_inv fs (S \<union> set cpus) cores'"
proof (induction cpus arbitrary: cores S)
  case (Cons cpu cpus)
  obtain c1 where c1: "add_core fs cpu cores = Inr c1" and rest: "foldE (add_core fs) cpus c1 = Inr cores'"
    using Cons.prems(1) by (auto simp: bindE_eq_Inr)
  show ?case using Cons.IH [OF rest add_core_inv [OF Cons.prems(2) c1]] by simp
qed simp

text \<open>
  The cores chosen for a comparison are one CPU per physical core: every allowed CPU belongs to the
  core of exactly one of them, so the server's CPU and the CPUs of a local client are on different
  physical cores.
\<close>

theorem available_cores_physical:
  assumes "available_cores fs affinity = Inr cores" and "finite affinity"
  shows "set cores \<subseteq> affinity \<and>
    (\<forall>cpu \<in> affinity. \<exists>!c. c \<in> set cores \<and> core_key fs c = core_key fs cpu) \<and>
    (\<forall>o' s cs. choose_cpus o' cores = Inr (s, cs) \<and> m_client_host o' = [] \<and> 0 \<le> m_client_cores o' \<longrightarrow>
       int (length cs) = m_client_cores o' \<and> (\<forall>c \<in> set cs. core_key fs c \<noteq> core_key fs s))"
proof -
  obtain tbl where fold: "foldE (add_core fs) (sorted_list_of_set affinity) [] = Inr tbl"
    and cores: "cores = map snd tbl" using assms(1) by (auto simp: available_cores_def bindE_eq_Inr)
  have inv: "cores_inv fs affinity tbl"
    using add_cores_inv [OF fold, of "{}"] assms(2) by (simp add: cores_inv_def)
  have dist: "distinct (map fst tbl)" using inv by (simp add: cores_inv_def)
  have inj: "c = c'" if "(k, c) \<in> set tbl" "(k, c') \<in> set tbl" for k c c'
    using dist that by (metis eq_key_imp_eq_value)
  have key: "core_key fs c = Inr k" if "(k, c) \<in> set tbl" for k c using inv that by (force simp: cores_inv_def)
  have ex1: "\<exists>!c. c \<in> set cores \<and> core_key fs c = core_key fs cpu" if cpu: "cpu \<in> affinity" for cpu
  proof -
    obtain e where "e \<in> set tbl" "core_key fs cpu = Inr (fst e)" using inv cpu by (auto simp: cores_inv_def)
    then obtain k c where k: "core_key fs cpu = Inr k" and c: "(k, c) \<in> set tbl" by (metis prod.collapse)
    show ?thesis
    proof (rule ex1I [of _ c])
      show "c \<in> set cores \<and> core_key fs c = core_key fs cpu" using c key [OF c] k cores by force
      fix d assume "d \<in> set cores \<and> core_key fs d = core_key fs cpu"
      then obtain k' where "(k', d) \<in> set tbl" "core_key fs d = Inr k" using k cores by auto
      then show "d = c" using key [of k' d] inj [of k d c] c by simp
    qed
  qed
  have "distinct (map (core_key fs) cores)"
  proof -
    have "map (core_key fs) cores = map Inr (map fst tbl)" using key by (auto simp: cores)
    then show ?thesis using dist by (simp add: distinct_map del: map_map)
  qed
  then have apart: "core_key fs c \<noteq> core_key fs (hd cores)" if "c \<in> set (drop 1 cores)" for c
    using that by (cases cores) (auto simp: image_iff)
  have sub: "set cores \<subseteq> affinity" using inv cores by (simp add: cores_inv_def)
  have choose: "int (length cs) = m_client_cores o' \<and> (\<forall>c \<in> set cs. core_key fs c \<noteq> core_key fs s)"
    if "choose_cpus o' cores = Inr (s, cs)" "m_client_host o' = []" "0 \<le> m_client_cores o'" for o' s cs
  proof -
    have s: "s = hd cores" "cs = take (nat (m_client_cores o')) (drop 1 cores)" "m_client_cores o' + 1 \<le> int (length cores)"
      using that by (auto simp: choose_cpus_def split: if_splits)
    then show ?thesis using apart that(3) by (auto dest: in_set_takeD)
  qed
  show ?thesis using sub ex1 choose by blast
qed

text \<open>Two packages with one two-thread core each.\<close>

definition core_tree :: tree where
  "core_tree = \<lparr>t_read = map_of
     [(''/sys/devices/system/cpu/cpu0/topology/physical_package_id'', ''0''), (''/sys/devices/system/cpu/cpu0/topology/core_id'', ''0''),
      (''/sys/devices/system/cpu/cpu1/topology/physical_package_id'', ''1''), (''/sys/devices/system/cpu/cpu1/topology/core_id'', ''0''),
      (''/sys/devices/system/cpu/cpu2/topology/physical_package_id'', ''0''), (''/sys/devices/system/cpu/cpu2/topology/core_id'', ''0'')],
     t_is_dir = (\<lambda>_. False), t_names = (\<lambda>_. [])\<rparr>"

theorem available_cores_physical_witness:
  "available_cores core_tree {0, 1, 2} = Inr [0, 1] \<and>
   (\<exists>!c. c \<in> set [0, 1] \<and> core_key core_tree c = core_key core_tree 2)"
proof -
  have a: "available_cores core_tree {0, 1, 2} = Inr [0, 1]" by code_simp
  then show ?thesis using available_cores_physical [OF a] by blast
qed

section \<open>The order of the runs\<close>

lemma add_mod_cancel:
  fixes a b c n :: nat
  assumes "a < n" and "b < n" and "(a + c) mod n = (b + c) mod n"
  shows "a = b"
proof -
  have "int n dvd int (a + c) - int (b + c)"
    using assms(3) by (metis mod_eq_dvd_iff of_nat_mod)
  then have "int n dvd int a - int b" by simp
  then have "int a mod int n = int b mod int n" by (simp add: mod_eq_dvd_iff)
  then show ?thesis using assms(1,2) by simp
qed

lemma run_order_rotate: "run_order variants r = rotate r variants"
  by (simp add: run_order_def Let_def rotate_drop_take)

text \<open>
  Every repetition runs every variant once, and the start rotates: over as many repetitions as there
  are variants, each variant takes each place in the order exactly once.
\<close>

theorem run_order_balanced:
  assumes "distinct variants" and "variant \<in> set variants" and "place < length variants"
  shows "mset (run_order variants r) = mset variants \<and>
    (\<exists>!r. r < length variants \<and> run_order variants r ! place = variant)"
proof
  show "mset (run_order variants r) = mset variants"
    unfolding run_order_def Let_def by (metis mset_append append_take_drop_id union_commute)
  let ?n = "length variants"
  obtain i where i: "i < ?n" "variants ! i = variant" using assms(2) by (auto simp: in_set_conv_nth)
  have at: "run_order variants r ! place = variants ! ((r + place) mod ?n)" for r
    using assms(3) by (simp add: run_order_rotate nth_rotate add.commute)
  have eq: "run_order variants r ! place = variant \<longleftrightarrow> (r + place) mod ?n = i" for r
  proof -
    have "(r + place) mod ?n < ?n" using assms(3) by (intro mod_less_divisor) linarith
    then show ?thesis unfolding at using i nth_eq_iff_index_eq [OF assms(1), of "(r + place) mod ?n" i] by simp
  qed
  let ?r = "(i + (?n - place)) mod ?n"
  have lt: "?r < ?n" using i(1) by (intro mod_less_divisor) linarith
  have "(?r + place) mod ?n = (i + (?n - place) + place) mod ?n" by (simp add: mod_add_left_eq)
  then have hit: "(?r + place) mod ?n = i" using i assms(3) by simp
  show "\<exists>!r. r < ?n \<and> run_order variants r ! place = variant"
  proof (rule ex1I [of _ ?r])
    show "?r < ?n \<and> run_order variants ?r ! place = variant" using lt hit by (simp add: eq)
    fix s assume s: "s < ?n \<and> run_order variants s ! place = variant"
    then have "s < ?n" and same: "(s + place) mod ?n = (?r + place) mod ?n" using hit by (simp_all add: eq)
    show "s = ?r" by (rule add_mod_cancel [OF \<open>s < ?n\<close> lt same])
  qed
qed

theorem run_order_balanced_witness:
  "mset (run_order [''zig_debug'', ''zig_release_safe'', ''go''] 1) = mset [''zig_debug'', ''zig_release_safe'', ''go''] \<and>
   (\<exists>!r. r < length [''zig_debug'', ''zig_release_safe'', ''go''] \<and> run_order [''zig_debug'', ''zig_release_safe'', ''go''] r ! 0 = ''go'')"
  by (rule run_order_balanced) simp_all

section \<open>What a run reports\<close>

lemma finish_server_ok: "finish_server a b r = Inr v \<longleftrightarrow> a \<and> b \<in> {0, -15} \<and> r = Inr v"
  by (auto simp: finish_server_def)

text \<open>
  How a load that returned came about: a local client that exited with status 0, or a remote one on
  another kernel that runs this build's program and completed before the deadline and while the server
  was alive.
\<close>

definition completed_in_time :: "(bool res \<times> bool \<times> bool) list \<Rightarrow> bool" where
  "completed_in_time turns \<longleftrightarrow>
     (\<exists>earlier later late exited. turns = earlier @ (Inr True, late, exited) # later \<and>
        (\<forall>turn \<in> set earlier. turn = (Inr False, False, False)))"

lemma completed_in_time_Cons:
  "completed_in_time ((Inr True, late, exited) # turns)"
  "completed_in_time turns \<Longrightarrow> completed_in_time ((Inr False, False, False) # turns)"
proof -
  show "completed_in_time ((Inr True, late, exited) # turns)"
    unfolding completed_in_time_def
    by (rule exI [of _ "[]"], rule exI [of _ turns], rule exI [of _ late], rule exI [of _ exited]) simp
  assume "completed_in_time turns"
  then obtain earlier later late exited where turns: "turns = earlier @ (Inr True, late, exited) # later"
      "\<forall>turn \<in> set earlier. turn = (Inr False, False, False)"
    unfolding completed_in_time_def by blast
  show "completed_in_time ((Inr False, False, False) # turns)"
    unfolding completed_in_time_def
    by (rule exI [of _ "(Inr False, False, False) # earlier"], rule exI [of _ later], rule exI [of _ late], rule exI [of _ exited])
      (use turns in simp)
qed

lemma remote_wait_completed: "remote_wait turns = Inr () \<Longrightarrow> completed_in_time turns"
  by (induction turns rule: remote_wait.induct) (auto simp: bindE_eq_Inr completed_in_time_Cons split: if_splits)

definition load_source :: "cmp_options \<Rightarrow> run_world \<Rightarrow> val \<Rightarrow> bool" where
  "load_source o' w result \<longleftrightarrow>
     (if m_client_host o' = [] then w_load_exit w = Inr 0 \<and> w_load_output w = Inr result
      else w_remote_client w = Inr result \<and> completed_in_time (w_remote_turns w) \<and>
        (\<exists>identity message started sha. w_connect w (cmp_transport o' (w_agent_source w)) = Inr identity \<and>
           eqE (idx identity ''boot_id'') (w_boot_id w) = Inr False \<and> w_started w message = Inr started \<and>
           w_load_sha256 w = Inr sha \<and> eqE (idx started ''binary_sha256'') (pS sha) = Inr True))"

lemma local_load_ok: "local_load load_binary arguments client_cpus w = Inr (result, load_args, started) \<Longrightarrow> w_load_exit w = Inr 0 \<and> w_load_output w = Inr result"
  by (auto simp: local_load_def bindE_eq_Inr seqE_eq_Inr ensure_eq_Inr)

lemma remote_load_ok:
  assumes "remote_load o' arguments client_cpus connections w = Inr (result, load_args, started)"
  shows "w_remote_client w = Inr result \<and> completed_in_time (w_remote_turns w) \<and>
    (\<exists>message sha. w_started w message = Inr started \<and> w_load_sha256 w = Inr sha \<and> eqE (idx started ''binary_sha256'') (pS sha) = Inr True)"
proof -
  obtain message where started: "w_started w message = Inr started"
    and same: "neE (idx started ''binary_sha256'') (bindE (w_load_sha256 w) pS) = Inr False"
    and rest: "remote_wait (w_remote_turns w) = Inr ()" "w_remote_client w = Inr result"
    using assms by (auto simp: remote_load_def bindE_eq_Inr seqE_eq_Inr split: if_splits)
  have "\<exists>sha. w_load_sha256 w = Inr sha \<and> eqE (idx started ''binary_sha256'') (pS sha) = Inr True"
    using same by (cases "w_load_sha256 w") (auto simp: neE_def eqE_def py_ok simp del: idx.simps)
  then show ?thesis using started rest remote_wait_completed by blast
qed

lemma remote_fields_other:
  assumes "remote_fields started identity network_before w result = Inr result'"
    and "k \<notin> {''remote_client'', ''server_network_before'', ''server_network_after''}"
  shows "idx result' k = idx result k"
proof -
  obtain row row' where row: "result = VDict row" "result' = VDict row'"
    and fields: "fieldsE [(''remote_client'', remote_client started identity w), (''server_network_before'', Inr network_before),
        (''server_network_after'', w_network_after w)] row = Inr row'"
    using assms(1) by (cases result) (auto simp: remote_fields_def bindE_eq_Inr)
  show ?thesis using fieldsE_other [OF fields, of k] assms(2) by (simp add: row)
qed

lemma remote_connect_ok:
  assumes "remote_connect o' w = Inr remote"
  shows "(remote = None \<longleftrightarrow> m_client_host o' = []) \<and>
    (\<forall>identity. remote = Some identity \<longrightarrow> w_connect w (cmp_transport o' (w_agent_source w)) = Inr identity \<and>
       eqE (idx identity ''boot_id'') (w_boot_id w) = Inr False)"
  using assms by (auto simp: remote_connect_def bindE_eq_Inr split: if_splits)

lemma final_fields_names:
  "map fst (final_fields fr o' variant args connections repeat w headers go_runtime load_args reports cpu) =
     [''variant'', ''repeat'', ''server_command'', ''client_command'', ''response_headers'', ''outcome'', ''server_cpus'', ''go_runtime'',
      ''zig_workers'', ''workers_before'', ''workers_after'', ''worker_cpu_seconds_including_warmup'', ''metrics_after'',
      ''zig_connection_capacity'', ''zig_max_active'', ''server_cpu_percent_including_warmup'']"
  by (cases reports) (simp only: final_fields_def Let_def prod.case list.map fst_conv)

lemma final_fields_keys:
  "distinct (map fst (final_fields fr o' variant args connections repeat w headers go_runtime load_args reports cpu))"
  "(''outcome'', pS ''measured'') \<in> set (final_fields fr o' variant args connections repeat w headers go_runtime load_args reports cpu)"
proof -
  show "distinct (map fst (final_fields fr o' variant args connections repeat w headers go_runtime load_args reports cpu))"
    unfolding final_fields_names by code_simp
  show "(''outcome'', pS ''measured'') \<in> set (final_fields fr o' variant args connections repeat w headers go_runtime load_args reports cpu)"
    by (cases reports) (simp only: final_fields_def Let_def prod.case list.set insert_iff simp_thms)
qed

lemma measured_run_ok:
  assumes "measured_run fr o' variant args load_binary client_cpus connections repeat w = Inr r"
  shows "returns (wait_ready (w_attempts w)) \<and> idx r ''outcome'' = Inr (VStr ''measured'') \<and>
    (\<exists>result checked. load_source o' w result \<and> check_outcomes (m_allow_errors o') connections checked = Inr () \<and>
       (\<forall>k. k \<notin> {''remote_client'', ''server_network_before'', ''server_network_after''} \<longrightarrow> idx checked k = idx result k))"
proof -
  obtain headers remote network_before result load_args started checked where
    ready: "wait_ready (w_attempts w) = Inr headers" and remote: "remote_connect o' w = Inr remote"
    and load: "(if remote = None then local_load load_binary (load_arguments fr o' (w_port w) connections) client_cpus w
        else remote_load o' (load_arguments fr o' (w_port w) connections) client_cpus connections w) = Inr (result, load_args, started)"
    and added: "(case remote of None \<Rightarrow> Inr result | Some identity \<Rightarrow> remote_fields started identity network_before w result) = Inr checked"
    and outcomes: "check_outcomes (m_allow_errors o') connections checked = Inr ()"
    using assms unfolding measured_run_def Let_def bindE_eq_Inr seqE_eq_Inr by (elim exE conjE) (auto simp: bindE_eq_Inr seqE_eq_Inr)
  obtain headers' load_args' go_runtime reports cpu row0 row where
    row: "fieldsE (final_fields fr o' variant args connections repeat w headers' go_runtime load_args' reports cpu) row0 = Inr row" "r = VDict row"
    using assms unfolding measured_run_def Let_def bindE_eq_Inr seqE_eq_Inr
    by (elim exE conjE) (auto simp: bindE_eq_Inr seqE_eq_Inr)
  have "map_of row ''outcome'' = Some (VStr ''measured'')"
    using fieldsE_field [OF row(1) final_fields_keys(2,1)] by (auto simp: pS_def)
  moreover have "load_source o' w result"
    using load remote_connect_ok [OF remote] local_load_ok [of load_binary "load_arguments fr o' (w_port w) connections" client_cpus w result load_args started]
      remote_load_ok [of o' "load_arguments fr o' (w_port w) connections" client_cpus connections w result load_args started]
    by (cases remote) (auto simp: load_source_def)
  moreover have "idx checked k = idx result k" if "k \<notin> {''remote_client'', ''server_network_before'', ''server_network_after''}" for k
    using added remote_fields_other [OF _ that] by (cases remote) auto
  ultimately show ?thesis using ready row(2) outcomes by auto
qed


definition sample_cmp_options :: cmp_options where
  "sample_cmp_options = \<lparr>m_duration = 5, m_warmup = 1, m_repeats = 3, m_connections = [16], m_go_unrestricted = True, m_client_cores = 4,
     m_server_address = ''127.0.0.1'', m_client_host = [], m_ssh_config = [], m_remote_client_binary = [], m_variants = [''zig_debug'', ''zig_release_safe'', ''go''],
     m_allow_errors = False, m_zig_workers = 1, m_zig_access_log = True, m_zig_max_connections = None, m_zig_max_active = None,
     m_tls_certificate = [], m_tls_key = []\<rparr>"

definition sample_result :: val where
  "sample_result = VDict [(''attempts'', VInt 10), (''successes'', VInt 10), (''errors'', VInt 0), (''connections_ready'', VInt 16),
     (''connections_measured'', VInt 16), (''connections_opened'', VInt 16)]"

definition sample_world :: run_world where
  "sample_world = \<lparr>w_port = 8000, w_admin_port = 8001, w_probe = (0, []), w_popen = Inr (), w_go_runtime = Inr (VDict []),
     w_attempts = [Refused, Answered 200 (''ZHTPS'' @ [newline]) []], w_agent_source = [], w_connect = (\<lambda>t. Inr (VDict [(''boot_id'', VStr ''c'')])),
     w_boot_id = Inr (VStr ''s''), w_affinity = [0], w_workers_before = Inr VNone, w_workers_after = Inr VNone,
     w_worker_seconds = Inr VNone, w_cpu_start = Inr (VInt 1), w_cpu_end = Inr (VInt 2), w_network_before = Inr VNone,
     w_network_after = Inr VNone, w_elapsed = 1, w_load_exit = Inr 0,
     w_load_output = Inr sample_result, w_started = (\<lambda>m. Inr (VDict [(''binary_sha256'', VStr ''l''), (''command'', VList [])])),
     w_load_sha256 = Inr ''l'', w_remote_turns = [(Inr False, False, False), (Inr True, False, False)], w_remote_client = Inr sample_result,
     w_remote_samples = [], w_clock = (0, 1), w_metrics_after = Inr (VDict []), w_stops = True, w_returncode = 0\<rparr>"

text \<open>The same run with a local and with a remote load generator.\<close>

definition sample_remote_options :: cmp_options where
  "sample_remote_options = sample_cmp_options\<lparr>m_client_host := ''client.example'', m_remote_client_binary := ''/load'', m_server_address := ''192.0.2.10''\<rparr>"

lemma sample_world_run:
  "returns (run_one (\<lambda>_. ''5'') sample_cmp_options ''go'' ''go_server'' ''load'' 0 [1, 2] 16 1 sample_world)"
  "returns (run_one (\<lambda>_. ''5'') sample_remote_options ''go'' ''go_server'' ''load'' 0 [1, 2] 16 1 sample_world)"
  by code_simp+


section \<open>What the summary reports\<close>

lemma group_row_fields:
  assumes "group_row runs variant connections = Inr row" and "mapE (\<lambda>run. idx run ''requests_per_second'') runs = Inr rates"
  shows "idx row ''requests_per_second_median'' = median rates \<and> idx row ''requests_per_second_min'' = py_min rates \<and>
    idx row ''requests_per_second_max'' = py_max rates"
  using assms by (auto simp: group_row_def dictE_def bindE_eq_Inr map_of_dict_set)

text \<open>
  The summary has one row for each requested number of connections and variant, in that order.  In a
  measured row the median rate lies between the smallest and the largest rate of the runs, and no run's
  rate lies outside of these two.
\<close>

theorem summarize_compare_rates:
  assumes "summarize_compare runs concurrency variants = Inr rows" and "i < length (compare_cells concurrency variants)"
    and "compare_cells concurrency variants ! i = (connections, variant)"
    and "group_runs runs variant connections = Inr grp" and "mapE (\<lambda>run. idx run ''requests_per_second'') grp = Inr (map VFloat rates)"
    and "\<forall>r \<in> set rates. fl r = r" and "rates \<noteq> []" and "allE (\<lambda>run. eqE (idx run ''outcome'') (pS ''unsupported'')) grp = Inr False"
  shows "length rows = length concurrency * length variants \<and>
    (\<exists>lo mid hi. idx (rows ! i) ''requests_per_second_min'' = Inr (VFloat lo) \<and>
       idx (rows ! i) ''requests_per_second_median'' = Inr (VFloat mid) \<and>
       idx (rows ! i) ''requests_per_second_max'' = Inr (VFloat hi) \<and> lo \<le> mid \<and> mid \<le> hi \<and> (\<forall>r \<in> set rates. lo \<le> r \<and> r \<le> hi))"
proof -
  have len: "length rows = length concurrency * length variants"
    using mapE_length [OF assms(1) [unfolded summarize_compare_def]]
    by (simp add: compare_cells_def length_concat comp_def sum_list_triv)
  have "compare_row runs (compare_cells concurrency variants ! i) = Inr (rows ! i)"
    using assms(1,2) by (simp add: summarize_compare_def mapE_eq_Inr list_all2_conv_all_nth)
  then have row: "group_row grp variant connections = Inr (rows ! i)"
    using assms(3,4,8) by (simp add: compare_row_def)
  note fields = group_row_fields [OF row assms(5)]
  obtain x xs where rates: "rates = x # xs" using assms(7) by (cases rates) auto
  obtain m a b where m: "median (map VFloat rates) = Inr (VFloat m)" "a \<in> set rates" "b \<in> set rates" "a \<le> m" "m \<le> b"
    by (rule median_floats_between [OF assms(7,6)])
  have "fold min xs x \<le> m" "m \<le> fold max xs x"
    using m rates fold_min_le [of a x xs] fold_max_ge [of b x xs] by auto
  then show ?thesis
    using len fields m(1) py_min_floats [of x xs] py_max_floats [of x xs] rates fold_min_le [of _ x xs] fold_max_ge [of _ x xs] by auto
qed

definition sample_runs :: "val list" where
  "sample_runs = map (\<lambda>rate. VDict [(''variant'', VStr ''go''), (''connections'', VInt 16), (''outcome'', VStr ''measured''),
     (''requests_per_second'', VFloat rate), (''window_successes_per_second'', VFloat rate), (''window_failures'', VNone),
     (''latency_us'', VDict [(''p50'', VInt 1), (''p95'', VInt 2), (''p99'', VInt 3)]), (''errors'', VInt 0), (''warmup_errors'', VInt 0),
     (''server_cpu_percent_including_warmup'', VInt 50), (''generator_cpu_percent_including_warmup'', VInt 40)]) [3, 1, 2]"

lemma sample_runs_summary: "returns (summarize_compare sample_runs [16] [''go''])"
  by code_simp

theorem summarize_compare_rates_witness:
  "\<exists>rows lo mid. summarize_compare sample_runs [16] [''go''] = Inr rows \<and> length rows = 1 \<and>
     idx (rows ! 0) ''requests_per_second_min'' = Inr (VFloat lo) \<and> idx (rows ! 0) ''requests_per_second_median'' = Inr (VFloat mid) \<and> lo \<le> mid"
proof -
  obtain rows where rows: "summarize_compare sample_runs [16] [''go''] = Inr rows" using sample_runs_summary by (auto simp: returns_iff)
  have cells: "0 < length (compare_cells [16] [''go''])" "compare_cells [16] [''go''] ! 0 = (16, ''go'')" by (simp_all add: compare_cells_def)
  have grp: "group_runs sample_runs ''go'' 16 = Inr sample_runs" by code_simp
  have rates: "mapE (\<lambda>run. idx run ''requests_per_second'') sample_runs = Inr (map VFloat [3, 1, 2])" by code_simp
  have exact: "\<forall>r \<in> set [3, 1, 2]. fl r = r" using fl_of_int [of 1] fl_of_int [of 2] fl_of_int [of 3] by simp
  have out: "allE (\<lambda>run. eqE (idx run ''outcome'') (pS ''unsupported'')) sample_runs = Inr False" by code_simp
  show ?thesis using summarize_compare_rates [OF rows cells grp rates exact _ out] rows by auto
qed

end
