(* ===== verification/Render_Reports.thy ===== *)
theory Render_Reports
  imports Py_Value Py_Base64
begin

text \<open>
  \<open>bench/render_reports.py\<close>: the compiler that turns the recorded reports into one offline HTML
  document.  \<open>Compiler\<close> embeds each retained report or run summary once, addressed by the digest of
  its bytes; \<open>ReportHtml\<close> rewrites the links, images, identifiers and headings of every rendered
  report; \<open>fill_template\<close> puts the pieces into the page.

  The checkout is a list of files, each an absolute path (its components) with its bytes; directories
  are the proper prefixes of files, and there are no symbolic links, so \<open>Path.resolve\<close> is the removal
  of \<open>.\<close> and \<open>..\<close> components.  Parameters stand for code that is not in the repository: the Markdown
  package (with the parser callbacks its output causes), SHA-256, gzip, the MIME table of the machine,
  the decoding of bytes above 127 and the check of a bracketed host by \<open>urlsplit\<close>.
\<close>

section \<open>Paths\<close>

type_synonym ppath = "string list"
type_synonym checkout = "(ppath \<times> string) list"

definition path_parts :: "string \<Rightarrow> string list" where
  "path_parts s = filter (\<lambda>p. p \<noteq> [] \<and> p \<noteq> ''.'') (split_on (CHR ''/'') s)"

definition join_path :: "ppath \<Rightarrow> string \<Rightarrow> ppath" where
  "join_path base s = (if startswith s ''/'' then path_parts s else base @ path_parts s)"

definition resolve :: "ppath \<Rightarrow> ppath" where
  "resolve p = rev (fold (\<lambda>c acc. if c = ''..'' then drop 1 acc else c # acc) p [])"

definition is_relative_to :: "ppath \<Rightarrow> ppath \<Rightarrow> bool" where
  "is_relative_to p base \<longleftrightarrow> take (length base) p = base"

definition path_name :: "ppath \<Rightarrow> string" where
  "path_name p = (if p = [] then [] else last p)"

definition path_parent :: "ppath \<Rightarrow> ppath" where
  "path_parent p = butlast p"

text \<open>\<open>path.suffix\<close>: from the last dot, unless it is the first or the last character of the name.\<close>

definition path_suffix :: "ppath \<Rightarrow> string" where
  "path_suffix p =
     (case rsplit1 (CHR ''.'') (path_name p) of
        [stem, ext] \<Rightarrow> if stem \<noteq> [] \<and> ext \<noteq> [] then CHR ''.'' # ext else []
      | _ \<Rightarrow> [])"

definition with_name :: "ppath \<Rightarrow> string \<Rightarrow> ppath res" where
  "with_name p n =
     (if path_name p = [] \<or> n = [] \<or> n = ''.'' \<or> CHR ''/'' \<in> set n then Inl (ValueError ''Invalid name'')
      else Inr (path_parent p @ [n]))"

fun common_prefix :: "ppath \<Rightarrow> ppath \<Rightarrow> nat" where
  "common_prefix (a # p) (b # q) = (if a = b then Suc (common_prefix p q) else 0)"
| "common_prefix _ _ = 0"

definition relpath :: "ppath \<Rightarrow> ppath \<Rightarrow> string" where
  "relpath p start =
     (let i = common_prefix p start; parts = replicate (length start - i) ''..'' @ drop i p
      in if parts = [] then ''.'' else join ''/'' parts)"

definition read_bytes :: "checkout \<Rightarrow> ppath \<Rightarrow> string res" where
  "read_bytes fs p = of_option (OSError ''FileNotFoundError'') (map_of fs p)"

definition is_dir :: "checkout \<Rightarrow> ppath \<Rightarrow> bool" where
  "is_dir fs p \<longleftrightarrow> (\<exists>(q, _) \<in> set fs. is_relative_to q p \<and> q \<noteq> p)"

section \<open>The compiler\<close>

record environment =
  e_root :: ppath
  e_files :: checkout
  e_sha256 :: "string \<Rightarrow> string"
  e_gzip :: "string \<Rightarrow> string"
  e_utf8 :: "string \<Rightarrow> string"
  e_guess_type :: "string \<Rightarrow> string option"
  e_bracketed :: "string \<Rightarrow> bool"

record attached =
  a_name :: string
  a_bytes :: int
  a_sha256 :: string

record payload =
  p_encoding :: string
  p_base64 :: string

record compiler =
  k_output :: ppath
  k_documents :: "(ppath \<times> string) list"
  k_attachments :: "(string \<times> attached) list"
  k_payloads :: "(string \<times> payload) list"

definition docs :: "environment \<Rightarrow> ppath" where
  "docs env = e_root env @ [''docs'']"

text \<open>\<open>Compiler.__init__\<close>: \<open>reports\<close> holds the anchor, the path below the checkout and the title.\<close>

definition new_compiler :: "environment \<Rightarrow> ppath \<Rightarrow> (string \<times> string \<times> string) list \<Rightarrow> compiler" where
  "new_compiler env output reports =
     \<lparr>k_output = resolve output,
      k_documents = dict_of (map (\<lambda>(name, p, title). (resolve (join_path (e_root env) p), name)) reports),
      k_attachments = [], k_payloads = []\<rparr>"

definition source_key :: "environment \<Rightarrow> ppath \<Rightarrow> string res" where
  "source_key env p =
     (let p = resolve p in
      if is_relative_to p (e_root env) \<or> is_relative_to p (path_parent (e_root env) @ [''nginx''])
      then Inr (relpath p (e_root env))
      else Inl (ValueError ''source outside the reviewed repositories''))"

definition retained_document :: "environment \<Rightarrow> ppath \<Rightarrow> bool" where
  "retained_document env p \<longleftrightarrow>
     is_relative_to p (docs env) \<and>
     (path_suffix p \<in> {''.md'', ''.csv'', ''.svg''} \<or>
      path_parent p = docs env @ [''runs''] \<and> path_suffix p = ''.json'')"

definition make_payload :: "environment \<Rightarrow> string \<Rightarrow> payload" where
  "make_payload env raw =
     (let compressed = e_gzip env raw; use_gzip = length compressed + 64 < length raw
      in \<lparr>p_encoding = (if use_gzip then ''gzip'' else ''identity''),
          p_base64 = b64encode (if use_gzip then compressed else raw)\<rparr>)"

definition add_attachment :: "environment \<Rightarrow> ppath \<Rightarrow> string \<Rightarrow> string \<Rightarrow> compiler \<Rightarrow> compiler" where
  "add_attachment env p key raw k =
     (let digest = e_sha256 env raw;
          k = (if map_of (k_payloads k) digest = None
               then k\<lparr>k_payloads := dict_set digest (make_payload env raw) (k_payloads k)\<rparr> else k)
      in k\<lparr>k_attachments := dict_set key
           \<lparr>a_name = path_name p, a_bytes = int (length raw), a_sha256 = digest\<rparr> (k_attachments k)\<rparr>)"

definition attachment :: "environment \<Rightarrow> ppath \<Rightarrow> compiler \<Rightarrow> (string \<times> compiler) res" where
  "attachment env p k =
     (let p = resolve p in
      seqE (ensure (retained_document env p) (ValueError ''not a retained report or summary''))
      (bindE (source_key env p) (\<lambda>key.
         if map_of (k_attachments k) key \<noteq> None then Inr (key, k)
         else bindE (read_bytes (e_files env) p) (\<lambda>raw. Inr (key, add_attachment env p key raw k)))))"

text \<open>\<open>sorted(path.rglob("*"))\<close>, restricted to files.\<close>

definition files_below :: "checkout \<Rightarrow> ppath \<Rightarrow> ppath list" where
  "files_below fs p = sort (filter (\<lambda>q. is_relative_to q p \<and> q \<noteq> p) (map fst fs))"

definition attach_all :: "environment \<Rightarrow> ppath list \<Rightarrow> compiler \<Rightarrow> compiler res" where
  "attach_all env = foldE (\<lambda>p k. bindE (attachment env p k) (\<lambda>(key, k'). Inr k'))"

definition attach_directory :: "environment \<Rightarrow> ppath \<Rightarrow> compiler \<Rightarrow> (string \<times> compiler) res" where
  "attach_directory env p k =
     bindE (attach_all env (filter (retained_document env) (files_below (e_files env) p)) k) (\<lambda>k'.
     bindE (source_key env p) (\<lambda>key. Inr (key @ ''/'', k')))"

section \<open>Links\<close>

text \<open>The parts of \<open>urlsplit(text)\<close> that the rewriting uses.\<close>

record url =
  u_scheme :: string
  u_netloc :: string
  u_path :: string
  u_fragment :: string

definition scheme_char :: "char \<Rightarrow> bool" where
  "scheme_char c \<longleftrightarrow> is_alpha c \<or> is_digit c \<or> c \<in> set ''+-.''"

definition to_lower :: "char \<Rightarrow> char" where
  "to_lower c = (if is_upper c then char_of (char_code c + 32) else c)"

definition split_scheme :: "string \<Rightarrow> string \<times> string" where
  "split_scheme s =
     (let (a, found, b) = partition_on (CHR '':'') s
      in if found \<and> a \<noteq> [] \<and> is_alpha (hd a) \<and> list_all scheme_char a then (map to_lower a, b) else ([], s))"

definition urlsplit :: "environment \<Rightarrow> string \<Rightarrow> url res" where
  "urlsplit env text =
     (let s = filter (\<lambda>c. char_code c \<notin> {9, 10, 13}) (dropWhile (\<lambda>c. char_code c \<le> 32) text);
          (scheme, s) = split_scheme s;
          is_delim = (\<lambda>c. c \<in> set ''/?#'');
          netloc = (if startswith s ''//'' then takeWhile (\<lambda>c. \<not> is_delim c) (drop 2 s) else []);
          s = (if startswith s ''//'' then dropWhile (\<lambda>c. \<not> is_delim c) (drop 2 s) else s);
          (before, _, fragment) = partition_on (CHR ''#'') s;
          (p, _, _) = partition_on (CHR ''?'') before
      in seqE (ensure ((CHR ''['' \<in> set netloc) = (CHR '']'' \<in> set netloc)) (ValueError ''Invalid IPv6 URL''))
        (seqE (ensure (CHR ''['' \<in> set netloc \<longrightarrow> e_bracketed env netloc) (ValueError ''Invalid IPv6 URL''))
        (Inr \<lparr>u_scheme = scheme, u_netloc = netloc, u_path = p, u_fragment = fragment\<rparr>)))"

text \<open>\<open>unquote(text)\<close>: each run of ASCII characters is percent-decoded to bytes, which are then decoded.\<close>

fun unquote_bytes :: "string \<Rightarrow> string" where
  "unquote_bytes (a # b # c # cs) =
     (if a = CHR ''%'' \<and> is_hex b \<and> is_hex c then char_of (16 * hex_val b + hex_val c) # unquote_bytes cs
      else a # unquote_bytes (b # c # cs))"
| "unquote_bytes s = s"

definition is_ascii :: "char \<Rightarrow> bool" where
  "is_ascii c \<longleftrightarrow> char_code c < 128"

definition decode_run :: "environment \<Rightarrow> string \<Rightarrow> string" where
  "decode_run env run = (let bytes = unquote_bytes run in if list_all is_ascii bytes then bytes else e_utf8 env bytes)"

function unquote :: "environment \<Rightarrow> string \<Rightarrow> string" where
  "unquote env s =
     (if s = [] then []
      else if is_ascii (hd s) then decode_run env (takeWhile is_ascii s) @ unquote env (dropWhile is_ascii s)
      else hd s # unquote env (tl s))"
  by pat_completeness auto
termination
proof (relation "measure (length \<circ> snd)", goal_cases)
  case (2 env s)
  then show ?case using length_dropWhile_le [of is_ascii "tl s"] by (cases s) auto
qed auto

declare unquote.simps [simp del]

text \<open>\<open>re.search(r":(\d+)$", name)\<close>: the text before the colon and the digits.\<close>

definition cited_line :: "string \<Rightarrow> (string \<times> string) option" where
  "cited_line name =
     (let body = (if name \<noteq> [] \<and> last name = newline then butlast name else name)
      in case rsplit1 (CHR '':'') body of
           [before, digits] \<Rightarrow> if digits \<noteq> [] \<and> list_all is_digit digits then Some (before, digits) else None
         | _ \<Rightarrow> None)"

section \<open>Tags\<close>

type_synonym attrs = "(string \<times> string option) list"

definition escape_char :: "char \<Rightarrow> string" where
  "escape_char c =
     (if c = CHR ''&'' then ''&amp;'' else if c = CHR ''<'' then ''&lt;'' else if c = CHR ''>'' then ''&gt;''
      else if c = CHR 0x22 then ''&quot;'' else if c = CHR 0x27 then ''&#x27;'' else [c])"

text \<open>\<open>html.escape(text)\<close>, whose default is \<open>quote=True\<close>.\<close>

definition escape :: "string \<Rightarrow> string" where
  "escape s = concat (map escape_char s)"

definition in_quotes :: "string \<Rightarrow> string" where
  "in_quotes s = [CHR 0x22] @ s @ [CHR 0x22]"

definition text_of :: "string option \<Rightarrow> string" where
  "text_of v = (case v of None \<Rightarrow> ''None'' | Some s \<Rightarrow> s)"

definition id_attr :: "string \<Rightarrow> attrs \<Rightarrow> attrs" where
  "id_attr name ats =
     (case map_of ats ''id'' of None \<Rightarrow> ats | Some v \<Rightarrow> dict_set ''id'' (Some (name @ ''--'' @ text_of v)) ats)"

text \<open>The target of a link inside the reports: its path and the cited line.\<close>

definition link_target :: "environment \<Rightarrow> ppath \<Rightarrow> url \<Rightarrow> (ppath \<times> string option) res" where
  "link_target env here u =
     (let target = (if u_path u \<noteq> [] then resolve (join_path (path_parent here) (unquote env (u_path u))) else here)
      in case cited_line (path_name target) of
           None \<Rightarrow> Inr (target, None)
         | Some (before, line) \<Rightarrow> bindE (with_name target before) (\<lambda>t. Inr (t, Some line)))"

definition set_attrs :: "(string \<times> string) list \<Rightarrow> attrs \<Rightarrow> attrs" where
  "set_attrs kvs ats = fold (\<lambda>(key, v) a. dict_set key (Some v) a) kvs ats"

definition cite :: "string option \<Rightarrow> string" where
  "cite line = (case line of None \<Rightarrow> [] | Some l \<Rightarrow> ''; cited line '' @ l)"

definition rewrite_link ::
  "environment \<Rightarrow> url \<Rightarrow> ppath \<times> string option \<Rightarrow> attrs \<times> compiler \<Rightarrow> (attrs \<times> compiler) res" where
  "rewrite_link env u tl' s =
     (let (target, line) = tl'; (ats, k) = s in
      if target = docs env @ [''benchmarks.html''] \<or> target = k_output k
      then Inr (set_attrs [(''href'', ''#top'')] ats, k)
      else case map_of (k_documents k) target of
        Some anchor \<Rightarrow>
          Inr (set_attrs [(''href'', if u_fragment u \<noteq> [] then ''#'' @ anchor @ ''--'' @ u_fragment u else ''#'' @ anchor)] ats, k)
      | None \<Rightarrow>
          if is_dir (e_files env) target \<and> is_relative_to target (docs env)
          then bindE (attach_directory env target k) (\<lambda>(prefix, k').
            Inr (set_attrs [(''href'', ''#sources''), (''data-source-prefix'', prefix),
                            (''title'', ''Browse embedded files in '' @ prefix)] ats, k'))
          else if retained_document env target
          then bindE (attachment env target k) (\<lambda>(key, k').
            Inr (set_attrs [(''href'', ''#sources''), (''data-download'', key),
                            (''title'', ''Download embedded '' @ path_name target @ cite line)] ats, k'))
          else if is_relative_to target (docs env) then Inl (ValueError ''link to unretained artifact'')
          else Inr (set_attrs [(''href'', relpath target (path_parent (k_output k)) @
                                  (if u_fragment u \<noteq> [] then ''#'' @ u_fragment u else [])),
                               (''title'', ''Source reference; requires the repository checkout'' @ cite line)] ats, k))"

definition link_attr :: "environment \<Rightarrow> ppath \<Rightarrow> attrs \<times> compiler \<Rightarrow> (attrs \<times> compiler) res" where
  "link_attr env here s =
     (case map_of (fst s) ''href'' of
        None \<Rightarrow> Inr s
      | Some v \<Rightarrow> bindE (urlsplit env (case v of None \<Rightarrow> [] | Some h \<Rightarrow> h)) (\<lambda>u.
          if u_scheme u = [] \<and> u_netloc u = []
          then bindE (link_target env here u) (\<lambda>tl'. rewrite_link env u tl' s)
          else Inr s))"

definition image_attr :: "environment \<Rightarrow> ppath \<Rightarrow> attrs \<Rightarrow> attrs res" where
  "image_attr env here ats =
     bindE (of_option (KeyError ''src'') (map_of ats ''src'')) (\<lambda>v.
     bindE (of_option TypeError v) (\<lambda>src.
     let target = resolve (join_path (path_parent here) src) in
     bindE (read_bytes (e_files env) target) (\<lambda>raw.
       let mime = (case e_guess_type env (path_name target) of
                     None \<Rightarrow> ''application/octet-stream'' | Some m \<Rightarrow> if m = [] then ''application/octet-stream'' else m)
       in Inr (set_attrs [(''src'', ''data:'' @ mime @ '';base64,'' @ b64encode raw), (''loading'', ''lazy'')] ats))))"

definition heading :: "string \<Rightarrow> string" where
  "heading tag =
     (if tag \<in> {''h1'', ''h2'', ''h3'', ''h4'', ''h5''}
      then ''h'' @ str_of_int (digit_val (tag ! 1) + 1) else tag)"

definition table_open :: string where
  "table_open = ''<div class='' @ in_quotes ''table-scroll'' @ '' tabindex='' @ in_quotes ''0'' @ '' role='' @ in_quotes ''region''
     @ '' aria-label='' @ in_quotes ''Measurement table'' @ ''>''"

definition render_attr :: "string \<times> string option \<Rightarrow> string" where
  "render_attr kv =
     (case snd kv of Some v \<Rightarrow> '' '' @ fst kv @ ''='' @ in_quotes (escape v) | None \<Rightarrow> '' '' @ fst kv)"

definition render_tag :: "string \<Rightarrow> attrs \<Rightarrow> string" where
  "render_tag tag ats = ''<'' @ tag @ concat (map render_attr ats) @ ''>''"

record page =
  g_compiler :: compiler
  g_parts :: "string list"

definition emit_part :: "string \<Rightarrow> page \<Rightarrow> page" where
  "emit_part s g = g\<lparr>g_parts := g_parts g @ [s]\<rparr>"

definition handle_starttag :: "environment \<Rightarrow> string \<Rightarrow> ppath \<Rightarrow> string \<Rightarrow> attrs \<Rightarrow> page \<Rightarrow> page res" where
  "handle_starttag env name here tag attributes g =
     bindE (let ats = id_attr name (dict_of attributes)
            in if tag = ''a'' then link_attr env here (ats, g_compiler g) else Inr (ats, g_compiler g)) (\<lambda>(ats, k).
     bindE (if tag = ''img'' then image_attr env here ats else Inr ats) (\<lambda>ats.
       let g = g\<lparr>g_compiler := k\<rparr>;
           g = (if tag = ''table'' then emit_part table_open g else g)
       in Inr (emit_part (render_tag (heading tag) ats) g)))"

definition handle_endtag :: "string \<Rightarrow> page \<Rightarrow> page" where
  "handle_endtag tag g =
     (let g = emit_part (''</'' @ heading tag @ ''>'') g
      in if tag = ''table'' then emit_part ''</div>'' g else g)"

definition void_tags :: "string list" where
  "void_tags = [''img'', ''br'', ''hr'', ''input'', ''meta'', ''link'']"

definition handle_startendtag :: "environment \<Rightarrow> string \<Rightarrow> ppath \<Rightarrow> string \<Rightarrow> attrs \<Rightarrow> page \<Rightarrow> page res" where
  "handle_startendtag env name here tag attributes g =
     bindE (handle_starttag env name here tag attributes g) (\<lambda>g.
     Inr (if tag \<in> set void_tags then g else handle_endtag tag g))"

text \<open>The callbacks of \<open>HTMLParser\<close> (created with \<open>convert_charrefs=False\<close>) that \<open>ReportHtml\<close> defines.\<close>

datatype html_event =
    Start_Tag string attrs
  | Start_End_Tag string attrs
  | End_Tag string
  | Data string
  | Entity_Ref string
  | Char_Ref string

fun handle :: "environment \<Rightarrow> string \<Rightarrow> ppath \<Rightarrow> html_event \<Rightarrow> page \<Rightarrow> page res" where
  "handle env name here (Start_Tag tag ats) g = handle_starttag env name here tag ats g"
| "handle env name here (Start_End_Tag tag ats) g = handle_startendtag env name here tag ats g"
| "handle env name here (End_Tag tag) g = Inr (handle_endtag tag g)"
| "handle env name here (Data s) g = Inr (emit_part s g)"
| "handle env name here (Entity_Ref n) g = Inr (emit_part (''&'' @ n @ '';'') g)"
| "handle env name here (Char_Ref n) g = Inr (emit_part (''&#'' @ n @ '';'') g)"

section \<open>Documents\<close>

text \<open>The Markdown package: the callbacks caused by the converted text and its table of contents.\<close>

datatype toc = Toc (toc_id: string) (toc_name: string) (toc_children: "toc list")

type_synonym markdown = "string \<Rightarrow> html_event list \<times> toc list"

definition nav_link :: "string \<Rightarrow> toc \<Rightarrow> string" where
  "nav_link name item =
     ''<a href='' @ in_quotes (''#'' @ name @ ''--'' @ escape (toc_id item)) @ ''>'' @ escape (toc_name item) @ ''</a>''"

definition render :: "environment \<Rightarrow> markdown \<Rightarrow> string \<Rightarrow> ppath \<Rightarrow> compiler \<Rightarrow> ((string \<times> string) \<times> compiler) res" where
  "render env md name here k =
     bindE (read_bytes (e_files env) here) (\<lambda>source.
     let (events, tokens) = md source in
     bindE (foldE (handle env name here) events \<lparr>g_compiler = k, g_parts = []\<rparr>) (\<lambda>g.
       let sections = (if tokens \<noteq> [] then toc_children (hd tokens) else [])
       in Inr ((concat (g_parts g), concat (map (nav_link name) sections)), g_compiler g)))"

definition render_reports ::
  "environment \<Rightarrow> markdown \<Rightarrow> (string \<times> string \<times> string) list \<Rightarrow> compiler \<Rightarrow> ((string \<times> string \<times> string) list \<times> compiler) res" where
  "render_reports env md reports k =
     foldE (\<lambda>(name, p, title) (rendered, k).
       bindE (render env md name (join_path (e_root env) p) k) (\<lambda>((content, nav), k).
       Inr (dict_set name (title, content) rendered, k))) reports ([], k)"

text \<open>
  The first half of \<open>main\<close>: the overview and every report are rendered, then every report and every
  JSON file directly in \<open>docs/runs\<close> is embedded.
\<close>

definition report_path :: "environment \<Rightarrow> string \<times> string \<times> string \<Rightarrow> ppath" where
  "report_path env r = join_path (e_root env) (fst (snd r))"

definition run_catalogs :: "environment \<Rightarrow> ppath list" where
  "run_catalogs env =
     sort (filter (\<lambda>q. path_parent q = docs env @ [''runs''] \<and> endswith (path_name q) ''.json'') (map fst (e_files env)))"

definition compile_documents ::
  "environment \<Rightarrow> markdown \<Rightarrow> ppath \<Rightarrow> string \<times> string \<times> string \<Rightarrow> (string \<times> string \<times> string) list \<Rightarrow>
   ((string \<times> string) \<times> (string \<times> string \<times> string) list \<times> compiler) res" where
  "compile_documents env md output overview reports =
     bindE (render env md (fst overview) (report_path env overview) (new_compiler env output (overview # reports))) (\<lambda>(document, k).
     bindE (render_reports env md reports k) (\<lambda>(rendered, k).
     bindE (attach_all env (map (report_path env) (overview # reports)) k) (\<lambda>k.
     bindE (attach_all env (run_catalogs env) k) (\<lambda>k. Inr (document, rendered, k)))))"

definition history_note :: "string \<Rightarrow> string" where
  "history_note name =
     (if name = ''wrap-up'' then ''Current wrap-up; preference updated after the investigation stopped.''
      else if name = ''http2-comparison''
      then ''September 14 HTTP/2 measurements: local loopback clients on separate physical cores. ''
           @ ''The remote load host was not used.''
      else if name = ''http2-lan''
      then ''September 14 HTTP/2 LAN measurements: separate load host client.example, ''
           @ ''four streams per connection, with all failures retained.''
      else if name = ''http2-diagnosis''
      then ''September 14 follow-up: 18 separate ZHTPS diagnostic trials. ''
           @ ''The original comparison is preserved.''
      else if name = ''bun-http2-review''
      then ''September 14 source review: ranked opportunities for ZHTPS multi-worker performance. ''
           @ ''No production changes or new benchmark results.''
      else if name = ''bun-http2-implementation''
      then ''Sequential optimization experiments. Retain/revert decisions are separate from the original runtime comparison.''
      else ''Historical report. Read the final conclusions for current acceptance and decisions; ''
           @ ''historical next steps are not scheduled work.'')"

definition archive_entry :: "(string \<times> string \<times> string) list \<Rightarrow> string \<Rightarrow> string \<Rightarrow> string res" where
  "archive_entry rendered key name =
     bindE (of_option (KeyError name) (map_of rendered name)) (\<lambda>(report_title, content).
     Inr (''<details class='' @ in_quotes ''archive report-entry'' @ '' id='' @ in_quotes name @ '' data-group='' @ in_quotes key @ ''>''
       @ ''<summary>'' @ escape report_title @ ''</summary><div class='' @ in_quotes ''prose archive-body'' @ ''>''
       @ ''<p class='' @ in_quotes ''history-note'' @ ''>'' @ history_note name @ ''</p>'' @ content @ ''</div></details>''))"

definition archive_group :: "(string \<times> string \<times> string) list \<Rightarrow> string \<times> string \<times> string list \<Rightarrow> string list res" where
  "archive_group rendered grp =
     (let (key, title, names) = grp in
      bindE (mapE (archive_entry rendered key) names) (\<lambda>entries.
      Inr ((''<div class='' @ in_quotes ''report-group'' @ '' id='' @ in_quotes (''group-'' @ key) @ ''><h3>'' @ escape title @ ''</h3>'')
           # entries @ [''</div>''])))"

definition archive_navigation :: "string \<times> string \<times> string list \<Rightarrow> string" where
  "archive_navigation grp =
     ''<a href='' @ in_quotes (''#group-'' @ fst grp) @ ''>'' @ escape (fst (snd grp)) @ ''</a>''"

definition archives :: "(string \<times> string \<times> string) list \<Rightarrow> (string \<times> string \<times> string list) list \<Rightarrow> (string \<times> string) res" where
  "archives rendered grouped =
     bindE (mapE (archive_group rendered) grouped) (\<lambda>ps.
     Inr (concat (concat ps), concat (map archive_navigation grouped)))"

section \<open>Data in the page\<close>

fun commas_rev :: "string \<Rightarrow> string" where
  "commas_rev (a # b # c # d # r) = a # b # c # CHR '','' # commas_rev (d # r)"
| "commas_rev s = s"

definition thousands :: "int \<Rightarrow> string" where
  "thousands n = rev (commas_rev (rev (str_of_nat n)))"

definition download_link :: "string \<times> attached \<Rightarrow> string" where
  "download_link kv =
     ''<a href='' @ in_quotes ''#sources'' @ '' data-download='' @ in_quotes (escape (fst kv)) @ '' '' @
     ''title='' @ in_quotes (thousands (a_bytes (snd kv)) @ '' bytes '' @ [CHR 0xB7] @ '' SHA-256 '' @ a_sha256 (snd kv)) @ ''>''
     @ escape (fst kv) @ ''</a>''"

definition downloads :: "compiler \<Rightarrow> string" where
  "downloads k = concat (map download_link (sort_key fst (k_attachments k)))"

fun dumps_c :: "(rat \<Rightarrow> string) \<Rightarrow> val \<Rightarrow> string"
  and dumps_c_list :: "(rat \<Rightarrow> string) \<Rightarrow> val list \<Rightarrow> string list"
  and dumps_c_dict :: "(rat \<Rightarrow> string) \<Rightarrow> (string \<times> val) list \<Rightarrow> string list" where
  "dumps_c fr VNone = ''null''"
| "dumps_c fr (VBool b) = (if b then ''true'' else ''false'')"
| "dumps_c fr (VInt n) = str_of_int n"
| "dumps_c fr (VFloat x) = fr x"
| "dumps_c fr (VStr s) = json_string s"
| "dumps_c fr (VList xs) = ''['' @ join '','' (dumps_c_list fr xs) @ '']''"
| "dumps_c fr (VDict d) = ''{'' @ join '','' (dumps_c_dict fr d) @ ''}''"
| "dumps_c_list fr [] = []"
| "dumps_c_list fr (x # xs) = dumps_c fr x # dumps_c_list fr xs"
| "dumps_c_dict fr [] = []"
| "dumps_c_dict fr ((k, v) # d) = (json_string k @ '':'' @ dumps_c fr v) # dumps_c_dict fr d"

definition lt_escape :: string where
  "lt_escape = CHR 0x5C # ''u003c''"

definition embedded_json :: "(rat \<Rightarrow> string) \<Rightarrow> val \<Rightarrow> string" where
  "embedded_json fr v = replace_sub ''<'' lt_escape (dumps_c fr v)"

definition attachments_value :: "compiler \<Rightarrow> val" where
  "attachments_value k =
     VDict [(''files'', VDict (map (\<lambda>(key, a). (key, VDict [(''name'', VStr (a_name a)), (''bytes'', VInt (a_bytes a)),
              (''sha256'', VStr (a_sha256 a))])) (k_attachments k))),
            (''payloads'', VDict (map (\<lambda>(digest, p). (digest, VDict [(''encoding'', VStr (p_encoding p)),
              (''base64'', VStr (p_base64 p))])) (k_payloads k)))]"

text \<open>\<open>recorded_result\<close>: \<open>catalog group\<close> is the parsed \<open>docs/runs/<group>.json\<close>.\<close>

definition recorded_result :: "(string \<Rightarrow> val res) \<Rightarrow> string \<Rightarrow> val res" where
  "recorded_result catalog original =
     (let parts = path_parts original;
          grp = (if length parts > 2 then parts ! 1 else ''standalone'')
      in bindE (catalog grp) (\<lambda>c.
         bindE (idx c ''schema_version'') (\<lambda>v.
         seqE (ensure (py_eq v (VInt 1)) (ValueError ''unsupported run catalog schema''))
         (path c [''records'', original, ''record'']))))"

text \<open>The end of \<open>main\<close>: the template, the section inserted first, and the markers in their order.\<close>

definition fill_marker :: "string \<times> string \<Rightarrow> string \<Rightarrow> string res" where
  "fill_marker mr html =
     seqE (ensure (is_infix (fst mr) html) (ValueError ''missing template marker''))
     (Inr (replace_sub (fst mr) (snd mr) html))"

definition fill_template :: "string \<Rightarrow> string \<Rightarrow> (string \<times> string) list \<Rightarrow> string res" where
  "fill_template template lan_section replacements =
     foldE fill_marker replacements (replace_sub ''@@HTTP2_LAN_SECTION@@'' lan_section template)"

section \<open>What is embedded\<close>

text \<open>The bytes a payload stands for, once the page's script has decoded it.\<close>

definition unpack :: "(string \<Rightarrow> string) \<Rightarrow> payload \<Rightarrow> string option" where
  "unpack gunzip p = map_option (if p_encoding p = ''gzip'' then gunzip else id) (b64decode (p_base64 p))"

definition describes :: "environment \<Rightarrow> ppath \<Rightarrow> string \<Rightarrow> attached \<Rightarrow> bool" where
  "describes env p raw a \<longleftrightarrow>
     map_of (e_files env) p = Some raw \<and> retained_document env p \<and>
     a = \<lparr>a_name = path_name p, a_bytes = int (length raw), a_sha256 = e_sha256 env raw\<rparr>"

definition embeds :: "environment \<Rightarrow> compiler \<Rightarrow> bool" where
  "embeds env k \<longleftrightarrow>
     (\<forall>key a. map_of (k_attachments k) key = Some a \<longrightarrow>
        (\<exists>p raw. describes env p raw a \<and> key = relpath p (e_root env) \<and> map_of (k_payloads k) (a_sha256 a) \<noteq> None)) \<and>
     (\<forall>digest pl. map_of (k_payloads k) digest = Some pl \<longrightarrow>
        (\<exists>p raw. map_of (e_files env) p = Some raw \<and> digest = e_sha256 env raw \<and> pl = make_payload env raw))"

text \<open>A later state of the compiler has the same settings and every attachment of the earlier one.\<close>

definition extends :: "compiler \<Rightarrow> compiler \<Rightarrow> bool" where
  "extends k k' \<longleftrightarrow> k_output k' = k_output k \<and> k_documents k' = k_documents k \<and>
     map_of (k_attachments k) \<subseteq>\<^sub>m map_of (k_attachments k')"

definition grows :: "environment \<Rightarrow> compiler \<Rightarrow> compiler \<Rightarrow> bool" where
  "grows env k k' \<longleftrightarrow> (embeds env k \<longrightarrow> embeds env k') \<and> extends k k'"

lemma grows_refl [simp]: "grows env k k"
  by (simp add: grows_def extends_def)

lemma grows_trans: "grows env k k1 \<Longrightarrow> grows env k1 k2 \<Longrightarrow> grows env k k2"
  by (auto simp: grows_def extends_def intro: map_le_trans)

lemma embeds_new [simp]: "embeds env (new_compiler env output reports)"
  by (simp add: embeds_def new_compiler_def)

lemma unpack_make_payload:
  assumes "\<And>x. gunzip (e_gzip env x) = x"
  shows "unpack gunzip (make_payload env raw) = Some raw"
  using assms by (simp add: unpack_def make_payload_def Let_def b64_roundtrip)

lemma resolve_no_up: "''..'' \<notin> set (resolve p)"
proof -
  have "''..'' \<notin> set (fold (\<lambda>c acc. if c = ''..'' then drop 1 acc else c # acc) p acc)" if "''..'' \<notin> set acc" for acc
    using that
  proof (induction p arbitrary: acc)
    case (Cons c p)
    have "''..'' \<notin> set (if c = ''..'' then drop 1 acc else c # acc)"
      using Cons.prems by (auto dest: in_set_dropD)
    then show ?case using Cons.IH by simp
  qed simp
  then show ?thesis by (simp add: resolve_def)
qed

lemma resolve_id: "''..'' \<notin> set p \<Longrightarrow> resolve p = p"
proof -
  have "''..'' \<notin> set p \<Longrightarrow> fold (\<lambda>c acc. if c = ''..'' then drop 1 acc else c # acc) p acc = rev p @ acc" for acc
    by (induction p arbitrary: acc) auto
  then show "''..'' \<notin> set p \<Longrightarrow> resolve p = p" by (simp add: resolve_def)
qed

lemma resolve_idem [simp]: "resolve (resolve p) = resolve p"
  by (rule resolve_id [OF resolve_no_up])

lemma attachment_elim:
  assumes "attachment env p k = Inr (key, k')"
  obtains (old) "retained_document env (resolve p)" and "key = relpath (resolve p) (e_root env)"
      and "map_of (k_attachments k) key \<noteq> None" and "k' = k"
  | (new) raw where "retained_document env (resolve p)" and "key = relpath (resolve p) (e_root env)"
      and "map_of (k_attachments k) key = None" and "map_of (e_files env) (resolve p) = Some raw"
      and "k' = add_attachment env (resolve p) key raw k"
  using assms by (auto simp: attachment_def source_key_def read_bytes_def Let_def py_ok split: if_splits)

lemma add_attachment_attachments:
  "map_of (k_attachments (add_attachment env p key raw k)) = (map_of (k_attachments k))
     (key \<mapsto> \<lparr>a_name = path_name p, a_bytes = int (length raw), a_sha256 = e_sha256 env raw\<rparr>)"
  by (simp add: add_attachment_def Let_def map_of_dict_set)

lemma add_attachment_payloads:
  "map_of (k_payloads (add_attachment env p key raw k)) = (if map_of (k_payloads k) (e_sha256 env raw) = None
     then (map_of (k_payloads k))(e_sha256 env raw \<mapsto> make_payload env raw) else map_of (k_payloads k))"
  by (simp add: add_attachment_def Let_def map_of_dict_set)

lemma add_attachment_grows:
  assumes "map_of (k_attachments k) key = None" and "map_of (e_files env) p = Some raw"
    and "retained_document env p" and "key = relpath p (e_root env)"
  shows "grows env k (add_attachment env p key raw k)"
proof -
  let ?k = "add_attachment env p key raw k"
  have "extends k ?k"
    unfolding extends_def add_attachment_attachments using assms(1)
    by (simp add: add_attachment_def Let_def map_le_def dom_def)
  moreover have "embeds env ?k" if "embeds env k"
    unfolding embeds_def add_attachment_attachments add_attachment_payloads
  proof (intro conjI allI impI)
    fix key' a
    assume "((map_of (k_attachments k))(key \<mapsto> \<lparr>a_name = path_name p, a_bytes = int (length raw), a_sha256 = e_sha256 env raw\<rparr>)) key' = Some a"
    then show "\<exists>p raw'. describes env p raw' a \<and> key' = relpath p (e_root env) \<and>
       (if map_of (k_payloads k) (e_sha256 env raw) = None
        then (map_of (k_payloads k))(e_sha256 env raw \<mapsto> make_payload env raw) else map_of (k_payloads k)) (a_sha256 a) \<noteq> None"
      using assms that by (fastforce simp: embeds_def describes_def split: if_splits)
  next
    fix digest pl
    assume "(if map_of (k_payloads k) (e_sha256 env raw) = None
        then (map_of (k_payloads k))(e_sha256 env raw \<mapsto> make_payload env raw) else map_of (k_payloads k)) digest = Some pl"
    then have "digest = e_sha256 env raw \<and> pl = make_payload env raw \<or> map_of (k_payloads k) digest = Some pl"
      by (auto split: if_splits)
    then show "\<exists>p raw. map_of (e_files env) p = Some raw \<and> digest = e_sha256 env raw \<and> pl = make_payload env raw"
      using assms(2) that unfolding embeds_def by blast
  qed
  ultimately show ?thesis by (simp add: grows_def)
qed

lemma attachment_grows:
  assumes "attachment env p k = Inr (key, k')"
  shows "grows env k k'" and "key = relpath (resolve p) (e_root env)" and "map_of (k_attachments k') key \<noteq> None"
  using assms
  by (auto elim!: attachment_elim intro: add_attachment_grows simp: add_attachment_attachments)

lemma map_le_not_None: "m \<subseteq>\<^sub>m m' \<Longrightarrow> m x \<noteq> None \<Longrightarrow> m' x \<noteq> None"
  by (auto simp: map_le_def dom_def)

lemma attach_all_grows:
  assumes "attach_all env ps k = Inr k'"
  shows "grows env k k' \<and> (\<forall>p \<in> set ps. map_of (k_attachments k') (relpath (resolve p) (e_root env)) \<noteq> None)"
  using assms unfolding attach_all_def
proof (induction ps arbitrary: k)
  case (Cons p ps)
  obtain key k1 where k1: "attachment env p k = Inr (key, k1)"
    and rest: "foldE (\<lambda>p k. bindE (attachment env p k) (\<lambda>(key, k'). Inr k')) ps k1 = Inr k'"
    using Cons.prems by (auto simp: bindE_eq_Inr)
  note IH = Cons.IH [OF rest]
  have "map_of (k_attachments k1) \<subseteq>\<^sub>m map_of (k_attachments k')" using IH by (simp add: grows_def extends_def)
  then have "map_of (k_attachments k') (relpath (resolve p) (e_root env)) \<noteq> None"
    using map_le_not_None attachment_grows(2,3) [OF k1] by fastforce
  moreover have "grows env k k'" using grows_trans [OF attachment_grows(1) [OF k1]] IH by blast
  ultimately show ?case using IH by simp
qed simp

lemma attach_directory_grows: "attach_directory env p k = Inr (prefix, k') \<Longrightarrow> grows env k k'"
  by (auto simp: attach_directory_def bindE_eq_Inr dest: attach_all_grows)

lemma rewrite_link_elim:
  assumes "rewrite_link env u (target, line) (ats, k) = Inr (ats', k')"
  obtains (top) "target = docs env @ [''benchmarks.html''] \<or> target = k_output k" and "k' = k"
      and "ats' = set_attrs [(''href'', ''#top'')] ats"
  | (report) anchor where "map_of (k_documents k) target = Some anchor" and "k' = k"
      and "ats' = set_attrs [(''href'', if u_fragment u \<noteq> [] then ''#'' @ anchor @ ''--'' @ u_fragment u else ''#'' @ anchor)] ats"
  | (directory) prefix where "attach_directory env target k = Inr (prefix, k')" and "is_relative_to target (docs env)"
      and "ats' = set_attrs [(''href'', ''#sources''), (''data-source-prefix'', prefix),
        (''title'', ''Browse embedded files in '' @ prefix)] ats"
  | (retained) key where "attachment env target k = Inr (key, k')" and "retained_document env target"
      and "ats' = set_attrs [(''href'', ''#sources''), (''data-download'', key),
        (''title'', ''Download embedded '' @ path_name target @ cite line)] ats"
  | (outside) "\<not> is_relative_to target (docs env)" and "k' = k"
      and "ats' = set_attrs [(''href'', relpath target (path_parent (k_output k)) @
          (if u_fragment u \<noteq> [] then ''#'' @ u_fragment u else [])),
        (''title'', ''Source reference; requires the repository checkout'' @ cite line)] ats"
proof -
  note eq = assms [unfolded rewrite_link_def Let_def prod.case]
  show thesis
  proof (cases "target = docs env @ [''benchmarks.html''] \<or> target = k_output k")
    case True
    then have "Inr (set_attrs [(''href'', ''#top'')] ats, k) = (Inr (ats', k') :: (attrs \<times> compiler) res)"
      using eq by (simp only: if_True)
    then show thesis using True by (intro top) simp_all
  next
    case no_top: False
    show thesis
    proof (cases "map_of (k_documents k) target")
      case (Some anchor)
      show thesis
        by (rule report [OF Some]) (use eq in \<open>simp_all only: no_top Some if_False option.case sum.inject prod.inject\<close>)
    next
      case no_doc: None
      note eq = eq [unfolded if_not_P [OF no_top] no_doc option.case]
      show thesis
      proof (cases "is_dir (e_files env) target \<and> is_relative_to target (docs env)")
        case True
        then obtain prefix k1 where d: "attach_directory env target k = Inr (prefix, k1)"
          using eq by (cases "attach_directory env target k") auto
        show thesis
          by (rule directory [of prefix]) (use eq True d in simp_all)
      next
        case no_dir: False
        note eq = eq [unfolded if_not_P [OF no_dir]]
        show thesis
        proof (cases "retained_document env target")
          case True
          then obtain key k1 where d: "attachment env target k = Inr (key, k1)"
            using eq by (cases "attachment env target k") auto
          show thesis
            by (rule retained [of key]) (use eq True d in simp_all)
        next
          case False
          note eq = eq [unfolded if_not_P [OF False]]
          have out: "\<not> is_relative_to target (docs env)" using eq by (auto split: if_splits)
          show thesis
            by (rule outside [OF out]) (use eq [unfolded if_not_P [OF out]] in \<open>auto simp only: sum.inject prod.inject\<close>)
        qed
      qed
    qed
  qed
qed

lemma rewrite_link_grows: "rewrite_link env u (target, line) (ats, k) = Inr (ats', k') \<Longrightarrow> grows env k k'"
  by (erule rewrite_link_elim) (auto dest: attach_directory_grows attachment_grows(1))

lemma link_attr_grows:
  assumes "link_attr env here (ats, k) = Inr (ats', k')"
  shows "grows env k k'"
proof -
  consider "k' = k" | u target line where "rewrite_link env u (target, line) (ats, k) = Inr (ats', k')"
    using assms unfolding link_attr_def fst_conv by (auto simp: bindE_eq_Inr split: option.splits if_splits)
  then show ?thesis by cases (auto dest: rewrite_link_grows)
qed

lemma handle_starttag_grows:
  assumes "handle_starttag env name here tag ats g = Inr g'"
  shows "grows env (g_compiler g) (g_compiler g')"
proof -
  obtain at' k where s: "(if tag = ''a'' then link_attr env here (id_attr name (dict_of ats), g_compiler g)
      else Inr (id_attr name (dict_of ats), g_compiler g)) = Inr (at', k)" and "g_compiler g' = k"
    using assms by (auto simp: handle_starttag_def bindE_eq_Inr Let_def emit_part_def split: if_splits)
  then show ?thesis by (auto split: if_splits dest: link_attr_grows)
qed

lemma handle_grows: "handle env name here e g = Inr g' \<Longrightarrow> grows env (g_compiler g) (g_compiler g')"
  by (cases e) (auto simp: handle_startendtag_def handle_endtag_def emit_part_def bindE_eq_Inr Let_def
      split: if_splits dest: handle_starttag_grows)

lemma render_grows:
  assumes "render env md name here k = Inr (r, k')"
  shows "grows env k k'"
proof -
  obtain events g where run: "foldE (handle env name here) events \<lparr>g_compiler = k, g_parts = []\<rparr> = Inr g" and k': "k' = g_compiler g"
    using assms by (auto simp: render_def bindE_eq_Inr Let_def case_prod_beta)
  have "grows env k (g_compiler g)"
    by (rule foldE_invariant [OF run]) (auto intro: grows_trans [OF _ handle_grows])
  then show ?thesis using k' by simp
qed

lemma render_reports_grows:
  assumes "render_reports env md reports k = Inr (rendered, k')"
  shows "grows env k k'"
proof -
  have "grows env k (snd s)" if "foldE (\<lambda>(name, p, title) (rendered, k).
       bindE (render env md name (join_path (e_root env) p) k) (\<lambda>((content, nav), k).
       Inr (dict_set name (title, content) rendered, k))) reports ([], k) = Inr s" for s
    by (rule foldE_invariant [OF that]) (auto simp: bindE_eq_Inr intro: grows_trans [OF _ render_grows])
  from this [OF assms [unfolded render_reports_def]] show ?thesis by simp
qed

lemma compile_documents_elim:
  assumes "compile_documents env md output overview reports = Inr (document, rendered, k)"
  obtains "embeds env k" and "\<forall>p \<in> set (map (report_path env) (overview # reports)) \<union> set (run_catalogs env).
      map_of (k_attachments k) (relpath (resolve p) (e_root env)) \<noteq> None"
    and "extends (new_compiler env output (overview # reports)) k"
proof -
  let ?k0 = "new_compiler env output (overview # reports)"
  obtain k1 k2 k3 where r: "render env md (fst overview) (report_path env overview) ?k0 = Inr (document, k1)"
    "render_reports env md reports k1 = Inr (rendered, k2)"
    "attach_all env (map (report_path env) (overview # reports)) k2 = Inr k3"
    "attach_all env (run_catalogs env) k3 = Inr k"
    using assms by (auto simp: compile_documents_def bindE_eq_Inr)
  have g3: "grows env ?k0 k3" using r render_grows render_reports_grows attach_all_grows grows_trans by metis
  have g4: "grows env k3 k" using attach_all_grows [OF r(4)] by blast
  have le: "map_of (k_attachments k3) \<subseteq>\<^sub>m map_of (k_attachments k)" using g4 by (simp add: grows_def extends_def)
  have "grows env ?k0 k" using grows_trans [OF g3 g4] .
  then have "embeds env k" "extends ?k0 k" by (simp_all add: grows_def)
  moreover have "\<forall>p \<in> set (map (report_path env) (overview # reports)). map_of (k_attachments k) (relpath (resolve p) (e_root env)) \<noteq> None"
    using attach_all_grows [OF r(3)] map_le_not_None [OF le] by blast
  moreover have "\<forall>p \<in> set (run_catalogs env). map_of (k_attachments k) (relpath (resolve p) (e_root env)) \<noteq> None"
    using attach_all_grows [OF r(4)] by blast
  ultimately show thesis using that by blast
qed

text \<open>
  C27: the compiled page carries what it cites.  Every embedded entry is a retained report or summary of
  the checkout, under its path relative to the checkout, with its size and digest, and the payload
  stored under that digest decodes to exactly the bytes of the file; every report and every run
  catalog is embedded.  The hypotheses say that decompression inverts compression and that no two
  different files of the checkout share a digest.
\<close>

theorem compile_embeds_sources:
  assumes "compile_documents env md output overview reports = Inr (document, rendered, k)"
    and gzip: "\<forall>x. gunzip (e_gzip env x) = x"
    and sha: "\<forall>(p, raw) \<in> set (e_files env). \<forall>(q, raw') \<in> set (e_files env).
      e_sha256 env raw = e_sha256 env raw' \<longrightarrow> raw = raw'"
  shows "(\<forall>key a. map_of (k_attachments k) key = Some a \<longrightarrow>
      (\<exists>p raw pl. key = relpath p (e_root env) \<and> retained_document env p \<and> map_of (e_files env) p = Some raw \<and>
         a = \<lparr>a_name = path_name p, a_bytes = int (length raw), a_sha256 = e_sha256 env raw\<rparr> \<and>
         map_of (k_payloads k) (a_sha256 a) = Some pl \<and> unpack gunzip pl = Some raw)) \<and>
    (\<forall>p \<in> set (map (report_path env) (overview # reports)) \<union> set (run_catalogs env).
      map_of (k_attachments k) (relpath (resolve p) (e_root env)) \<noteq> None)"
proof (intro conjI allI impI)
  obtain emb: "embeds env k" and att: "\<forall>p \<in> set (map (report_path env) (overview # reports)) \<union> set (run_catalogs env).
      map_of (k_attachments k) (relpath (resolve p) (e_root env)) \<noteq> None"
    by (rule compile_documents_elim [OF assms(1)])
  show "\<forall>p \<in> set (map (report_path env) (overview # reports)) \<union> set (run_catalogs env).
      map_of (k_attachments k) (relpath (resolve p) (e_root env)) \<noteq> None" by (rule att)
  fix key a
  assume a: "map_of (k_attachments k) key = Some a"
  obtain p raw pl where d: "describes env p raw a" "key = relpath p (e_root env)" "map_of (k_payloads k) (a_sha256 a) = Some pl"
    using emb a unfolding embeds_def by blast
  obtain q raw' where q: "map_of (e_files env) q = Some raw'" "a_sha256 a = e_sha256 env raw'" "pl = make_payload env raw'"
    using emb d(3) unfolding embeds_def by blast
  have raw: "map_of (e_files env) p = Some raw" "a_sha256 a = e_sha256 env raw" using d(1) by (simp_all add: describes_def)
  have "raw' = raw" using sha map_of_SomeD [OF raw(1)] map_of_SomeD [OF q(1)] raw(2) q(2) by fastforce
  then have "unpack gunzip pl = Some raw" using unpack_make_payload gzip q(3) by simp
  then show "\<exists>p raw pl. key = relpath p (e_root env) \<and> retained_document env p \<and> map_of (e_files env) p = Some raw \<and>
         a = \<lparr>a_name = path_name p, a_bytes = int (length raw), a_sha256 = e_sha256 env raw\<rparr> \<and>
         map_of (k_payloads k) (a_sha256 a) = Some pl \<and> unpack gunzip pl = Some raw"
    using d by (auto simp: describes_def)
qed

text \<open>A checkout with an overview, one report that links to a run catalog, and that catalog.\<close>

definition sample_env :: environment where
  "sample_env = \<lparr>e_root = [''r''],
     e_files = [([''r'', ''docs'', ''o.md''], ''o''), ([''r'', ''docs'', ''a.md''], ''a''), ([''r'', ''docs'', ''runs'', ''x.json''], ''{}'')],
     e_sha256 = (\<lambda>s. s), e_gzip = (\<lambda>s. s), e_utf8 = (\<lambda>s. s), e_guess_type = (\<lambda>s. None), e_bracketed = (\<lambda>s. True)\<rparr>"

definition sample_md :: markdown where
  "sample_md s = (if s = ''a'' then [Start_Tag ''a'' [(''href'', Some ''runs/x.json:3'')], Data ''runs'', End_Tag ''a''] else [Data s], [])"

theorem compile_embeds_sources_witness:
  "\<exists>document rendered k. compile_documents sample_env sample_md [''r'', ''out.html'']
       (''top'', ''docs/o.md'', ''Overview'') [(''a'', ''docs/a.md'', ''A'')] = Inr (document, rendered, k) \<and>
     map_of (k_attachments k) ''docs/runs/x.json'' \<noteq> None"
proof -
  have run: "returns (compile_documents sample_env sample_md [''r'', ''out.html'']
       (''top'', ''docs/o.md'', ''Overview'') [(''a'', ''docs/a.md'', ''A'')])" by code_simp
  then obtain document rendered k where r: "compile_documents sample_env sample_md [''r'', ''out.html'']
       (''top'', ''docs/o.md'', ''Overview'') [(''a'', ''docs/a.md'', ''A'')] = Inr (document, rendered, k)"
    by (auto simp: returns_iff)
  have "[''r'', ''docs'', ''runs'', ''x.json''] \<in> set (run_catalogs sample_env)" by code_simp
  moreover have "relpath (resolve [''r'', ''docs'', ''runs'', ''x.json'']) (e_root sample_env) = ''docs/runs/x.json''" by code_simp
  ultimately have "map_of (k_attachments k) ''docs/runs/x.json'' \<noteq> None"
    using compile_embeds_sources [OF r, of "\<lambda>s. s"] by (force simp: sample_env_def)
  then show ?thesis using r by blast
qed

section \<open>Links stay inside the page\<close>

lemma set_attrs_map_of: "map_of (set_attrs kvs ats) = map_of ats ++ map_of (rev (map (\<lambda>(key, v). (key, Some v)) kvs))"
  by (induction kvs arbitrary: ats) (auto simp: set_attrs_def map_of_dict_set fun_eq_iff map_add_def split: option.splits)

lemma attach_directory_all:
  assumes "attach_directory env p k = Inr (prefix, k')" and "q \<in> set (files_below (e_files env) p)" and "retained_document env q"
  shows "map_of (k_attachments k') (relpath (resolve q) (e_root env)) \<noteq> None"
  using assms by (auto simp: attach_directory_def bindE_eq_Inr dest: attach_all_grows)

text \<open>What a rewritten link may be.\<close>

definition page_link :: "environment \<Rightarrow> compiler \<Rightarrow> ppath \<Rightarrow> attrs \<Rightarrow> bool" where
  "page_link env k target ats \<longleftrightarrow>
     map_of ats ''href'' = Some (Some ''#top'') \<or>
     (\<exists>anchor f. map_of (k_documents k) target = Some anchor \<and> map_of ats ''href'' = Some (Some (''#'' @ anchor @ f))) \<or>
     map_of ats ''href'' = Some (Some ''#sources'') \<and>
       ((\<exists>key. map_of ats ''data-download'' = Some (Some key) \<and> map_of (k_attachments k) key \<noteq> None) \<or>
        (\<exists>prefix. map_of ats ''data-source-prefix'' = Some (Some prefix)) \<and>
        (\<forall>q \<in> set (files_below (e_files env) target). retained_document env q \<longrightarrow>
           map_of (k_attachments k) (relpath (resolve q) (e_root env)) \<noteq> None))"

definition checkout_link :: "environment \<Rightarrow> ppath \<Rightarrow> attrs \<Rightarrow> bool" where
  "checkout_link env target ats \<longleftrightarrow>
     \<not> is_relative_to target (docs env) \<and>
     (\<exists>t. map_of ats ''title'' = Some (Some (''Source reference; requires the repository checkout'' @ t)))"

lemma rewrite_link_kinds:
  assumes "rewrite_link env u (target, line) (ats, k) = Inr (ats', k')"
  shows "page_link env k' target ats' \<or> checkout_link env target ats'"
  using assms
proof (cases rule: rewrite_link_elim)
  case top
  then show ?thesis by (simp add: page_link_def set_attrs_map_of)
next
  case (report anchor)
  have "\<exists>f. map_of ats' ''href'' = Some (Some (''#'' @ anchor @ f))"
    unfolding report(3) by (cases "u_fragment u = []") (auto simp: set_attrs_map_of)
  then show ?thesis using report(1,2) unfolding page_link_def by blast
next
  case (directory prefix)
  have "map_of ats' ''href'' = Some (Some ''#sources'')" "map_of ats' ''data-source-prefix'' = Some (Some prefix)"
    unfolding directory(3) by (simp_all add: set_attrs_map_of)
  then show ?thesis using attach_directory_all [OF directory(1)] unfolding page_link_def by blast
next
  case (retained key)
  have "map_of ats' ''href'' = Some (Some ''#sources'')" "map_of ats' ''data-download'' = Some (Some key)"
    unfolding retained(3) by (simp_all add: set_attrs_map_of)
  then show ?thesis using attachment_grows(3) [OF retained(1)] unfolding page_link_def by blast
next
  case outside
  have "map_of ats' ''title'' = Some (Some (''Source reference; requires the repository checkout'' @ cite line))"
    unfolding outside(3) by (simp add: set_attrs_map_of)
  then show ?thesis using outside(1) unfolding checkout_link_def by blast
qed

text \<open>
  C28: a rewritten link never leaves the page for a document of the archive.  A link with a scheme or a
  host is unchanged.  Every other link becomes the top of the page, the section of the report it names,
  or a download whose embedded entries exist (one entry, or all retained files of a directory); only a
  target outside \<open>docs\<close> stays a path, and its title says that the checkout is needed.
\<close>

theorem link_attr_closed:
  assumes "link_attr env here (ats, k) = Inr (ats', k')" and "map_of ats ''href'' = Some (Some h)"
    and "urlsplit env h = Inr u"
  shows "if u_scheme u \<noteq> [] \<or> u_netloc u \<noteq> [] then ats' = ats \<and> k' = k
    else \<exists>target line. link_target env here u = Inr (target, line) \<and>
      (page_link env k' target ats' \<or> checkout_link env target ats')"
proof (cases "u_scheme u \<noteq> [] \<or> u_netloc u \<noteq> []")
  case True
  then show ?thesis using assms unfolding link_attr_def by auto
next
  case False
  then obtain target line where "link_target env here u = Inr (target, line)"
    and "rewrite_link env u (target, line) (ats, k) = Inr (ats', k')"
    using assms unfolding link_attr_def by (auto simp: bindE_eq_Inr)
  then show ?thesis using rewrite_link_kinds False by auto
qed

theorem link_attr_closed_witness:
  "\<exists>ats' k'. link_attr sample_env [''r'', ''docs'', ''a.md''] ([(''href'', Some ''runs/x.json:3'')],
       new_compiler sample_env [''r'', ''out.html''] []) = Inr (ats', k') \<and>
     (page_link sample_env k' [''r'', ''docs'', ''runs'', ''x.json''] ats' \<or>
      checkout_link sample_env [''r'', ''docs'', ''runs'', ''x.json''] ats')"
proof -
  let ?u = "\<lparr>u_scheme = [], u_netloc = [], u_path = ''runs/x.json:3'', u_fragment = []\<rparr>"
  let ?ats = "[(''href'', Some ''runs/x.json:3'')]"
  have "returns (link_attr sample_env [''r'', ''docs'', ''a.md''] (?ats, new_compiler sample_env [''r'', ''out.html''] []))"
    by code_simp
  then obtain ats' k' where l: "link_attr sample_env [''r'', ''docs'', ''a.md''] (?ats, new_compiler sample_env [''r'', ''out.html''] []) = Inr (ats', k')"
    by (auto simp: returns_iff)
  have u: "urlsplit sample_env ''runs/x.json:3'' = Inr ?u" by code_simp
  have t: "link_target sample_env [''r'', ''docs'', ''a.md''] ?u = Inr ([''r'', ''docs'', ''runs'', ''x.json''], Some ''3'')" by code_simp
  have h: "map_of ?ats ''href'' = Some (Some ''runs/x.json:3'')" by simp
  show ?thesis using link_attr_closed [OF l h u] l t by simp
qed

section \<open>Tags keep their structure\<close>

definition markup :: "string \<Rightarrow> string" where
  "markup s = filter (\<lambda>c. c \<in> {CHR ''<'', CHR ''>'', CHR 0x22}) s"

text \<open>What a reader of the page makes of an attribute value.\<close>

fun unescape :: "string \<Rightarrow> string" where
  "unescape [] = []"
| "unescape (c # cs) =
     (if startswith (c # cs) ''&amp;'' then CHR ''&'' # unescape (drop 4 cs)
      else if startswith (c # cs) ''&lt;'' then CHR ''<'' # unescape (drop 3 cs)
      else if startswith (c # cs) ''&gt;'' then CHR ''>'' # unescape (drop 3 cs)
      else if startswith (c # cs) ''&quot;'' then CHR 0x22 # unescape (drop 5 cs)
      else if startswith (c # cs) ''&#x27;'' then CHR 0x27 # unescape (drop 5 cs)
      else c # unescape cs)"

lemma unescape_escape: "unescape (escape s) = s"
proof (induction s)
  case (Cons c s)
  consider "c = CHR ''&''" | "c = CHR ''<''" | "c = CHR ''>''" | "c = CHR 0x22" | "c = CHR 0x27"
    | "c \<notin> {CHR ''&'', CHR ''<'', CHR ''>'', CHR 0x22, CHR 0x27}" by blast
  then show ?case
    using Cons by cases (simp_all add: escape_def escape_char_def startswith_def)
qed (simp add: escape_def)

lemma markup_append [simp]: "markup (s @ t) = markup s @ markup t"
  by (simp add: markup_def)

lemma markup_simps [simp]:
  "markup [] = []" "markup (c # s) = (if c \<in> {CHR ''<'', CHR ''>'', CHR 0x22} then c # markup s else markup s)"
  by (simp_all add: markup_def)

lemma markup_escape [simp]: "markup (escape s) = []"
  by (induction s) (simp_all add: escape_def escape_char_def)

lemma markup_concat: "markup (concat xs) = concat (map markup xs)"
  by (induction xs) simp_all

definition plain_names :: "(string \<times> 'v) list \<Rightarrow> bool" where
  "plain_names ats \<longleftrightarrow> (\<forall>key \<in> set (map fst ats). markup key = [])"

lemma plain_names_simps [simp]:
  "plain_names []" "plain_names (kv # ats) \<longleftrightarrow> markup (fst kv) = [] \<and> plain_names ats"
  by (simp_all add: plain_names_def)

lemma plain_names_dict_set: "plain_names ats \<Longrightarrow> markup key = [] \<Longrightarrow> plain_names (dict_set key v ats)"
  unfolding plain_names_def dict_set_keys by simp

lemma plain_names_set_attrs: "plain_names ats \<Longrightarrow> plain_names kvs \<Longrightarrow> plain_names (set_attrs kvs ats)"
  by (induction kvs arbitrary: ats) (auto simp: set_attrs_def plain_names_dict_set)

lemma plain_names_dict_of: "plain_names kvs \<Longrightarrow> plain_names (dict_of kvs)"
proof -
  have "plain_names kvs \<Longrightarrow> plain_names d \<Longrightarrow> plain_names (fold (\<lambda>(k, v) d. dict_set k v d) kvs d)" for d
    by (induction kvs arbitrary: d) (auto simp: plain_names_dict_set)
  then show "plain_names kvs \<Longrightarrow> plain_names (dict_of kvs)" by (simp add: dict_of_def)
qed

lemma plain_names_rewrite_link:
  assumes "rewrite_link env u (target, line) (ats, k) = Inr (ats', k')" and "plain_names ats"
  shows "plain_names ats'"
  using assms(1)
proof (cases rule: rewrite_link_elim)
  case top
  show ?thesis unfolding top(3) by (rule plain_names_set_attrs [OF assms(2)]) simp
next
  case (report anchor)
  show ?thesis unfolding report(3) by (rule plain_names_set_attrs [OF assms(2)]) simp
next
  case (directory prefix)
  show ?thesis unfolding directory(3) by (rule plain_names_set_attrs [OF assms(2)]) simp
next
  case (retained key)
  show ?thesis unfolding retained(3) by (rule plain_names_set_attrs [OF assms(2)]) simp
next
  case outside
  show ?thesis unfolding outside(3) by (rule plain_names_set_attrs [OF assms(2)]) simp
qed

lemma plain_names_link_attr:
  assumes "link_attr env here (ats, k) = Inr (ats', k')" and "plain_names ats"
  shows "plain_names ats'"
proof -
  consider "ats' = ats" | u target line where "rewrite_link env u (target, line) (ats, k) = Inr (ats', k')"
    using assms(1) unfolding link_attr_def fst_conv by (auto simp: bindE_eq_Inr split: option.splits if_splits)
  then show ?thesis by cases (auto intro: plain_names_rewrite_link assms(2))
qed

lemma plain_names_image_attr: "image_attr env here ats = Inr ats' \<Longrightarrow> plain_names ats \<Longrightarrow> plain_names ats'"
  unfolding image_attr_def Let_def by (auto simp only: bindE_eq_Inr sum.inject) (rule plain_names_set_attrs, simp_all)

lemma markup_render_attr:
  "markup (fst kv) = [] \<Longrightarrow> markup (render_attr kv) = (\<lambda>(key, v). if v = None then [] else [CHR 0x22, CHR 0x22]) kv"
  by (cases kv) (auto simp: render_attr_def in_quotes_def split: option.splits)

lemma markup_render_tag:
  assumes "plain_names ats" and "markup tag = []"
  shows "markup (render_tag tag ats) = ''<'' @ concat (map (\<lambda>(key, v). if v = None then [] else [CHR 0x22, CHR 0x22]) ats) @ ''>''"
proof -
  have "map (markup \<circ> render_attr) ats = map (\<lambda>(key, v). if v = None then [] else [CHR 0x22, CHR 0x22]) ats"
    using assms(1) markup_render_attr by (auto simp: plain_names_def)
  then have "concat (map (markup \<circ> render_attr) ats) = concat (map (\<lambda>(key, v). if v = None then [] else [CHR 0x22, CHR 0x22]) ats)"
    by (rule arg_cong)
  then show ?thesis using assms(2) by (simp add: render_tag_def markup_concat)
qed

lemma markup_heading: "markup tag = [] \<Longrightarrow> markup (heading tag) = []"
proof -
  have "c \<notin> {CHR ''<'', CHR ''>'', CHR 0x22}" if "c \<in> set (str_of_int i)" for c i
    using str_of_int_chars [OF that] by (auto simp: is_digit_def char_code_def)
  then have "markup (str_of_int i) = []" for i unfolding markup_def by (simp add: filter_empty_conv)
  then show "markup tag = [] \<Longrightarrow> markup (heading tag) = []" unfolding heading_def by simp
qed

text \<open>
  No attribute value can change the structure of a tag.  The text emitted for a start tag opens and
  closes once, has exactly two quotes for each attribute with a value and none otherwise, whatever the
  links, titles, identifiers and embedded images put into the values; and reading a value back gives
  the value itself.  Tag and attribute names come from the parser and contain no markup.
\<close>

theorem starttag_structure:
  assumes "handle_starttag env name here tag attributes g = Inr g'"
    and "markup tag = []" and "\<forall>(key, v) \<in> set attributes. markup key = []"
  shows "\<exists>ats pre. g_parts g' = g_parts g @ pre @ [render_tag (heading tag) ats] \<and>
    markup (render_tag (heading tag) ats) =
      ''<'' @ concat (map (\<lambda>(key, v). if v = None then [] else [CHR 0x22, CHR 0x22]) ats) @ ''>'' \<and>
    (\<forall>key v. (key, Some v) \<in> set ats \<longrightarrow>
       render_attr (key, Some v) = '' '' @ key @ ''='' @ in_quotes (escape v) \<and> unescape (escape v) = v)"
proof -
  obtain at1 k ats where s: "(if tag = ''a'' then link_attr env here (id_attr name (dict_of attributes), g_compiler g)
      else Inr (id_attr name (dict_of attributes), g_compiler g)) = Inr (at1, k)"
    and i: "(if tag = ''img'' then image_attr env here at1 else Inr at1) = Inr ats"
    and g': "g' = emit_part (render_tag (heading tag) ats) (if tag = ''table'' then emit_part table_open (g\<lparr>g_compiler := k\<rparr>) else g\<lparr>g_compiler := k\<rparr>)"
    using assms(1) unfolding handle_starttag_def Let_def by (auto simp: bindE_eq_Inr)
  have "plain_names attributes" using assms(3) by (auto simp: plain_names_def)
  then have "plain_names (id_attr name (dict_of attributes))"
    by (auto simp: id_attr_def plain_names_dict_of intro!: plain_names_dict_set split: option.splits)
  then have "plain_names at1" using s plain_names_link_attr by (auto split: if_splits)
  then have "plain_names ats" using i plain_names_image_attr by (auto split: if_splits)
  then have "markup (render_tag (heading tag) ats) =
      ''<'' @ concat (map (\<lambda>(key, v). if v = None then [] else [CHR 0x22, CHR 0x22]) ats) @ ''>''"
    by (rule markup_render_tag) (rule markup_heading [OF assms(2)])
  moreover have "\<exists>pre. g_parts g' = g_parts g @ pre @ [render_tag (heading tag) ats]"
    using g' by (auto simp: emit_part_def)
  ultimately show ?thesis by (auto simp: render_attr_def unescape_escape)
qed

theorem starttag_structure_witness:
  "\<exists>g' ats pre. handle_starttag sample_env ''a'' [''r'', ''docs'', ''a.md''] ''a'' [(''href'', Some ''runs/x.json''), (''title'', Some (in_quotes ''><''))]
       \<lparr>g_compiler = new_compiler sample_env [''r'', ''out.html''] [], g_parts = []\<rparr> = Inr g' \<and>
     g_parts g' = pre @ [render_tag (heading ''a'') ats] \<and>
     markup (render_tag (heading ''a'') ats) =
       ''<'' @ concat (map (\<lambda>(key, v). if v = None then [] else [CHR 0x22, CHR 0x22]) ats) @ ''>''"
proof -
  let ?run = "handle_starttag sample_env ''a'' [''r'', ''docs'', ''a.md''] ''a'' [(''href'', Some ''runs/x.json''), (''title'', Some (in_quotes ''><''))]
       \<lparr>g_compiler = new_compiler sample_env [''r'', ''out.html''] [], g_parts = []\<rparr>"
  have "returns ?run" by code_simp
  then obtain g' where g': "?run = Inr g'" by (auto simp: returns_iff)
  have plain: "markup ''a'' = []" "\<forall>(key, v) \<in> set [(''href'', Some ''runs/x.json''), (''title'', Some (in_quotes ''><''))]. markup key = []"
    by simp_all
  show ?thesis using starttag_structure [OF g' plain] g' by (simp only: page.select_convs append_Nil) blast
qed

lemma replace_lt_gone: "CHR ''<'' \<notin> set (replace_sub ''<'' lt_escape s)"
proof (induction "length s" arbitrary: s rule: less_induct)
  case less
  show ?case
  proof (cases "cut ''<'' s")
    case None
    have "cut ''<'' s = None \<Longrightarrow> CHR ''<'' \<notin> set s"
      by (induction s) (auto simp: startswith_def split: if_splits)
    then show ?thesis using None by (subst replace_sub.simps) simp
  next
    case (Some ab)
    obtain a b where ab: "ab = (a, b)" by (cases ab)
    have "cut ''<'' s = Some (a, b) \<Longrightarrow> CHR ''<'' \<notin> set a"
      by (induction s arbitrary: a) (auto simp: startswith_def split: if_splits)
    moreover have "length b < length s" using cut_Some [of "''<''" s a b] Some ab by simp
    ultimately show ?thesis using Some ab less by (subst replace_sub.simps) (simp add: lt_escape_def)
  qed
qed

text \<open>Data inside a script element cannot end the element.\<close>

lemma embedded_json_no_tag: "CHR ''<'' \<notin> set (embedded_json fr v)"
  by (simp add: embedded_json_def replace_lt_gone)

end
