(* ===== verification/Access_Log.thy ===== *)
theory Access_Log
  imports Py_Value
begin

text \<open>
  \<open>bench/access_log.py\<close>: request throughput with and without access logs, and the audit of every
  record that reached the sink.  \<open>loads\<close> stands for \<open>json.loads\<close> on one line of the log (its error is
  \<open>ValueError\<close>), \<open>sha256\<close> for the digest, \<open>py_str\<close> for \<open>str\<close> of a value; what the started processes and
  the admin endpoint answer is the record \<open>trial_world\<close>.
\<close>

definition user_agent :: string where
  "user_agent = ''Mozilla/5.0 (X11; Linux x86_64) AppleWebKit/537.36 '' @
     ''(KHTML, like Gecko) Chrome/140.0.0.0 Safari/537.36''"

section \<open>The server's answers\<close>

definition log_metrics :: "(int \<times> val res) res \<Rightarrow> val res" where
  "log_metrics response =
     bindE response (\<lambda>(status, body).
       if status \<noteq> 200 then Inl (RuntimeError (''metrics returned '' @ str_of_int status)) else body)"

definition is_listening :: "val \<Rightarrow> bool" where
  "is_listening v \<longleftrightarrow> v = VStr ''listening'' \<or> v = VStr ''admin_listening''"

definition port_line :: "(string \<Rightarrow> val res) \<Rightarrow> string \<Rightarrow> (string \<times> val) list \<Rightarrow> (string \<times> val) list res" where
  "port_line loads line ports =
     (case loads line of
        Inl (ValueError m) \<Rightarrow> Inr ports
      | Inl e \<Rightarrow> Inl e
      | Inr ev \<Rightarrow>
          bindE (getE ev ''event'') (\<lambda>kind.
            if is_listening kind
            then bindE (str_val kind) (\<lambda>k. bindE (idx ev ''port'') (\<lambda>port. Inr (dict_set k port ports)))
            else Inr ports))"

text \<open>The looks at the log before the deadline: its text, and whether the server has exited after it.\<close>

fun ports_from_log :: "(string \<Rightarrow> val res) \<Rightarrow> (string \<times> bool) list \<Rightarrow> (string \<times> val) list res" where
  "ports_from_log loads [] = Inl (TimeoutError ''server startup'')"
| "ports_from_log loads ((txt, exited) # looks) =
     bindE (foldE (port_line loads) (splitlines txt) []) (\<lambda>ports.
       if length ports = 2 then Inr ports
       else if exited then Inl (RuntimeError txt) else ports_from_log loads looks)"

text \<open>The answers to the polls, each with whether the deadline has passed after it.\<close>

fun drain :: "(val res \<times> bool) list \<Rightarrow> val res" where
  "drain [] = Inl (TimeoutError ''log drain'')"
| "drain ((answer, late) # polls) =
     bindE answer (\<lambda>captured.
     bindE (leE (path captured [''gauges'', ''log_pending'']) (pI 1)) (\<lambda>idle.
       if idle then Inr captured
       else if late then Inl (TimeoutError ''log drain'') else drain polls))"

text \<open>The reads of the pipe up to the first empty one reach the sink.\<close>

definition collect_pipe :: "string list \<Rightarrow> string" where
  "collect_pipe chunks = concat (takeWhile (\<lambda>c. c \<noteq> []) chunks)"

section \<open>Options and commands\<close>

record log_options =
  l_client :: string
  l_offered_client :: "string option"
  l_rate :: int
  l_repeats :: int
  l_seconds :: rat
  l_workers :: int
  l_server_cpus :: string
  l_client_cpus :: string
  l_connections :: int
  l_capacity :: int
  l_depth :: int
  l_log_slots :: int
  l_logging :: string
  l_sink :: string

definition cpu_set_part :: "string \<Rightarrow> int list res" where
  "cpu_set_part part =
     (case partition_on (CHR ''-'') part of (first, separator, last') \<Rightarrow>
        if separator then bindE (py_int first) (\<lambda>a. bindE (py_int last') (\<lambda>b. Inr [a..b]))
        else bindE (py_int first) (\<lambda>a. Inr [a]))"

definition cpu_set :: "string \<Rightarrow> int set res" where
  "cpu_set value = bindE (mapE cpu_set_part (split_on (CHR '','') value)) (\<lambda>parts. Inr (set (concat parts)))"

definition check_log_options :: "log_options \<Rightarrow> unit res" where
  "check_log_options o' =
     checks
      [ensure (0 < l_repeats o' \<and> 0 < l_seconds o' \<and> 0 < l_workers o' \<and> 0 < l_connections o' \<and> 0 < l_capacity o' \<and> 0 < l_log_slots o')
         (ParserError ''counts and durations must be positive''),
       bindE (cpu_set (l_server_cpus o')) (\<lambda>s. bindE (cpu_set (l_client_cpus o')) (\<lambda>c.
         ensure (s \<inter> c = {}) (ParserError ''server and client CPUs must be disjoint''))),
       bindE (cpu_set (l_server_cpus o')) (\<lambda>s.
         ensure (int (card s) = l_workers o') (ParserError ''supply exactly one server CPU per worker'')),
       ensure (\<not> (l_rate o' < 0 \<or> l_rate o' \<noteq> 0 \<and> (l_offered_client o' = None \<or> l_depth o' \<noteq> 1)))
         (ParserError ''offered load needs --offered-client and --depth=1'')]"

definition log_monitor :: "log_options \<Rightarrow> int set \<Rightarrow> int option res" where
  "log_monitor o' affinity =
     bindE (cpu_set (l_server_cpus o')) (\<lambda>s. bindE (cpu_set (l_client_cpus o')) (\<lambda>c.
       let monitor = affinity - s - c in Inr (if monitor = {} then None else Some (Min monitor))))"

definition log_server_command :: "log_options \<Rightarrow> string \<Rightarrow> bool \<Rightarrow> string list" where
  "log_server_command o' binary logging =
     [''taskset'', ''-c'', l_server_cpus o', binary, ''--port'', ''0'',
      ''--admin-port'', ''0'', ''--workers'', str_of_int (l_workers o'), ''--worker-cpus'', l_server_cpus o',
      ''--max-connections'', str_of_int (l_capacity o'), ''--max-active'', str_of_int (l_capacity o'),
      ''--max-requests'', ''4294967295'', ''--log-slots'', str_of_int (l_log_slots o'),
      ''--large-buffer-bytes'', ''67108864'', ''--http2-worker-streams'', ''256'',
      ''--http2-memory-bytes'', ''67108864''] @ (if logging then [] else [''--no-access-log''])"

definition log_client :: "(val \<Rightarrow> string) \<Rightarrow> log_options \<Rightarrow> val \<Rightarrow> string list" where
  "log_client py_str o' port =
     [''taskset'', ''-c'', l_client_cpus o',
      if l_rate o' \<noteq> 0 then (case l_offered_client o' of Some c \<Rightarrow> c | None \<Rightarrow> ''None'') else l_client o',
      ''-address'', ''127.0.0.1:'' @ py_str port, ''-connections'', str_of_int (l_connections o'), ''-user-agent'', user_agent] @
     (if l_rate o' \<noteq> 0 then [''-shards'', ''4'', ''-queue'', ''4096'', ''-max-lag'', ''100ms'']
      else [''-depth'', str_of_int (l_depth o')])"

definition run_client_command :: "(val \<Rightarrow> string) \<Rightarrow> log_options \<Rightarrow> string list \<Rightarrow> rat \<Rightarrow> string list" where
  "run_client_command py_str o' client seconds =
     (if l_rate o' \<noteq> 0 then client @ [''-schedule'', str_of_int (l_rate o') @ '':'' @ py_str (VFloat seconds) @ ''s'']
      else client @ [''-duration'', py_str (VFloat seconds) @ ''s''])"

text \<open>\<open>raw\<close> is the parsed output of the client.\<close>

definition run_client :: "log_options \<Rightarrow> val res \<Rightarrow> val res" where
  "run_client o' raw =
     bindE raw (\<lambda>raw.
       if l_rate o' = 0 then Inr raw
       else bindE (bindE (idx raw ''phases'') (\<lambda>ps. nth_val ps 0)) (\<lambda>phase.
         bindE (orE (orE (neE (idx phase ''successes'') (idx phase ''sent'')) (truthE (idx phase ''failures'')))
                    (ltE (idx phase ''successes'') (mulE (pF (99 / 100)) (idx phase ''offered'')))) (\<lambda>bad.
         seqE (ensure (\<not> bad) (RuntimeError ''offered load missed its target or failed to validate sent requests''))
         (dictE [(''validated_responses'', idx phase ''successes''), (''elapsed_seconds'', idx raw ''elapsed_seconds''),
                 (''responses_per_second'', divE (idx phase ''successes'') (idx raw ''elapsed_seconds'')),
                 (''failures'', idx phase ''failures''), (''offered'', Inr raw)]))))"

section \<open>The audit of the log\<close>

definition is_access_event :: "val \<Rightarrow> bool res" where
  "is_access_event ev =
     notE (orE (neE (getE ev ''event'') (pS ''request_complete'')) (neE (getE ev ''user_agent'') (pS user_agent)))"

definition is_int :: "val \<Rightarrow> bool" where
  "is_int v = (case v of VInt _ \<Rightarrow> True | _ \<Rightarrow> False)"

definition check_access_event :: "val \<Rightarrow> unit res" where
  "check_access_event ev =
     checks
      [bindE (orE (orE (neE (idx ev ''status'') (pI 200)) (neE (idx ev ''method'') (pS ''GET'')))
                  (neE (idx ev ''bytes'') (pI 6))) (\<lambda>bad. ensure (\<not> bad) (RuntimeError ''incorrect access record'')),
       bindE (orE (inE ''request'' ev) (inE ''connection'' ev)) (\<lambda>bad. ensure (\<not> bad) (RuntimeError ''obsolete access fields'')),
       forE (\<lambda>key. bindE (idx ev key) (\<lambda>v. ensure (is_int v) (RuntimeError (''noninteger '' @ key))))
         [''worker'', ''conn_gen'', ''conn_slot'']]"

text \<open>\<open>(record_count, access_records)\<close> after one more line.\<close>

definition audit_line :: "(string \<Rightarrow> val res) \<Rightarrow> string \<Rightarrow> nat \<times> nat \<Rightarrow> (nat \<times> nat) res" where
  "audit_line loads line counts =
     bindE (loads line) (\<lambda>ev.
     bindE (is_access_event ev) (\<lambda>access.
       if access then seqE (check_access_event ev) (Inr (Suc (fst counts), Suc (snd counts)))
       else Inr (Suc (fst counts), snd counts)))"

definition audit_log :: "(string \<Rightarrow> val res) \<Rightarrow> string list \<Rightarrow> (nat \<times> nat) res" where
  "audit_log loads lines = foldE (audit_line loads) lines (0, 0)"

definition check_counts :: "bool \<Rightarrow> nat \<Rightarrow> val \<Rightarrow> val \<Rightarrow> unit res" where
  "check_counts logging access_records expected dropped =
     checks
      [bindE (orE (gtE (pI (int access_records)) (Inr expected)) (Inr (\<not> logging \<and> access_records \<noteq> 0)))
         (\<lambda>bad. ensure (\<not> bad) (RuntimeError ''incorrect number of access records'')),
       bindE (andE (Inr logging) (andE (ltE (pI (int access_records)) (Inr expected))
                (ltE (Inr dropped) (subE (Inr expected) (pI (int access_records))))))
         (\<lambda>bad. ensure (\<not> bad) (RuntimeError ''missing access records not accounted for by dropped logs''))]"

definition log_complete :: "bool \<Rightarrow> nat \<Rightarrow> val \<Rightarrow> val \<Rightarrow> val \<Rightarrow> bool res" where
  "log_complete logging access_records expected dropped errors =
     andE (eqE (pI (int access_records)) (if logging then Inr expected else pI 0))
       (andE (eqE (Inr dropped) (Inr errors)) (eqE (Inr errors) (pI 0)))"

section \<open>One trial\<close>

record trial_world =
  y_looks :: "(string \<times> bool) list"
  y_warmup :: "val res"
  y_drain_before :: "(val res \<times> bool) list"
  y_before :: "val res"
  y_workload :: "val res"
  y_collector_cpu :: rat
  y_after :: "val res"
  y_drain_after :: "(val res \<times> bool) list"
  y_drained :: "val res"
  y_collector_alive :: bool
  y_returncode :: int
  y_log :: "string list"

text \<open>The body of the \<open>try\<close> block.\<close>

definition trial_body :: "(string \<Rightarrow> val res) \<Rightarrow> log_options \<Rightarrow> trial_world \<Rightarrow> (val \<times> val \<times> val \<times> val \<times> val \<times> val \<times> val \<times> val) res" where
  "trial_body loads o' w =
     bindE (ports_from_log loads (y_looks w)) (\<lambda>ports.
     bindE (of_option (KeyError ''listening'') (map_of ports ''listening'')) (\<lambda>port.
     bindE (run_client o' (y_warmup w)) (\<lambda>warmup.
     bindE (drain (y_drain_before w)) (\<lambda>before_metrics.
     bindE (y_before w) (\<lambda>before.
     bindE (run_client o' (y_workload w)) (\<lambda>workload.
     bindE (y_after w) (\<lambda>after.
     bindE (drain (y_drain_after w)) (\<lambda>after_metrics.
     bindE (y_drained w) (\<lambda>drained.
     Inr (port, warmup, before_metrics, before, workload, after, after_metrics, drained))))))))))"

text \<open>The \<open>finally\<close> block: the server is stopped, and a collector that does not end replaces the outcome.\<close>

definition finish_trial :: "string \<Rightarrow> bool \<Rightarrow> 'a res \<Rightarrow> 'a res" where
  "finish_trial sink alive r = (if sink = ''pipe'' \<and> alive then Inl (TimeoutError ''log collector'') else r)"

definition log_row :: "(string \<Rightarrow> string) \<Rightarrow> bool \<Rightarrow> string \<Rightarrow> nat \<Rightarrow> nat \<Rightarrow> val \<Rightarrow> val \<Rightarrow> val \<Rightarrow> val res" where
  "log_row sha256 logging content record_count access_records expected dropped errors =
     dictE
      [(''records'', pI (int record_count)), (''access_records'', pI (int access_records)),
       (''expected_access_records'', if logging then Inr expected else pI 0),
       (''bytes'', pI (int (length content))), (''sha256'', pS (sha256 content)),
       (''dropped'', Inr dropped), (''write_errors'', Inr errors),
       (''complete'', pB (log_complete logging access_records expected dropped errors))]"

type_synonym measured = "val \<times> val \<times> val \<times> val \<times> val \<times> val \<times> val \<times> val"

definition trial_row ::
  "(val \<Rightarrow> string) \<Rightarrow> log_options \<Rightarrow> string \<Rightarrow> string \<Rightarrow> nat \<Rightarrow> bool \<Rightarrow> rat \<Rightarrow> measured \<Rightarrow> val res \<Rightarrow> val res" where
  "trial_row py_str o' binary name repeat logging collector_cpu m lg =
     (case m of (port, warmup, before_metrics, before, workload, after, after_metrics, drained) \<Rightarrow>
      dictE
       [(''variant'', pS name), (''repeat'', pI (int repeat)), (''logging'', Inr (VBool logging)),
        (''server_command'', Inr (VList (map VStr (log_server_command o' binary logging)))),
        (''client_command'', Inr (VList (map VStr (log_client py_str o' port)))),
        (''workload'', Inr workload), (''warmup'', Inr warmup),
        (''cpu_ns_per_response'', divE (mulE (subE (idx after ''cpu_seconds'') (idx before ''cpu_seconds'')) (pF 1000000000))
           (idx workload ''validated_responses'')),
        (''drain_cpu_seconds'', subE (idx drained ''cpu_seconds'') (idx after ''cpu_seconds'')),
        (''collector_cpu_seconds'', Inr (VFloat collector_cpu)),
        (''metrics_before'', Inr before_metrics), (''metrics_after'', Inr after_metrics), (''log'', lg)])"

definition trial ::
  "(val \<Rightarrow> string) \<Rightarrow> (string \<Rightarrow> val res) \<Rightarrow> (string \<Rightarrow> string) \<Rightarrow> log_options \<Rightarrow> string \<Rightarrow> string \<Rightarrow> nat \<Rightarrow> bool \<Rightarrow> trial_world \<Rightarrow> val res" where
  "trial py_str loads sha256 o' binary name repeat logging w =
     bindE (finish_trial (l_sink o') (y_collector_alive w) (trial_body loads o' w)) (\<lambda>m.
     case m of (port, warmup, before_metrics, before, workload, after, after_metrics, drained) \<Rightarrow>
     bindE (orE (Inr (y_returncode w \<noteq> 0)) (truthE (idx workload ''failures''))) (\<lambda>bad.
     seqE (ensure (\<not> bad) (RuntimeError ''server or client failed''))
    (bindE (audit_log loads (y_log w)) (\<lambda>(record_count, access_records).
     bindE (addE (idx warmup ''validated_responses'') (idx workload ''validated_responses'')) (\<lambda>expected.
     bindE (path after_metrics [''counters'', ''log_dropped_total'']) (\<lambda>dropped.
     bindE (path after_metrics [''counters'', ''log_write_errors_total'']) (\<lambda>errors.
     seqE (check_counts logging access_records expected dropped)
    (trial_row py_str o' binary name repeat logging (y_collector_cpu w) m
       (log_row sha256 logging (concat (y_log w)) record_count access_records expected dropped errors)))))))))"

section \<open>The order of the trials and the summary\<close>

definition split_variant :: "string \<Rightarrow> (string \<times> string) res" where
  "split_variant v =
     (case partition_on (CHR ''='') v of (name, found, binary) \<Rightarrow> if found then Inr (name, binary) else Inl unpack_error)"

definition log_variants :: "string list \<Rightarrow> (string \<times> string) list res" where
  "log_variants vs = bindE (mapE split_variant vs) (\<lambda>kvs. Inr (dict_of kvs))"

definition log_modes :: "string \<Rightarrow> bool list" where
  "log_modes mode = (if mode = ''both'' then [True, False] else [mode = ''on''])"

definition log_cases :: "(string \<times> string) list \<Rightarrow> string \<Rightarrow> (string \<times> string \<times> bool) list" where
  "log_cases variants mode = concat (map (\<lambda>(name, binary). map (\<lambda>logging. (name, binary, logging)) (log_modes mode)) variants)"

definition log_schedule :: "log_options \<Rightarrow> (string \<times> string) list \<Rightarrow> (nat \<times> string \<times> string \<times> bool) list" where
  "log_schedule o' variants =
     concat (map (\<lambda>repeat. map (\<lambda>c. (repeat, c))
        (if repeat mod 2 = 0 then log_cases variants (l_logging o') else rev (log_cases variants (l_logging o'))))
      [0..<nat (l_repeats o')])"

definition case_runs :: "val list \<Rightarrow> string \<Rightarrow> bool \<Rightarrow> val list res" where
  "case_runs runs name logging =
     filterE (\<lambda>r. andE (eqE (idx r ''variant'') (pS name)) (eqE (idx r ''logging'') (Inr (VBool logging)))) runs"

definition retained_fraction :: "val list \<Rightarrow> val res" where
  "retained_fraction runs =
     listE (bindE (filterE (\<lambda>r. truthE (path r [''log'', ''expected_access_records''])) runs)
       (mapE (\<lambda>r. divE (path r [''log'', ''access_records'']) (path r [''log'', ''expected_access_records'']))))"

definition case_summary :: "val list \<Rightarrow> val res" where
  "case_summary runs =
     dictE
      [(''median_cpu_ns'', medianE (mapE (\<lambda>r. idx r ''cpu_ns_per_response'') runs)),
       (''median_rps'', medianE (mapE (\<lambda>r. path r [''workload'', ''responses_per_second'']) runs)),
       (''all_logs_complete'', pB (allE (\<lambda>r. truthE (path r [''log'', ''complete''])) runs)),
       (''retained_fraction'', retained_fraction runs)]"

definition log_summary :: "(string \<times> string \<times> bool) list \<Rightarrow> val list \<Rightarrow> val res" where
  "log_summary cases runs =
     dictE (map (\<lambda>(name, binary, logging).
       (name @ (if logging then ''_on'' else ''_off''), bindE (case_runs runs name logging) case_summary)) cases)"

section \<open>What a trial accounts for\<close>

definition access_line :: "(string \<Rightarrow> val res) \<Rightarrow> string \<Rightarrow> bool" where
  "access_line loads line \<longleftrightarrow> (\<exists>ev. loads line = Inr ev \<and> is_access_event ev = Inr True)"

definition has_value :: "val \<Rightarrow> string \<Rightarrow> val \<Rightarrow> bool" where
  "has_value ev key v \<longleftrightarrow> (\<exists>x. idx ev key = Inr x \<and> py_eq x v)"

definition sound_record :: "val \<Rightarrow> bool" where
  "sound_record ev \<longleftrightarrow>
     has_value ev ''status'' (VInt 200) \<and> has_value ev ''method'' (VStr ''GET'') \<and> has_value ev ''bytes'' (VInt 6) \<and>
     contains_key ev ''request'' = Inr False \<and> contains_key ev ''connection'' = Inr False \<and>
     (\<forall>key \<in> {''worker'', ''conn_gen'', ''conn_slot''}. \<exists>n. idx ev key = Inr (VInt n))"

lemma neE_False: "neE a b = Inr False \<longleftrightarrow> (\<exists>x y. a = Inr x \<and> b = Inr y \<and> py_eq x y)"
  by (auto simp: neE_def lift2_eq_Inr)

lemma is_int_iff: "is_int v \<longleftrightarrow> (\<exists>n. v = VInt n)"
  by (cases v) (simp_all add: is_int_def)

lemma py_eq_number: "as_rat v = Some x \<Longrightarrow> py_eq v w \<longleftrightarrow> as_rat w = Some x"
  by (cases v) auto

lemma check_access_event_sound: "check_access_event ev = Inr () \<Longrightarrow> sound_record ev"
  by (auto simp: check_access_event_def sound_record_def has_value_def py_ok neE_False pI_def pS_def inE_def is_int_iff)

lemma audit_lines_count:
  assumes "foldE (audit_line loads) lines (r, a) = Inr (r', a')"
  shows "r' = r + length lines \<and> a' = a + length (filter (access_line loads) lines) \<and>
    (\<forall>line \<in> set lines. \<exists>ev. loads line = Inr ev \<and> (access_line loads line \<longrightarrow> sound_record ev))"
  using assms
proof (induction lines arbitrary: r a)
  case (Cons line lines)
  obtain ev access where ev: "loads line = Inr ev" "is_access_event ev = Inr access"
    using Cons.prems by (auto simp: audit_line_def bindE_eq_Inr)
  have line: "access_line loads line \<longleftrightarrow> access" using ev by (auto simp: access_line_def)
  have step: "audit_line loads line (r, a) =
      (if access then seqE (check_access_event ev) (Inr (Suc r, Suc a)) else Inr (Suc r, a))"
    using ev by (simp add: audit_line_def)
  have sound: "access \<Longrightarrow> sound_record ev"
    using Cons.prems step check_access_event_sound by (auto simp: bindE_eq_Inr seqE_eq_Inr)
  have "foldE (audit_line loads) lines (Suc r, if access then Suc a else a) = Inr (r', a')"
    using Cons.prems step by (auto simp: bindE_eq_Inr seqE_eq_Inr split: if_splits)
  from Cons.IH [OF this] show ?case using ev(1) line sound by auto
qed simp

lemma check_counts_ints:
  assumes "check_counts logging n (VInt e) (VInt d) = Inr ()"
  shows "int n \<le> e" and "logging \<Longrightarrow> int n < e \<Longrightarrow> e - int n \<le> d" and "\<not> logging \<Longrightarrow> n = 0"
  using assms by (auto simp: check_counts_def py_ok gtE_def ltE_def subE_def pI_def andE_def orE_def split: if_splits)

lemma log_complete_ints:
  assumes "log_complete logging n (VInt e) (VInt d) errors = Inr True"
  shows "int n = (if logging then e else 0) \<and> d = 0"
  using assms by (auto simp: log_complete_def py_ok eqE_True pI_def py_eq_number split: if_splits)

lemma trial_elim:
  assumes "trial py_str loads sha256 o' binary name repeat logging w = Inr result"
  obtains n warmup workload expected dropped errors lg where
    "y_returncode w = 0" and "n = length (filter (access_line loads) (y_log w))"
    and "\<forall>line \<in> set (y_log w). \<exists>ev. loads line = Inr ev \<and> (access_line loads line \<longrightarrow> sound_record ev)"
    and "run_client o' (y_warmup w) = Inr warmup" and "run_client o' (y_workload w) = Inr workload"
    and "addE (idx warmup ''validated_responses'') (idx workload ''validated_responses'') = Inr expected"
    and "check_counts logging n expected dropped = Inr ()"
    and "idx result ''log'' = Inr lg" and "idx lg ''access_records'' = Inr (VInt (int n))"
    and "idx lg ''dropped'' = Inr dropped"
    and "idx lg ''complete'' = pB (log_complete logging n expected dropped errors)"
proof -
  obtain m records n expected dropped errors where
    body: "trial_body loads o' w = Inr m"
    and code: "orE (Inr (y_returncode w \<noteq> 0)) (truthE (idx (fst (snd (snd (snd (snd m))))) ''failures'')) = Inr False"
    and audit: "audit_log loads (y_log w) = Inr (records, n)"
    and expected: "addE (idx (fst (snd m)) ''validated_responses'') (idx (fst (snd (snd (snd (snd m))))) ''validated_responses'') = Inr expected"
    and counts: "check_counts logging n expected dropped = Inr ()"
    and row: "trial_row py_str o' binary name repeat logging (y_collector_cpu w) m
       (log_row sha256 logging (concat (y_log w)) records n expected dropped errors) = Inr result"
    using assms unfolding trial_def finish_trial_def
    by (auto simp: bindE_eq_Inr seqE_eq_Inr ensure_eq_Inr case_prod_beta split: if_splits)
  obtain port warmup before_metrics before workload after after_metrics drained where
    m: "m = (port, warmup, before_metrics, before, workload, after, after_metrics, drained)" by (metis prod.exhaust)
  have clients: "run_client o' (y_warmup w) = Inr warmup" "run_client o' (y_workload w) = Inr workload"
    using body by (auto simp: m trial_body_def bindE_eq_Inr)
  have n: "n = length (filter (access_line loads) (y_log w))"
    "\<forall>line \<in> set (y_log w). \<exists>ev. loads line = Inr ev \<and> (access_line loads line \<longrightarrow> sound_record ev)"
    using audit_lines_count [OF audit [unfolded audit_log_def]] by auto
  have "log_row sha256 logging (concat (y_log w)) records n expected dropped errors = idx result ''log'' \<and>
      returns (log_row sha256 logging (concat (y_log w)) records n expected dropped errors)"
    by (rule dictE_field [OF row [unfolded trial_row_def m prod.case]]) simp_all
  then obtain lg where lg: "idx result ''log'' = Inr lg"
    and logrow: "log_row sha256 logging (concat (y_log w)) records n expected dropped errors = Inr lg"
    by (metis returns_iff)
  note field = dictE_field [OF logrow [unfolded log_row_def], THEN conjunct1, symmetric]
  have fields: "idx lg ''access_records'' = Inr (VInt (int n))" "idx lg ''dropped'' = Inr dropped"
    "idx lg ''complete'' = pB (log_complete logging n expected dropped errors)"
    by (rule field [of _ "pI (int n)", unfolded pI_def] field; simp add: pI_def)+
  have "y_returncode w = 0" using code by (simp add: orE_False)
  from that [OF this n clients expected [unfolded m fst_conv snd_conv] counts lg fields] show thesis .
qed

text \<open>
  C26: a trial's access log is accounted for.  A result exists only if the server exited with status 0,
  every line of the log is JSON and every access record of the workload is a correct one (status 200,
  GET, six bytes, integer worker and connection identity, none of the obsolete fields).  The reported
  number of access records is the number in the log: at most the validated responses of warmup and
  measurement, none when logging is off, and every missing one is covered by the server's count of
  dropped records.  A log reported complete has no dropped records and exactly
  the expected ones: with logging on one for every validated response, with logging off none.
\<close>

theorem trial_log_accounted:
  assumes "trial py_str loads sha256 o' binary name repeat logging w = Inr result"
  shows "\<exists>n warmup workload expected dropped lg. n = length (filter (access_line loads) (y_log w)) \<and>
    y_returncode w = 0 \<and>
    (\<forall>line \<in> set (y_log w). \<exists>ev. loads line = Inr ev \<and> (access_line loads line \<longrightarrow> sound_record ev)) \<and>
    run_client o' (y_warmup w) = Inr warmup \<and> run_client o' (y_workload w) = Inr workload \<and>
    addE (idx warmup ''validated_responses'') (idx workload ''validated_responses'') = Inr expected \<and>
    idx result ''log'' = Inr lg \<and> idx lg ''access_records'' = Inr (VInt (int n)) \<and> idx lg ''dropped'' = Inr dropped \<and>
    (\<forall>e d. expected = VInt e \<and> dropped = VInt d \<longrightarrow>
       int n \<le> e \<and> (logging \<and> int n < e \<longrightarrow> e - int n \<le> d) \<and> (\<not> logging \<longrightarrow> n = 0) \<and>
       (idx lg ''complete'' = Inr (VBool True) \<longrightarrow> int n = (if logging then e else 0) \<and> d = 0))"
  using assms
proof (rule trial_elim)
  fix n warmup workload expected dropped errors lg
  assume a: "y_returncode w = 0" "n = length (filter (access_line loads) (y_log w))"
    "\<forall>line \<in> set (y_log w). \<exists>ev. loads line = Inr ev \<and> (access_line loads line \<longrightarrow> sound_record ev)"
    "run_client o' (y_warmup w) = Inr warmup" "run_client o' (y_workload w) = Inr workload"
    "addE (idx warmup ''validated_responses'') (idx workload ''validated_responses'') = Inr expected"
    "check_counts logging n expected dropped = Inr ()"
    "idx result ''log'' = Inr lg" "idx lg ''access_records'' = Inr (VInt (int n))"
    "idx lg ''dropped'' = Inr dropped" "idx lg ''complete'' = pB (log_complete logging n expected dropped errors)"
  have "int n \<le> e \<and> (logging \<and> int n < e \<longrightarrow> e - int n \<le> d) \<and> (\<not> logging \<longrightarrow> n = 0) \<and>
      (idx lg ''complete'' = Inr (VBool True) \<longrightarrow> int n = (if logging then e else 0) \<and> d = 0)"
    if "expected = VInt e" "dropped = VInt d" for e d
  proof (intro conjI impI)
    note c = check_counts_ints [OF a(7) [unfolded that]]
    show "int n \<le> e" by (rule c)
    show "e - int n \<le> d" if "logging \<and> int n < e" using c that by blast
    show "n = 0" if "\<not> logging" using c that by blast
    assume "idx lg ''complete'' = Inr (VBool True)"
    then have "log_complete logging n (VInt e) (VInt d) errors = Inr True"
      using a(11) that by (cases "log_complete logging n (VInt e) (VInt d) errors") (simp_all add: pB_def)
    from log_complete_ints [OF this] show "int n = (if logging then e else 0)" "d = 0" by auto
  qed
  then show ?thesis using a by blast
qed

text \<open>A trial with one warmup and one measured response, both of which reached the log.\<close>

definition sample_loads :: "string \<Rightarrow> val res" where
  "sample_loads line =
     (if line = ''P'' then Inr (VDict [(''event'', VStr ''listening''), (''port'', VInt 80)])
      else if line = ''Q'' then Inr (VDict [(''event'', VStr ''admin_listening''), (''port'', VInt 81)])
      else if line = ''A'' then Inr (VDict [(''event'', VStr ''request_complete''), (''user_agent'', VStr user_agent), (''status'', VInt 200),
        (''method'', VStr ''GET''), (''bytes'', VInt 6), (''worker'', VInt 0), (''conn_gen'', VInt 1), (''conn_slot'', VInt 2)])
      else Inl (ValueError ''json''))"

definition sample_log_options :: log_options where
  "sample_log_options = \<lparr>l_client = ''load'', l_offered_client = None, l_rate = 0, l_repeats = 1, l_seconds = 3, l_workers = 1,
     l_server_cpus = ''2'', l_client_cpus = ''4-7'', l_connections = 64, l_capacity = 256, l_depth = 1, l_log_slots = 256,
     l_logging = ''both'', l_sink = ''file''\<rparr>"

definition sample_trial :: trial_world where
  "sample_trial =
     (let client = VDict [(''validated_responses'', VInt 1), (''failures'', VInt 0)];
          metrics = VDict [(''gauges'', VDict [(''log_pending'', VInt 0)]),
            (''counters'', VDict [(''log_dropped_total'', VInt 0), (''log_write_errors_total'', VInt 0)])];
          sample = (\<lambda>n. Inr (VDict [(''cpu_seconds'', VFloat n)]))
      in \<lparr>y_looks = [(''P'' @ [newline] @ ''x'' @ [newline] @ ''Q'', False)], y_warmup = Inr client, y_drain_before = [(Inr metrics, False)],
          y_before = sample 0, y_workload = Inr client, y_collector_cpu = 0, y_after = sample 1, y_drain_after = [(Inr metrics, False)],
          y_drained = sample 1, y_collector_alive = False, y_returncode = 0, y_log = [''P'', ''Q'', ''A'', ''A'']\<rparr>)"

theorem trial_log_accounted_witness:
  "\<exists>result lg. trial (\<lambda>v. []) sample_loads (\<lambda>s. []) sample_log_options ''zhtps'' ''new'' 0 True sample_trial = Inr result \<and>
     idx result ''log'' = Inr lg \<and> idx lg ''access_records'' = Inr (VInt 2)"
proof -
  let ?run = "trial (\<lambda>v. []) sample_loads (\<lambda>s. []) sample_log_options ''zhtps'' ''new'' 0 True sample_trial"
  have "returns ?run" by code_simp
  then obtain result where r: "?run = Inr result" by (auto simp: returns_iff)
  have "is_access_event (VDict [(''event'', VStr ''request_complete''), (''user_agent'', VStr user_agent), (''status'', VInt 200),
        (''method'', VStr ''GET''), (''bytes'', VInt 6), (''worker'', VInt 0), (''conn_gen'', VInt 1), (''conn_slot'', VInt 2)]) = Inr True"
    "is_access_event (VDict [(''event'', VStr ''listening''), (''port'', VInt 80)]) = Inr False"
    "is_access_event (VDict [(''event'', VStr ''admin_listening''), (''port'', VInt 81)]) = Inr False" by code_simp+
  then have "filter (access_line sample_loads) (y_log sample_trial) = [''A'', ''A'']"
    by (simp add: sample_trial_def Let_def access_line_def sample_loads_def)
  then show ?thesis using trial_log_accounted [OF r] r by auto
qed

text \<open>Every repeat runs every case once, and two consecutive repeats run them in opposite orders.\<close>

lemma log_schedule_repeats:
  "filter (\<lambda>s. fst s = r) (log_schedule o' variants) =
     (if r < nat (l_repeats o') then map (Pair r) (if even r then log_cases variants (l_logging o') else rev (log_cases variants (l_logging o')))
      else [])"
proof -
  have "filter (\<lambda>s. fst s = r) (concat (map (\<lambda>i. map (Pair i) (f i)) [0..<n])) = (if r < n then map (Pair r) (f r) else [])"
    for n and f :: "nat \<Rightarrow> (string \<times> string \<times> bool) list"
    by (induction n) (auto simp: filter_map o_def filter_empty_conv less_Suc_eq)
  then show ?thesis by (simp add: log_schedule_def even_iff_mod_2_eq_zero)
qed

end
