(* ===== verification/Evidence.thy ===== *)
theory Evidence
  imports Py_Value
begin

text \<open>
  The record a benchmark run leaves behind.  \<open>architecture.run_one\<close> and the loop of \<open>upload_compare.main\<close>
  fill a dictionary while the run proceeds, mark it \<open>measured\<close> as their last act, mark it \<open>failed\<close> with
  the exception otherwise, and write it in either case.  A run is a list of steps over what the started
  processes answered: \<open>Put\<close> assigns a field, \<open>Check\<close> is a call or an assertion without a result, and
  \<open>Sample\<close> appends to the samples.  The first step that raises ends the run, and the fields assigned
  before it stay.
\<close>

datatype step = Put string "val res" | Check "unit res" | Sample "val res"

type_synonym row = "(string \<times> val) list"

definition add_sample :: "val \<Rightarrow> row \<Rightarrow> row" where
  "add_sample v r = dict_set ''samples'' (case map_of r ''samples'' of Some (VList xs) \<Rightarrow> VList (xs @ [v]) | _ \<Rightarrow> VList [v]) r"

fun do_step :: "step \<Rightarrow> row \<Rightarrow> row res" where
  "do_step (Put k m) r = bindE m (\<lambda>v. Inr (dict_set k v r))"
| "do_step (Check m) r = seqE m (Inr r)"
| "do_step (Sample m) r = bindE m (\<lambda>v. Inr (add_sample v r))"

fun run_steps :: "step list \<Rightarrow> row \<Rightarrow> row \<times> exn option" where
  "run_steps [] r = (r, None)"
| "run_steps (s # ss) r = (case do_step s r of Inl e \<Rightarrow> (r, Some e) | Inr r' \<Rightarrow> run_steps ss r')"

text \<open>
  The handlers around the steps: \<open>repr\<close> is the text of an exception, \<open>failure\<close> what the remote
  session knows about it.  The second component is what leaves the function.
\<close>

definition record_outcome :: "(exn \<Rightarrow> string) \<Rightarrow> val \<Rightarrow> row \<times> exn option \<Rightarrow> row \<times> unit res" where
  "record_outcome repr failure run =
     (case run of
        (r', None) \<Rightarrow> (dict_set ''outcome'' (VStr ''measured'') r', Inr ())
      | (r', Some e) \<Rightarrow>
          (dict_set ''remote_failure'' failure (dict_set ''error'' (VStr (repr e))
             (dict_set ''outcome'' (VStr ''failed'') r')), Inl e))"

definition conclude :: "(exn \<Rightarrow> string) \<Rightarrow> val \<Rightarrow> step list \<Rightarrow> row \<Rightarrow> row \<times> unit res" where
  "conclude repr failure steps r = record_outcome repr failure (run_steps steps r)"

text \<open>
  The loop that polls the remote generator.  One turn: the answer of \<open>remote.completed()\<close>, whether the
  server has exited, whether the deadline has passed, and a due sample.  \<open>guard\<close> are the checks of a turn;
  \<open>interrupted\<close> ends a run whose generator never completes.
\<close>

record poll_turn =
  d_completed :: "bool res"
  d_exited :: bool
  d_late :: bool
  d_sample :: "val res option"

fun poll_steps :: "(poll_turn \<Rightarrow> unit res) \<Rightarrow> exn \<Rightarrow> poll_turn list \<Rightarrow> step list" where
  "poll_steps guard interrupted [] = [Check (Inl interrupted)]"
| "poll_steps guard interrupted (t # ts) =
     (case d_completed t of
        Inl e \<Rightarrow> [Check (Inl e)]
      | Inr True \<Rightarrow> []
      | Inr False \<Rightarrow>
          Check (guard t) # (case d_sample t of None \<Rightarrow> [] | Some m \<Rightarrow> [Sample m]) @ poll_steps guard interrupted ts)"

section \<open>Laws\<close>

fun step_ok :: "step \<Rightarrow> bool" where
  "step_ok (Put k m) = returns m"
| "step_ok (Check m) = (m = Inr ())"
| "step_ok (Sample m) = returns m"

fun step_key :: "step \<Rightarrow> string option" where
  "step_key (Put k m) = Some k"
| "step_key (Check m) = None"
| "step_key (Sample m) = Some ''samples''"

lemma run_steps_append:
  "run_steps (ss @ ts) r = (case run_steps ss r of (r', None) \<Rightarrow> run_steps ts r' | (r', Some e) \<Rightarrow> (r', Some e))"
  by (induction ss arbitrary: r) (auto split: sum.splits)

lemma do_step_other: "do_step s r = Inr r' \<Longrightarrow> step_key s \<noteq> Some k \<Longrightarrow> map_of r' k = map_of r k"
  by (cases s) (auto simp: bindE_eq_Inr seqE_eq_Inr map_of_dict_set add_sample_def)

lemma do_step_returns: "do_step s r = Inr r' \<Longrightarrow> step_ok s"
  by (cases s) (auto simp: bindE_eq_Inr seqE_eq_Inr returns_iff)

lemma run_steps_returns: "run_steps ss r = (r', None) \<Longrightarrow> s \<in> set ss \<Longrightarrow> step_ok s"
  by (induction ss arbitrary: r) (auto split: sum.splits dest: do_step_returns)

lemma run_steps_check: "run_steps ss r = (r', None) \<Longrightarrow> Check m \<in> set ss \<Longrightarrow> m = Inr ()"
  using run_steps_returns by fastforce

lemma run_steps_other:
  "run_steps ss r = (r', e) \<Longrightarrow> \<forall>s \<in> set ss. step_key s \<noteq> Some k \<Longrightarrow> map_of r' k = map_of r k"
  by (induction ss arbitrary: r) (auto split: sum.splits dest: do_step_other)

text \<open>
  \<open>assignments k ss\<close> are the steps that write the field \<open>k\<close>.  A field without assignments keeps its value;
  a field that one step assigns holds that step's value after a complete run.
\<close>

definition assignments :: "string \<Rightarrow> step list \<Rightarrow> step list" where
  "assignments k ss = filter (\<lambda>s. step_key s = Some k) ss"

lemma assignments_simps [simp]:
  "assignments k [] = []"
  "assignments k (Put k' m # ss) = (if k' = k then Put k' m # assignments k ss else assignments k ss)"
  "assignments k (Check c # ss) = assignments k ss"
  "assignments k (Sample m # ss) = (if k = ''samples'' then Sample m # assignments k ss else assignments k ss)"
  "assignments k (ss @ ts) = assignments k ss @ assignments k ts"
  by (auto simp: assignments_def)

lemma assignments_checks [simp]: "assignments k (map (\<lambda>(a, b). Check (f a b)) xs) = []"
  by (induction xs) auto

lemma run_steps_keep: "run_steps ss r = (r', e) \<Longrightarrow> assignments k ss = [] \<Longrightarrow> map_of r' k = map_of r k"
  by (rule run_steps_other) (auto simp: assignments_def filter_empty_conv)

lemma run_steps_put:
  assumes "run_steps ss r = (r', None)" and "assignments k ss = [Put k m]"
  shows "\<exists>v. m = Inr v \<and> map_of r' k = Some v"
proof -
  have "Put k m \<in> set (filter (\<lambda>s. step_key s = Some k) ss)" using assms(2) by (simp add: assignments_def)
  then obtain xs ys where ss: "ss = xs @ Put k m # ys" by (auto simp: in_set_conv_decomp)
  then have ys: "assignments k ys = []" using assms(2) by (auto simp: append_eq_Cons_conv)
  obtain r1 where "run_steps (Put k m # ys) r1 = (r', None)"
    using assms(1) unfolding ss by (auto simp: run_steps_append split: prod.splits option.splits)
  then obtain v where v: "m = Inr v" and rest: "run_steps ys (dict_set k v r1) = (r', None)" by (cases m) auto
  then show ?thesis using run_steps_keep [OF rest ys] by (simp add: map_of_dict_set)
qed

lemma assignments_poll [simp]: "k \<noteq> ''samples'' \<Longrightarrow> assignments k (poll_steps guard interrupted ts) = []"
  by (induction ts) (auto split: sum.splits bool.splits option.splits)

text \<open>The samples taken until the generator completed are the ones the record holds, in order.\<close>

fun taken :: "poll_turn list \<Rightarrow> val list" where
  "taken [] = []"
| "taken (t # ts) =
     (if d_completed t = Inr True then []
      else (case d_sample t of Some (Inr v) \<Rightarrow> v # taken ts | _ \<Rightarrow> taken ts))"

lemma run_poll_steps:
  assumes "run_steps (poll_steps guard interrupted ts) r = (r', None)" and "map_of r ''samples'' = Some (VList xs)"
  shows "map_of r' ''samples'' = Some (VList (xs @ taken ts)) \<and> (\<exists>t \<in> set ts. d_completed t = Inr True)"
  using assms
proof (induction ts arbitrary: r xs)
  case (Cons t ts)
  show ?case
  proof (cases "d_completed t = Inr True")
    case True
    then show ?thesis using Cons.prems by simp
  next
    case False
    then have going: "d_completed t = Inr False"
      using Cons.prems(1) by (cases "d_completed t") auto
    show ?thesis
    proof (cases "d_sample t")
      case None
      then show ?thesis using Cons going by (cases "guard t") auto
    next
      case (Some m)
      then obtain v where v: "m = Inr v" and rest: "run_steps (poll_steps guard interrupted ts) (add_sample v r) = (r', None)"
        using Cons.prems(1) going by (cases "guard t"; cases m) auto
      have "map_of (add_sample v r) ''samples'' = Some (VList (xs @ [v]))"
        using Cons.prems(2) by (simp add: add_sample_def map_of_dict_set)
      from Cons.IH [OF rest this] show ?thesis using going Some v by auto
    qed
  qed
qed simp

text \<open>
  The contract of a runner: its steps poll the generator between steps that leave the samples alone.  Then
  a complete run holds exactly the samples taken until the generator completed.
\<close>

lemma run_steps_sequence:
  assumes "run_steps (a @ b @ c) r = (r', None)"
  obtains r1 r2 where "run_steps a r = (r1, None)" and "run_steps b r1 = (r2, None)" and "run_steps c r2 = (r', None)"
  using assms by (auto simp: run_steps_append split: prod.splits option.splits)

locale polled_run =
  fixes steps :: "'w \<Rightarrow> step list" and before :: "'w \<Rightarrow> step list" and after :: "'w \<Rightarrow> step list"
    and guard :: "poll_turn \<Rightarrow> unit res" and interrupted :: exn and turns :: "'w \<Rightarrow> poll_turn list"
  assumes steps_shape: "steps w = before w @ poll_steps guard interrupted (turns w) @ after w"
    and before_samples: "assignments ''samples'' (before w) = []"
    and after_samples: "assignments ''samples'' (after w) = []"
begin

lemma complete_samples:
  assumes "run_steps (steps w) r = (r', None)" and "map_of r ''samples'' = Some (VList [])"
  shows "map_of r' ''samples'' = Some (VList (taken (turns w))) \<and> (\<exists>t \<in> set (turns w). d_completed t = Inr True)"
proof -
  obtain r1 r2 where r1: "run_steps (before w) r = (r1, None)" and r2: "run_steps (poll_steps guard interrupted (turns w)) r1 = (r2, None)"
    and r3: "run_steps (after w) r2 = (r', None)" using run_steps_sequence assms(1) unfolding steps_shape .
  have "map_of r1 ''samples'' = Some (VList [])" using run_steps_keep [OF r1 before_samples] assms(2) by simp
  from run_poll_steps [OF r2 this] run_steps_keep [OF r3 after_samples] show ?thesis by simp
qed

end

lemma conclude_outcome:
  assumes "conclude repr failure steps r = (r', out)"
  shows "map_of r' ''outcome'' = Some (VStr (if out = Inr () then ''measured'' else ''failed'')) \<and>
    (out = Inr () \<longleftrightarrow> snd (run_steps steps r) = None) \<and>
    (\<forall>e. out = Inl e \<longrightarrow> map_of r' ''error'' = Some (VStr (repr e)))"
  using assms by (auto simp: conclude_def record_outcome_def map_of_dict_set split: prod.splits option.splits)

lemma conclude_measured:
  assumes "conclude repr failure steps r = (r', Inr ())"
  obtains r1 where "run_steps steps r = (r1, None)" and "r' = dict_set ''outcome'' (VStr ''measured'') r1"
  using assms by (auto simp: conclude_def record_outcome_def split: prod.splits option.splits)

end
