(* ===== verification/Host_Samples.thy ===== *)
theory Host_Samples
  imports Worker_Cpus Py_Value
begin

text \<open>
  Host-wide counters of a benchmark machine and what is derived from them: \<open>host_sample\<close> of
  \<open>bench/architecture.py\<close> (the kernel's files are a \<open>tree\<close>), and \<open>counters\<close>, \<open>cores\<close>, \<open>host_delta\<close> and
  \<open>summarize\<close> of \<open>bench/summarize_architecture.py\<close>, on a parsed run.
\<close>

section \<open>Taking a sample\<close>

definition proc_names :: "string list" where
  "proc_names = [''stat'', ''softirqs'', ''net/snmp'', ''net/netstat'', ''net/softnet_stat'']"

definition nic_statistics :: "tree \<Rightarrow> string \<Rightarrow> val res" where
  "nic_statistics fs nic =
     (let folder = slash (slash ''/sys/class/net'' nic) ''statistics'' in
      dictE (map (\<lambda>name. (name, bindE (bindE (read_text fs (slash folder name)) py_int) (\<lambda>n. Inr (VInt n)))) (t_names fs folder)))"

definition host_sample :: "tree \<Rightarrow> int \<Rightarrow> val res" where
  "host_sample fs now =
     dictE ((''unix_ns'', pI now) #
       map (\<lambda>name. (name, bindE (read_text fs (slash ''/proc'' name)) pS)) proc_names @
       [(''nics'', dictE (map (\<lambda>nic. (nic, nic_statistics fs nic))
          (filter (\<lambda>nic. tree_exists fs (slash (slash ''/sys/class/net'' nic) ''device'')) (t_names fs ''/sys/class/net''))))])"

text \<open>
  The sampler that \<open>remote_source\<close> adds to the agent: the agent's own sample, or the processor time
  alone when the client's descriptors cannot be listed any more, always with the host's counters.
\<close>

definition arch_sample_process :: "val res \<Rightarrow> val res \<Rightarrow> val res \<Rightarrow> val res" where
  "arch_sample_process base fallback host =
     bindE (case base of Inl (OSError m) \<Rightarrow> if startswith m ''PermissionError'' then fallback else base | _ \<Rightarrow> base) (\<lambda>result.
     bindE (items result) (\<lambda>row. bindE (fieldsE [(''host'', host)] row) (\<lambda>row. Inr (VDict row))))"

section \<open>Counters\<close>

definition text_val :: "val \<Rightarrow> string res" where
  "text_val v = (case v of VStr s \<Rightarrow> Inr s | _ \<Rightarrow> Inl (AttributeError ''splitlines''))"

definition counter_row :: "string \<Rightarrow> string \<Rightarrow> (string \<times> val) list res" where
  "counter_row names values =
     bindE (mapE py_int (drop 1 (split_ws values))) (\<lambda>ns.
     seqE (ensure (length (drop 1 (split_ws names)) = length ns) (ValueError ''zip() arguments differ in length''))
     (Inr (dict_of (zip (drop 1 (split_ws names)) (map VInt ns)))))"

fun find_counters :: "string \<Rightarrow> string list \<Rightarrow> (string \<times> val) list res" where
  "find_counters protocol [] = Inl (ValueError protocol)"
| "find_counters protocol [line] = Inl (ValueError ''zip() argument 2 is shorter than argument 1'')"
| "find_counters protocol (names # values # r) =
     (if startswith names (protocol @ '':'') then counter_row names values else find_counters protocol r)"

definition counters :: "string \<Rightarrow> string \<Rightarrow> (string \<times> val) list res" where
  "counters txt protocol = find_counters protocol (splitlines txt)"

definition is_core_line :: "string list \<Rightarrow> bool" where
  "is_core_line words \<longleftrightarrow> words \<noteq> [] \<and> startswith (hd words) ''cpu'' \<and> hd words \<noteq> ''cpu''"

definition cores :: "string \<Rightarrow> (string \<times> int list) list res" where
  "cores txt =
     bindE (mapE (\<lambda>words. bindE (mapE py_int (take 8 (drop 1 words))) (\<lambda>ns. Inr (hd words, ns)))
       (filter is_core_line (map split_ws (splitlines txt)))) (\<lambda>rows. Inr (dict_of rows))"

section \<open>Differences\<close>

definition list_nth :: "'a list \<Rightarrow> nat \<Rightarrow> 'a res" where
  "list_nth xs i = (if i < length xs then Inr (xs ! i) else Inl IndexError)"

definition zip_strict :: "'a list \<Rightarrow> 'b list \<Rightarrow> ('a \<times> 'b) list res" where
  "zip_strict xs ys =
     (if length xs = length ys then Inr (zip xs ys) else Inl (ValueError ''zip() arguments differ in length''))"

definition core_delta :: "int list \<Rightarrow> int list \<Rightarrow> int list res" where
  "core_delta after before = bindE (zip_strict after before) (\<lambda>ps. Inr (map (\<lambda>(a, b). a - b) ps))"

definition busy_fraction :: "int list \<Rightarrow> val res" where
  "busy_fraction delta =
     (let ticks = sum_list delta in
      if ticks = 0 then pI 0
      else bindE (list_nth delta 3) (\<lambda>d3. bindE (list_nth delta 4) (\<lambda>d4. py_truediv (VInt (ticks - d3 - d4)) (VInt ticks))))"

definition softirq_fraction :: "int list \<Rightarrow> val res" where
  "softirq_fraction delta =
     (let ticks = sum_list delta in
      if ticks = 0 then pI 0 else bindE (list_nth delta 6) (\<lambda>d6. py_truediv (VInt d6) (VInt ticks)))"

definition core_fractions ::
  "(string \<times> int list) list \<Rightarrow> (string \<times> int list) list \<Rightarrow> ((string \<times> val) list \<times> (string \<times> val) list) res" where
  "core_fractions before after =
     foldE (\<lambda>(cpu, values) (busy, softirq).
       bindE (of_option (KeyError cpu) (map_of before cpu)) (\<lambda>b.
       bindE (core_delta values b) (\<lambda>delta.
       bindE (busy_fraction delta) (\<lambda>x. bindE (softirq_fraction delta) (\<lambda>y.
       Inr (dict_set cpu x busy, dict_set cpu y softirq)))))) after ([], [])"

definition tcp_names :: "string list" where
  "tcp_names = [''InSegs'', ''OutSegs'', ''RetransSegs'', ''InErrs'', ''OutRsts'']"

definition tcp_ext_names :: "string list" where
  "tcp_ext_names = [''ListenOverflows'', ''ListenDrops'', ''TCPBacklogDrop'', ''TCPRcvQDrop'', ''TCPOFODrop'',
     ''TCPTimeouts'', ''TCPFastRetrans'', ''TCPLostRetransmit'', ''TCPMemoryPressures'']"

definition nic_delta :: "val \<Rightarrow> string \<Rightarrow> val \<Rightarrow> val res" where
  "nic_delta first nic counts =
     bindE (items counts) (\<lambda>kvs. dictE (map (\<lambda>(k, v). (k, subE (Inr v) (path first [''nics'', nic, k]))) kvs))"

definition tcp_delta :: "(string \<times> val) list \<Rightarrow> (string \<times> val) list \<Rightarrow> val res" where
  "tcp_delta before after = dictE (map (\<lambda>k. (k, subE (idx (VDict after) k) (idx (VDict before) k))) tcp_names)"

definition tcp_ext_delta :: "(string \<times> val) list \<Rightarrow> (string \<times> val) list \<Rightarrow> val res" where
  "tcp_ext_delta before after =
     dictE (map (\<lambda>k. (k, subE (Inr (dict_get (VInt 0) k after)) (Inr (dict_get (VInt 0) k before)))) tcp_ext_names)"

definition nics_delta :: "val \<Rightarrow> val \<Rightarrow> val res" where
  "nics_delta first last' =
     bindE (bindE (idx last' ''nics'') items) (\<lambda>nics. dictE (map (\<lambda>(nic, kvs). (nic, nic_delta first nic kvs)) nics))"

definition delta_row :: "val \<Rightarrow> (string \<times> val) list \<times> (string \<times> val) list \<Rightarrow> val res \<Rightarrow> val res \<Rightarrow> val res \<Rightarrow> val res" where
  "delta_row seconds fractions tcp tcp_ext nics =
     (case fractions of (busy, softirq) \<Rightarrow>
      dictE
       [(''seconds'', Inr seconds), (''busy_cores'', py_sum (map snd busy)), (''busy_by_cpu'', Inr (VDict busy)),
        (''softirq_cores'', py_sum (map snd softirq)), (''softirq_by_cpu'', Inr (VDict softirq)),
        (''tcp'', tcp), (''tcp_ext'', tcp_ext), (''nics'', nics)])"

definition host_text :: "val \<Rightarrow> string \<Rightarrow> string res" where
  "host_text sample name = bindE (idx sample name) text_val"

definition host_delta :: "val \<Rightarrow> val \<Rightarrow> val res" where
  "host_delta first last' =
     bindE (divE (subE (idx last' ''unix_ns'') (idx first ''unix_ns'')) (pF 1000000000)) (\<lambda>seconds.
     bindE (bindE (host_text first ''stat'') cores) (\<lambda>before.
     bindE (bindE (host_text last' ''stat'') cores) (\<lambda>after.
     bindE (core_fractions before after) (\<lambda>fractions.
     bindE (bindE (host_text first ''net/snmp'') (\<lambda>t. counters t ''Tcp'')) (\<lambda>tcp_before.
     bindE (bindE (host_text last' ''net/snmp'') (\<lambda>t. counters t ''Tcp'')) (\<lambda>tcp_after.
     bindE (bindE (host_text first ''net/netstat'') (\<lambda>t. counters t ''TcpExt'')) (\<lambda>ext_before.
     bindE (bindE (host_text last' ''net/netstat'') (\<lambda>t. counters t ''TcpExt'')) (\<lambda>ext_after.
     delta_row seconds fractions (tcp_delta tcp_before tcp_after) (tcp_ext_delta ext_before ext_after) (nics_delta first last')))))))))"

section \<open>The summary of a run\<close>

text \<open>\<open>statistics.mean\<close>: the exact mean, an integer when all values are and it is one.\<close>

definition py_mean :: "val list \<Rightarrow> val res" where
  "py_mean xs =
     (if xs = [] then Inl (ValueError ''mean requires at least one data point'')
      else bindE (mapE (\<lambda>x. of_option TypeError (as_rat x)) xs) (\<lambda>rs.
        let m = sum_list rs / of_nat (length rs) in
        Inr (if list_all (\<lambda>x. as_int x \<noteq> None) xs \<and> of_int \<lfloor>m\<rfloor> = m then VInt \<lfloor>m\<rfloor> else VFloat (fl m))))"

text \<open>Samples between two instants: \<open>[s for s in samples if low <= s['unix_ns'] < high]\<close>.\<close>

definition samples_between :: "val res \<Rightarrow> val res \<Rightarrow> val res \<Rightarrow> val list res" where
  "samples_between low high samples =
     selectE samples (\<lambda>s. andE (leE low (idx s ''unix_ns'')) (ltE (idx s ''unix_ns'') high))"

definition counter_delta :: "val \<Rightarrow> string \<Rightarrow> val res" where
  "counter_delta run k = subE (path run [''metrics_after'', ''counters'', k]) (path run [''metrics_before'', ''counters'', k])"

definition worker_fields :: "val \<Rightarrow> (string \<times> val) list \<Rightarrow> (string \<times> val) list res" where
  "worker_fields run row =
     bindE (collectE (path run [''workers_after'', ''workers'']) (\<lambda>worker. idx worker ''requests_completed_total'')) (\<lambda>counts.
     fieldsE
      [(''worker_requests_max_over_mean'', divE (py_max counts) (py_mean counts)),
       (''worker_requests_min_over_mean'', divE (py_min counts) (py_mean counts)),
       (''io_per_completion'', dictE (map (\<lambda>k. (k, divE (counter_delta run k) (counter_delta run ''requests_completed_total'')))
          [''io_submissions_total'', ''io_completions_total'']))] row)"

definition closed_loop_names :: "string list" where
  "closed_loop_names = [''connections'', ''connections_ready'', ''connections_measured'', ''connections_opened'',
     ''window_successes_per_second'', ''latency_us'', ''setup_errors'', ''warmup_errors'', ''errors'', ''failures'']"

definition edges :: "val list \<Rightarrow> (val \<times> val) res" where
  "edges xs = (if xs = [] then Inl IndexError else Inr (hd xs, last xs))"

definition cpu_rate :: "string \<Rightarrow> val \<Rightarrow> val \<Rightarrow> val \<Rightarrow> val res" where
  "cpu_rate k first last' seconds = divE (subE (path last' [''server'', k]) (path first [''server'', k])) (Inr seconds)"

definition remote_interval :: "val \<Rightarrow> val \<Rightarrow> val list res" where
  "remote_interval run phase =
     selectE (idx run ''remote_samples'') (\<lambda>s. andE (inE ''host'' s)
       (andE (leE (addE (idx phase ''start_unix_ns'') (pI 500000000)) (idx s ''unix_ns''))
             (ltE (idx s ''unix_ns'') (subE (idx phase ''end_unix_ns'') (pI 200000000)))))"

definition phase_row :: "val \<Rightarrow> val \<Rightarrow> val res" where
  "phase_row run phase =
     bindE (addE (idx phase ''start_unix_ns'') (idx run ''clock_offset_ns'')) (\<lambda>start.
     bindE (addE (idx phase ''end_unix_ns'') (idx run ''clock_offset_ns'')) (\<lambda>end'.
     bindE (bindE (samples_between (addE (Inr start) (pI 500000000)) (subE (Inr end') (pI 200000000)) (idx run ''samples'')) edges) (\<lambda>(first, last').
     bindE (divE (subE (idx last' ''unix_ns'') (idx first ''unix_ns'')) (pF 1000000000)) (\<lambda>seconds.
     bindE (cpu_rate ''cpu_seconds'' first last' seconds) (\<lambda>cpu.
     bindE (cpu_rate ''user_seconds'' first last' seconds) (\<lambda>user.
     bindE (cpu_rate ''system_seconds'' first last' seconds) (\<lambda>system.
     bindE (fieldsE
      [(''offered_rate'', idx phase ''offered_rate''), (''goodput'', idx phase ''window_successes_per_second''),
       (''failures'', idx phase ''failures''), (''connections_opened'', idx phase ''connections_opened''),
       (''generator_drops'', addE (idx phase ''generator_queue_drops'') (idx phase ''generator_expired'')),
       (''offer_p99_us'', path phase [''success_latency'', ''p99_us'']),
       (''service_p99_us'', path phase [''success_service_latency'', ''p99_us'']),
       (''cpu_interval_seconds'', Inr seconds), (''process_cpu_cores'', Inr cpu),
       (''user_cpu_cores'', Inr user), (''system_cpu_cores'', Inr system),
       (''cpu_us_per_success_estimate'', divE (mulE (Inr cpu) (pF 1000000)) (idx phase ''window_successes_per_second'')),
       (''server_host'', bindE (idx first ''host'') (\<lambda>a. bindE (idx last' ''host'') (host_delta a)))] []) (\<lambda>row.
     bindE (remote_interval run phase) (\<lambda>remote.
     bindE (if length remote \<ge> 2
            then fieldsE [(''client_host'', bindE (idx (hd remote) ''host'') (\<lambda>a. bindE (idx (last remote) ''host'') (host_delta a)))] row
            else Inr row) (\<lambda>row. Inr (VDict row)))))))))))"

definition base_row :: "string \<Rightarrow> val \<Rightarrow> val \<Rightarrow> val \<Rightarrow> (string \<times> val) list res" where
  "base_row name run before after =
     fieldsE
      [(''path'', pS name), (''variant'', idx run ''variant''), (''repeat'', idx run ''repeat''),
       (''rss_mib'', divE (idx after ''VmRSS'') (pI 1048576)),
       (''process_cpu_seconds'', subE (idx after ''cpu_seconds'') (idx before ''cpu_seconds'')),
       (''server_network'', bindE (idx run ''host_before'') (\<lambda>a. bindE (idx run ''host_after'') (host_delta a))),
       (''server_exit'', idx run ''server_exit''), (''phases'', Inr (VList []))] []"

definition per_success :: "string \<Rightarrow> val \<Rightarrow> val \<Rightarrow> val \<Rightarrow> val res" where
  "per_success k before after successes = divE (mulE (subE (idx after k) (idx before k)) (pF 1000000)) (Inr successes)"

definition open_loop_fields :: "val \<Rightarrow> val \<Rightarrow> val \<Rightarrow> val \<Rightarrow> (string \<times> val) list \<Rightarrow> (string \<times> val) list res" where
  "open_loop_fields run before after load row =
     bindE (sumE (collectE (idx load ''phases'') (\<lambda>phase. idx phase ''successes''))) (\<lambda>successes.
     bindE (fieldsE
      [(''total_successes'', Inr successes),
       (''whole_run_cpu_us_per_success'', divE (mulE (idx (VDict row) ''process_cpu_seconds'') (pF 1000000)) (Inr successes)),
       (''whole_run_user_us_per_success'', per_success ''user_seconds'' before after successes),
       (''whole_run_system_us_per_success'', per_success ''system_seconds'' before after successes)] row) (\<lambda>row.
     fieldsE [(''phases'', listE (collectE (idx load ''phases'') (phase_row run)))] row))"

definition summarize_run :: "string \<Rightarrow> val \<Rightarrow> val res" where
  "summarize_run name run =
     bindE (getE run ''outcome'') (\<lambda>outcome.
       if \<not> py_eq outcome (VStr ''measured'')
       then dictE [(''path'', pS name), (''outcome'', getE run ''outcome''), (''error'', getE run ''error'')]
       else
        bindE (idx run ''server_before'') (\<lambda>before. bindE (idx run ''server_after'') (\<lambda>after. bindE (idx run ''load'') (\<lambda>load.
        bindE (base_row name run before after) (\<lambda>row.
        bindE (idx run ''samples'') (\<lambda>samples.
        bindE (truthE (getE run ''workers_after'')) (\<lambda>workers.
        bindE (if workers then worker_fields run row else Inr row) (\<lambda>row.
        bindE (inE ''phases'' load) (\<lambda>phased.
        bindE (if phased then open_loop_fields run before after load row
               else fieldsE [(''closed_loop'', dictE (map (\<lambda>k. (k, idx load k)) closed_loop_names))] row) (\<lambda>row.
        Inr (VDict row)))))))))))"

section \<open>Fractions of processor time\<close>

lemma sum_list_three:
  fixes ds :: "int list"
  assumes "\<forall>d \<in> set ds. 0 \<le> d" and "6 < length ds"
  shows "ds ! 3 + ds ! 4 + ds ! 6 \<le> sum_list ds" and "0 \<le> ds ! 3" and "0 \<le> ds ! 4" and "0 \<le> ds ! 6"
proof -
  have nonneg: "0 \<le> ds ! i" if "i < length ds" for i using assms(1) nth_mem [OF that] by blast
  show "0 \<le> ds ! 3" "0 \<le> ds ! 4" "0 \<le> ds ! 6" using nonneg assms(2) by simp_all
  have "(\<Sum>i \<in> {3, 4, 6}. ds ! i) \<le> (\<Sum>i = 0..<length ds. ds ! i)"
    by (rule sum_mono2) (use nonneg assms(2) in auto)
  then show "ds ! 3 + ds ! 4 + ds ! 6 \<le> sum_list ds" by (simp add: sum_list_sum_nth)
qed

lemma fl_fraction:
  fixes a b :: int
  assumes "0 \<le> a" and "a \<le> b" and "0 < b"
  shows "0 \<le> fl (of_int a / of_int b)" and "fl (of_int a / of_int b) \<le> 1"
proof -
  have "(of_int a :: rat) / of_int b \<le> 1" using assms by simp
  then have "fl (of_int a / of_int b) \<le> fl 1" by (rule fl_mono)
  then show "fl (of_int a / of_int b) \<le> 1" using fl_of_int [of 1] by simp
  show "0 \<le> fl (of_int a / of_int b)" using assms by (intro fl_nonneg) simp
qed

definition fraction_pair :: "val \<Rightarrow> val \<Rightarrow> bool" where
  "fraction_pair x y \<longleftrightarrow> (\<exists>p q. as_rat x = Some p \<and> as_rat y = Some q \<and> 0 \<le> q \<and> q \<le> p \<and> p \<le> 1)"

lemma core_fraction_pair:
  assumes "busy_fraction delta = Inr x" and "softirq_fraction delta = Inr y" and nonneg: "\<forall>d \<in> set delta. 0 \<le> d"
  shows "fraction_pair x y"
proof (cases "sum_list delta = 0")
  case True
  then show ?thesis using assms(1,2) by (auto simp: busy_fraction_def softirq_fraction_def pI_def fraction_pair_def)
next
  case False
  let ?t = "sum_list delta"
  have "0 \<le> ?t" using nonneg by (simp add: sum_list_nonneg)
  then have pos: "0 < ?t" using False by simp
  have len: "6 < length delta" using assms(2) False by (auto simp: softirq_fraction_def list_nth_def Let_def split: if_splits)
  note bound = sum_list_three [OF nonneg len]
  have x: "x = VFloat (fl (of_int (?t - delta ! 3 - delta ! 4) / of_int ?t))"
    using assms(1) False len by (simp add: busy_fraction_def list_nth_def Let_def)
  have y: "y = VFloat (fl (of_int (delta ! 6) / of_int ?t))"
    using assms(2) False len by (simp add: softirq_fraction_def list_nth_def Let_def)
  have "fl (of_int (delta ! 6) / of_int ?t) \<le> fl (of_int (?t - delta ! 3 - delta ! 4) / of_int ?t)"
    using bound pos by (intro fl_mono divide_right_mono) simp_all
  moreover have "fl (of_int (?t - delta ! 3 - delta ! 4) / of_int ?t) \<le> 1"
    by (rule fl_fraction) (use bound pos in linarith)+
  moreover have "0 \<le> fl (of_int (delta ! 6) / of_int ?t)" by (rule fl_fraction) (use bound pos in linarith)+
  ultimately show ?thesis by (simp add: fraction_pair_def x y)
qed

text \<open>The counters of every core that is sampled at the end did not run backwards.\<close>

definition monotone_cores :: "(string \<times> int list) list \<Rightarrow> (string \<times> int list) list \<Rightarrow> bool" where
  "monotone_cores before after \<longleftrightarrow>
     (\<forall>(cpu, vs) \<in> set after. \<forall>b. map_of before cpu = Some b \<longrightarrow> list_all2 (\<le>) b vs)"

definition fractions_inv :: "(string \<times> val) list \<Rightarrow> (string \<times> val) list \<Rightarrow> bool" where
  "fractions_inv busy softirq \<longleftrightarrow> map fst busy = map fst softirq \<and>
     (\<forall>cpu x. map_of busy cpu = Some x \<longrightarrow> (\<exists>y. map_of softirq cpu = Some y \<and> fraction_pair x y))"

lemma dict_set_same_keys: "map fst d = map fst e \<Longrightarrow> map fst (dict_set k v d) = map fst (dict_set k w e)"
proof (induction k v d arbitrary: e rule: dict_set.induct)
  case (2 k v k' v' d)
  then show ?case by (cases e) auto
qed auto

lemma core_delta_nonneg:
  assumes "core_delta vs b = Inr delta" and "list_all2 (\<le>) b vs"
  shows "\<forall>d \<in> set delta. 0 \<le> d"
  using assms by (auto simp: core_delta_def zip_strict_def list_all2_conv_all_nth in_set_zip split: if_splits)

lemma core_fractions_inv:
  assumes "core_fractions before after = Inr (busy, softirq)" and "monotone_cores before after"
  shows "fractions_inv busy softirq"
proof -
  have "fractions_inv (fst s) (snd s)"
    if "foldE (\<lambda>(cpu, vs) (busy, softirq).
       bindE (of_option (KeyError cpu) (map_of before cpu)) (\<lambda>b.
       bindE (core_delta vs b) (\<lambda>delta.
       bindE (busy_fraction delta) (\<lambda>x. bindE (softirq_fraction delta) (\<lambda>y.
       Inr (dict_set cpu x busy, dict_set cpu y softirq)))))) after ([], []) = Inr s" for s
  proof (rule foldE_invariant [OF that])
    fix cv s s'
    assume mem: "cv \<in> set after" and inv: "fractions_inv (fst s) (snd s)"
      and step: "(case cv of (cpu, vs) \<Rightarrow> \<lambda>(busy, softirq).
       bindE (of_option (KeyError cpu) (map_of before cpu)) (\<lambda>b.
       bindE (core_delta vs b) (\<lambda>delta.
       bindE (busy_fraction delta) (\<lambda>x. bindE (softirq_fraction delta) (\<lambda>y.
       Inr (dict_set cpu x busy, dict_set cpu y softirq)))))) s = Inr s'"
    obtain cpu vs where cv: "cv = (cpu, vs)" by (cases cv)
    obtain b delta x y where b: "map_of before cpu = Some b" and d: "core_delta vs b = Inr delta"
      and f: "busy_fraction delta = Inr x" "softirq_fraction delta = Inr y"
      and s': "s' = (dict_set cpu x (fst s), dict_set cpu y (snd s))"
      using step by (auto simp: cv case_prod_beta bindE_eq_Inr of_option_eq_Inr)
    have "list_all2 (\<le>) b vs" using assms(2) mem b by (auto simp: cv monotone_cores_def)
    then have "fraction_pair x y" using core_fraction_pair [OF f] core_delta_nonneg [OF d] by blast
    then show "fractions_inv (fst s') (snd s')"
      using inv dict_set_same_keys [of "fst s" "snd s" cpu x y] by (auto simp: s' fractions_inv_def map_of_dict_set)
  qed (simp add: fractions_inv_def)
  from this [OF assms(1) [unfolded core_fractions_def]] show ?thesis by simp
qed

text \<open>
  The processor shares of an interval are shares.  When the cumulative counters did not run
  backwards, the two tables of a host difference list the same processors, and on each of them
  the time in soft interrupts is part of the busy time: \<open>0 \<le> softirq \<le> busy \<le> 1\<close>, rounding included.
\<close>

theorem host_delta_fractions:
  assumes "host_delta first last' = Inr d"
    and "bindE (host_text first ''stat'') cores = Inr before"
    and "bindE (host_text last' ''stat'') cores = Inr after"
    and "monotone_cores before after"
  shows "\<exists>busy softirq. idx d ''busy_by_cpu'' = Inr (VDict busy) \<and> idx d ''softirq_by_cpu'' = Inr (VDict softirq) \<and>
    map fst busy = map fst softirq \<and>
    (\<forall>cpu x. map_of busy cpu = Some x \<longrightarrow> (\<exists>y p q. map_of softirq cpu = Some y \<and>
       as_rat x = Some p \<and> as_rat y = Some q \<and> 0 \<le> q \<and> q \<le> p \<and> p \<le> 1))"
proof -
  obtain seconds busy softirq tcp tcp_ext where f: "core_fractions before after = Inr (busy, softirq)"
    and row: "delta_row seconds (busy, softirq) tcp tcp_ext (nics_delta first last') = Inr d"
    using assms(1-3) unfolding host_delta_def by (auto simp: bindE_eq_Inr)
  note field = dictE_field [OF row [unfolded delta_row_def prod.case], THEN conjunct1, symmetric]
  have "idx d ''busy_by_cpu'' = Inr (VDict busy)" "idx d ''softirq_by_cpu'' = Inr (VDict softirq)"
    by (rule field; simp)+
  then show ?thesis
    using core_fractions_inv [OF f assms(4)] unfolding fractions_inv_def fraction_pair_def by blast
qed

text \<open>A sample of a machine with its processor counters given.\<close>

definition sample_counters :: "int \<Rightarrow> string \<Rightarrow> val" where
  "sample_counters now stat = VDict [(''unix_ns'', VInt now), (''stat'', VStr stat),
     (''net/snmp'', VStr (''Tcp: InSegs OutSegs RetransSegs InErrs OutRsts'' @ [newline] @ ''Tcp: 1 2 3 4 5'')),
     (''net/netstat'', VStr (''TcpExt: ListenDrops'' @ [newline] @ ''TcpExt: 7'')), (''nics'', VDict [])]"

end
