(* ===== verification/Architecture.thy ===== *)
theory Architecture
  imports Evidence Host_Samples
begin

text \<open>
  \<open>bench/architecture.py\<close>: LAN trials of the Zig and Go servers with host counters.  The command lines, the
  environment, the client arguments and the checks of the options are functions of the options; \<open>run_one\<close>
  is the list of its steps over \<open>arch_world\<close>, what the server, the remote agent, the admin endpoint and
  the kernel answered.  \<open>py_str\<close> is \<open>str\<close> of a value, \<open>build\<close> the directory of built programs.
\<close>

section \<open>Options\<close>

record arch_options =
  r_variants :: "string list"
  r_connections :: int
  r_repeats :: int
  r_duration :: int
  r_schedule :: string
  r_workers :: int
  r_capacity :: int
  r_worker_cpus :: string
  r_server_cpus :: string
  r_completion_budget :: int
  r_idle_reclaim_ms :: "int option"
  r_go_procs :: "int option"
  r_go_binary :: string
  r_go_gc_off :: bool
  r_zig_binary :: string
  r_before_binary :: string
  r_profile :: bool
  r_method :: string
  r_path :: string
  r_request_body :: string
  r_expect_body :: string
  r_churn :: bool
  r_access_log :: bool
  r_address :: string
  r_client_host :: string
  r_client_cpus :: string
  r_ssh_config :: string

text \<open>\<open>cpus\<close> is the result of \<open>cpu_list(args.client_cpus)\<close>; its \<open>ValueError\<close> is a usage error too.\<close>

definition check_client_cpus :: "int list res \<Rightarrow> unit res" where
  "check_client_cpus cpus =
     (case cpus of
        Inl (ValueError m) \<Rightarrow> Inl (ParserError ''--client-cpus must contain distinct nonnegative CPU IDs or ranges'')
      | Inl e \<Rightarrow> Inl e
      | Inr cs \<Rightarrow> ensure (cs \<noteq> [] \<and> distinct cs \<and> 0 \<le> Min (set cs))
          (ParserError ''--client-cpus must contain distinct nonnegative CPU IDs or ranges''))"

definition check_arch_options :: "int list res \<Rightarrow> arch_options \<Rightarrow> unit res" where
  "check_arch_options cpus o' =
     checks
      [check_client_cpus cpus,
       ensure (\<not> (''before'' \<in> set (r_variants o') \<and> r_before_binary o' = [])) (ParserError ''--variants before requires --before-binary''),
       ensure (\<not> (r_schedule o' = [] \<and> (r_method o' \<noteq> ''GET'' \<or> r_path o' \<noteq> ''/'' \<or> r_request_body o' \<noteq> [] \<or>
                  r_expect_body o' \<noteq> [] \<or> r_churn o'))) (ParserError ''custom workloads require --schedule'')]"

definition arch_binary :: "string \<Rightarrow> arch_options \<Rightarrow> string \<Rightarrow> string" where
  "arch_binary build o' variant =
     (if variant = ''go''
      then (if r_go_binary o' \<noteq> [] then r_go_binary o' else slash build (if r_profile o' then ''go_profile'' else ''go_server''))
      else if variant = ''before'' then r_before_binary o' else r_zig_binary o')"

definition arch_command :: "arch_options \<Rightarrow> string \<Rightarrow> string \<Rightarrow> int \<Rightarrow> int \<Rightarrow> string list" where
  "arch_command o' variant binary port admin =
     (if r_server_cpus o' \<noteq> [] then [''taskset'', ''-c'', r_server_cpus o', binary] else [binary]) @
     (if variant = ''go'' then [''-listen'', r_address o' @ '':'' @ str_of_int port]
      else [''--address'', r_address o', ''--port'', str_of_int port, ''--admin-port'', str_of_int admin,
            ''--workers'', str_of_int (r_workers o'), ''--max-connections'', str_of_int (r_capacity o'),
            ''--max-active'', str_of_int (r_capacity o'), ''--max-requests'', ''4294967295'',
            ''--completion-budget'', str_of_int (r_completion_budget o')] @
           (if r_access_log o' then [] else [''--no-access-log'']) @
           (if r_worker_cpus o' \<noteq> [] then [''--worker-cpus'', r_worker_cpus o'] else []) @
           (case r_idle_reclaim_ms o' of None \<Rightarrow> [] | Some n \<Rightarrow> [''--idle-reclaim-ms'', str_of_int n]))"

definition go_settings :: "string list" where
  "go_settings = [''GOMAXPROCS'', ''GOGC'', ''GOMEMLIMIT'', ''GODEBUG'']"

definition arch_env :: "arch_options \<Rightarrow> string \<Rightarrow> string \<Rightarrow> (string \<times> string) list \<Rightarrow> (string \<times> string) list" where
  "arch_env o' variant folder environ =
     (let env = filter (\<lambda>(k, v). k \<notin> set go_settings) environ;
          env = (case r_go_procs o' of Some n \<Rightarrow> if n \<noteq> 0 then dict_set ''GOMAXPROCS'' (str_of_int n) env else env | None \<Rightarrow> env);
          env = (if variant = ''go'' \<and> r_profile o'
                 then dict_set ''GODEBUG'' ''gctrace=1'' (dict_set ''ZHTPS_GO_PROFILE'' (slash folder ''go'') env) else env)
      in if variant = ''go'' \<and> r_go_gc_off o' then dict_set ''GOGC'' ''off'' env else env)"

definition arch_arguments :: "arch_options \<Rightarrow> int \<Rightarrow> string list" where
  "arch_arguments o' port =
     [''-address'', r_address o' @ '':'' @ str_of_int port, ''-connections'', str_of_int (r_connections o')] @
     (if r_schedule o' \<noteq> []
      then [''-schedule'', r_schedule o', ''-shards'', ''8'', ''-queue'', ''128'', ''-timeout'', ''2s'',
            ''-method'', r_method o', ''-path'', r_path o'] @ (if r_churn o' then [''-churn''] else [])
      else [''-warmup'', ''2s'', ''-duration'', str_of_int (r_duration o') @ ''s'', ''-allow-errors''])"

definition arch_files :: "arch_options \<Rightarrow> (string \<times> string) list" where
  "arch_files o' = filter (\<lambda>(flag, p). p \<noteq> []) [(''-request-body'', r_request_body o'), (''-expect-body'', r_expect_body o')]"

definition body_field :: "string \<Rightarrow> string" where
  "body_field flag = (if flag = ''-request-body'' then ''request_body_sha256'' else ''expected_body_sha256'')"

definition perf_command :: "string \<Rightarrow> int \<Rightarrow> string list" where
  "perf_command folder pid =
     [''perf'', ''record'', ''-F'', ''199'', ''-e'', ''cycles:u'', ''--call-graph'', ''dwarf,4096'',
      ''-o'', slash folder ''user.perf.data'', ''-p'', str_of_int pid]"

definition arch_order :: "string list \<Rightarrow> nat \<Rightarrow> string list" where
  "arch_order variants repeat =
     drop (repeat mod length variants) variants @ take (repeat mod length variants) variants"

section \<open>One run\<close>

definition loop_guard :: "poll_turn \<Rightarrow> unit res" where
  "loop_guard t =
     seqE (ensure (\<not> d_exited t) (RuntimeError ''server exited during load''))
       (ensure (\<not> d_late t) (TimeoutError ''load deadline''))"

definition loop_steps :: "poll_turn list \<Rightarrow> step list" where
  "loop_steps = poll_steps loop_guard (TimeoutError ''load deadline'')"

text \<open>
  What the machines answer.  \<open>z_prepared\<close>: reading the binary and opening the logs; \<open>z_popen\<close>: starting the
  server; \<open>z_perf_popen\<close>, \<open>z_perf_wait\<close>, \<open>z_perf_exit\<close>: starting the profiler, its end within ten seconds of
  the interrupt, its exit status; \<open>z_cleanup\<close>: stopping profiler, client and server at the end; \<open>z_report\<close>:
  the output of the profile report.
\<close>

record arch_world =
  z_port :: int
  z_admin :: int
  z_pid :: int
  z_binary_sha256 :: string
  z_server_identity :: val
  z_options :: val
  z_prepared :: "unit res"
  z_popen :: "unit res"
  z_go_runtime :: "val res"
  z_ready :: "unit res"
  z_running_sha256 :: "string res"
  z_affinity :: "int list"
  z_remote :: "val res"
  z_remote_source_sha256 :: string
  z_metrics_before :: "val res"
  z_workers_before :: "val res"
  z_server_before :: "val res"
  z_host_before :: "val res"
  z_start :: "val res"
  z_local_client_sha256 :: "string res"
  z_clock :: "int \<times> int"
  z_turns :: "poll_turn list"
  z_elapsed :: rat
  z_server_after :: "val res"
  z_host_after :: "val res"
  z_client :: "val res"
  z_body_sha256 :: "string \<Rightarrow> string res"
  z_remote_samples :: "val list"
  z_metrics_after :: "val res"
  z_workers_after :: "val res"
  z_perf_popen :: "unit res"
  z_perf_wait :: "unit res"
  z_perf_exit :: int
  z_failure :: val
  z_cleanup :: "unit res"
  z_server_exit :: int
  z_report :: "string list \<Rightarrow> string res"

definition arch_start :: "string list \<Rightarrow> string \<Rightarrow> int \<Rightarrow> arch_world \<Rightarrow> row" where
  "arch_start command variant repeat w =
     [(''variant'', VStr variant), (''repeat'', VInt repeat), (''command'', VList (map VStr command)),
      (''binary_sha256'', VStr (z_binary_sha256 w)), (''server_identity'', z_server_identity w),
      (''options'', z_options w), (''samples'', VList [])]"

definition same_text :: "val res \<Rightarrow> string res \<Rightarrow> unit res" where
  "same_text a b = assertE (eqE a (bindE b pS))"

definition arch_connect_steps :: "bool \<Rightarrow> arch_world \<Rightarrow> step list" where
  "arch_connect_steps go w =
     [Check (z_popen w),
      Put ''go_runtime'' (if go then z_go_runtime w else Inr VNone),
      Check (z_ready w),
      Put ''running_binary_sha256'' (bindE (z_running_sha256 w) pS),
      Check (same_text (bindE (z_running_sha256 w) pS) (Inr (z_binary_sha256 w))),
      Put ''server_affinity'' (Inr (VList (map VInt (sort (z_affinity w))))),
      Check (assertE (neE (idxE (z_remote w) ''boot_id'') (idx (z_server_identity w) ''boot_id''))),
      Put ''remote_identity'' (z_remote w),
      Put ''remote_source_sha256'' (pS (z_remote_source_sha256 w))]"

definition arch_before_steps :: "arch_options \<Rightarrow> bool \<Rightarrow> string \<Rightarrow> arch_world \<Rightarrow> step list" where
  "arch_before_steps o' go folder w =
     (if go then [] else [Put ''metrics_before'' (z_metrics_before w), Put ''workers_before'' (z_workers_before w)]) @
     [Put ''server_before'' (z_server_before w), Put ''host_before'' (z_host_before w)] @
     (if r_profile o' \<and> \<not> go
      then [Check (z_perf_popen w), Put ''perf_command'' (Inr (VList (map VStr (perf_command folder (z_pid w)))))] else [])"

definition arch_load_steps :: "arch_world \<Rightarrow> step list" where
  "arch_load_steps w =
     [Check (bindE (z_start w) (\<lambda>_. Inr ())),
      Check (same_text (idxE (z_start w) ''binary_sha256'') (z_local_client_sha256 w)),
      Put ''remote_started'' (z_start w),
      Put ''clock_offset_ns'' (pI (fst (z_clock w))), Put ''clock_uncertainty_ns'' (pI (snd (z_clock w)))] @
     loop_steps (z_turns w) @
     [Put ''elapsed_seconds'' (Inr (VFloat (z_elapsed w)))]"

definition arch_after_steps :: "arch_options \<Rightarrow> bool \<Rightarrow> arch_world \<Rightarrow> step list" where
  "arch_after_steps o' go w =
     [Put ''server_after'' (z_server_after w), Put ''host_after'' (z_host_after w), Put ''load'' (z_client w)] @
     map (\<lambda>(flag, p). Check (same_text (idxE (idxE (z_client w) ''workload'') (body_field flag)) (z_body_sha256 w p))) (arch_files o') @
     [Put ''remote_samples'' (Inr (VList (z_remote_samples w)))] @
     (if go then [] else [Put ''metrics_after'' (z_metrics_after w), Put ''workers_after'' (z_workers_after w)]) @
     (if r_profile o' \<and> \<not> go
      then [Check (z_perf_wait w), Check (ensure (z_perf_exit w \<in> {0, -2}) (RuntimeError (''perf exited '' @ str_of_int (z_perf_exit w))))] else [])"

definition arch_steps :: "arch_options \<Rightarrow> string \<Rightarrow> string \<Rightarrow> arch_world \<Rightarrow> step list" where
  "arch_steps o' variant folder w =
     (let go = (variant = ''go'') in
      arch_connect_steps go w @ arch_before_steps o' go folder w @ arch_load_steps w @ arch_after_steps o' go w)"

definition report_command :: "string \<Rightarrow> string \<Rightarrow> string \<Rightarrow> string list" where
  "report_command variant binary folder =
     (if variant \<noteq> ''go''
      then [''perf'', ''report'', ''--stdio'', ''--no-children'', ''-g'', ''none'', ''--sort'', ''symbol,dso'',
            ''--percent-limit'', ''.5'', ''-i'', slash folder ''user.perf.data'']
      else [''go'', ''tool'', ''pprof'', ''-top'', ''-nodecount=80'', binary, slash folder ''go.cpu.pprof''])"

text \<open>After the record is written: the text of \<open>profile.txt\<close> where profiling was asked for.\<close>

definition arch_profile :: "string \<Rightarrow> arch_options \<Rightarrow> string \<Rightarrow> string \<Rightarrow> arch_world \<Rightarrow> string option res" where
  "arch_profile build o' variant folder w =
     (if r_profile o' then bindE (z_report w (report_command variant (arch_binary build o' variant) folder)) (\<lambda>txt. Inr (Some txt)) else Inr None)"

text \<open>
  The evidence written to \<open>run.json\<close>, if it was, and what leaves the function: an exception, or the text
  written to \<open>profile.txt\<close>.  The exit status is recorded only for a server that was started.
\<close>

definition arch_run_one ::
  "(exn \<Rightarrow> string) \<Rightarrow> string \<Rightarrow> arch_options \<Rightarrow> string \<Rightarrow> int \<Rightarrow> string \<Rightarrow> arch_world \<Rightarrow> row option \<times> string option res" where
  "arch_run_one repr build o' variant repeat folder w =
     (case z_prepared w of
        Inl e \<Rightarrow> (None, Inl e)
      | Inr _ \<Rightarrow>
          (case conclude repr (z_failure w) (arch_steps o' variant folder w)
             (arch_start (arch_command o' variant (arch_binary build o' variant) (z_port w) (z_admin w)) variant repeat w) of
             (r, out) \<Rightarrow>
               (case z_cleanup w of
                  Inl e \<Rightarrow> (None, Inl e)
                | Inr _ \<Rightarrow>
                    (Some (if returns (z_popen w) then dict_set ''server_exit'' (VInt (z_server_exit w)) r else r),
                     seqE out (arch_profile build o' variant folder w)))))"

definition arch_schedule :: "arch_options \<Rightarrow> (string \<times> nat) list" where
  "arch_schedule o' = concat (map (\<lambda>repeat. map (\<lambda>variant. (variant, repeat + 1)) (arch_order (r_variants o') repeat)) [0..<nat (r_repeats o')])"

section \<open>What the evidence means\<close>

lemmas arch_steps_defs = loop_steps_def arch_steps_def Let_def arch_connect_steps_def arch_before_steps_def arch_load_steps_def arch_after_steps_def

lemma arch_assignments:
  "assignments ''binary_sha256'' (arch_steps o' variant folder w) = []"
  "assignments ''running_binary_sha256'' (arch_steps o' variant folder w) = [Put ''running_binary_sha256'' (bindE (z_running_sha256 w) pS)]"
  "assignments ''remote_identity'' (arch_steps o' variant folder w) = [Put ''remote_identity'' (z_remote w)]"
  "assignments ''remote_started'' (arch_steps o' variant folder w) = [Put ''remote_started'' (z_start w)]"
  "assignments ''load'' (arch_steps o' variant folder w) = [Put ''load'' (z_client w)]"
  "assignments ''server_exit'' (arch_steps o' variant folder w) = []"
  by (simp_all add: arch_steps_defs)

definition arch_before :: "arch_options \<Rightarrow> string \<Rightarrow> string \<Rightarrow> arch_world \<Rightarrow> step list" where
  "arch_before o' variant folder w =
     arch_connect_steps (variant = ''go'') w @ arch_before_steps o' (variant = ''go'') folder w @
     [Check (bindE (z_start w) (\<lambda>_. Inr ())),
      Check (same_text (idxE (z_start w) ''binary_sha256'') (z_local_client_sha256 w)),
      Put ''remote_started'' (z_start w),
      Put ''clock_offset_ns'' (pI (fst (z_clock w))), Put ''clock_uncertainty_ns'' (pI (snd (z_clock w)))]"

definition arch_after :: "arch_options \<Rightarrow> string \<Rightarrow> arch_world \<Rightarrow> step list" where
  "arch_after o' variant w = Put ''elapsed_seconds'' (Inr (VFloat (z_elapsed w))) # arch_after_steps o' (variant = ''go'') w"

interpretation arch_polls: polled_run "arch_steps o' variant folder" "arch_before o' variant folder" "arch_after o' variant"
    loop_guard "TimeoutError ''load deadline''" z_turns
  for o' variant folder
  by unfold_locales
    (simp_all add: arch_before_def arch_after_def arch_steps_def Let_def arch_load_steps_def loop_steps_def arch_connect_steps_def
      arch_before_steps_def arch_after_steps_def)

text \<open>What the fields of a measured record say about the run.\<close>

definition sound_evidence :: "arch_options \<Rightarrow> arch_world \<Rightarrow> row \<Rightarrow> bool" where
  "sound_evidence o' w r \<longleftrightarrow>
     map_of r ''samples'' = Some (VList (taken (z_turns w))) \<and> (\<exists>t \<in> set (z_turns w). d_completed t = Inr True) \<and>
      map_of r ''binary_sha256'' = Some (VStr (z_binary_sha256 w)) \<and>
      map_of r ''running_binary_sha256'' = Some (VStr (z_binary_sha256 w)) \<and>
      (\<exists>identity started client. map_of r ''remote_identity'' = Some identity \<and> map_of r ''remote_started'' = Some started \<and>
         map_of r ''load'' = Some client \<and>
         neE (idx identity ''boot_id'') (idx (z_server_identity w) ''boot_id'') = Inr True \<and>
         (\<exists>sha. z_local_client_sha256 w = Inr sha \<and> eqE (idx started ''binary_sha256'') (pS sha) = Inr True) \<and>
         (\<forall>(flag, p) \<in> set (arch_files o'). \<exists>sha. z_body_sha256 w p = Inr sha \<and>
            eqE (path client [''workload'', body_field flag]) (pS sha) = Inr True))"

lemma run_sound_evidence:
  assumes run: "run_steps (arch_steps o' variant folder w) (arch_start command variant repeat w) = (r, None)"
  shows "sound_evidence o' w r"
proof -
  have check: "m = Inr ()" if "Check m \<in> set (arch_steps o' variant folder w)" for m
    using run_steps_check [OF run that] .
  have samples: "map_of r ''samples'' = Some (VList (taken (z_turns w)))" "\<exists>t \<in> set (z_turns w). d_completed t = Inr True"
    using arch_polls.complete_samples [OF run] by (simp_all add: arch_start_def)
  have "map_of r ''binary_sha256'' = map_of (arch_start command variant repeat w) ''binary_sha256''"
    by (rule run_steps_keep [OF run]) (rule arch_assignments)
  then have binary: "map_of r ''binary_sha256'' = Some (VStr (z_binary_sha256 w))" by (simp add: arch_start_def)
  obtain sha where sha: "bindE (z_running_sha256 w) pS = Inr sha" "map_of r ''running_binary_sha256'' = Some sha"
    using run_steps_put [OF run arch_assignments(2)] by blast
  have "same_text (bindE (z_running_sha256 w) pS) (Inr (z_binary_sha256 w)) = Inr ()"
    by (rule check) (simp add: arch_steps_defs)
  then have running: "sha = VStr (z_binary_sha256 w)"
    using sha(1) by (auto simp: same_text_def assertE_eq_Inr eqE_True pS_def bindE_eq_Inr)
  obtain identity where identity: "z_remote w = Inr identity" "map_of r ''remote_identity'' = Some identity" using run_steps_put [OF run arch_assignments(3)] by blast
  have "assertE (neE (idxE (z_remote w) ''boot_id'') (idx (z_server_identity w) ''boot_id'')) = Inr ()"
    by (rule check) (simp add: arch_steps_defs)
  then have boot: "neE (idx identity ''boot_id'') (idx (z_server_identity w) ''boot_id'') = Inr True"
    by (simp add: identity assertE_eq_Inr idxE_def)
  obtain started where started: "z_start w = Inr started" "map_of r ''remote_started'' = Some started" using run_steps_put [OF run arch_assignments(4)] by blast
  have "same_text (idxE (z_start w) ''binary_sha256'') (z_local_client_sha256 w) = Inr ()"
    by (rule check) (simp add: arch_steps_defs)
  then have client_sha: "\<exists>sha. z_local_client_sha256 w = Inr sha \<and> eqE (idx started ''binary_sha256'') (pS sha) = Inr True"
    by (auto simp: started same_text_def assertE_eq_Inr idxE_def eqE_True bindE_eq_Inr)
  obtain client where client: "z_client w = Inr client" "map_of r ''load'' = Some client" using run_steps_put [OF run arch_assignments(5)] by blast
  have "\<exists>sha. z_body_sha256 w p = Inr sha \<and> eqE (path client [''workload'', body_field flag]) (pS sha) = Inr True"
    if "(flag, p) \<in> set (arch_files o')" for flag p
  proof -
    have "same_text (idxE (idxE (z_client w) ''workload'') (body_field flag)) (z_body_sha256 w p) = Inr ()"
      by (rule check) (use that in \<open>force simp: arch_steps_defs\<close>)
    then show ?thesis by (auto simp: client same_text_def assertE_eq_Inr idxE_def eqE_True bindE_eq_Inr)
  qed
  then show ?thesis unfolding sound_evidence_def
    using samples binary sha(2) running identity(2) boot started(2) client_sha client(2) by auto
qed

text \<open>The record after the steps: \<open>server_exit\<close> belongs to the cleanup, everything else to the run.\<close>

lemma conclude_keeps:
  assumes "conclude repr failure steps r = (r', out)" and "k \<notin> {''outcome'', ''error'', ''remote_failure''}"
  shows "map_of r' k = map_of (fst (run_steps steps r)) k"
  using assms by (auto simp: conclude_def record_outcome_def map_of_dict_set split: prod.splits option.splits)

lemma arch_record:
  assumes "conclude repr (z_failure w) (arch_steps o' variant folder w) (arch_start command variant repeat w) = (r0, out)"
    and "r = (if returns (z_popen w) then dict_set ''server_exit'' (VInt (z_server_exit w)) r0 else r0)"
  shows "map_of r ''server_exit'' = (if returns (z_popen w) then Some (VInt (z_server_exit w)) else None)"
    and "map_of r ''outcome'' = Some (VStr (if out = Inr () then ''measured'' else ''failed''))"
    and "out = Inl e \<Longrightarrow> map_of r ''error'' = Some (VStr (repr e))" and "out = Inr () \<Longrightarrow> sound_evidence o' w r"
proof -
  obtain r1 x where run: "run_steps (arch_steps o' variant folder w) (arch_start command variant repeat w) = (r1, x)"
    by (cases "run_steps (arch_steps o' variant folder w) (arch_start command variant repeat w)")
  have "map_of r0 ''server_exit'' = None"
    using conclude_keeps [OF assms(1), of "''server_exit''"] run run_steps_keep [OF run arch_assignments(6)] by (simp add: arch_start_def)
  then show "map_of r ''server_exit'' = (if returns (z_popen w) then Some (VInt (z_server_exit w)) else None)"
    by (simp add: assms(2) map_of_dict_set)
  have same: "map_of r k = map_of r0 k" if "k \<noteq> ''server_exit''" for k using that by (simp add: assms(2) map_of_dict_set)
  show "map_of r ''outcome'' = Some (VStr (if out = Inr () then ''measured'' else ''failed''))"
    using conclude_outcome [OF assms(1)] same by simp
  show "map_of r ''error'' = Some (VStr (repr e))" if "out = Inl e" using conclude_outcome [OF assms(1)] same that by simp
  show "sound_evidence o' w r" if out: "out = Inr ()"
  proof -
    obtain r2 where "run_steps (arch_steps o' variant folder w) (arch_start command variant repeat w) = (r2, None)"
      and r0: "r0 = dict_set ''outcome'' (VStr ''measured'') r2"
      using conclude_measured [OF assms(1) [unfolded out]] by blast
    from run_sound_evidence [OF this(1)] same show ?thesis by (simp add: sound_evidence_def r0 map_of_dict_set)
  qed
qed

text \<open>
  C25: the evidence of a LAN run can be trusted.  A record is written unless the run could not be prepared
  or could not be cleaned up, and then that exception leaves the function.  A written record has the
  server's exit status exactly when a server was started.  It says \<open>failed\<close> and holds the exception when
  one left the run; otherwise it says \<open>measured\<close>, and the function returns or raises only because of the
  profile report that is made afterwards.  A measured record is about the binary that was hashed before
  the start and is still the running one, about a load generator on another machine whose program is byte
  for byte the local one, whose report confirms the digest of every body file, and it holds every sample
  taken until the generator completed, in order.
\<close>

theorem arch_run_evidence:
  assumes "arch_run_one repr build o' variant repeat folder w = (written, out)"
  shows "(written = None \<longleftrightarrow> \<not> (returns (z_prepared w) \<and> returns (z_cleanup w))) \<and>
    (written = None \<longrightarrow> (\<exists>e. out = Inl e \<and> (z_prepared w = Inl e \<or> z_cleanup w = Inl e))) \<and>
    (\<forall>r. written = Some r \<longrightarrow>
       map_of r ''server_exit'' = (if returns (z_popen w) then Some (VInt (z_server_exit w)) else None) \<and>
       (map_of r ''outcome'' = Some (VStr ''failed'') \<and> (\<exists>e. out = Inl e \<and> map_of r ''error'' = Some (VStr (repr e))) \<or>
        map_of r ''outcome'' = Some (VStr ''measured'') \<and> sound_evidence o' w r \<and> out = arch_profile build o' variant folder w))"
proof -
  let ?command = "arch_command o' variant (arch_binary build o' variant) (z_port w) (z_admin w)"
  obtain r0 ended where c: "conclude repr (z_failure w) (arch_steps o' variant folder w) (arch_start ?command variant repeat w) = (r0, ended)"
    by (cases "conclude repr (z_failure w) (arch_steps o' variant folder w) (arch_start ?command variant repeat w)")
  show ?thesis
  proof (cases "returns (z_prepared w) \<and> returns (z_cleanup w)")
    case True
    then have w: "written = Some (if returns (z_popen w) then dict_set ''server_exit'' (VInt (z_server_exit w)) r0 else r0)"
        "out = seqE ended (arch_profile build o' variant folder w)"
      using assms c by (auto simp: arch_run_one_def returns_iff)
    show ?thesis
    proof (cases ended)
      case (Inl e)
      then show ?thesis using True w arch_record [OF c refl] by auto
    next
      case (Inr u)
      then have "ended = Inr ()" by simp
      then show ?thesis using True w arch_record [OF c refl] by simp
    qed
  next
    case False
    then show ?thesis using assms c by (cases "z_prepared w"; cases "z_cleanup w") (auto simp: arch_run_one_def returns_iff)
  qed
qed

text \<open>A run of the Zig server with one sample before the generator completed.\<close>

definition sample_arch :: arch_options where
  "sample_arch = \<lparr>r_variants = [''zig'', ''go''], r_connections = 8192, r_repeats = 3, r_duration = 10, r_schedule = [], r_workers = 16,
     r_capacity = 2048, r_worker_cpus = [], r_server_cpus = [], r_completion_budget = 64, r_idle_reclaim_ms = None, r_go_procs = None,
     r_go_binary = [], r_go_gc_off = False, r_zig_binary = ''zhtps'', r_before_binary = [], r_profile = False, r_method = ''GET'',
     r_path = ''/'', r_request_body = [], r_expect_body = [], r_churn = False, r_access_log = False, r_address = ''192.0.2.10'',
     r_client_host = ''client.example'', r_client_cpus = ''0-7'', r_ssh_config = []\<rparr>"

definition sample_arch_world :: arch_world where
  "sample_arch_world = \<lparr>z_port = 80, z_admin = 81, z_pid = 7, z_binary_sha256 = ''b'', z_server_identity = VDict [(''boot_id'', VStr ''s'')],
     z_options = VNone, z_prepared = Inr (), z_popen = Inr (), z_go_runtime = Inr VNone, z_ready = Inr (), z_running_sha256 = Inr ''b'', z_affinity = [0],
     z_remote = Inr (VDict [(''boot_id'', VStr ''c'')]), z_remote_source_sha256 = ''x'', z_metrics_before = Inr VNone,
     z_workers_before = Inr VNone, z_server_before = Inr VNone, z_host_before = Inr VNone,
     z_start = Inr (VDict [(''binary_sha256'', VStr ''l'')]), z_local_client_sha256 = Inr ''l'', z_clock = (0, 1),
     z_turns = [\<lparr>d_completed = Inr False, d_exited = False, d_late = False, d_sample = Some (Inr (VInt 1))\<rparr>,
       \<lparr>d_completed = Inr True, d_exited = False, d_late = False, d_sample = None\<rparr>],
     z_elapsed = 1, z_server_after = Inr VNone, z_host_after = Inr VNone, z_client = Inr (VDict []), z_body_sha256 = (\<lambda>p. Inr p),
     z_remote_samples = [], z_metrics_after = Inr VNone, z_workers_after = Inr VNone, z_perf_popen = Inr (),
     z_perf_wait = Inr (), z_perf_exit = 0, z_failure = VNone, z_cleanup = Inr (), z_server_exit = 0, z_report = (\<lambda>c. Inr [])\<rparr>"

theorem arch_run_evidence_witness:
  "\<exists>r. arch_run_one (\<lambda>e. ''error'') ''build'' sample_arch ''zig'' 1 ''folder'' sample_arch_world = (Some r, Inr None) \<and>
     sound_evidence sample_arch sample_arch_world r \<and> map_of r ''samples'' = Some (VList [VInt 1])"
proof -
  let ?run = "arch_run_one (\<lambda>e. ''error'') ''build'' sample_arch ''zig'' 1 ''folder'' sample_arch_world"
  have out: "snd ?run = Inr None" by code_simp
  obtain written where run: "?run = (written, Inr None)" using out by (cases ?run) auto
  have "returns (z_prepared sample_arch_world)" "returns (z_cleanup sample_arch_world)" by (simp_all add: sample_arch_world_def)
  then obtain r where r: "written = Some r" using arch_run_evidence [OF run] by (cases written) simp_all
  have "sound_evidence sample_arch sample_arch_world r" using arch_run_evidence [OF run] r by auto
  moreover from this have "map_of r ''samples'' = Some (VList [VInt 1])"
    by (simp add: sound_evidence_def sample_arch_world_def)
  ultimately show ?thesis using run r by blast
qed

end
