(* ===== verification/Upload_Client.thy ===== *)
theory Upload_Client
  imports Evidence
begin

text \<open>
  \<open>bench/upload_client.py\<close>: the closed-loop upload generator.  \<open>tcp_info\<close> decodes the kernel's socket
  statistics; \<open>probe_queue\<close> attributes a socket to a transmit queue; \<open>prepare_queue\<close> searches for a
  socket with a confirmed (and, if asked, unused) queue; \<open>work_loop\<close> is the measured loop of one
  connection with its pacing; \<open>upload_result\<close> is the report.  Times are integer nanoseconds of the
  monotonic clock.  What the peers, the kernel and the clocks answer are arguments.
\<close>

section \<open>Socket statistics\<close>

definition le_value :: "string \<Rightarrow> int" where
  "le_value bytes = foldr (\<lambda>c n. char_code c + 256 * n) bytes 0"

text \<open>\<open>struct.unpack_from('=' + fmt, raw, offset)[0]\<close> on a little-endian machine: \<open>I\<close> has four bytes, \<open>Q\<close> eight.\<close>

definition unpack_from :: "char \<Rightarrow> string \<Rightarrow> nat \<Rightarrow> val res" where
  "unpack_from fmt raw offset =
     (let size = (if fmt = CHR ''Q'' then 8 else 4) in
      if length raw < offset + size then Inl StructError
      else Inr (VInt (le_value (take size (drop offset raw)))))"

definition tcp_info_fields :: "(string \<times> char \<times> nat) list" where
  "tcp_info_fields =
     [(''rto_us'', CHR ''I'', 8), (''unacked'', CHR ''I'', 24), (''lost'', CHR ''I'', 32),
      (''rtt_us'', CHR ''I'', 68), (''snd_cwnd'', CHR ''I'', 80), (''total_retrans'', CHR ''I'', 100),
      (''bytes_acked'', CHR ''Q'', 120), (''notsent_bytes'', CHR ''I'', 144),
      (''delivery_rate'', CHR ''Q'', 160), (''busy_us'', CHR ''Q'', 168),
      (''rwnd_limited_us'', CHR ''Q'', 176), (''sndbuf_limited_us'', CHR ''Q'', 184)]"

definition tcp_info :: "string \<Rightarrow> val res" where
  "tcp_info raw = dictE (map (\<lambda>(name, fmt, offset). (name, unpack_from fmt raw offset)) tcp_info_fields)"

section \<open>Queue probes\<close>

definition queue_sample :: "val \<Rightarrow> (string \<times> val) list res" where
  "queue_sample classes =
     bindE (selectE (Inr classes) (\<lambda>r. andE (eqE (getE r ''class'') (pS ''fq_codel''))
       (geE (path r [''stats'', ''backlog'']) (pI 16384)))) (\<lambda>rows.
     bindE (mapE (\<lambda>r. bindE (bindE (idx r ''handle'') str_val) (\<lambda>h. bindE (path r [''stats'', ''backlog'']) (\<lambda>b. Inr (h, b)))) rows)
       (\<lambda>kvs. Inr (dict_of kvs)))"

text \<open>\<open>observed.update(sample)\<close> of a \<open>Counter\<close> adds the counts.\<close>

definition counter_update :: "(string \<times> val) list \<Rightarrow> (string \<times> val) list \<Rightarrow> (string \<times> val) list res" where
  "counter_update sample observed =
     foldE (\<lambda>(h, n) d. bindE (py_add n (dict_get (VInt 0) h d)) (\<lambda>s. Inr (dict_set h s d))) sample observed"

text \<open>The observer's polls (\<open>tc -j -s class show\<close>, parsed) until it is stopped or one of them fails.\<close>

fun observe :: "val res list \<Rightarrow> (string \<times> val) list \<times> val list \<Rightarrow> ((string \<times> val) list \<times> val list) \<times> exn option" where
  "observe [] s = (s, None)"
| "observe (poll # polls) s =
     (case bindE poll queue_sample of
        Inl e \<Rightarrow> (s, Some e)
      | Inr sample \<Rightarrow>
          (case counter_update sample (fst s) of
             Inl e \<Rightarrow> (s, Some e)
           | Inr observed \<Rightarrow> observe polls (observed, snd s @ [VDict sample])))"

text \<open>One request: its answer, whether a backlog has been observed by then, and whether the deadline has passed.\<close>

type_synonym probe_turn = "(int \<times> string) res \<times> bool \<times> bool"

definition check_response :: "string \<Rightarrow> string \<Rightarrow> (int \<times> string) res \<Rightarrow> unit res" where
  "check_response message expected answer =
     bindE answer (\<lambda>(status, body). ensure (\<not> (status \<noteq> 200 \<or> body \<noteq> expected)) (ValueError message))"

fun probe_requests :: "string \<Rightarrow> probe_turn list \<Rightarrow> nat \<Rightarrow> nat res" where
  "probe_requests expected [] n = Inr n"
| "probe_requests expected ((answer, seen, late) # turns) n =
     seqE (check_response ''queue-probe response differs'' expected answer)
     (if seen \<or> late then Inr (Suc n) else probe_requests expected turns (Suc n))"

text \<open>The first entry of \<open>observed.most_common()\<close>: the first of those with the largest count.\<close>

fun most_common :: "(string \<times> val) list \<Rightarrow> (string \<times> val) res" where
  "most_common [] = Inl IndexError"
| "most_common [kv] = Inr kv"
| "most_common (kv # r) =
     bindE (most_common r) (\<lambda>best. bindE (py_lt (snd kv) (snd best)) (\<lambda>b. Inr (if b then best else kv)))"

definition choose_bucket :: "(string \<times> val) list \<Rightarrow> string option res" where
  "choose_bucket observed =
     (if observed = [] then Inr None
      else bindE (most_common observed) (\<lambda>(h, n).
        bindE (geE (Inr n) (mulE (py_sum (map snd observed)) (pF (9 / 10)))) (\<lambda>b. Inr (if b then Some h else None))))"

definition option_val :: "string option \<Rightarrow> val" where
  "option_val v = (case v of None \<Rightarrow> VNone | Some s \<Rightarrow> VStr s)"

definition probe_queue :: "string \<Rightarrow> string \<Rightarrow> probe_turn list \<Rightarrow> val res list \<Rightarrow> val \<Rightarrow> (string option \<times> val) res" where
  "probe_queue body expected turns polls local_address =
     (case observe polls ([], []) of ((observed, samples), failed) \<Rightarrow>
      bindE (probe_requests expected turns 0) (\<lambda>requests.
      seqE (case failed of Some e \<Rightarrow> Inl e | None \<Rightarrow> Inr ())
     (bindE (choose_bucket observed) (\<lambda>bucket.
      Inr (bucket, VDict [(''bucket'', option_val bucket), (''weights'', VDict observed), (''samples'', VList samples),
        (''requests'', VInt (int requests)), (''body_bytes'', VInt (int (length body))), (''local_address'', local_address)])))))"

section \<open>Preparing a connection\<close>

record upload_options =
  q_connections :: int
  q_warmup :: rat
  q_duration :: rat
  q_rate :: rat
  q_trace :: bool
  q_queue_mode :: string
  q_probe_queues :: bool
  q_unique_queues :: bool
  q_freeze_hash :: bool
  q_calibrate_body :: bool

definition probing :: "upload_options \<Rightarrow> bool" where
  "probing o' \<longleftrightarrow> q_probe_queues o' \<or> q_unique_queues o'"

definition check_upload_options :: "upload_options \<Rightarrow> string \<Rightarrow> unit res" where
  "check_upload_options o' body =
     (let no = AssertionError [] in
      checks
       [ensure (0 < int (length body) \<and> int (length body) \<le> 8 * 1024 * 1024 \<and> 1 \<le> q_connections o' \<and> q_connections o' \<le> 256) no,
        ensure (0 \<le> q_rate o') no,
        ensure (q_queue_mode o' = ''hash'' \<or> q_connections o' \<le> 6) no,
        ensure (\<not> probing o' \<or> q_queue_mode o' = ''hash'') no])"

definition check_qdisc :: "val \<Rightarrow> unit res" where
  "check_qdisc configuration =
     assertE (andE (bindE (py_len configuration) (\<lambda>n. Inr (n = 1)))
       (eqE (bindE (nth_val configuration 0) (\<lambda>q. idx q ''kind'')) (pS ''fq_codel'')))"

text \<open>
  At most 32 attempts, each with the value of \<open>SO_TXREHASH\<close> read back and the probe: the probes made, and
  the bucket or the exception.
\<close>

fun prepare_queue :: "bool \<Rightarrow> string set \<Rightarrow> nat \<Rightarrow> (int \<times> (string option \<times> val) res) list \<Rightarrow> val list \<Rightarrow> val list \<times> string res" where
  "prepare_queue unique used 0 attempts probes = (probes, Inl (RuntimeError ''could not prepare a confirmed client queue bucket''))"
| "prepare_queue unique used (Suc n) [] probes = (probes, Inl (TimeoutError ''timed out''))"
| "prepare_queue unique used (Suc n) ((rehash, probe) # attempts) probes =
     (if rehash \<noteq> 0 then (probes, Inl (AssertionError []))
      else case probe of
        Inl e \<Rightarrow> (probes, Inl e)
      | Inr (None, p) \<Rightarrow> prepare_queue unique used n attempts (probes @ [p])
      | Inr (Some bucket, p) \<Rightarrow>
          if unique \<and> bucket \<in> used then prepare_queue unique used n attempts (probes @ [p])
          else (probes @ [p], Inr bucket))"

text \<open>
  The workers take the preparation lock one after the other, in any order: the attempts of each in that
  order, with the buckets used by the earlier ones.
\<close>

fun prepare_all :: "bool \<Rightarrow> (int \<times> (string option \<times> val) res) list list \<Rightarrow> string set \<Rightarrow> (val list \<times> string res) list" where
  "prepare_all unique [] used = []"
| "prepare_all unique (attempts # rest) used =
     (let r = prepare_queue unique used 32 attempts []
      in r # prepare_all unique rest (case snd r of Inr bucket \<Rightarrow> insert bucket used | Inl _ \<Rightarrow> used))"

definition queue_priority :: "upload_options \<Rightarrow> nat \<Rightarrow> int" where
  "queue_priority o' index =
     (if q_queue_mode o' = ''pair'' \<and> index = 1 then 1
      else if q_queue_mode o' = ''hash'' then 0 else int index + 1)"

record connection =
  c_connect :: "unit res"
  c_attempts :: "(int \<times> (string option \<times> val) res) list"
  c_rehash :: "int res"
  c_calibration :: "(int \<times> string) res"
  c_priority :: "int \<Rightarrow> int res"
  c_local_address :: val

definition queue_steps :: "upload_options \<Rightarrow> string set \<Rightarrow> connection \<Rightarrow> step list" where
  "queue_steps o' used c =
     (case prepare_queue (q_unique_queues o') used 32 (c_attempts c) [] of (probes, bucket) \<Rightarrow>
      [Put ''queue_probes'' (Inr (VList probes)), Put ''queue_bucket'' (bindE bucket pS)])"

definition probe_bytes :: int where
  "probe_bytes = 256 * 32768"

definition prepare_steps :: "upload_options \<Rightarrow> string \<Rightarrow> nat \<Rightarrow> string set \<Rightarrow> connection \<Rightarrow> step list" where
  "prepare_steps o' probe_expected index used c =
     [Check (c_connect c)] @
     (if probing o' then queue_steps o' used c else []) @
     [Put ''tx_rehash'' (bindE (c_rehash c) pI)] @
     (if q_freeze_hash o' \<or> probing o' then [Check (bindE (c_rehash c) (\<lambda>n. ensure (n = 0) (AssertionError [])))] else []) @
     (if q_calibrate_body o'
      then [Check (check_response ''calibration response differs'' probe_expected (c_calibration c)), Put ''calibration_bytes'' (pI probe_bytes)] else []) @
     [Put ''queue_priority'' (bindE (c_priority c (queue_priority o' index)) pI)] @
     (if q_trace o' then [Put ''local_address'' (Inr (c_local_address c)), Put ''trace'' (Inr (VList []))] else [])"

section \<open>The measured loop\<close>

record timing =
  t_begin :: int
  t_start :: int
  t_end :: int

definition nanoseconds :: "rat \<Rightarrow> int" where
  "nanoseconds seconds = trunc_rat (fl (seconds * 1000000000))"

definition upload_timing :: "upload_options \<Rightarrow> int \<Rightarrow> timing" where
  "upload_timing o' now =
     \<lparr>t_begin = now, t_start = now + nanoseconds (q_warmup o'), t_end = now + nanoseconds (fl (q_warmup o' + q_duration o'))\<rparr>"

definition paced :: "upload_options \<Rightarrow> bool" where
  "paced o' \<longleftrightarrow> q_rate o' \<noteq> 0"

definition first_start :: "upload_options \<Rightarrow> timing \<Rightarrow> nat \<Rightarrow> int" where
  "first_start o' t index = t_begin t + (if paced o' then nanoseconds (fl (of_nat index / q_rate o')) else 0)"

definition start_interval :: "upload_options \<Rightarrow> int" where
  "start_interval o' = nanoseconds (fl (of_int (q_connections o') / q_rate o'))"

text \<open>
  One turn of the loop: the clock at its head and after the sleep, at the start and the end of the
  request, the answer, and what a trace records.
\<close>

record request_turn =
  i_now :: int
  i_woke :: int
  i_started :: int
  i_before :: "val res"
  i_request :: "unit res"
  i_sent :: int
  i_after_send :: "val res"
  i_answer :: "(int \<times> string) res"
  i_finished :: int
  i_after_response :: "val res"

record worker =
  x_attempts :: int
  x_successes :: int
  x_latencies :: "int list"
  x_trace :: "val list"
  x_next :: int

definition turn_ends :: "upload_options \<Rightarrow> timing \<Rightarrow> request_turn \<Rightarrow> worker \<Rightarrow> bool" where
  "turn_ends o' t i x \<longleftrightarrow>
     \<not> i_now i < t_end t \<or> paced o' \<and> (x_next x \<ge> t_end t \<or> i_woke i \<ge> t_end t)"

definition trace_entry :: "request_turn \<Rightarrow> val res" where
  "trace_entry i =
     dictE [(''started_ns'', pI (i_started i)), (''sent_ns'', pI (i_sent i)), (''finished_ns'', pI (i_finished i)),
            (''before'', i_before i), (''after_send'', i_after_send i), (''after_response'', i_after_response i)]"

text \<open>One request: the state it leaves and the exception it raises.\<close>

definition upload_turn :: "upload_options \<Rightarrow> timing \<Rightarrow> string \<Rightarrow> request_turn \<Rightarrow> worker \<Rightarrow> worker \<times> exn option" where
  "upload_turn o' t expected i x =
     (case (if q_trace o' then bindE (i_before i) (\<lambda>_. Inr ()) else Inr ()) of
        Inl e \<Rightarrow> (x, Some e)
      | Inr _ \<Rightarrow>
         (let x = x\<lparr>x_attempts := x_attempts x + 1\<rparr> in
          case seqE (i_request i)
              (seqE (if q_trace o' then bindE (i_after_send i) (\<lambda>_. Inr ()) else Inr ())
              (seqE (check_response ''response status, body length, or checksum differs'' expected (i_answer i))
              (if q_trace o' then bindE (trace_entry i) (\<lambda>v. Inr [v]) else Inr []))) of
            Inl e \<Rightarrow> (x, Some e)
          | Inr entry \<Rightarrow>
              (x\<lparr>x_successes := x_successes x + 1, x_trace := x_trace x @ entry,
                 x_latencies := x_latencies x @
                   (if t_start t \<le> i_finished i \<and> i_finished i < t_end t then [i_finished i - i_started i] else []),
                 x_next := (if paced o' then max (x_next x + start_interval o') (i_finished i) else x_next x)\<rparr>, None)))"

fun work_loop :: "upload_options \<Rightarrow> timing \<Rightarrow> string \<Rightarrow> request_turn list \<Rightarrow> worker \<Rightarrow> worker \<times> exn option" where
  "work_loop o' t expected [] x = (x, None)"
| "work_loop o' t expected (i # is) x =
     (if turn_ends o' t i x then (x, None)
      else case upload_turn o' t expected i x of
        (x', Some e) \<Rightarrow> (x', Some e)
      | (x', None) \<Rightarrow> work_loop o' t expected is x')"

definition new_worker :: "upload_options \<Rightarrow> timing \<Rightarrow> nat \<Rightarrow> worker" where
  "new_worker o' t index = \<lparr>x_attempts = 0, x_successes = 0, x_latencies = [], x_trace = [], x_next = first_start o' t index\<rparr>"

section \<open>The report\<close>

text \<open>A finished worker: its preparation fields, its counters, and the texts of its failures.\<close>

record outcome =
  o_worker :: worker
  o_failures :: "string list"
  o_fields :: row

definition run_worker :: "(exn \<Rightarrow> string) \<Rightarrow> upload_options \<Rightarrow> timing \<Rightarrow> string \<Rightarrow> nat \<Rightarrow> row \<Rightarrow> request_turn list \<Rightarrow> outcome" where
  "run_worker repr o' t expected index prep turns =
     (case work_loop o' t expected turns (new_worker o' t index) of (x, e) \<Rightarrow>
      \<lparr>o_worker = x, o_failures = (case e of None \<Rightarrow> [] | Some e \<Rightarrow> [repr e]),
       o_fields = (if q_trace o' then dict_set ''trace'' (VList (x_trace x)) prep else prep)\<rparr>)"

definition outcome_val :: "outcome \<Rightarrow> val" where
  "outcome_val u =
     VDict ([(''attempts'', VInt (x_attempts (o_worker u))), (''successes'', VInt (x_successes (o_worker u))),
             (''failures'', VList (map VStr (o_failures u))), (''latencies_ns'', VList (map VInt (x_latencies (o_worker u))))] @ o_fields u)"

definition count_failures :: "string list \<Rightarrow> (string \<times> val) list" where
  "count_failures errors = fold (\<lambda>e d. dict_set e (VInt (1 + (case map_of d e of Some (VInt n) \<Rightarrow> n | _ \<Rightarrow> 0))) d) errors []"

definition p99_index :: "nat \<Rightarrow> nat" where
  "p99_index n = min (n - 1) (nat (trunc_rat (fl (fl (99 / 100) * of_nat n))))"

definition service_p99 :: "int list \<Rightarrow> val res" where
  "service_p99 latencies =
     (if latencies = [] then Inr VNone else divE (pI (latencies ! p99_index (length latencies))) (pF 1000000))"

definition all_latencies :: "outcome list \<Rightarrow> int list" where
  "all_latencies us = sort (concat (map (\<lambda>u. x_latencies (o_worker u)) us))"

definition upload_result ::
  "(string \<Rightarrow> string) \<Rightarrow> upload_options \<Rightarrow> string \<Rightarrow> string \<Rightarrow> val \<Rightarrow> int \<Rightarrow> outcome list \<Rightarrow> val res" where
  "upload_result sha256 o' body expected queue_configuration now_wall us =
     (let latencies = all_latencies us; n = int (length latencies); size = int (length body);
          start_wall = now_wall + nanoseconds (q_warmup o') in
      dictE
       [(''connections'', pI (q_connections o')), (''rate_cap'', Inr (VFloat (q_rate o'))), (''request_body_bytes'', pI size),
        (''queue_mode'', pS (q_queue_mode o')), (''freeze_hash'', Inr (VBool (q_freeze_hash o'))),
        (''calibrate_body'', Inr (VBool (q_calibrate_body o'))), (''queue_configuration'', Inr queue_configuration),
        (''unique_queues'', Inr (VBool (q_unique_queues o'))), (''request_body_sha256'', pS (sha256 body)),
        (''expected_body_sha256'', pS (sha256 expected)), (''measure_start_unix_ns'', pI start_wall),
        (''measure_end_unix_ns'', pI (start_wall + nanoseconds (q_duration o'))), (''duration_seconds'', Inr (VFloat (q_duration o'))),
        (''window_successes'', pI n), (''validated_body_bytes'', pI (n * size)),
        (''goodput_bytes_per_second'', divE (pI (n * size)) (Inr (VFloat (q_duration o')))),
        (''service_p99_ms'', service_p99 latencies),
        (''failures'', Inr (VDict (count_failures (concat (map o_failures us))))), (''workers'', Inr (VList (map outcome_val us)))])"

text \<open>The start barrier: the first failure that reaches the queue ends the program.\<close>

definition start_barrier :: "string option list \<Rightarrow> unit res" where
  "start_barrier ready = forE (\<lambda>f. case f of None \<Rightarrow> Inr () | Some m \<Rightarrow> Inl (RuntimeError m)) ready"

definition upload_exit :: "outcome list \<Rightarrow> int" where
  "upload_exit us = (if count_failures (concat (map o_failures us)) = [] then 0 else 1)"

section \<open>The measured loop\<close>

lemma upload_turn_cases:
  assumes "upload_turn o' t expected i x = (x', e)"
  shows "(e \<noteq> None \<longrightarrow> x' = x \<or> x' = x\<lparr>x_attempts := x_attempts x + 1\<rparr>) \<and>
    (e = None \<longrightarrow> i_answer i = Inr (200, expected) \<and> x_attempts x' = x_attempts x + 1 \<and> x_successes x' = x_successes x + 1 \<and>
       x_next x' = (if paced o' then max (x_next x + start_interval o') (i_finished i) else x_next x) \<and>
       x_latencies x' = x_latencies x @
         (if t_start t \<le> i_finished i \<and> i_finished i < t_end t then [i_finished i - i_started i] else []))"
  using assms unfolding upload_turn_def Let_def
  by (auto simp: seqE_eq_Inr bindE_eq_Inr check_response_def ensure_eq_Inr split: sum.splits)

definition timed_latency :: "timing \<Rightarrow> string \<Rightarrow> request_turn list \<Rightarrow> int \<Rightarrow> bool" where
  "timed_latency t expected turns l \<longleftrightarrow>
     (\<exists>i \<in> set turns. i_answer i = Inr (200, expected) \<and> t_start t \<le> i_finished i \<and> i_finished i < t_end t \<and> l = i_finished i - i_started i)"

definition worker_spec :: "upload_options \<Rightarrow> timing \<Rightarrow> int \<Rightarrow> worker \<Rightarrow> exn option \<Rightarrow> bool" where
  "worker_spec o' t first x e \<longleftrightarrow>
     x_successes x \<le> x_attempts x \<and> x_attempts x \<le> x_successes x + 1 \<and> (e = None \<longrightarrow> x_attempts x = x_successes x) \<and>
     int (length (x_latencies x)) \<le> x_successes x \<and>
     (paced o' \<and> 0 < x_attempts x \<longrightarrow> first + (x_attempts x - 1) * start_interval o' < t_end t)"

text \<open>
  Before every turn the worker has answered every request it made, and it will not start the next one
  before its slot.
\<close>

definition worker_ready :: "upload_options \<Rightarrow> timing \<Rightarrow> int \<Rightarrow> worker \<Rightarrow> bool" where
  "worker_ready o' t first x \<longleftrightarrow> worker_spec o' t first x None \<and> (paced o' \<longrightarrow> first + x_successes x * start_interval o' \<le> x_next x)"

lemma upload_turn_spec:
  assumes ready: "worker_ready o' t first x" and going: "\<not> turn_ends o' t i x"
    and turn: "upload_turn o' t expected i x = (x', e)"
  shows "worker_spec o' t first x' e \<and> (e = None \<longrightarrow> worker_ready o' t first x')"
proof -
  have slot: "paced o' \<longrightarrow> first + x_attempts x * start_interval o' < t_end t"
    using ready going by (auto simp: worker_ready_def worker_spec_def turn_ends_def)
  have later: "paced o' \<longrightarrow> first + (x_successes x + 1) * start_interval o' \<le> x_next x + start_interval o'"
    using ready by (simp add: worker_ready_def algebra_simps)
  show ?thesis
  proof (cases e)
    case None
    then show ?thesis using upload_turn_cases [OF turn] ready slot later by (auto simp: worker_ready_def worker_spec_def)
  next
    case (Some ex)
    then show ?thesis using upload_turn_cases [OF turn] ready slot by (auto simp: worker_ready_def worker_spec_def)
  qed
qed

lemma work_loop_spec:
  assumes "work_loop o' t expected turns x = (x', e)" and "worker_ready o' t first x"
  shows "worker_spec o' t first x' e \<and> (\<forall>l \<in> set (x_latencies x'). l \<in> set (x_latencies x) \<or> timed_latency t expected turns l)"
  using assms
proof (induction turns arbitrary: x)
  case Nil
  then show ?case by (simp add: worker_ready_def)
next
  case (Cons i turns)
  show ?case
  proof (cases "turn_ends o' t i x")
    case True
    then show ?thesis using Cons.prems by (simp add: worker_ready_def)
  next
    case False
    obtain x1 e1 where turn: "upload_turn o' t expected i x = (x1, e1)" by (cases "upload_turn o' t expected i x")
    note spec = upload_turn_spec [OF Cons.prems(2) False turn]
    have lat: "l \<in> set (x_latencies x) \<or> timed_latency t expected (i # turns) l" if "l \<in> set (x_latencies x1)" for l
      using that upload_turn_cases [OF turn] by (cases e1) (auto simp: timed_latency_def split: if_splits)
    show ?thesis
    proof (cases e1)
      case None
      then have rest: "work_loop o' t expected turns x1 = (x', e)" using Cons.prems(1) False turn by simp
      have "worker_ready o' t first x1" using spec None by simp
      from Cons.IH [OF rest this] show ?thesis using lat by (auto simp: timed_latency_def)
    next
      case (Some ex)
      then show ?thesis using Cons.prems(1) False turn spec lat by simp
    qed
  qed
qed

text \<open>The requests a worker makes: the slot (\<open>next_start\<close>) each had and its turn.\<close>

fun request_slots :: "upload_options \<Rightarrow> timing \<Rightarrow> string \<Rightarrow> request_turn list \<Rightarrow> worker \<Rightarrow> (int \<times> request_turn) list" where
  "request_slots o' t expected [] x = []"
| "request_slots o' t expected (i # is) x =
     (if turn_ends o' t i x then []
      else case upload_turn o' t expected i x of (x', e) \<Rightarrow>
        (if x_attempts x < x_attempts x' then [(x_next x, i)] else []) @
        (if e = None then request_slots o' t expected is x' else []))"

lemma request_slots_Cons:
  assumes "\<not> turn_ends o' t i x" and "upload_turn o' t expected i x = (x', None)"
  shows "request_slots o' t expected (i # is) x = (x_next x, i) # request_slots o' t expected is x'"
  using assms upload_turn_cases [OF assms(2)] by simp

lemma request_slots_count:
  assumes "work_loop o' t expected turns x = (x', e)"
  shows "x_attempts x' = x_attempts x + int (length (request_slots o' t expected turns x))"
  using assms
proof (induction turns arbitrary: x)
  case (Cons i turns)
  obtain x1 e1 where turn: "upload_turn o' t expected i x = (x1, e1)" by (cases "upload_turn o' t expected i x")
  show ?case using Cons.IH [of x1] Cons.prems turn upload_turn_cases [OF turn] by (cases e1) (auto split: if_splits)
qed simp

text \<open>
  Slots are at least one interval apart, and none lies before the end of an earlier request: after a
  late answer the schedule starts afresh from that answer.
\<close>

definition slots_spaced :: "int \<Rightarrow> int \<Rightarrow> (int \<times> request_turn) list \<Rightarrow> bool" where
  "slots_spaced first interval reqs \<longleftrightarrow>
     (\<forall>b < length reqs. first + int b * interval \<le> fst (reqs ! b) \<and>
        (\<forall>a < b. fst (reqs ! a) + int (b - a) * interval \<le> fst (reqs ! b) \<and>
           i_finished (snd (reqs ! a)) + int (b - a - 1) * interval \<le> fst (reqs ! b)))"

lemma slots_spaced_Cons:
  assumes "slots_spaced later interval reqs" and "first + interval \<le> later" and "i_finished i \<le> later"
  shows "slots_spaced first interval ((first, i) # reqs)"
proof -
  have later: "later + int b * interval \<le> fst (reqs ! b)" if "b < length reqs" for b
    using assms(1) that by (simp add: slots_spaced_def)
  have head: "first + int (Suc b) * interval \<le> fst (reqs ! b) \<and> i_finished i + int b * interval \<le> fst (reqs ! b)"
    if "b < length reqs" for b
    using later [OF that] assms(2,3) by (simp add: algebra_simps)
  have "first + int b * interval \<le> fst (((first, i) # reqs) ! b) \<and>
      (\<forall>a < b. fst (((first, i) # reqs) ! a) + int (b - a) * interval \<le> fst (((first, i) # reqs) ! b) \<and>
         i_finished (snd (((first, i) # reqs) ! a)) + int (b - a - 1) * interval \<le> fst (((first, i) # reqs) ! b))"
    if b: "b < length ((first, i) # reqs)" for b
  proof (cases b)
    case (Suc b')
    then have b': "b' < length reqs" using b by simp
    show ?thesis
    proof (intro conjI allI impI)
      fix a assume a: "a < b"
      show "fst (((first, i) # reqs) ! a) + int (b - a) * interval \<le> fst (((first, i) # reqs) ! b)"
        using a Suc b' head [OF b'] assms(1) by (cases a) (simp_all add: slots_spaced_def)
      show "i_finished (snd (((first, i) # reqs) ! a)) + int (b - a - 1) * interval \<le> fst (((first, i) # reqs) ! b)"
        using a Suc b' head [OF b'] assms(1) by (cases a) (simp_all add: slots_spaced_def)
    qed (use head [OF b'] Suc in simp)
  qed simp
  then show ?thesis by (simp add: slots_spaced_def)
qed

lemma request_slots_spaced:
  assumes "paced o'"
  shows "slots_spaced (x_next x) (start_interval o') (request_slots o' t expected turns x) \<and>
    (\<forall>(slot, i) \<in> set (request_slots o' t expected turns x). slot < t_end t)"
proof (induction turns arbitrary: x)
  case (Cons i turns)
  obtain x1 e1 where turn: "upload_turn o' t expected i x = (x1, e1)" by (cases "upload_turn o' t expected i x")
  show ?case
  proof (cases "turn_ends o' t i x")
    case False
    then have slot: "x_next x < t_end t" using assms by (simp add: turn_ends_def)
    show ?thesis
    proof (cases e1)
      case None
      then have "x_next x1 = max (x_next x + start_interval o') (i_finished i)" using upload_turn_cases [OF turn] assms by simp
      then have "slots_spaced (x_next x) (start_interval o') ((x_next x, i) # request_slots o' t expected turns x1)"
        using Cons.IH [of x1] by (intro slots_spaced_Cons [of "x_next x1"]) simp_all
      then show ?thesis using request_slots_Cons [OF False turn [unfolded None]] Cons.IH [of x1] slot by simp
    next
      case (Some ex)
      then show ?thesis using False turn slot by (simp add: slots_spaced_def)
    qed
  qed (simp add: slots_spaced_def)
qed (simp add: slots_spaced_def)

text \<open>
  C20: a worker's counters are consistent and its pace is capped without catch-up bursts.  It ends with
  every request answered correctly, or with one exception and at most one unanswered request; each
  reported latency is that of a correct answer that arrived inside the measurement window, at most one
  per success.  Under a rate cap every counted attempt had a slot before the end of the run; slot number
  \<open>b\<close> lies at least \<open>b - a\<close> intervals after slot \<open>a\<close>, and at least \<open>b - a - 1\<close> intervals after the moment
  request \<open>a\<close> finished.  So when the sleep ends no earlier than the slot, however late an answer was, the
  requests after it start at the capped rate counted from that answer: the delay is never caught up.
\<close>

theorem work_loop_sound:
  fixes index :: nat
  assumes "work_loop o' t expected turns (new_worker o' t index) = (x, e)"
  defines "reqs \<equiv> request_slots o' t expected turns (new_worker o' t index)"
  shows "x_successes x \<le> x_attempts x \<and> x_attempts x \<le> x_successes x + 1 \<and> (e = None \<longrightarrow> x_attempts x = x_successes x) \<and>
    int (length (x_latencies x)) \<le> x_successes x \<and>
    (\<forall>l \<in> set (x_latencies x). \<exists>i \<in> set turns. i_answer i = Inr (200, expected) \<and>
       t_start t \<le> i_finished i \<and> i_finished i < t_end t \<and> l = i_finished i - i_started i) \<and>
    x_attempts x = int (length reqs) \<and>
    (paced o' \<longrightarrow>
       (\<forall>(slot, i) \<in> set reqs. slot < t_end t) \<and> slots_spaced (first_start o' t index) (start_interval o') reqs \<and>
       ((\<forall>(slot, i) \<in> set reqs. slot \<le> i_started i) \<longrightarrow>
          (\<forall>b < length reqs. first_start o' t index + int b * start_interval o' \<le> i_started (snd (reqs ! b)) \<and>
             (\<forall>a < b. i_finished (snd (reqs ! a)) + int (b - a - 1) * start_interval o' \<le> i_started (snd (reqs ! b))))))"
proof -
  have "worker_ready o' t (first_start o' t index) (new_worker o' t index)"
    by (simp add: worker_ready_def worker_spec_def new_worker_def)
  note counts = work_loop_spec [OF assms(1) this]
  have n: "x_attempts x = int (length reqs)"
    using request_slots_count [OF assms(1)] by (simp add: reqs_def new_worker_def)
  have pace: "(\<forall>(slot, i) \<in> set reqs. slot < t_end t) \<and> slots_spaced (first_start o' t index) (start_interval o') reqs" if "paced o'"
    using request_slots_spaced [OF that, of "new_worker o' t index"] by (simp add: reqs_def new_worker_def)
  have starts: "first_start o' t index + int b * start_interval o' \<le> i_started (snd (reqs ! b)) \<and>
      (\<forall>a < b. i_finished (snd (reqs ! a)) + int (b - a - 1) * start_interval o' \<le> i_started (snd (reqs ! b)))"
    if "paced o'" and slept: "\<forall>(slot, i) \<in> set reqs. slot \<le> i_started i" and b: "b < length reqs" for b
  proof -
    have "fst (reqs ! b) \<le> i_started (snd (reqs ! b))" using slept nth_mem [OF b] by (auto split: prod.splits)
    then show ?thesis using pace [OF that(1)] b by (fastforce simp: slots_spaced_def)
  qed
  from counts n pace starts show ?thesis by (auto simp: worker_spec_def timed_latency_def new_worker_def)
qed

definition sample_upload :: upload_options where
  "sample_upload = \<lparr>q_connections = 2, q_warmup = 0, q_duration = 1, q_rate = 4, q_trace = False, q_queue_mode = ''hash'',
     q_probe_queues = False, q_unique_queues = False, q_freeze_hash = False, q_calibrate_body = False\<rparr>"

definition sample_turn :: "int \<Rightarrow> request_turn" where
  "sample_turn s = \<lparr>i_now = s, i_woke = s, i_started = s, i_before = Inr VNone, i_request = Inr (), i_sent = s, i_after_send = Inr VNone,
     i_answer = Inr (200, ''ok''), i_finished = s + 5, i_after_response = Inr VNone\<rparr>"

theorem work_loop_sound_witness:
  "\<exists>x e. work_loop sample_upload (upload_timing sample_upload 0) ''ok'' [sample_turn 0, sample_turn 500000000, sample_turn 1000000000]
      (new_worker sample_upload (upload_timing sample_upload 0) 0) = (x, e) \<and> x_attempts x = 2 \<and>
    slots_spaced (first_start sample_upload (upload_timing sample_upload 0) 0) (start_interval sample_upload)
      (request_slots sample_upload (upload_timing sample_upload 0) ''ok'' [sample_turn 0, sample_turn 500000000, sample_turn 1000000000]
         (new_worker sample_upload (upload_timing sample_upload 0) 0))"
proof -
  let ?run = "work_loop sample_upload (upload_timing sample_upload 0) ''ok'' [sample_turn 0, sample_turn 500000000, sample_turn 1000000000]
      (new_worker sample_upload (upload_timing sample_upload 0) 0)"
  obtain x e where run: "?run = (x, e)" by (cases ?run)
  have "x_attempts (fst ?run) = 2" by code_simp
  then have "x_attempts x = 2" unfolding run fst_conv .
  moreover have "paced sample_upload" by (simp add: paced_def sample_upload_def)
  ultimately show ?thesis using work_loop_sound [OF run] run by (intro exI [of _ x] exI [of _ e]) blast
qed

section \<open>Queues\<close>

text \<open>
  What a search leaves: the probes that returned, in order.  Every attempt but a successful last one found
  no bucket, or one that is taken when buckets must be unique.  A search without a bucket used up its
  attempts, or the next attempt raised.
\<close>

definition rejected :: "bool \<Rightarrow> string set \<Rightarrow> int \<times> (string option \<times> val) res \<Rightarrow> val \<Rightarrow> bool" where
  "rejected unique used attempt p \<longleftrightarrow>
     (\<exists>found. attempt = (0, Inr (found, p)) \<and> (\<forall>bucket. found = Some bucket \<longrightarrow> unique \<and> bucket \<in> used))"

definition attempt_raises :: "(int \<times> (string option \<times> val) res) list \<Rightarrow> exn \<Rightarrow> bool" where
  "attempt_raises attempts e \<longleftrightarrow>
     (case attempts of
        [] \<Rightarrow> e = TimeoutError ''timed out''
      | (rehash, probe) # _ \<Rightarrow> if rehash \<noteq> 0 then e = AssertionError [] else probe = Inl e)"

definition search_recorded ::
  "bool \<Rightarrow> string set \<Rightarrow> nat \<Rightarrow> (int \<times> (string option \<times> val) res) list \<Rightarrow> val list \<Rightarrow> string res \<Rightarrow> bool" where
  "search_recorded unique used limit attempts probes r \<longleftrightarrow>
     (case r of
        Inr bucket \<Rightarrow> \<exists>missed p rest ps. attempts = missed @ (0, Inr (Some bucket, p)) # rest \<and> probes = ps @ [p] \<and>
          list_all2 (rejected unique used) missed ps \<and> length missed < limit \<and> \<not> (unique \<and> bucket \<in> used)
      | Inl e \<Rightarrow> \<exists>missed rest. attempts = missed @ rest \<and> list_all2 (rejected unique used) missed probes \<and>
          (length missed = limit \<and> e = RuntimeError ''could not prepare a confirmed client queue bucket'' \<or>
           length missed < limit \<and> attempt_raises rest e))"

lemma search_recorded_Cons:
  assumes "search_recorded unique used limit attempts probes r" and "rejected unique used a p"
  shows "search_recorded unique used (Suc limit) (a # attempts) (p # probes) r"
proof (cases r)
  case (Inl e)
  then obtain missed rest where m: "attempts = missed @ rest" "list_all2 (rejected unique used) missed probes"
      "length missed = limit \<and> e = RuntimeError ''could not prepare a confirmed client queue bucket'' \<or>
       length missed < limit \<and> attempt_raises rest e"
    using assms(1) unfolding search_recorded_def Inl sum.case by blast
  show ?thesis unfolding search_recorded_def Inl sum.case
    by (rule exI [of _ "a # missed"], rule exI [of _ rest]) (use m assms(2) in simp)
next
  case (Inr bucket)
  then obtain missed p' rest ps where m: "attempts = missed @ (0, Inr (Some bucket, p')) # rest" "probes = ps @ [p']"
      "list_all2 (rejected unique used) missed ps" "length missed < limit" "\<not> (unique \<and> bucket \<in> used)"
    using assms(1) unfolding search_recorded_def Inr sum.case by blast
  show ?thesis unfolding search_recorded_def Inr sum.case
    by (rule exI [of _ "a # missed"], rule exI [of _ p'], rule exI [of _ rest], rule exI [of _ "p # ps"]) (use m assms(2) in simp)
qed

lemma search_recorded_found:
  "\<not> (unique \<and> bucket \<in> used) \<Longrightarrow> search_recorded unique used (Suc limit) ((0, Inr (Some bucket, p)) # rest) [p] (Inr bucket)"
  unfolding search_recorded_def sum.case
  by (rule exI [of _ "[]"], rule exI [of _ p], rule exI [of _ rest], rule exI [of _ "[]"]) simp

lemma search_recorded_raised: "attempt_raises attempts e \<Longrightarrow> search_recorded unique used (Suc limit) attempts [] (Inl e)"
  unfolding search_recorded_def sum.case by (rule exI [of _ "[]"], rule exI [of _ attempts]) simp

text \<open>The first attempt: it raises, is rejected and leaves the search to the others, or is the one taken.\<close>

lemma prepare_queue_step:
  obtains (raised) e where "attempt_raises ((rehash, probe) # attempts) e"
      and "prepare_queue unique used (Suc n) ((rehash, probe) # attempts) probes = (probes, Inl e)"
  | (rejected) p where "rejected unique used (rehash, probe) p"
      and "prepare_queue unique used (Suc n) ((rehash, probe) # attempts) probes = prepare_queue unique used n attempts (probes @ [p])"
  | (found) p bucket where "(rehash, probe) = (0, Inr (Some bucket, p))" and "\<not> (unique \<and> bucket \<in> used)"
      and "prepare_queue unique used (Suc n) ((rehash, probe) # attempts) probes = (probes @ [p], Inr bucket)"
proof (cases "rehash = 0")
  case False
  then show ?thesis using raised [of "AssertionError []"] by (simp add: attempt_raises_def)
next
  case zero: True
  show ?thesis
  proof (cases probe)
    case (Inl e)
    then show ?thesis using zero raised [of e] by (simp add: attempt_raises_def)
  next
    case (Inr fp)
    obtain f p where fp: "fp = (f, p)" by (cases fp)
    show ?thesis
    proof (cases "\<exists>bucket. f = Some bucket \<and> \<not> (unique \<and> bucket \<in> used)")
      case True
      then show ?thesis using found [of _ p] zero Inr fp by auto
    next
      case False
      then have "rejected unique used (rehash, probe) p" using zero Inr fp by (auto simp: rejected_def)
      then show ?thesis by (rule rejected) (use zero Inr fp False in \<open>auto split: option.split\<close>)
    qed
  qed
qed

lemma prepare_queue_recorded:
  "prepare_queue unique used n attempts probes = (ps, r) \<Longrightarrow>
   \<exists>new. ps = probes @ new \<and> search_recorded unique used n attempts new r"
proof (induction n arbitrary: attempts probes)
  case 0
  then have "ps = probes @ [] \<and> search_recorded unique used 0 attempts [] r" by (auto simp: search_recorded_def)
  then show ?case by blast
next
  case (Suc n)
  show ?case
  proof (cases attempts)
    case Nil
    then have "ps = probes @ [] \<and> r = Inl (TimeoutError ''timed out'')" using Suc.prems by simp
    then show ?thesis using search_recorded_raised [of attempts "TimeoutError ''timed out''"] Nil by (auto simp: attempt_raises_def)
  next
    case (Cons a rest)
    obtain rehash probe where a: "a = (rehash, probe)" by (cases a)
    show ?thesis
    proof (cases rule: prepare_queue_step [where rehash = rehash and probe = probe and attempts = rest and unique = unique and used = used and n = n and probes = probes])
      case (raised e)
      then have "ps = probes @ [] \<and> r = Inl e" using Suc.prems Cons a by simp
      then show ?thesis using search_recorded_raised [OF raised(1)] Cons a by blast
    next
      case (rejected p)
      then have "prepare_queue unique used n rest (probes @ [p]) = (ps, r)" using Suc.prems Cons a by simp
      from Suc.IH [OF this] obtain new where new: "ps = probes @ p # new" "search_recorded unique used n rest new r" by auto
      show ?thesis using new(1) search_recorded_Cons [OF new(2) rejected(1)] Cons a by blast
    next
      case (found p bucket)
      then have "ps = probes @ [p] \<and> r = Inr bucket" using Suc.prems Cons a by simp
      then show ?thesis using search_recorded_found [OF found(2)] found(1) Cons a by auto
    qed
  qed
qed

lemma prepare_queue_sound:
  assumes "prepare_queue unique used n attempts [] = (ps, r)"
  shows "search_recorded unique used n attempts ps r"
  using prepare_queue_recorded [OF assms] by simp

lemma search_recorded_bounds:
  assumes "search_recorded unique used n attempts ps r"
  shows "length ps \<le> n" and "unique \<Longrightarrow> r = Inr bucket \<Longrightarrow> bucket \<notin> used"
proof -
  show "length ps \<le> n"
  proof (cases r)
    case (Inl e)
    then show ?thesis using assms unfolding search_recorded_def Inl sum.case by (auto dest: list_all2_lengthD)
  next
    case (Inr b)
    then show ?thesis using assms unfolding search_recorded_def Inr sum.case by (auto dest: list_all2_lengthD)
  qed
  show "unique \<Longrightarrow> r = Inr bucket \<Longrightarrow> bucket \<notin> used" using assms by (auto simp: search_recorded_def)
qed

definition buckets :: "(val list \<times> string res) list \<Rightarrow> string list" where
  "buckets rs = concat (map (\<lambda>(ps, r). case r of Inr b \<Rightarrow> [b] | Inl _ \<Rightarrow> []) rs)"

lemma prepare_all_buckets:
  assumes unique
  shows "distinct (buckets (prepare_all unique rest used)) \<and> set (buckets (prepare_all unique rest used)) \<inter> used = {}"
proof (induction rest arbitrary: used)
  case (Cons attempts rest)
  obtain ps r where r: "prepare_queue unique used 32 attempts [] = (ps, r)" by (cases "prepare_queue unique used 32 attempts []")
  show ?case
  proof (cases r)
    case (Inl e)
    then show ?thesis using Cons.IH [of used] r by (simp add: buckets_def Let_def)
  next
    case (Inr b)
    then have "b \<notin> used" using search_recorded_bounds(2) [OF prepare_queue_sound [OF r]] assms by simp
    then show ?thesis using Cons.IH [of "insert b used"] r Inr by (auto simp: buckets_def Let_def)
  qed
qed (simp add: buckets_def)

lemma prepare_all_recorded:
  "i < length workers \<Longrightarrow>
   search_recorded unique (used \<union> set (buckets (take i (prepare_all unique workers used)))) 32 (workers ! i)
     (fst (prepare_all unique workers used ! i)) (snd (prepare_all unique workers used ! i))"
proof (induction workers arbitrary: used i)
  case (Cons attempts rest)
  obtain ps r where r: "prepare_queue unique used 32 attempts [] = (ps, r)" by (cases "prepare_queue unique used 32 attempts []")
  show ?case
  proof (cases i)
    case 0
    then show ?thesis using prepare_queue_sound [OF r] by (simp add: r Let_def buckets_def)
  next
    case (Suc j)
    let ?used = "case r of Inr bucket \<Rightarrow> insert bucket used | Inl _ \<Rightarrow> used"
    have taken: "used \<union> set (buckets ((ps, r) # rs)) = ?used \<union> set (buckets rs)" for rs by (cases r) (auto simp: buckets_def)
    show ?thesis using Cons.IH [of j ?used] Cons.prems Suc by (simp add: r Let_def taken)
  qed
qed simp

lemma prepare_all_length: "length (prepare_all unique workers used) = length workers"
  by (induction workers arbitrary: used) (simp_all add: Let_def)

text \<open>
  C36: queue preparation does what its options promise.  With unique queues no two connections are
  measured on the same transmit queue, in whatever order their threads took the lock.  Every connection
  records each probe that returned, in order and at most 32 of them: all but a successful last one found
  no bucket or, with unique queues, one that an earlier connection had taken; a connection is given a
  bucket only by its last probe, and one that has none made 32 probes in vain or its next attempt raised.
\<close>

theorem prepare_all_distinct:
  fixes unique :: bool and workers :: "(int \<times> (string option \<times> val) res) list list"
  defines "rs \<equiv> prepare_all unique workers {}"
  shows "length rs = length workers \<and> (unique \<longrightarrow> distinct (buckets rs)) \<and>
    (\<forall>i < length workers. length (fst (rs ! i)) \<le> 32 \<and>
       search_recorded unique (set (buckets (take i rs))) 32 (workers ! i) (fst (rs ! i)) (snd (rs ! i)))"
proof (intro conjI allI impI)
  show "length rs = length workers" by (simp add: rs_def prepare_all_length)
  show "distinct (buckets rs)" if unique using prepare_all_buckets [OF that] unfolding rs_def by blast
  fix i assume i: "i < length workers"
  show spec: "search_recorded unique (set (buckets (take i rs))) 32 (workers ! i) (fst (rs ! i)) (snd (rs ! i))"
    using prepare_all_recorded [OF i, of unique "{}"] by (simp add: rs_def)
  then show "length (fst (rs ! i)) \<le> 32" by (rule search_recorded_bounds(1))
qed

theorem prepare_all_distinct_witness:
  "buckets (prepare_all True [[(0, Inr (Some ''a'', VNone))], [(0, Inr (Some ''a'', VNone)), (0, Inr (Some ''b'', VNone))]] {}) = [''a'', ''b''] \<and>
   distinct [''a'', ''b'']"
proof -
  let ?w = "[[(0, Inr (Some ''a'', VNone))], [(0, Inr (Some ''a'', VNone)), (0, Inr (Some ''b'', VNone))]]"
  have eq: "buckets (prepare_all True ?w {}) = [''a'', ''b'']" by code_simp
  from prepare_all_distinct [of True ?w] have "distinct (buckets (prepare_all True ?w {}))" by blast
  then show ?thesis unfolding eq by blast
qed

text \<open>With one priority per connection no two share a queue; the paired mode shares exactly the first two.\<close>

lemma queue_priority_distinct:
  "q_queue_mode o' = ''distinct'' \<Longrightarrow> queue_priority o' i = queue_priority o' j \<longleftrightarrow> i = j"
  by (auto simp: queue_priority_def)

lemma queue_priority_pair:
  "q_queue_mode o' = ''pair'' \<Longrightarrow> queue_priority o' i = queue_priority o' j \<longleftrightarrow> i = j \<or> {i, j} = {0, 1}"
  by (auto simp: queue_priority_def doubleton_eq_iff)

section \<open>Socket statistics\<close>

lemma le_value_bounds: "0 \<le> le_value bytes \<and> le_value bytes < 256 ^ length bytes"
proof (induction bytes)
  case (Cons c bytes)
  have "0 \<le> char_code c" "char_code c < 256" using char_code_range by auto
  then show ?case using Cons by (simp add: le_value_def)
qed (simp add: le_value_def)

lemma unpack_from_bounds:
  assumes "unpack_from fmt raw offset = Inr v"
  shows "\<exists>n. v = VInt n \<and> 0 \<le> n \<and> n < (if fmt = CHR ''Q'' then 2 ^ 64 else 2 ^ 32)"
proof -
  let ?size = "if fmt = CHR ''Q'' then 8 else 4 :: nat"
  have v: "v = VInt (le_value (take ?size (drop offset raw)))" and len: "length (take ?size (drop offset raw)) = ?size"
    using assms by (auto simp: unpack_from_def Let_def split: if_splits)
  show ?thesis using le_value_bounds [of "take ?size (drop offset raw)"] unfolding v len by (auto split: if_splits)
qed

text \<open>The kernel's 232 bytes are enough for every field.\<close>

lemma tcp_info_returns: "192 \<le> length raw \<Longrightarrow> returns (tcp_info raw)"
  by (simp add: tcp_info_def tcp_info_fields_def dictE_def unpack_from_def)

end
