(* ===== verification/Py_Zlib.thy ===== *)
theory Py_Zlib
  imports Py_Value "HOL-Library.Word"
begin

text \<open>
  \<open>zlib.crc32\<close>: the reflected CRC-32 with polynomial \<open>0xEDB88320\<close>, byte by byte, and its eight lower-case
  hexadecimal digits as the format \<open>:08x\<close> prints them.
\<close>

unbundle bit_operations_syntax

definition crc32_shift :: "32 word \<Rightarrow> 32 word" where
  "crc32_shift c = (if bit c 0 then drop_bit 1 c XOR 0xEDB88320 else drop_bit 1 c)"

fun crc32_bits :: "nat \<Rightarrow> 32 word \<Rightarrow> 32 word" where
  "crc32_bits 0 c = c"
| "crc32_bits (Suc n) c = crc32_bits n (crc32_shift c)"

definition crc32_byte :: "char \<Rightarrow> 32 word \<Rightarrow> 32 word" where
  "crc32_byte b c = crc32_bits 8 (c XOR of_char b)"

definition crc32 :: "string \<Rightarrow> 32 word" where
  "crc32 bytes = NOT (fold crc32_byte bytes (NOT 0))"

definition hex8 :: "32 word \<Rightarrow> string" where
  "hex8 c = map (\<lambda>i. hex_char (uint (drop_bit (4 * i) c) mod 16)) (rev [0..<8])"

lemma length_hex8 [simp]: "length (hex8 c) = 8"
  by (simp add: hex8_def)

text \<open>A known value of the checksum.\<close>

lemma crc32_check: "hex8 (crc32 ''a'') = ''e8b7be43''"
  by code_simp

text \<open>Every step can be undone, so the register after a byte determines the one before it.\<close>

lemma crc32_shift_msb: "bit (crc32_shift c) 31 \<longleftrightarrow> bit c 0"
proof -
  have "\<not> bit c 32" using bit_imp_le_length [of c 32] by auto
  then show ?thesis by (simp add: crc32_shift_def bit_simps)
qed

lemma crc32_shift_inj: "crc32_shift a = crc32_shift b \<Longrightarrow> a = b"
proof (rule bit_word_eqI)
  fix n assume eq: "crc32_shift a = crc32_shift b" and n: "n < LENGTH(32)"
  have parity: "bit a 0 \<longleftrightarrow> bit b 0" using crc32_shift_msb [of a] crc32_shift_msb [of b] eq by simp
  have cancel: "x = y" if "x XOR m = y XOR m" for x y m :: "32 word"
    using arg_cong [OF that, of "\<lambda>z. z XOR m"] by (simp add: xor.assoc)
  have same: "drop_bit 1 a = drop_bit 1 b"
    using eq parity unfolding crc32_shift_def by (auto split: if_splits intro: cancel)
  show "bit a n \<longleftrightarrow> bit b n"
  proof (cases n)
    case 0
    then show ?thesis using parity by simp
  next
    case (Suc m)
    have "bit (drop_bit 1 a) m \<longleftrightarrow> bit (drop_bit 1 b) m" using same by simp
    then show ?thesis using Suc by (simp add: bit_simps)
  qed
qed

lemma xor_left_cancel:
  fixes x y m :: "32 word"
  assumes "m XOR x = m XOR y"
  shows "x = y"
proof -
  have "m XOR (m XOR x) = m XOR (m XOR y)" using assms by simp
  then show ?thesis by (simp add: xor.assoc [symmetric])
qed

lemma crc32_bits_inj: "crc32_bits n a = crc32_bits n b \<Longrightarrow> a = b"
  by (induction n arbitrary: a b) (auto dest: crc32_shift_inj)

lemma crc32_byte_inj_state: "crc32_byte c a = crc32_byte c b \<Longrightarrow> a = b"
  unfolding crc32_byte_def by (metis crc32_bits_inj xor_left_cancel xor.commute)

lemma of_char_word_inj: "(of_char a :: 32 word) = of_char b \<Longrightarrow> a = b"
proof -
  assume "(of_char a :: 32 word) = of_char b"
  then have "unat (of_nat (of_char a) :: 32 word) = unat (of_nat (of_char b) :: 32 word)" by (simp add: of_nat_of_char)
  moreover have "(of_char c :: nat) < 2 ^ 32" for c
  proof -
    have "(of_char c :: nat) = of_char c mod 256" by simp
    also have "\<dots> < 256" by (rule mod_less_divisor) simp
    finally show ?thesis by (rule less_le_trans) simp
  qed
  ultimately have "(of_char a :: nat) = of_char b" by (simp add: unat_of_nat take_bit_nat_eq_self)
  then show ?thesis by simp
qed

lemma crc32_byte_inj_byte: "crc32_byte a c = crc32_byte b c \<Longrightarrow> a = b"
  unfolding crc32_byte_def using crc32_bits_inj xor_left_cancel of_char_word_inj by blast

lemma crc32_fold_inj: "fold crc32_byte bytes a = fold crc32_byte bytes b \<Longrightarrow> a = b"
  by (induction bytes arbitrary: a b) (auto dest: crc32_byte_inj_state)

text \<open>The checksum of an upload changes whenever one byte of it does.\<close>

lemma crc32_one_byte: "crc32 (xs @ a # ys) = crc32 (xs @ b # ys) \<Longrightarrow> a = b"
  unfolding crc32_def by (auto dest!: crc32_fold_inj crc32_byte_inj_byte)

end
