(* ===== verification/Upload_Compare.thy ===== *)
theory Upload_Compare
  imports Upload_Client Architecture Py_Zlib
begin

text \<open>
  \<open>bench/upload_compare.py\<close>: interleaved upload trials of several servers.  The programs compared, the
  request bodies, command lines, environments and client arguments are functions of the options; one
  trial is the list of its steps over \<open>upload_world\<close>, what the server, the remote agent, the admin
  endpoint and the kernel answered; \<open>check_load\<close> and \<open>upload_summary\<close> evaluate the finished trial.
\<close>

section \<open>Options and programs\<close>

record compare_options =
  uc_before :: "string option"
  uc_go_binary :: "string option"
  uc_before_label :: string
  uc_go_procs :: int
  uc_candidate :: string
  uc_repeats :: int
  uc_body_bytes :: "int list"
  uc_connections :: int
  uc_workers :: int
  uc_worker_cpus :: string
  uc_capacity :: int
  uc_zig_cpus :: string
  uc_app_cpu :: "int option"
  uc_duration :: rat
  uc_rate :: rat
  uc_trace_client :: bool
  uc_queue_mode :: string
  uc_profile :: bool
  uc_probe_queues :: bool
  uc_unique_queues :: bool
  uc_freeze_hash :: bool
  uc_calibrate_body :: bool

definition check_compare_options :: "compare_options \<Rightarrow> bool \<Rightarrow> unit res" where
  "check_compare_options o' output_exists =
     checks
      [ensure (uc_before o' \<noteq> None \<or> uc_go_binary o' \<noteq> None) (ParserError ''at least one of --before or --go-binary is required''),
       ensure (uc_app_cpu o' = None \<or> uc_workers o' = 1) (ParserError ''--app-cpu requires one network worker''),
       ensure (\<not> output_exists) (OSError ''FileExistsError''),
       ensure (\<not> (uc_before o' \<noteq> None \<and> uc_before_label o' \<in> {''go'', ''streaming''}))
         (ParserError ''--before-label must differ from go and streaming'')]"

definition upload_binaries :: "(string \<Rightarrow> string) \<Rightarrow> compare_options \<Rightarrow> (string \<times> string) list" where
  "upload_binaries resolve o' =
     (let b = (case uc_before o' of None \<Rightarrow> [] | Some p \<Rightarrow> dict_set (uc_before_label o') (resolve p) []);
          b = (case uc_go_binary o' of None \<Rightarrow> b | Some p \<Rightarrow> dict_set ''go'' (resolve p) b)
      in dict_set ''streaming'' (resolve (uc_candidate o')) b)"

text \<open>\<open>file_sha256\<close> reads and hashes a file; equal programs would make the comparison void.\<close>

definition binary_hashes :: "(string \<Rightarrow> string res) \<Rightarrow> (string \<times> string) list \<Rightarrow> (string \<times> string) list res" where
  "binary_hashes file_sha256 binaries =
     bindE (mapE (\<lambda>(name, p). bindE (file_sha256 p) (\<lambda>h. Inr (name, h))) binaries) (\<lambda>hashes.
     seqE (ensure (card (set (map snd hashes)) = length binaries) (AssertionError [])) (Inr hashes))"

definition variants_json :: "(string \<Rightarrow> string) \<Rightarrow> (string \<times> string) list \<Rightarrow> (string \<times> string) list \<Rightarrow> string \<Rightarrow> string \<Rightarrow> val" where
  "variants_json sha256 binaries hashes client_source agent_source =
     VDict [(''binaries'', VDict (map (\<lambda>(n, p). (n, VStr p)) binaries)), (''sha256'', VDict (map (\<lambda>(n, h). (n, VStr h)) hashes)),
            (''client_source_sha256'', VStr (sha256 client_source)), (''agent_source_sha256'', VStr (sha256 agent_source))]"

definition byte_range :: "nat \<Rightarrow> string" where
  "byte_range n = map char_of [0..<n]"

definition upload_body :: "int \<Rightarrow> string" where
  "upload_body nbytes = concat (replicate (nat (nbytes div 256)) (byte_range 256)) @ byte_range (nat (nbytes mod 256))"

definition checksum_line :: "int \<Rightarrow> string \<Rightarrow> string" where
  "checksum_line nbytes body = str_of_int nbytes @ '':'' @ hex8 (crc32 body) @ [newline]"

definition upload_expected :: "int \<Rightarrow> string" where
  "upload_expected nbytes = checksum_line nbytes (upload_body nbytes)"

definition upload_schedule :: "compare_options \<Rightarrow> string list \<Rightarrow> (int \<times> string \<times> nat) list" where
  "upload_schedule o' names =
     concat (map (\<lambda>nbytes. concat (map (\<lambda>repeat. map (\<lambda>name. (nbytes, name, repeat + 1)) (arch_order names repeat))
       [0..<nat (uc_repeats o')])) (uc_body_bytes o'))"

definition upload_folder :: "int \<times> string \<times> nat \<Rightarrow> string" where
  "upload_folder trial =
     (case trial of (nbytes, name, repeat) \<Rightarrow> ''n'' @ str_of_int nbytes @ ''-'' @ name @ ''-'' @ str_of_int (int repeat))"

definition server_address :: string where
  "server_address = ''192.0.2.10''"

definition upload_command :: "compare_options \<Rightarrow> string \<Rightarrow> string \<Rightarrow> int \<Rightarrow> int \<Rightarrow> string list" where
  "upload_command o' name binary port admin =
     (let command =
        (if name = ''go'' then [binary, ''-listen'', server_address @ '':'' @ str_of_int port]
         else [binary, ''--address'', server_address, ''--port'', str_of_int port,
               ''--admin-port'', str_of_int admin, ''--workers'', str_of_int (uc_workers o'), ''--worker-cpus'', uc_worker_cpus o',
               ''--max-connections'', str_of_int (uc_capacity o'), ''--max-active'', str_of_int (uc_capacity o'),
               ''--max-requests'', ''4294967295'', ''--no-access-log''])
      in if name \<noteq> ''go'' \<and> uc_zig_cpus o' \<noteq> [] then [''taskset'', ''-c'', uc_zig_cpus o'] @ command else command)"

definition upload_env :: "compare_options \<Rightarrow> string \<Rightarrow> (string \<times> string) list \<Rightarrow> (string \<times> string) list" where
  "upload_env o' name environ =
     (let env = filter (\<lambda>(k, v). k \<notin> set go_settings) environ
      in if name = ''go'' then dict_set ''GOMAXPROCS'' (str_of_int (uc_go_procs o')) env else env)"

text \<open>\<open>str_float\<close> is \<open>str\<close> of a float.\<close>

definition upload_arguments :: "(rat \<Rightarrow> string) \<Rightarrow> compare_options \<Rightarrow> string \<Rightarrow> int \<Rightarrow> string list" where
  "upload_arguments str_float o' client_source port =
     [''-c'', client_source, ''-address'', server_address @ '':'' @ str_of_int port, ''-connections'', str_of_int (uc_connections o'),
      ''-warmup'', ''5'', ''-duration'', str_float (uc_duration o'), ''-rate'', str_float (uc_rate o')] @
     (if uc_trace_client o' then [''-trace''] else []) @ [''-queue-mode'', uc_queue_mode o'] @
     (if uc_probe_queues o' then [''-probe-queues''] else []) @ (if uc_unique_queues o' then [''-unique-queues''] else []) @
     (if uc_freeze_hash o' then [''-freeze-hash''] else []) @ (if uc_calibrate_body o' then [''-calibrate-body''] else [])"

section \<open>One trial\<close>

text \<open>A thread of the server: its identifier, name, affinity, and the answers of setting and reading it again.\<close>

record server_task =
  k_tid :: int
  k_affinity :: "int list res"
  k_name :: "string res"
  k_set :: "unit res"
  k_after :: "int list res"

definition affinity_row :: "int \<Rightarrow> server_task \<Rightarrow> val res" where
  "affinity_row cpu t =
     bindE (k_affinity t) (\<lambda>previous. bindE (k_name t) (\<lambda>name.
       let start = [(''tid'', pI (k_tid t)), (''name'', pS (strip name)), (''before'', Inr (VList (map VInt (sort previous))))] in
       if cpu \<notin> set previous then dictE (start @ [(''skipped'', pS ''inherits network-worker affinity'')])
       else seqE (k_set t) (dictE (start @ [(''after'', bindE (k_after t) (\<lambda>a. Inr (VList (map VInt (sort a)))))]))))"

fun affinity_steps :: "int \<Rightarrow> int \<Rightarrow> server_task list \<Rightarrow> val list \<Rightarrow> step list" where
  "affinity_steps cpu pid [] rows = []"
| "affinity_steps cpu pid (t # ts) rows =
     (if k_tid t = pid then affinity_steps cpu pid ts rows
      else case affinity_row cpu t of
        Inl e \<Rightarrow> [Check (Inl e)]
      | Inr v \<Rightarrow> Put ''application_affinity'' (Inr (VList (rows @ [v]))) # affinity_steps cpu pid ts (rows @ [v]))"

definition profile_command :: "string \<Rightarrow> int \<Rightarrow> string list" where
  "profile_command folder pid =
     [''perf'', ''record'', ''-F'', ''997'', ''-e'', ''cycles:u'', ''--call-graph'', ''dwarf,8192'',
      ''-o'', slash folder ''user.perf.data'', ''-p'', str_of_int pid]"

record upload_world =
  y_port :: int
  y_admin :: int
  y_pid :: int
  y_server_identity :: val
  y_popen :: "unit res"
  y_go_runtime :: "val res"
  y_ready :: "unit res"
  y_tasks :: "server_task list res"
  y_profile :: "unit res"
  y_running_sha256 :: "string res"
  y_affinity :: "int list"
  y_remote :: "val res"
  y_clock :: "int \<times> int"
  y_metrics_before :: "val res"
  y_start :: "val res"
  y_turns :: "poll_turn list"
  y_client :: "val res"
  y_remote_samples :: "val list"
  y_metrics_after :: "val res"
  y_failure :: val
  y_profile_exit :: val
  y_server_exit :: val

definition upload_start :: "compare_options \<Rightarrow> string \<Rightarrow> int \<Rightarrow> int \<Rightarrow> string list \<Rightarrow> string \<Rightarrow> upload_world \<Rightarrow> row" where
  "upload_start o' name nbytes repeat command sha w =
     [(''variant'', VStr name), (''repeat'', VInt repeat), (''body_bytes'', VInt nbytes), (''connections'', VInt (uc_connections o')),
      (''command'', VList (map VStr command)), (''binary_sha256'', VStr sha), (''server_identity'', y_server_identity w),
      (''samples'', VList [])]"

definition server_steps :: "compare_options \<Rightarrow> bool \<Rightarrow> string \<Rightarrow> upload_world \<Rightarrow> step list" where
  "server_steps o' go folder w =
     [Check (y_popen w)] @
     (if go then [Put ''go_runtime'' (y_go_runtime w), Check (assertE (eqE (idxE (y_go_runtime w) ''gomaxprocs'') (pI (uc_go_procs o'))))] else []) @
     [Check (y_ready w)] @
     (case uc_app_cpu o' of
        Some cpu \<Rightarrow> if go then [] else Put ''application_affinity'' (Inr (VList [])) #
          (case y_tasks w of Inl e \<Rightarrow> [Check (Inl e)] | Inr ts \<Rightarrow> affinity_steps cpu (y_pid w) ts [])
      | None \<Rightarrow> []) @
     (if uc_profile o' then [Check (y_profile w), Put ''profile_command'' (Inr (VList (map VStr (profile_command folder (y_pid w)))))] else [])"

definition remote_steps :: "bool \<Rightarrow> string \<Rightarrow> upload_world \<Rightarrow> step list" where
  "remote_steps go sha w =
     [Put ''running_binary_sha256'' (bindE (y_running_sha256 w) pS),
      Check (same_text (bindE (y_running_sha256 w) pS) (Inr sha)),
      Put ''server_affinity'' (Inr (VList (map VInt (sort (y_affinity w))))),
      Put ''remote_identity'' (y_remote w),
      Check (assertE (neE (idxE (y_remote w) ''boot_id'') (idx (y_server_identity w) ''boot_id''))),
      Put ''clock_offset_ns'' (pI (fst (y_clock w))), Put ''clock_uncertainty_ns'' (pI (snd (y_clock w)))] @
     (if go then [] else [Put ''metrics_before'' (y_metrics_before w)])"

definition upload_guard :: "poll_turn \<Rightarrow> unit res" where
  "upload_guard t = ensure (\<not> d_exited t) (RuntimeError ''server exited during upload load'')"

text \<open>A list of turns in which the generator never completes stands for a trial the operator interrupts.\<close>

definition measure_steps :: "bool \<Rightarrow> upload_world \<Rightarrow> step list" where
  "measure_steps go w =
     [Put ''remote_started'' (y_start w)] @ poll_steps upload_guard (RuntimeError ''KeyboardInterrupt'') (y_turns w) @
     [Put ''load'' (y_client w), Put ''remote_samples'' (Inr (VList (y_remote_samples w)))] @
     (if go then [] else [Put ''metrics_after'' (y_metrics_after w)])"

definition upload_steps :: "compare_options \<Rightarrow> string \<Rightarrow> string \<Rightarrow> string \<Rightarrow> upload_world \<Rightarrow> step list" where
  "upload_steps o' name folder sha w =
     (let go = (name = ''go'') in server_steps o' go folder w @ remote_steps go sha w @ measure_steps go w)"

section \<open>Evaluation\<close>

definition check_load :: "string \<Rightarrow> string \<Rightarrow> val \<Rightarrow> unit res" where
  "check_load body_sha expected_sha load =
     checks
      [assertE (andE (notE (truthE (idx load ''failures''))) (gtE (idx load ''window_successes'') (pI 0))),
       assertE (eqE (idx load ''request_body_sha256'') (pS body_sha)),
       assertE (eqE (idx load ''expected_body_sha256'') (pS expected_sha)),
       assertE (bindE (bindE (idx load ''workers'') elems) (allE (\<lambda>r. eqE (idx r ''attempts'') (idx r ''successes''))))]"

text \<open>The samples well inside the client's window, on this machine's clock; \<open>offset\<close> is \<open>remote.clock_offset_ns\<close>.\<close>

definition window_samples :: "int \<Rightarrow> val \<Rightarrow> val \<Rightarrow> val list res" where
  "window_samples offset record load =
     bindE (addE (idx load ''measure_start_unix_ns'') (pI offset)) (\<lambda>start.
     bindE (addE (idx load ''measure_end_unix_ns'') (pI offset)) (\<lambda>stop.
     samples_between (addE (Inr start) (pI 250000000)) (subE (Inr stop) (pI 250000000)) (idx record ''samples'')))"

definition interval_seconds :: "val \<Rightarrow> val \<Rightarrow> val res" where
  "interval_seconds first last' = divE (subE (idx last' ''unix_ns'') (idx first ''unix_ns'')) (pF 1000000000)"

definition cpu_cores :: "val \<Rightarrow> val \<Rightarrow> val \<Rightarrow> val res" where
  "cpu_cores first last' seconds =
     divE (subE (path last' [''server'', ''cpu_seconds'']) (path first [''server'', ''cpu_seconds''])) (Inr seconds)"

definition goodput_mib :: "val \<Rightarrow> val res" where
  "goodput_mib load = divE (idx load ''goodput_bytes_per_second'') (pI (2 ^ 20))"

definition rss_values :: "val list \<Rightarrow> val list res" where
  "rss_values samples = mapE (\<lambda>s. divE (path s [''server'', ''VmRSS'']) (pI (2 ^ 20))) samples"

definition cpu_us_per_mib :: "val \<Rightarrow> val \<Rightarrow> val res" where
  "cpu_us_per_mib ccores goodput = mulE (divE (Inr ccores) (Inr goodput)) (pF 1000000)"

definition upload_summary :: "compare_options \<Rightarrow> int \<Rightarrow> string \<Rightarrow> int \<Rightarrow> val \<Rightarrow> val \<Rightarrow> val res" where
  "upload_summary o' offset name nbytes record load =
     bindE (window_samples offset record load) (\<lambda>samples.
     seqE (ensure (length samples \<ge> 4) (AssertionError []))
     (bindE (edges samples) (\<lambda>(first, last').
      bindE (interval_seconds first last') (\<lambda>seconds. bindE (cpu_cores first last' seconds) (\<lambda>ccores.
      bindE (goodput_mib load) (\<lambda>goodput.
      dictE
       [(''variant'', pS name), (''body_bytes'', pI nbytes), (''connections'', pI (uc_connections o')), (''rate_cap'', Inr (VFloat (uc_rate o'))),
        (''goodput_mib_per_second'', Inr goodput), (''service_p99_ms'', idx load ''service_p99_ms''),
        (''rss_median_mib'', medianE (rss_values samples)), (''rss_peak_mib'', maxE (rss_values samples)),
        (''cpu_cores'', Inr ccores), (''cpu_us_per_mib'', cpu_us_per_mib ccores goodput),
        (''cpu_interval_seconds'', Inr seconds),
        (''server_host'', bindE (idx first ''host'') (\<lambda>h0. bindE (idx last' ''host'') (\<lambda>h1. host_delta h0 h1)))]))))))"

definition upload_evaluate :: "(string \<Rightarrow> string) \<Rightarrow> compare_options \<Rightarrow> int \<Rightarrow> string \<Rightarrow> int \<Rightarrow> row \<Rightarrow> val res" where
  "upload_evaluate sha256 o' offset name nbytes r =
     bindE (idx (VDict r) ''load'') (\<lambda>load.
     seqE (check_load (sha256 (upload_body nbytes)) (sha256 (upload_expected nbytes)) load)
     (upload_summary o' offset name nbytes (VDict r) load))"

text \<open>
  The record written to \<open>run.json\<close>, the summary written to \<open>summary.json\<close> if the trial got that far, and
  what leaves the loop.
\<close>

definition upload_trial ::
  "(exn \<Rightarrow> string) \<Rightarrow> (string \<Rightarrow> string) \<Rightarrow> compare_options \<Rightarrow> string \<Rightarrow> string \<Rightarrow> string \<Rightarrow> int \<Rightarrow> int \<Rightarrow> string \<Rightarrow> upload_world \<Rightarrow>
     row \<times> val option \<times> unit res" where
  "upload_trial repr sha256 o' name binary sha nbytes repeat folder w =
     (let command = upload_command o' name binary (y_port w) (y_admin w);
          (r, failed) = run_steps (upload_steps o' name folder sha w) (upload_start o' name nbytes repeat command sha w);
          summary = (case failed of Some e \<Rightarrow> Inl e | None \<Rightarrow> upload_evaluate sha256 o' (fst (y_clock w)) name nbytes r);
          (r, out) = record_outcome repr (y_failure w) (r, case summary of Inl e \<Rightarrow> Some e | Inr _ \<Rightarrow> None);
          r = (if map_of r ''profile_command'' = None then r else dict_set ''profile_exit'' (y_profile_exit w) r)
      in (dict_set ''server_exit'' (if returns (y_popen w) then y_server_exit w else VNone) r,
          case summary of Inl _ \<Rightarrow> None | Inr s \<Rightarrow> Some s, out))"

section \<open>Bodies and plans\<close>

lemma length_byte_range [simp]: "length (byte_range n) = n"
  by (simp add: byte_range_def)

lemma length_upload_body: "0 \<le> n \<Longrightarrow> int (length (upload_body n)) = n"
proof -
  assume n: "0 \<le> n"
  have "int (length (upload_body n)) = 256 * (n div 256) + n mod 256"
    using n by (simp add: upload_body_def length_concat sum_list_replicate pos_imp_zdiv_nonneg_iff)
  then show ?thesis by simp
qed

lemma binary_hashes_distinct:
  assumes "binary_hashes file_sha256 binaries = Inr hashes"
  shows "map fst hashes = map fst binaries \<and> distinct (map snd hashes)"
proof -
  have m: "mapE (\<lambda>(name, p). bindE (file_sha256 p) (\<lambda>h. Inr (name, h))) binaries = Inr hashes"
    and c: "card (set (map snd hashes)) = length binaries"
    using assms by (auto simp: binary_hashes_def bindE_eq_Inr seqE_eq_Inr ensure_eq_Inr)
  have keys: "map fst hashes = map fst binaries"
    using m by (induction binaries arbitrary: hashes) (auto simp: bindE_eq_Inr)
  then have "length binaries = length (map snd hashes)" by (metis length_map)
  then show ?thesis using keys c card_distinct [of "map snd hashes"] by simp
qed

section \<open>What a trial's record means\<close>

lemma assignments_affinity [simp]:
  "k \<noteq> ''application_affinity'' \<Longrightarrow> assignments k (affinity_steps cpu pid ts rows) = []"
  by (induction cpu pid ts rows rule: affinity_steps.induct) (auto split: sum.splits)

lemma assignments_server_steps:
  "k \<notin> {''go_runtime'', ''application_affinity'', ''profile_command''} \<Longrightarrow> assignments k (server_steps o' go folder w) = []"
  by (auto simp: server_steps_def split: option.splits sum.splits)

lemmas upload_steps_defs = upload_steps_def Let_def remote_steps_def measure_steps_def

lemma upload_assignments:
  "assignments ''binary_sha256'' (upload_steps o' name folder sha w) = []"
  "assignments ''running_binary_sha256'' (upload_steps o' name folder sha w) = [Put ''running_binary_sha256'' (bindE (y_running_sha256 w) pS)]"
  "assignments ''remote_identity'' (upload_steps o' name folder sha w) = [Put ''remote_identity'' (y_remote w)]"
  "assignments ''clock_offset_ns'' (upload_steps o' name folder sha w) = [Put ''clock_offset_ns'' (pI (fst (y_clock w)))]"
  "assignments ''load'' (upload_steps o' name folder sha w) = [Put ''load'' (y_client w)]"
  by (simp_all add: upload_steps_defs assignments_server_steps)

definition upload_before :: "compare_options \<Rightarrow> string \<Rightarrow> string \<Rightarrow> string \<Rightarrow> upload_world \<Rightarrow> step list" where
  "upload_before o' name folder sha w =
     server_steps o' (name = ''go'') folder w @ remote_steps (name = ''go'') sha w @ [Put ''remote_started'' (y_start w)]"

definition upload_after :: "string \<Rightarrow> upload_world \<Rightarrow> step list" where
  "upload_after name w = [Put ''load'' (y_client w), Put ''remote_samples'' (Inr (VList (y_remote_samples w)))] @
     (if name = ''go'' then [] else [Put ''metrics_after'' (y_metrics_after w)])"

interpretation upload_polls: polled_run "upload_steps o' name folder sha" "upload_before o' name folder sha" "upload_after name"
    upload_guard "RuntimeError ''KeyboardInterrupt''" y_turns
  for o' name folder sha
  by unfold_locales
    (simp_all add: upload_before_def upload_after_def upload_steps_def Let_def measure_steps_def remote_steps_def assignments_server_steps)

text \<open>The claims of a measured trial's record.\<close>

definition sound_trial :: "(string \<Rightarrow> string) \<Rightarrow> string \<Rightarrow> int \<Rightarrow> upload_world \<Rightarrow> row \<Rightarrow> bool" where
  "sound_trial sha256 sha nbytes w r \<longleftrightarrow>
     map_of r ''samples'' = Some (VList (taken (y_turns w))) \<and> (\<exists>t \<in> set (y_turns w). d_completed t = Inr True) \<and>
     map_of r ''binary_sha256'' = Some (VStr sha) \<and> map_of r ''running_binary_sha256'' = Some (VStr sha) \<and>
     (\<exists>identity load. map_of r ''remote_identity'' = Some identity \<and> map_of r ''load'' = Some load \<and>
        neE (idx identity ''boot_id'') (idx (y_server_identity w) ''boot_id'') = Inr True \<and>
        check_load (sha256 (upload_body nbytes)) (sha256 (upload_expected nbytes)) load = Inr ())"

lemma run_sound_trial:
  assumes run: "run_steps (upload_steps o' name folder sha w) (upload_start o' name nbytes repeat command sha w) = (r, None)"
    and ok: "upload_evaluate sha256 o' offset name nbytes r = Inr summary"
  shows "sound_trial sha256 sha nbytes w r"
proof -
  have check: "m = Inr ()" if "Check m \<in> set (upload_steps o' name folder sha w)" for m
    using run_steps_check [OF run that] .
  have start: "map_of (upload_start o' name nbytes repeat command sha w) ''samples'' = Some (VList [])"
    "map_of (upload_start o' name nbytes repeat command sha w) ''binary_sha256'' = Some (VStr sha)"
    by (simp_all add: upload_start_def)
  obtain v where v: "bindE (y_running_sha256 w) pS = Inr v" "map_of r ''running_binary_sha256'' = Some v"
    using run_steps_put [OF run upload_assignments(2)] by blast
  have "same_text (bindE (y_running_sha256 w) pS) (Inr sha) = Inr ()"
    by (rule check) (simp add: upload_steps_defs)
  then have running: "v = VStr sha" using v(1) by (auto simp: same_text_def assertE_eq_Inr eqE_True pS_def bindE_eq_Inr)
  obtain identity where identity: "y_remote w = Inr identity" "map_of r ''remote_identity'' = Some identity"
    using run_steps_put [OF run upload_assignments(3)] by blast
  have "assertE (neE (idxE (y_remote w) ''boot_id'') (idx (y_server_identity w) ''boot_id'')) = Inr ()"
    by (rule check) (simp add: upload_steps_defs)
  then have boot: "neE (idx identity ''boot_id'') (idx (y_server_identity w) ''boot_id'') = Inr True"
    by (simp add: identity assertE_eq_Inr idxE_def)
  obtain load where load: "map_of r ''load'' = Some load" and
    "check_load (sha256 (upload_body nbytes)) (sha256 (upload_expected nbytes)) load = Inr ()"
    using ok by (auto simp: upload_evaluate_def bindE_eq_Inr seqE_eq_Inr of_option_def split: option.splits)
  then show ?thesis unfolding sound_trial_def
    using upload_polls.complete_samples [OF run start(1)] run_steps_keep [OF run upload_assignments(1)] start(2) v(2) running identity(2) boot by auto
qed

lemma sound_trial_keep:
  assumes "sound_trial sha256 sha nbytes w r" and "\<And>k. k \<notin> {''outcome'', ''profile_exit'', ''server_exit''} \<Longrightarrow> map_of r' k = map_of r k"
  shows "sound_trial sha256 sha nbytes w r'"
  using assms by (simp add: sound_trial_def)

lemma upload_trial_measured:
  assumes "upload_trial repr sha256 o' name binary sha nbytes repeat folder w = (r, summary, Inr ())"
  obtains r1 s where "run_steps (upload_steps o' name folder sha w)
      (upload_start o' name nbytes repeat (upload_command o' name binary (y_port w) (y_admin w)) sha w) = (r1, None)"
    and "upload_evaluate sha256 o' (fst (y_clock w)) name nbytes r1 = Inr s" and "summary = Some s"
    and "\<And>k. k \<notin> {''outcome'', ''profile_exit'', ''server_exit''} \<Longrightarrow> map_of r k = map_of r1 k"
  using assms that unfolding upload_trial_def Let_def record_outcome_def
  by (force simp: map_of_dict_set split: prod.splits option.splits sum.splits if_splits)

text \<open>
  C21: an upload trial is recorded truthfully.  Its record says \<open>measured\<close> exactly when no exception left
  the trial, which is exactly when a summary was written; otherwise it holds the exception.  A measured
  trial ran the program that was hashed before, against a client on another machine, holds every
  sample taken until that client completed, and its load passed the checks: no failures, at least one
  success in the window, every attempt of every worker a success, and the digests of this body and of
  its expected answer.
\<close>

theorem upload_trial_evidence:
  assumes "upload_trial repr sha256 o' name binary sha nbytes repeat folder w = (r, summary, out)"
  shows "map_of r ''outcome'' = Some (VStr (if out = Inr () then ''measured'' else ''failed'')) \<and>
    (out = Inr () \<longleftrightarrow> summary \<noteq> None) \<and> (\<forall>e. out = Inl e \<longrightarrow> map_of r ''error'' = Some (VStr (repr e))) \<and>
    (out = Inr () \<longrightarrow> sound_trial sha256 sha nbytes w r)"
proof -
  have "sound_trial sha256 sha nbytes w r" if out: "out = Inr ()"
    using upload_trial_measured [OF assms [unfolded out]] run_sound_trial sound_trial_keep by metis
  moreover have "map_of r ''outcome'' = Some (VStr (if out = Inr () then ''measured'' else ''failed'')) \<and>
      (out = Inr () \<longleftrightarrow> summary \<noteq> None) \<and> (\<forall>e. out = Inl e \<longrightarrow> map_of r ''error'' = Some (VStr (repr e)))"
    using assms unfolding upload_trial_def Let_def record_outcome_def
    by (force simp: map_of_dict_set split: prod.splits option.splits sum.splits if_splits)
  ultimately show ?thesis by blast
qed

text \<open>
  A trial with a one-byte body: two workers with one answer each inside the window of one second, and four
  samples of the server meanwhile.
\<close>

definition sample_expected :: string where
  "sample_expected = ''1:d202ef8d'' @ [newline]"

lemma sample_body_eq: "upload_body 1 = [CHR 0x00]"
  by (simp add: upload_body_def byte_range_def char_of_def)

lemma sample_expected_eq: "upload_expected 1 = sample_expected"
  unfolding upload_expected_def sample_body_eq by code_simp

definition sample_answered :: "int \<Rightarrow> request_turn" where
  "sample_answered s = (sample_turn s)\<lparr>i_answer := Inr (200, sample_expected)\<rparr>"

definition sample_outcomes :: "outcome list" where
  "sample_outcomes =
     map (\<lambda>i. run_worker (\<lambda>e. ''error'') sample_upload (upload_timing sample_upload 0) sample_expected i []
       [sample_answered (250000000 * int i), sample_answered 1000000000]) [0, 1]"

definition sample_load :: val where
  "sample_load = VDict
     [(''connections'', VInt 2), (''rate_cap'', VFloat 4), (''request_body_bytes'', VInt 1), (''queue_mode'', VStr ''hash''),
      (''freeze_hash'', VBool False), (''calibrate_body'', VBool False), (''queue_configuration'', VNone),
      (''unique_queues'', VBool False), (''request_body_sha256'', VStr [CHR 0x00]), (''expected_body_sha256'', VStr sample_expected),
      (''measure_start_unix_ns'', VInt 0), (''measure_end_unix_ns'', VInt 1000000000), (''duration_seconds'', VFloat 1),
      (''window_successes'', VInt 2), (''validated_body_bytes'', VInt 2), (''goodput_bytes_per_second'', VFloat 2),
      (''service_p99_ms'', VFloat (5902958103587057 / 1180591620717411303424)), (''failures'', VDict []),
      (''workers'', VList (replicate 2 (VDict
         [(''attempts'', VInt 1), (''successes'', VInt 1), (''failures'', VList []), (''latencies_ns'', VList [VInt 5])])))]"

lemma sample_outcomes_eq:
  "sample_outcomes = map (\<lambda>t. \<lparr>o_worker = \<lparr>x_attempts = 1, x_successes = 1, x_latencies = [5], x_trace = [], x_next = t\<rparr>,
     o_failures = [], o_fields = []\<rparr>) [500000000, 750000000]"
  by code_simp

lemma sample_load_eq:
  "upload_result (\<lambda>s. s) sample_upload (upload_body 1) (upload_expected 1) VNone 0 sample_outcomes = Inr sample_load"
  unfolding sample_outcomes_eq sample_expected_eq sample_body_eq by code_simp

definition sample_server :: "int \<Rightarrow> val" where
  "sample_server now = VDict [(''unix_ns'', VInt now), (''server'', VDict [(''cpu_seconds'', VInt now), (''user_seconds'', VInt 0),
      (''system_seconds'', VInt 0), (''minor_faults'', VInt 0), (''VmRSS'', VInt 2097152)]),
     (''host'', sample_counters now ''cpu0 0 0 0 0 0 0 0 0''), (''metrics'', VNone)]"

definition sample_poll :: "int \<Rightarrow> poll_turn" where
  "sample_poll now = \<lparr>d_completed = Inr False, d_exited = False, d_late = False, d_sample = Some (Inr (sample_server now))\<rparr>"

definition sample_compare :: compare_options where
  "sample_compare = \<lparr>uc_before = None, uc_go_binary = Some ''go'', uc_before_label = ''buffered'', uc_go_procs = 32, uc_candidate = ''zhtps'',
     uc_repeats = 3, uc_body_bytes = [1], uc_connections = 2, uc_workers = 4, uc_worker_cpus = ''9-12'', uc_capacity = 256, uc_zig_cpus = [],
     uc_app_cpu = None, uc_duration = 1, uc_rate = 4, uc_trace_client = False, uc_queue_mode = ''hash'', uc_profile = False,
     uc_probe_queues = False, uc_unique_queues = False, uc_freeze_hash = False, uc_calibrate_body = False\<rparr>"

definition sample_upload_world :: upload_world where
  "sample_upload_world = \<lparr>y_port = 80, y_admin = 81, y_pid = 7, y_server_identity = VDict [(''boot_id'', VStr ''s'')], y_popen = Inr (),
     y_go_runtime = Inr VNone, y_ready = Inr (), y_tasks = Inr [], y_profile = Inr (), y_running_sha256 = Inr ''b'', y_affinity = [0],
     y_remote = Inr (VDict [(''boot_id'', VStr ''c'')]), y_clock = (0, 1), y_metrics_before = Inr VNone, y_start = Inr VNone,
     y_turns = map sample_poll [300000000, 400000000, 500000000, 600000000] @
       [\<lparr>d_completed = Inr True, d_exited = False, d_late = False, d_sample = None\<rparr>],
     y_client = Inr sample_load, y_remote_samples = [], y_metrics_after = Inr VNone, y_failure = VNone, y_profile_exit = VNone,
     y_server_exit = VInt 0\<rparr>"

definition sample_row :: row where
  "sample_row =
     [(''variant'', VStr ''streaming''), (''repeat'', VInt 1), (''body_bytes'', VInt 1), (''connections'', VInt 2),
      (''command'', VList (map VStr (upload_command sample_compare ''streaming'' ''zhtps'' 80 81))), (''binary_sha256'', VStr ''b''),
      (''server_identity'', VDict [(''boot_id'', VStr ''s'')]),
      (''samples'', VList (map sample_server [300000000, 400000000, 500000000, 600000000])),
      (''running_binary_sha256'', VStr ''b''), (''server_affinity'', VList [VInt 0]), (''remote_identity'', VDict [(''boot_id'', VStr ''c'')]),
      (''clock_offset_ns'', VInt 0), (''clock_uncertainty_ns'', VInt 1), (''metrics_before'', VNone), (''remote_started'', VNone),
      (''load'', sample_load), (''remote_samples'', VList []), (''metrics_after'', VNone)]"

lemma sample_row_eq:
  "run_steps (upload_steps sample_compare ''streaming'' ''folder'' ''b'' sample_upload_world)
     (upload_start sample_compare ''streaming'' 1 1 (upload_command sample_compare ''streaming'' ''zhtps'' 80 81) ''b'' sample_upload_world)
   = (sample_row, None)"
  by (simp add: upload_steps_defs server_steps_def upload_start_def sample_compare_def sample_upload_world_def sample_row_def sample_poll_def
      upload_guard_def ensure_def same_text_def assertE_def neE_def eqE_def idxE_def literal_defs add_sample_def)

lemma sample_summary_returns: "returns (upload_evaluate (\<lambda>s. s) sample_compare 0 ''streaming'' 1 sample_row)"
  unfolding upload_evaluate_def sample_expected_eq sample_body_eq by code_simp

lemma sample_upload_trial_measured:
  "snd (snd (upload_trial (\<lambda>e. ''error'') (\<lambda>s. s) sample_compare ''streaming'' ''zhtps'' ''b'' 1 1 ''folder'' sample_upload_world)) = Inr ()"
proof -
  have "y_port sample_upload_world = 80" "y_admin sample_upload_world = 81" "fst (y_clock sample_upload_world) = 0" by (simp_all add: sample_upload_world_def)
  moreover obtain s where "upload_evaluate (\<lambda>s. s) sample_compare 0 ''streaming'' 1 sample_row = Inr s"
    using sample_summary_returns by (auto simp: returns_iff)
  ultimately show ?thesis by (simp add: upload_trial_def sample_row_eq record_outcome_def)
qed

theorem upload_trial_evidence_witness:
  "\<exists>r summary. upload_trial (\<lambda>e. ''error'') (\<lambda>s. s) sample_compare ''streaming'' ''zhtps'' ''b'' 1 1 ''folder'' sample_upload_world
      = (r, summary, Inr ()) \<and> sound_trial (\<lambda>s. s) ''b'' 1 sample_upload_world r"
proof -
  let ?run = "upload_trial (\<lambda>e. ''error'') (\<lambda>s. s) sample_compare ''streaming'' ''zhtps'' ''b'' 1 1 ''folder'' sample_upload_world"
  obtain r summary out where run: "?run = (r, summary, out)" by (cases ?run)
  have out: "out = Inr ()" using sample_upload_trial_measured unfolding run by simp
  show ?thesis using upload_trial_evidence [OF run] run unfolding out by blast
qed

end
