(* ===== verification/Audit_Upload.thy ===== *)
theory Audit_Upload
  imports Upload_Compare "HOL-Library.Multiset"
begin

text \<open>
  \<open>bench/audit_upload_parity.py\<close>: the audit of the upload experiments.  \<open>build_receipts\<close> reads the build
  receipts; \<open>audit_get\<close> and \<open>audit_upload\<close> check one control run and one upload run against their files;
  \<open>audit_run\<close> is the loop body, \<open>aggregate\<close> the grouping, \<open>audit_final\<close> the checks of the final build.
  \<open>read\<close> is the parsed JSON file, \<open>bytes\<close> the contents of a file, \<open>sha256\<close> the hexadecimal digest, \<open>py_str\<close>
  the text of a value.
\<close>

section \<open>Files\<close>

record audit_env =
  ae_read :: "string \<Rightarrow> val res"
  ae_bytes :: "string \<Rightarrow> string res"
  ae_sha256 :: "string \<Rightarrow> string"
  ae_py_str :: "val \<Rightarrow> string"
  ae_resolve :: "string \<Rightarrow> string"
  ae_root :: string

definition file_digest :: "audit_env \<Rightarrow> string \<Rightarrow> val res" where
  "file_digest E p = bindE (ae_bytes E p) (\<lambda>b. pS (ae_sha256 E b))"

type_synonym receipts = "(string \<times> val \<times> string) list"

definition build_receipts :: "audit_env \<Rightarrow> string list \<Rightarrow> receipts res" where
  "build_receipts E paths =
     bindE (foldE (\<lambda>p d.
       bindE (ae_read E (slash (ae_root E) p)) (\<lambda>receipt.
       bindE (bindE (get_dflt receipt ''binaries'' (VDict [])) items) (\<lambda>kvs.
       Inr (fold (\<lambda>(binary, expected). dict_set (ae_resolve E (slash (ae_root E) binary)) (expected, p)) kvs d)))) paths []) (\<lambda>d.
     bindE (bindE (idxE (ae_read E (slash (ae_root E) ''docs/go-after-nginx/build.json'')) ''builds'') elems) (\<lambda>builds.
     foldE (\<lambda>b d. bindE (idx b ''binary_sha256'') (\<lambda>sha. bindE (bindE (idx b ''binary'') str_val) (\<lambda>binary.
       Inr (dict_set binary (sha, ''docs/go-after-nginx/build.json'') d)))) builds d))"

definition receipt_of :: "receipts \<Rightarrow> val res \<Rightarrow> (val \<times> string) res" where
  "receipt_of receipts binary =
     bindE (bindE binary str_val) (\<lambda>b. of_option (KeyError b) (map_of receipts b))"

section \<open>Failed runs\<close>

definition expected_failures :: "(string \<times> string) list" where
  "expected_failures =
     [(''assigned-saturated/n65536-streaming-1/run.json'', ''AssertionError()''),
      (''body-read-pairs/n65536-before-1/run.json'', ''could not prepare a confirmed client queue bucket'')]"

definition audit_failure :: "string \<Rightarrow> val \<Rightarrow> val res" where
  "audit_failure relative run =
     bindE (of_option (KeyError relative) (map_of expected_failures relative)) (\<lambda>expected.
     seqE (bindE (bindE (idx run ''error'') (inE expected)) (\<lambda>b. ensure b (AssertionError relative)))
     (dictE [(''path'', pS relative), (''error'', idx run ''error''), (''server_exit'', idx run ''server_exit'')]))"

section \<open>Control runs\<close>

definition all_cpus :: val where
  "all_cpus = VList (map VInt [0..7])"

definition is_go :: "val \<Rightarrow> bool res" where
  "is_go run = eqE (idx run ''variant'') (pS ''go'')"

definition different_machines :: "val \<Rightarrow> bool res" where
  "different_machines run = neE (path run [''remote_identity'', ''boot_id'']) (path run [''server_identity'', ''boot_id''])"

definition audit_get_checks :: "audit_env \<Rightarrow> receipts \<Rightarrow> val \<Rightarrow> unit res" where
  "audit_get_checks E receipts run =
     seqE (assertE (orE (is_go run) (eqE (idx run ''variant'') (pS ''zig''))))
     (bindE (bindE (idx run ''command'') (\<lambda>c. nth_val c 0)) (\<lambda>binary.
      bindE (receipt_of receipts (Inr binary)) (\<lambda>(expected, receipt).
      checks
       [assertE (andE (eqE (bindE (str_val binary) (file_digest E)) (Inr expected))
          (andE (eqE (Inr expected) (idx run ''binary_sha256'')) (eqE (idx run ''binary_sha256'') (idx run ''running_binary_sha256'')))),
        assertE (different_machines run),
        assertE (eqE (path run [''remote_started'', ''cpus'']) (Inr all_cpus)),
        assertE (eqE (path run [''remote_started'', ''binary_sha256'']) (file_digest E (slash (ae_root E) ''zig-out/bench/load''))),
        bindE (is_go run) (\<lambda>go. assertE (eqE (idx run ''server_exit'') (pI (if go then -15 else 0)))),
        bindE (is_go run) (\<lambda>go.
          if go then assertE (eqE (path run [''go_runtime'', ''gomaxprocs'']) (pI 32))
          else assertE (eqE (path run [''metrics_after'', ''counters'', ''connections_reclaimed_total'']) (pI 0)))])))"

definition check_manifest :: "audit_env \<Rightarrow> string \<Rightarrow> val res \<Rightarrow> unit res" where
  "check_manifest E p manifest =
     seqE (assertE (bindE (idxE manifest ''runs'') (inE p)))
     (bindE (bindE (idxE manifest ''sources'') items) (forE (\<lambda>(source, checksum).
        bindE (eqE (file_digest E (slash (ae_root E) source)) (Inr checksum)) (\<lambda>b. ensure b (AssertionError source)))))"

definition phase_failed :: "val \<Rightarrow> val res" where
  "phase_failed phase = addE (path phase [''failure_latency'', ''count'']) (path phase [''rejection_latency'', ''count''])"

text \<open>The request accounting of one phase of a control run.\<close>

definition check_phase :: "val \<Rightarrow> unit res" where
  "check_phase phase =
     checks
      [assertE (eqE (phase_failed phase) (sum_values (idx phase ''failures''))),
       assertE (eqE (idx phase ''offered'')
         (addE (addE (addE (idx phase ''successes'') (phase_failed phase)) (idx phase ''generator_expired'')) (idx phase ''generator_queue_drops''))),
       assertE (eqE (idx phase ''response_bytes_validated'') (mulE (idx phase ''successes'') (pI 6)))]"

definition get_row :: "string \<Rightarrow> string \<Rightarrow> val \<Rightarrow> val \<Rightarrow> val \<Rightarrow> val res" where
  "get_row gname relative run phase result =
     bindE (addE (idx phase ''start_unix_ns'') (idx run ''clock_offset_ns'')) (\<lambda>start.
     bindE (addE (idx phase ''end_unix_ns'') (idx run ''clock_offset_ns'')) (\<lambda>stop.
     bindE (samples_between (addE (Inr start) (pI 500000000)) (subE (Inr stop) (pI 200000000)) (idx run ''samples'')) (\<lambda>samples.
     dictE
      [(''group'', pS gname), (''path'', pS relative), (''variant'', idx run ''variant''),
       (''connections'', path run [''options'', ''connections'']), (''rate'', idx phase ''offered_rate''),
       (''goodput'', idx result ''goodput''), (''p99_ms'', divE (idx result ''service_p99_us'') (pI 1000)),
       (''cpu_us'', idx result ''cpu_us_per_success_estimate''),
       (''rss_mib'', medianE (mapE (\<lambda>s. divE (path s [''server'', ''VmRSS'']) (pI (2 ^ 20))) samples)),
       (''failures'', phase_failed phase), (''failure_types'', idx phase ''failures''),
       (''generator_drops'', idx result ''generator_drops'')])))"

definition audit_phase :: "string \<Rightarrow> string \<Rightarrow> val \<Rightarrow> val \<times> val \<Rightarrow> val list \<Rightarrow> val list res" where
  "audit_phase gname relative run pr rows =
     (case pr of (phase, result) \<Rightarrow>
      seqE (check_phase phase)
     (bindE (ltE (idx phase ''offered_rate'') (pI 100000)) (\<lambda>slow.
      if slow then Inr rows else bindE (get_row gname relative run phase result) (\<lambda>r. Inr (rows @ [r])))))"

text \<open>A control run: the summary written beside it and its rows.\<close>

definition audit_get :: "audit_env \<Rightarrow> receipts \<Rightarrow> string \<Rightarrow> string \<Rightarrow> string \<Rightarrow> string \<Rightarrow> val \<Rightarrow> val list \<Rightarrow> (val \<times> val list) res" where
  "audit_get E receipts folder gname relative p run rows =
     seqE (audit_get_checks E receipts run)
     (seqE (check_manifest E p (ae_read E (slash (slash folder gname) ''manifest.json'')))
     (bindE (idx run ''load'') (\<lambda>load.
      seqE (assertE (eqE (idx load ''gomaxprocs'') (pI 8)))
     (bindE (summarize_run p run) (\<lambda>derived.
      bindE (bindE (idx load ''phases'') elems) (\<lambda>phases. bindE (bindE (idx derived ''phases'') elems) (\<lambda>results.
      bindE (zip_strict phases results) (\<lambda>prs.
      bindE (foldE (audit_phase gname relative run) prs rows) (\<lambda>rows. Inr (derived, rows))))))))))"

section \<open>Upload runs\<close>

fun val_index :: "val \<Rightarrow> val list \<Rightarrow> nat res" where
  "val_index v [] = Inl (ValueError ''list.index'')"
| "val_index v (x # xs) = (if py_eq x v then Inr 0 else bindE (val_index v xs) (\<lambda>n. Inr (Suc n)))"

text \<open>\<open>command[command.index(flag) + 1]\<close>\<close>

definition after_flag :: "string \<Rightarrow> val \<Rightarrow> val res" where
  "after_flag flag command =
     bindE (elems command) (\<lambda>xs. bindE (val_index (VStr flag) xs) (\<lambda>i. nth_val command (int i + 1)))"

definition check_source :: "audit_env \<Rightarrow> string \<Rightarrow> val \<Rightarrow> val \<Rightarrow> unit res" where
  "check_source E gpath run variants =
     seqE (assertE (eqE (file_digest E (slash gpath ''upload_client.py'')) (idx variants ''client_source_sha256'')))
     (bindE (path run [''remote_started'', ''command'']) (\<lambda>command.
      assertE (eqE (after_flag ''-c'' command) (bindE (ae_bytes E (slash gpath ''upload_client.py'')) pS))))"

definition check_binary :: "audit_env \<Rightarrow> receipts \<Rightarrow> val \<Rightarrow> val \<Rightarrow> string res" where
  "check_binary E receipts run variants =
     bindE (bindE (idx variants ''binaries'') (\<lambda>b. bindE (bindE (idx run ''variant'') str_val) (idx b))) (\<lambda>binary.
     bindE (receipt_of receipts (Inr binary)) (\<lambda>(expected, receipt).
     seqE (assertE (andE (eqE (bindE (str_val binary) (file_digest E)) (Inr expected))
       (eqE (Inr expected) (bindE (idx variants ''sha256'') (\<lambda>b. bindE (bindE (idx run ''variant'') str_val) (idx b))))))
     (seqE (assertE (andE (eqE (idx run ''running_binary_sha256'') (idx run ''binary_sha256'')) (eqE (idx run ''binary_sha256'') (Inr expected))))
      (Inr receipt))))"

definition check_server :: "val \<Rightarrow> unit res" where
  "check_server run =
     checks
      [assertE (different_machines run),
       assertE (eqE (path run [''remote_started'', ''cpus'']) (Inr all_cpus)),
       bindE (is_go run) (\<lambda>go.
         if go then seqE (assertE (eqE (path run [''go_runtime'', ''gomaxprocs'']) (pI 32))) (assertE (eqE (idx run ''server_exit'') (pI (-15))))
         else assertE (eqE (idx run ''server_exit'') (pI 0)))]"

definition file_entry :: "(string \<Rightarrow> string) \<Rightarrow> string \<Rightarrow> val" where
  "file_entry sha256 content = VDict [(''bytes'', VInt (int (length content))), (''sha256'', VStr (sha256 content))]"

definition check_bodies :: "(string \<Rightarrow> string) \<Rightarrow> val \<Rightarrow> val \<Rightarrow> val \<Rightarrow> string \<Rightarrow> unit res" where
  "check_bodies sha256 run load nbytes body =
     (let response = checksum_line (int (length body)) body in
      checks
       [assertE (andE (eqE (pI (int (length body))) (Inr nbytes)) (eqE (Inr nbytes) (idx load ''request_body_bytes''))),
        assertE (eqE (pS (sha256 body)) (idx load ''request_body_sha256'')),
        assertE (eqE (pS (sha256 response)) (idx load ''expected_body_sha256'')),
        forE (\<lambda>(flag, content). assertE (eqE (path run [''remote_started'', ''files'', flag]) (Inr (file_entry sha256 content))))
          [(''-request-body'', body), (''-expect-body'', response)]])"

definition load_latencies :: "val \<Rightarrow> val list res" where
  "load_latencies load =
     bindE (bindE (idx load ''workers'') elems) (\<lambda>workers.
     bindE (mapE (\<lambda>w. bindE (idx w ''latencies_ns'') elems) workers) (\<lambda>ls. py_sorted (concat ls)))"

definition p99_of :: "val list \<Rightarrow> val res" where
  "p99_of latencies =
     (if latencies = [] then Inl IndexError else divE (Inr (latencies ! p99_index (length latencies))) (pF 1000000))"

text \<open>The request accounting of an upload load.\<close>

definition check_accounting :: "val \<Rightarrow> val \<Rightarrow> val \<Rightarrow> unit res" where
  "check_accounting run load nbytes =
     seqE (assertE (notE (truthE (idx load ''failures''))))
    (bindE (bindE (idx load ''workers'') py_len) (\<lambda>n.
     seqE (assertE (andE (eqE (pI n) (idx load ''connections'')) (eqE (idx load ''connections'') (idx run ''connections''))))
    (bindE (load_latencies load) (\<lambda>latencies.
     let successes = pI (int (length latencies)) in
     checks
      [assertE (andE (eqE successes (idx load ''window_successes'')) (gtE (idx load ''window_successes'') (pI 0))),
       assertE (eqE (idx load ''validated_body_bytes'') (mulE successes (Inr nbytes))),
       assertE (eqE (idx load ''goodput_bytes_per_second'') (divE (mulE successes (Inr nbytes)) (idx load ''duration_seconds''))),
       assertE (bindE (bindE (idx load ''workers'') elems) (allE (\<lambda>w.
         andE (eqE (idx w ''attempts'') (idx w ''successes'')) (notE (truthE (idx w ''failures'')))))),
       assertE (eqE (idx load ''service_p99_ms'') (p99_of latencies))]))))"

definition option_set :: "val \<Rightarrow> string \<Rightarrow> bool res" where
  "option_set load k = truthE (getE load k)"

fun distinct_vals :: "val list \<Rightarrow> val list \<Rightarrow> nat res" where
  "distinct_vals [] seen = Inr (length seen)"
| "distinct_vals (v # vs) seen =
     (if \<not> hashable v then Inl TypeError
      else distinct_vals vs (if list_ex (py_eq v) seen then seen else v # seen))"

definition check_worker_queue :: "val \<Rightarrow> val \<Rightarrow> unit res" where
  "check_worker_queue load worker =
     checks
      [ifE (orE (option_set load ''freeze_hash'') (option_set load ''unique_queues''))
         (ifE (inE ''tx_rehash'' worker) (assertE (eqE (idx worker ''tx_rehash'') (pI 0))) (Inr ())) (Inr ()),
       ifE (option_set load ''calibrate_body'') (assertE (eqE (idx worker ''calibration_bytes'') (pI 8388608))) (Inr ()),
       ifE (inE ''queue_bucket'' worker)
         (bindE (bindE (idx worker ''queue_probes'') (\<lambda>ps. nth_val ps (-1))) (\<lambda>p.
          seqE (assertE (eqE (idx worker ''queue_bucket'') (idx p ''bucket'')))
         (bindE (idx p ''weights'') (\<lambda>weights.
          assertE (geE (bindE (bindE (idx worker ''queue_bucket'') str_val) (idx weights))
            (mulE (bindE (dict_values weights) py_sum) (pF (9 / 10)))))))) (Inr ())]"

definition check_queues :: "val \<Rightarrow> unit res" where
  "check_queues load =
     seqE (ifE (option_set load ''unique_queues'')
        (bindE (collectE (idx load ''workers'') (\<lambda>w. idx w ''queue_bucket'')) (\<lambda>bs. bindE (distinct_vals bs []) (\<lambda>n.
         assertE (eqE (pI (int n)) (idx load ''connections''))))) (Inr ()))
     (bindE (bindE (idx load ''workers'') elems) (forE (check_worker_queue load)))"

record derived =
  g_first :: val
  g_last :: val
  g_seconds :: val
  g_cpu :: val
  g_goodput :: val
  g_rss :: val

text \<open>The audit's own derivation of the figures, from the record alone.\<close>

definition audit_window :: "val \<Rightarrow> val \<Rightarrow> val list res" where
  "audit_window run load =
     bindE (addE (idx load ''measure_start_unix_ns'') (idx run ''clock_offset_ns'')) (\<lambda>start.
     bindE (addE (idx load ''measure_end_unix_ns'') (idx run ''clock_offset_ns'')) (\<lambda>stop.
     samples_between (addE (Inr start) (pI 250000000)) (subE (Inr stop) (pI 250000000)) (idx run ''samples'')))"

definition derive :: "val \<Rightarrow> val \<Rightarrow> derived res" where
  "derive run load =
     bindE (audit_window run load) (\<lambda>samples. bindE (edges samples) (\<lambda>(first, last').
     bindE (divE (subE (idx last' ''unix_ns'') (idx first ''unix_ns'')) (pF 1000000000)) (\<lambda>seconds.
     bindE (divE (subE (path last' [''server'', ''cpu_seconds'']) (path first [''server'', ''cpu_seconds''])) (Inr seconds)) (\<lambda>cpu.
     bindE (divE (idx load ''goodput_bytes_per_second'') (pI (2 ^ 20))) (\<lambda>goodput.
     bindE (medianE (mapE (\<lambda>s. divE (path s [''server'', ''VmRSS'']) (pI (2 ^ 20))) samples)) (\<lambda>rss.
     Inr \<lparr>g_first = first, g_last = last', g_seconds = seconds, g_cpu = cpu, g_goodput = goodput, g_rss = rss\<rparr>))))))"

definition audit_cpu_us :: "derived \<Rightarrow> val res" where
  "audit_cpu_us g = mulE (divE (Inr (g_cpu g)) (Inr (g_goodput g))) (pF 1000000)"

definition check_summary :: "val \<Rightarrow> derived \<Rightarrow> unit res" where
  "check_summary summary g =
     checks
      [assertE (eqE (idx summary ''cpu_cores'') (Inr (g_cpu g))),
       assertE (eqE (idx summary ''cpu_us_per_mib'') (audit_cpu_us g)),
       assertE (eqE (idx summary ''rss_median_mib'') (Inr (g_rss g)))]"

definition client_delta :: "val \<Rightarrow> val res" where
  "client_delta run =
     bindE (idx run ''remote_samples'') (\<lambda>samples.
     bindE (bindE (nth_val samples 0) (\<lambda>s. idx s ''host'')) (\<lambda>a. bindE (bindE (nth_val samples (-1)) (\<lambda>s. idx s ''host'')) (host_delta a)))"

definition allocation_delta :: "val \<Rightarrow> val \<Rightarrow> val res" where
  "allocation_delta first last' =
     ifE (truthE (getE first ''metrics''))
       (subE (path last' [''metrics'', ''counters'', ''buffer_allocations_total'']) (path first [''metrics'', ''counters'', ''buffer_allocations_total'']))
       (Inr VNone)"

definition cpu_split :: "string \<Rightarrow> derived \<Rightarrow> val res" where
  "cpu_split k g =
     mulE (divE (divE (subE (path (g_last g) [''server'', k]) (path (g_first g) [''server'', k])) (Inr (g_seconds g))) (Inr (g_goodput g))) (pF 1000000)"

definition audit_row :: "string \<Rightarrow> string \<Rightarrow> string \<Rightarrow> val \<Rightarrow> val \<Rightarrow> derived \<Rightarrow> val list \<Rightarrow> val \<Rightarrow> val res" where
  "audit_row gname relative receipt run load g latencies client =
     dictE
      [(''group'', pS gname), (''path'', pS relative), (''variant'', idx run ''variant''), (''body_bytes'', idx run ''body_bytes''),
       (''receipt'', pS receipt), (''connections'', idx load ''connections''), (''rate'', idx load ''rate_cap''),
       (''profiled'', pB (inE ''profile_command'' run)), (''unique_queues'', get_dflt load ''unique_queues'' (VBool False)),
       (''freeze_hash'', get_dflt load ''freeze_hash'' (VBool False)), (''calibrate_body'', get_dflt load ''calibrate_body'' (VBool False)),
       (''goodput_mib_per_second'', Inr (g_goodput g)), (''p50_ms'', divE (median latencies) (pF 1000000)),
       (''p99_ms'', idx load ''service_p99_ms''), (''rss_mib'', Inr (g_rss g)), (''cpu_us_per_mib'', audit_cpu_us g),
       (''client_retransmissions'', path client [''tcp'', ''RetransSegs'']), (''successes'', idx load ''window_successes''),
       (''minor_faults'', subE (path (g_last g) [''server'', ''minor_faults'']) (path (g_first g) [''server'', ''minor_faults''])),
       (''buffer_allocations'', allocation_delta (g_first g) (g_last g)),
       (''user_cpu_us_per_mib'', cpu_split ''user_seconds'' g), (''system_cpu_us_per_mib'', cpu_split ''system_seconds'' g)]"

definition audit_upload :: "audit_env \<Rightarrow> receipts \<Rightarrow> string \<Rightarrow> string \<Rightarrow> string \<Rightarrow> string \<Rightarrow> val \<Rightarrow> val res" where
  "audit_upload E receipts folder gname rname relative run =
     (let gpath = slash folder gname in
      bindE (ae_read E (slash gpath ''variants.json'')) (\<lambda>variants.
      bindE (check_binary E receipts run variants) (\<lambda>receipt.
      seqE (check_source E gpath run variants)
     (seqE (check_server run)
     (bindE (idx run ''load'') (\<lambda>load. bindE (idx run ''body_bytes'') (\<lambda>nbytes.
      bindE (ae_bytes E (slash gpath (''body-'' @ ae_py_str E nbytes @ ''.bin''))) (\<lambda>body.
      seqE (check_bodies (ae_sha256 E) run load nbytes body)
     (seqE (check_accounting run load nbytes)
     (seqE (check_queues load)
     (bindE (ae_read E (slash (slash gpath rname) ''summary.json'')) (\<lambda>summary.
      bindE (derive run load) (\<lambda>g.
      seqE (check_summary summary g)
     (bindE (client_delta run) (\<lambda>client.
      bindE (load_latencies load) (\<lambda>latencies.
      audit_row gname relative receipt run load g latencies client))))))))))))))))"

section \<open>The loop over the runs\<close>

record audit_state =
  s_rows :: "val list"
  s_failures :: "val list"
  s_get_rows :: "val list"
  s_get_checked :: "string list"
  s_written :: "(string \<times> val) list"

definition relative_path :: "string \<times> string \<Rightarrow> string" where
  "relative_path gr = (case gr of (gname, rname) \<Rightarrow> slash (slash gname rname) ''run.json'')"

definition audit_run :: "audit_env \<Rightarrow> receipts \<Rightarrow> string \<Rightarrow> string \<times> string \<Rightarrow> audit_state \<Rightarrow> audit_state res" where
  "audit_run E receipts folder gr s =
     (case gr of (gname, rname) \<Rightarrow>
      let relative = relative_path gr; p = slash folder relative in
      bindE (ae_read E p) (\<lambda>run.
      bindE (neE (idx run ''outcome'') (pS ''measured'')) (\<lambda>failed.
      if failed then bindE (audit_failure relative run) (\<lambda>f. Inr (s\<lparr>s_failures := s_failures s @ [f]\<rparr>))
      else if startswith gname ''final-get-''
      then bindE (audit_get E receipts folder gname relative p run (s_get_rows s)) (\<lambda>(derived, rows).
        Inr (s\<lparr>s_get_rows := rows, s_get_checked := s_get_checked s @ [relative],
               s_written := s_written s @ [(slash (slash (slash folder gname) rname) ''summary.json'', derived)]\<rparr>))
      else bindE (audit_upload E receipts folder gname rname relative run) (\<lambda>row. Inr (s\<lparr>s_rows := s_rows s @ [row]\<rparr>)))))"

section \<open>Groups\<close>

definition row_key :: "string list \<Rightarrow> val \<Rightarrow> val list res" where
  "row_key keys row = mapE (idx row) keys"

fun group_put :: "val list \<Rightarrow> val \<Rightarrow> (val list \<times> val list) list \<Rightarrow> (val list \<times> val list) list" where
  "group_put k row [] = [(k, [row])]"
| "group_put k row ((k', rows) # gs) = (if py_eq_list k k' then (k', rows @ [row]) # gs else (k', rows) # group_put k row gs)"

text \<open>A row joins the group of its key, a tuple that must be hashable.\<close>

definition join_group :: "string list \<Rightarrow> val \<Rightarrow> (val list \<times> val list) list \<Rightarrow> (val list \<times> val list) list res" where
  "join_group keys row gs =
     bindE (row_key keys row) (\<lambda>k. if list_all hashable k then Inr (group_put k row gs) else Inl TypeError)"

definition group_rows :: "string list \<Rightarrow> val list \<Rightarrow> (val list \<times> val list) list res" where
  "group_rows keys rows = foldE (join_group keys) rows []"

definition aggregate_fields :: "string list" where
  "aggregate_fields = [''goodput_mib_per_second'', ''p50_ms'', ''p99_ms'', ''rss_mib'', ''cpu_us_per_mib'']"

definition aggregate_row :: "val list \<times> val list \<Rightarrow> val res" where
  "aggregate_row kt =
     (case kt of (k, trials) \<Rightarrow>
      dictE
       [(''group'', Inr (k ! 0)), (''variant'', Inr (k ! 1)), (''body_bytes'', Inr (k ! 2)), (''repeats'', pI (int (length trials))),
        (''medians'', dictE (map (\<lambda>f. (f, medianE (mapE (\<lambda>t. idx t f) trials))) aggregate_fields)),
        (''trials'', dictE (map (\<lambda>f. (f, listE (mapE (\<lambda>t. idx t f) trials))) aggregate_fields))])"

definition aggregate :: "val list \<Rightarrow> val list res" where
  "aggregate rows = bindE (group_rows [''group'', ''variant'', ''body_bytes''] rows) (mapE aggregate_row)"

section \<open>The final build and the report\<close>

definition source_checked :: "string \<Rightarrow> bool" where
  "source_checked p \<longleftrightarrow> startswith p ''src/'' \<or> startswith p ''tests/'' \<or> p \<in> {''build.zig'', ''bench/upload.zig'', ''bench/Crc32.zig''}"

definition check_final_sources :: "audit_env \<Rightarrow> val res \<Rightarrow> unit res" where
  "check_final_sources E final =
     bindE (bindE (idxE final ''sources'') items) (forE (\<lambda>(p, expected).
       if source_checked p
       then bindE (eqE (file_digest E (slash (ae_root E) p)) (Inr expected)) (\<lambda>b. ensure b (AssertionError p)) else Inr ()))"

text \<open>\<open>run_count label\<close> is the number of \<open>run.json\<close> files below the folder of that label.\<close>

definition check_final_plan :: "(string \<Rightarrow> int) \<Rightarrow> val res \<Rightarrow> unit res" where
  "check_final_plan run_count plan =
     bindE (bindE plan elems) (forE (\<lambda>item.
       bindE (idx item ''command'') (\<lambda>command.
       bindE (bindE (bindE (after_flag ''--repeats'' command) str_val) py_int) (\<lambda>repeats.
       bindE (bindE (idx item ''label'') str_val) (\<lambda>label.
       ensure (run_count label = repeats * 2) (AssertionError label))))))"

definition audit_report :: "audit_state \<Rightarrow> string option \<Rightarrow> val res" where
  "audit_report s final_build =
     bindE (mapE (\<lambda>r. idx r ''path'') (s_rows s)) (\<lambda>paths.
     dictE [(''outcome'', pS ''passed''), (''measured_runs'', pI (int (length (s_rows s)))),
       (''get_control_runs'', pI (int (length (s_get_checked s)))), (''failed_excluded'', Inr (VList (s_failures s))),
       (''checked'', Inr (VList (paths @ map VStr (s_get_checked s)))), (''final_build'', Inr (option_val final_build))])"

text \<open>The program: the state after the loop, the aggregate and the report it writes.\<close>

definition audit_main ::
  "audit_env \<Rightarrow> string list \<Rightarrow> string \<Rightarrow> (string \<times> string) list \<Rightarrow> string option \<Rightarrow> bool \<Rightarrow> (string \<Rightarrow> int) \<Rightarrow>
     (audit_state \<times> val list \<times> val) res" where
  "audit_main E builds folder runs final_build plan_exists run_count =
     bindE (build_receipts E builds) (\<lambda>receipts.
     bindE (foldE (audit_run E receipts folder) runs \<lparr>s_rows = [], s_failures = [], s_get_rows = [], s_get_checked = [], s_written = []\<rparr>) (\<lambda>s.
     bindE (aggregate (s_rows s)) (\<lambda>rows.
     seqE (case final_build of None \<Rightarrow> Inr () | Some p \<Rightarrow> check_final_sources E (ae_read E p))
    (seqE (if final_build \<noteq> None \<and> plan_exists then check_final_plan run_count (ae_read E (slash folder ''final-plan.json'')) else Inr ())
    (bindE (audit_report s final_build) (\<lambda>report. Inr (s, rows, report)))))))"

section \<open>The audit and the comparison agree\<close>

lemma divE_float: "divE a b = Inr v \<Longrightarrow> \<exists>x. v = VFloat x"
  by (auto simp: divE_def lift2_eq_Inr py_truediv_def split: option.splits if_splits)

lemma mulE_float: "mulE (divE a b) (pF c) = Inr v \<Longrightarrow> \<exists>x. v = VFloat x"
  by (auto simp: mulE_def lift2_eq_Inr pF_def py_mul_def num_op_def dest!: divE_float split: option.splits)

lemma mapE_floats: "mapE f xs = Inr ys \<Longrightarrow> (\<And>x v. f x = Inr v \<Longrightarrow> \<exists>r. v = VFloat r) \<Longrightarrow> \<exists>rs. ys = map VFloat rs"
proof (induction xs arbitrary: ys)
  case (Cons x xs)
  then obtain y zs where y: "f x = Inr y" and zs: "mapE f xs = Inr zs" and ys: "ys = y # zs" by (auto simp: bindE_eq_Inr)
  obtain r where r: "y = VFloat r" using Cons.prems(2) [OF y] ..
  obtain rs where rs: "zs = map VFloat rs" using Cons.IH [OF zs] Cons.prems(2) by blast
  have "ys = map VFloat (r # rs)" by (simp add: ys r rs)
  then show ?case ..
qed simp

lemma median_float:
  assumes "median (map VFloat rs) = Inr v"
  shows "\<exists>x. v = VFloat x"
proof (cases "odd (length rs)")
  case True
  then have "length (sort rs) div 2 < length (sort rs)" by (cases rs) auto
  then show ?thesis using assms True by (auto simp: median_def py_sorted_floats Let_def split: if_splits)
next
  case False
  then show ?thesis using assms
    by (auto simp: median_def py_sorted_floats Let_def bindE_eq_Inr py_truediv_def split: if_splits option.splits)
qed

lemma rss_median_float: "medianE (rss_values samples) = Inr v \<Longrightarrow> \<exists>x. v = VFloat x"
proof -
  assume "medianE (rss_values samples) = Inr v"
  then obtain ys where ys: "rss_values samples = Inr ys" and v: "median ys = Inr v" by (auto simp: medianE_def bindE_eq_Inr)
  obtain rs where "ys = map VFloat rs" using mapE_floats [OF ys [unfolded rss_values_def]] divE_float by blast
  then show ?thesis using v median_float by blast
qed

text \<open>The audit reads the clock offset from the record, the comparison from the connection: they agree where it was recorded.\<close>

lemma audit_window_recorded:
  assumes "idx record ''clock_offset_ns'' = Inr (VInt offset)"
  shows "audit_window record load = window_samples offset record load"
  using assms by (simp add: audit_window_def window_samples_def pI_def)

lemma audit_window_keep:
  "map_of r ''samples'' = map_of r' ''samples'' \<Longrightarrow> map_of r ''clock_offset_ns'' = map_of r' ''clock_offset_ns'' \<Longrightarrow>
   audit_window (VDict r) load = audit_window (VDict r') load"
  by (simp add: audit_window_def)

lemma check_summary_self:
  assumes "idx s ''cpu_cores'' = Inr (VFloat c)" and "cpu_us_per_mib (VFloat c) g = Inr (VFloat u)"
    and "idx s ''cpu_us_per_mib'' = Inr (VFloat u)" and "idx s ''rss_median_mib'' = Inr (VFloat m)"
  shows "check_summary s \<lparr>g_first = f, g_last = l, g_seconds = t, g_cpu = VFloat c, g_goodput = g, g_rss = VFloat m\<rparr> = Inr ()"
  using assms by (simp add: check_summary_def audit_cpu_us_def cpu_us_per_mib_def assertE_def eqE_def ensure_def)

lemma derive_confirms:
  assumes "upload_summary o' offset name nbytes record load = Inr s" and offset: "idx record ''clock_offset_ns'' = Inr (VInt offset)"
  shows "\<exists>g. derive record load = Inr g \<and> check_summary s g = Inr ()"
proof -
  obtain samples first last' seconds c goodput where w: "window_samples offset record load = Inr samples"
    and e: "edges samples = Inr (first, last')" and t: "interval_seconds first last' = Inr seconds"
    and c: "cpu_cores first last' seconds = Inr c" and g: "goodput_mib load = Inr goodput"
    and row: "dictE
       [(''variant'', pS name), (''body_bytes'', pI nbytes), (''connections'', pI (uc_connections o')), (''rate_cap'', Inr (VFloat (uc_rate o'))),
        (''goodput_mib_per_second'', Inr goodput), (''service_p99_ms'', idx load ''service_p99_ms''),
        (''rss_median_mib'', medianE (rss_values samples)), (''rss_peak_mib'', maxE (rss_values samples)),
        (''cpu_cores'', Inr c), (''cpu_us_per_mib'', cpu_us_per_mib c goodput),
        (''cpu_interval_seconds'', Inr seconds),
        (''server_host'', bindE (idx first ''host'') (\<lambda>h0. bindE (idx last' ''host'') (\<lambda>h1. host_delta h0 h1)))] = Inr s"
    using assms(1) unfolding upload_summary_def by (auto simp: bindE_eq_Inr seqE_eq_Inr)
  note field = dictE_field [OF row]
  have "cpu_us_per_mib c goodput = idx s ''cpu_us_per_mib'' \<and> returns (cpu_us_per_mib c goodput)" by (rule field; simp)
  then obtain u where u: "cpu_us_per_mib c goodput = Inr u" "idx s ''cpu_us_per_mib'' = Inr u" by (metis returns_iff)
  have "medianE (rss_values samples) = idx s ''rss_median_mib'' \<and> returns (medianE (rss_values samples))" by (rule field; simp)
  then obtain m where m: "medianE (rss_values samples) = Inr m" "idx s ''rss_median_mib'' = Inr m" by (metis returns_iff)
  have ci: "Inr c = idx s ''cpu_cores'' \<and> returns (Inr c :: val res)" by (rule field; simp)
  obtain cx where cx: "c = VFloat cx" using c unfolding cpu_cores_def by (blast dest: divE_float)
  obtain ux where ux: "u = VFloat ux" using u(1) unfolding cpu_us_per_mib_def by (blast dest: mulE_float)
  obtain mx where mx: "m = VFloat mx" using m(1) rss_median_float by blast
  have "derive record load = Inr \<lparr>g_first = first, g_last = last', g_seconds = seconds, g_cpu = c, g_goodput = goodput, g_rss = m\<rparr>"
    using audit_window_recorded [OF offset] w e t c g m(1)
    by (simp add: derive_def interval_seconds_def cpu_cores_def goodput_mib_def rss_values_def del: idx.simps path.simps)
  moreover have "check_summary s \<lparr>g_first = first, g_last = last', g_seconds = seconds, g_cpu = c, g_goodput = goodput, g_rss = m\<rparr> = Inr ()"
    using check_summary_self ci u m unfolding cx ux mx by simp
  ultimately show ?thesis by blast
qed

text \<open>
  C23: the audit never contradicts the comparison.  The comparison cuts the window with the clock offset
  of its connection, the audit with the one in the record.  For every measured trial, the audit's own
  derivation from the written record gives a result, and processor cores, processor time per MiB and the
  median resident size are exactly those of the summary that the trial wrote.
\<close>

theorem audit_confirms_summary:
  assumes "upload_trial repr sha256 o' name binary sha nbytes repeat folder w = (r, summary, Inr ())"
  shows "\<exists>load s g. map_of r ''load'' = Some load \<and> summary = Some s \<and> derive (VDict r) load = Inr g \<and> check_summary s g = Inr ()"
proof -
  obtain r1 s where run: "run_steps (upload_steps o' name folder sha w)
      (upload_start o' name nbytes repeat (upload_command o' name binary (y_port w) (y_admin w)) sha w) = (r1, None)"
    and ok: "upload_evaluate sha256 o' (fst (y_clock w)) name nbytes r1 = Inr s" and s: "summary = Some s"
    and keep: "\<And>k. k \<notin> {''outcome'', ''profile_exit'', ''server_exit''} \<Longrightarrow> map_of r k = map_of r1 k"
    using upload_trial_measured [OF assms] by metis
  have offset: "idx (VDict r1) ''clock_offset_ns'' = Inr (VInt (fst (y_clock w)))"
    using run_steps_put [OF run upload_assignments(4)] by (auto simp: pI_def)
  obtain load where load: "map_of r1 ''load'' = Some load" and sum: "upload_summary o' (fst (y_clock w)) name nbytes (VDict r1) load = Inr s"
    using ok by (auto simp: upload_evaluate_def bindE_eq_Inr seqE_eq_Inr of_option_def split: option.splits)
  have "derive (VDict r) load = derive (VDict r1) load"
    unfolding derive_def using audit_window_keep [of r r1] keep by simp
  then show ?thesis using derive_confirms [OF sum offset] load s keep by auto
qed

theorem audit_confirms_summary_witness:
  "\<exists>r s g. upload_trial (\<lambda>e. ''error'') (\<lambda>s. s) sample_compare ''streaming'' ''zhtps'' ''b'' 1 1 ''folder'' sample_upload_world
      = (r, Some s, Inr ()) \<and> (\<exists>load. derive (VDict r) load = Inr g) \<and> check_summary s g = Inr ()"
proof -
  let ?run = "upload_trial (\<lambda>e. ''error'') (\<lambda>s. s) sample_compare ''streaming'' ''zhtps'' ''b'' 1 1 ''folder'' sample_upload_world"
  obtain r summary out where run: "?run = (r, summary, out)" by (cases ?run)
  have out: "out = Inr ()" using sample_upload_trial_measured unfolding run by simp
  show ?thesis using audit_confirms_summary [OF run [unfolded out]] run unfolding out by blast
qed

section \<open>The audit and the client agree\<close>

lemma py_sorted_ints: "py_sorted (map VInt ns) = Inr (map VInt (sort ns))"
proof -
  have insort: "insort_key (\<lambda>x. the (as_rat x)) (VInt a) (map VInt xs) = map VInt (insort a xs)" for a xs
    by (induction xs) auto
  have "sort_key (\<lambda>x. the (as_rat x)) (map VInt ns) = map VInt (sort ns)"
    by (induction ns) (simp_all add: insort)
  then show ?thesis by (simp add: py_sorted_def list_all_iff)
qed

lemma outcome_val_fields:
  "idx (outcome_val u) ''attempts'' = Inr (VInt (x_attempts (o_worker u)))"
  "idx (outcome_val u) ''successes'' = Inr (VInt (x_successes (o_worker u)))"
  "idx (outcome_val u) ''failures'' = Inr (VList (map VStr (o_failures u)))"
  "idx (outcome_val u) ''latencies_ns'' = Inr (VList (map VInt (x_latencies (o_worker u))))"
  by (simp_all add: outcome_val_def of_option_def)

lemma load_latencies_result:
  assumes "idx load ''workers'' = Inr (VList (map outcome_val us))"
  shows "load_latencies load = Inr (map VInt (all_latencies us))"
proof -
  have "mapE (\<lambda>w. bindE (idx w ''latencies_ns'') elems) (map outcome_val us) = Inr (map (\<lambda>u. map VInt (x_latencies (o_worker u))) us)"
    by (induction us) (simp_all add: outcome_val_fields)
  moreover have "concat (map (\<lambda>u. map VInt (x_latencies (o_worker u))) us) = map VInt (concat (map (\<lambda>u. x_latencies (o_worker u)) us))"
    by (induction us) simp_all
  ultimately show ?thesis by (simp add: load_latencies_def assms py_sorted_ints all_latencies_def)
qed

lemma p99_of_result:
  assumes "ns \<noteq> []"
  shows "p99_of (map VInt ns) = service_p99 ns"
proof -
  have "p99_index (length ns) < length ns" using assms by (auto simp: p99_index_def min_def)
  then show ?thesis using assms by (simp add: p99_of_def service_p99_def pI_def)
qed

text \<open>A worker that reports no failure answered every request it made.\<close>

lemma run_worker_accounted:
  assumes "u = run_worker repr o' t expected index prep turns" and "o_failures u = []"
  shows "x_attempts (o_worker u) = x_successes (o_worker u)"
proof -
  obtain x e where run: "work_loop o' t expected turns (new_worker o' t index) = (x, e)"
    by (cases "work_loop o' t expected turns (new_worker o' t index)")
  have "worker_ready o' t (first_start o' t index) (new_worker o' t index)"
    by (simp add: worker_ready_def worker_spec_def new_worker_def)
  from work_loop_spec [OF run this] have "e = None \<longrightarrow> x_attempts x = x_successes x" by (simp add: worker_spec_def)
  then show ?thesis using assms run by (simp add: run_worker_def split: option.splits)
qed

lemma eqE_same: "m = Inr v \<Longrightarrow> py_eq v v \<Longrightarrow> m' = Inr v \<Longrightarrow> assertE (eqE m m') = Inr ()"
  by (simp add: assertE_def eqE_def ensure_def)

definition complete_load :: "upload_options \<Rightarrow> string \<Rightarrow> string \<Rightarrow> outcome list \<Rightarrow> val \<Rightarrow> bool" where
  "complete_load o' body_sha expected_sha us load \<longleftrightarrow>
     idx load ''connections'' = Inr (VInt (q_connections o')) \<and>
     idx load ''request_body_sha256'' = Inr (VStr body_sha) \<and> idx load ''expected_body_sha256'' = Inr (VStr expected_sha) \<and>
     idx load ''duration_seconds'' = Inr (VFloat (q_duration o')) \<and>
     idx load ''window_successes'' = Inr (VInt (int (length (all_latencies us)))) \<and>
     idx load ''failures'' = Inr (VDict (count_failures (concat (map o_failures us)))) \<and>
     idx load ''workers'' = Inr (VList (map outcome_val us))"

lemma upload_result_fields:
  assumes "upload_result sha256 o' body expected qc now us = Inr load"
  shows "complete_load o' (sha256 body) (sha256 expected) us load \<and>
    (let n = int (length (all_latencies us)) * int (length body) in
     idx load ''request_body_bytes'' = Inr (VInt (int (length body))) \<and> idx load ''validated_body_bytes'' = Inr (VInt n) \<and>
     idx load ''goodput_bytes_per_second'' = divE (pI n) (Inr (VFloat (q_duration o'))) \<and>
     returns (divE (pI n) (Inr (VFloat (q_duration o')))) \<and>
     idx load ''service_p99_ms'' = service_p99 (all_latencies us) \<and> returns (service_p99 (all_latencies us)))"
proof -
  note row = assms [unfolded upload_result_def Let_def]
  note field = dictE_field [OF row, THEN conjunct1, symmetric] and fine = dictE_field [OF row]
  have "idx load ''connections'' = pI (q_connections o')" "idx load ''request_body_sha256'' = pS (sha256 body)"
    "idx load ''expected_body_sha256'' = pS (sha256 expected)" "idx load ''duration_seconds'' = Inr (VFloat (q_duration o'))"
    "idx load ''window_successes'' = pI (int (length (all_latencies us)))"
    "idx load ''failures'' = Inr (VDict (count_failures (concat (map o_failures us))))"
    "idx load ''workers'' = Inr (VList (map outcome_val us))" "idx load ''request_body_bytes'' = pI (int (length body))"
    "idx load ''validated_body_bytes'' = pI (int (length (all_latencies us)) * int (length body))"
    "idx load ''goodput_bytes_per_second'' = divE (pI (int (length (all_latencies us)) * int (length body))) (Inr (VFloat (q_duration o')))"
    "idx load ''service_p99_ms'' = service_p99 (all_latencies us)"
    by (rule field; simp)+
  moreover have "returns (divE (pI (int (length (all_latencies us)) * int (length body))) (Inr (VFloat (q_duration o'))))"
    by (rule fine [of "''goodput_bytes_per_second''", THEN conjunct2]; simp)
  moreover have "returns (service_p99 (all_latencies us))"
    by (rule fine [of "''service_p99_ms''", THEN conjunct2]; simp)
  ultimately show ?thesis by (simp add: complete_load_def Let_def pI_def pS_def)
qed

lemma count_failures_none: "\<forall>u \<in> set us. o_failures u = [] \<Longrightarrow> count_failures (concat (map o_failures us)) = []"
proof -
  assume "\<forall>u \<in> set us. o_failures u = []"
  then have "concat (map o_failures us) = []" by (simp only: concat_eq_Nil_conv set_map ball_simps)
  then show ?thesis unfolding count_failures_def by (simp only: fold_simps(1))
qed

text \<open>
  C10: the client, the comparison and the audit agree on the accounting.  Whatever the peers answered,
  if no worker reported a failure and some answer arrived in the window, then the client's report
  passes both the checks of the comparison and the complete recomputation of the audit: worker count,
  latencies, validated bytes, goodput and the 99th percentile.
\<close>

theorem audit_accepts_client:
  assumes result: "upload_result sha256 o' body expected qc now us = Inr load"
    and workers: "\<forall>u \<in> set us. o_failures u = [] \<and> (\<exists>i prep turns. u = run_worker repr o' t expected i prep turns)"
    and some: "all_latencies us \<noteq> []" and conns: "q_connections o' = int (length us)"
    and run: "idx run ''connections'' = Inr (VInt (q_connections o'))"
  shows "check_load (sha256 body) (sha256 expected) load = Inr () \<and>
    check_accounting run load (VInt (int (length body))) = Inr ()"
proof -
  note fields = upload_result_fields [OF result, unfolded complete_load_def Let_def]
  have w: "idx load ''workers'' = Inr (VList (map outcome_val us))" using fields by simp
  note lat = load_latencies_result [OF w]
  have good: "x_attempts (o_worker u) = x_successes (o_worker u)" "o_failures u = []" if "u \<in> set us" for u
    using workers that run_worker_accounted by blast+
  have none: "count_failures (concat (map o_failures us)) = []" by (rule count_failures_none) (use workers in blast)
  have failures: "idx load ''failures'' = Inr (VDict [])" using fields unfolding none by (elim conjE)
  have all: "allE p (map outcome_val us) = Inr True" if "\<And>u. u \<in> set us \<Longrightarrow> p (outcome_val u) = Inr True" for p
    using that by (simp add: allE_True)
  have "returns (divE (pI (int (length (all_latencies us)) * int (length body))) (Inr (VFloat (q_duration o'))))"
    using fields by (elim conjE)
  then obtain gp where gp: "divE (pI (int (length (all_latencies us)) * int (length body))) (Inr (VFloat (q_duration o'))) = Inr (VFloat gp)"
    unfolding returns_iff by (blast dest: divE_float)
  have "returns (service_p99 (all_latencies us))" using fields by (elim conjE)
  then obtain p99 where p99: "service_p99 (all_latencies us) = Inr (VFloat p99)"
    using some unfolding returns_iff service_p99_def by (auto dest: divE_float)
  have n: "0 < int (length (all_latencies us))" using some by simp
  have "check_load (sha256 body) (sha256 expected) load = Inr ()"
    using fields failures w n good
    by (simp add: check_load_def assertE_def andE_def notE_def truthE_def gtE_def literal_defs eqE_def ensure_def all outcome_val_fields)
  moreover have "check_accounting run load (VInt (int (length body))) = Inr ()"
    using fields failures w n good run conns gp p99 p99_of_result [OF some]
    by (simp add: check_accounting_def lat assertE_def andE_def notE_def truthE_def gtE_def literal_defs eqE_def ensure_def all outcome_val_fields
        py_len_def mulE_def Let_def)
  ultimately show ?thesis ..
qed

theorem audit_accepts_client_witness:
  "check_load [CHR 0x00] sample_expected sample_load = Inr () \<and> check_accounting (VDict sample_row) sample_load (VInt 1) = Inr ()"
proof -
  have "\<forall>u \<in> set sample_outcomes. o_failures u = [] \<and>
      (\<exists>i prep turns. u = run_worker (\<lambda>e. ''error'') sample_upload (upload_timing sample_upload 0) sample_expected i prep turns)"
  proof
    fix u assume u: "u \<in> set sample_outcomes"
    then have "o_failures u = []" unfolding sample_outcomes_eq by auto
    then show "o_failures u = [] \<and>
      (\<exists>i prep turns. u = run_worker (\<lambda>e. ''error'') sample_upload (upload_timing sample_upload 0) sample_expected i prep turns)"
      using u unfolding sample_outcomes_def by auto
  qed
  moreover have "all_latencies sample_outcomes \<noteq> []" and "q_connections sample_upload = int (length sample_outcomes)"
    unfolding sample_outcomes_eq by (simp_all add: all_latencies_def sample_upload_def)
  moreover have "idx (VDict sample_row) ''connections'' = Inr (VInt (q_connections sample_upload))"
    by (simp add: sample_row_def sample_upload_def of_option_def)
  ultimately show ?thesis
    using audit_accepts_client [OF sample_load_eq [unfolded sample_expected_eq], of "\<lambda>e. ''error''" "upload_timing sample_upload 0" "VDict sample_row"]
    unfolding sample_body_eq by simp
qed

section \<open>No run is lost\<close>

definition expected_failure :: "val \<Rightarrow> bool" where
  "expected_failure f \<longleftrightarrow> (\<exists>p. idx f ''path'' = Inr (VStr p) \<and> map_of expected_failures p \<noteq> None)"

text \<open>The path that a row or a failure reports.\<close>

definition row_path :: "val \<Rightarrow> string" where
  "row_path r = (case idx r ''path'' of Inr (VStr p) \<Rightarrow> p | _ \<Rightarrow> [])"

lemma audit_failure_path:
  assumes "audit_failure relative run = Inr f"
  shows "expected_failure f \<and> row_path f = relative"
proof -
  obtain e where e: "map_of expected_failures relative = Some e"
    and row: "dictE [(''path'', pS relative), (''error'', idx run ''error''), (''server_exit'', idx run ''server_exit'')] = Inr f"
    using assms unfolding audit_failure_def by (auto simp: bindE_eq_Inr seqE_eq_Inr of_option_def split: option.splits)
  have "idx f ''path'' = pS relative" by (rule dictE_field [OF row, THEN conjunct1, symmetric]; simp)
  then show ?thesis using e by (auto simp: expected_failure_def row_path_def pS_def)
qed

lemma audit_upload_path:
  assumes "audit_upload E receipts folder gname rname relative run = Inr row"
  shows "idx row ''path'' = Inr (VStr relative) \<and> row_path row = relative"
proof -
  obtain receipt load g latencies client where row: "audit_row gname relative receipt run load g latencies client = Inr row"
    using assms unfolding audit_upload_def Let_def by (auto simp: bindE_eq_Inr seqE_eq_Inr)
  have "idx row ''path'' = pS relative"
    by (rule dictE_field [OF row [unfolded audit_row_def], THEN conjunct1, symmetric]; simp)
  then show ?thesis by (simp add: row_path_def pS_def)
qed

text \<open>
  The contract of an audit's loop: a run that is accepted adds its own label to what the state has seen
  and keeps what the audit promises of a state.  Then the loop has seen every run exactly once.
\<close>

locale audit_loop =
  fixes step :: "'r \<Rightarrow> 's \<Rightarrow> 's res" and label :: "'r \<Rightarrow> string" and seen :: "'s \<Rightarrow> string multiset" and good :: "'s \<Rightarrow> bool"
  assumes step_seen: "step r s = Inr s' \<Longrightarrow> seen s' = add_mset (label r) (seen s)"
    and step_good: "step r s = Inr s' \<Longrightarrow> good s \<Longrightarrow> good s'"
begin

lemma loop_seen: "foldE step rs s = Inr s' \<Longrightarrow> seen s' = seen s + mset (map label rs)"
  by (induction rs arbitrary: s) (auto simp: bindE_eq_Inr dest: step_seen)

lemma loop_good: "foldE step rs s = Inr s' \<Longrightarrow> good s \<Longrightarrow> good s'"
  by (induction rs arbitrary: s) (auto simp: bindE_eq_Inr dest: step_good)

end

definition audited_paths :: "audit_state \<Rightarrow> string multiset" where
  "audited_paths s = mset (map row_path (s_rows s)) + mset (map row_path (s_failures s)) + mset (s_get_checked s)"

definition failures_expected :: "audit_state \<Rightarrow> bool" where
  "failures_expected s \<longleftrightarrow> (\<forall>f \<in> set (s_failures s). expected_failure f)"

lemma audit_run_cases:
  assumes "audit_run E receipts folder gr s = Inr s'"
  obtains (failed) run f where "audit_failure (relative_path gr) run = Inr f" and "s' = s\<lparr>s_failures := s_failures s @ [f]\<rparr>"
    | (get) rows w where "s' = s\<lparr>s_get_rows := rows, s_get_checked := s_get_checked s @ [relative_path gr], s_written := w\<rparr>"
    | (upload) gname rname run row where "audit_upload E receipts folder gname rname (relative_path gr) run = Inr row"
        and "s' = s\<lparr>s_rows := s_rows s @ [row]\<rparr>"
  using assms unfolding audit_run_def Let_def
  by (auto simp: bindE_eq_Inr split: prod.splits if_splits)

interpretation parity_loop: audit_loop "audit_run E receipts folder" relative_path audited_paths failures_expected
  for E receipts folder
proof
  fix gr s s' assume run: "audit_run E receipts folder gr s = Inr s'"
  show "audited_paths s' = add_mset (relative_path gr) (audited_paths s)"
    using run by (cases rule: audit_run_cases) (auto simp: audited_paths_def dest!: audit_failure_path audit_upload_path)
  show "failures_expected s'" if "failures_expected s"
    using run that by (cases rule: audit_run_cases) (auto simp: failures_expected_def dest!: audit_failure_path)
qed

lemma group_put_mset: "mset (concat (map snd (group_put k row gs))) = add_mset row (mset (concat (map snd gs)))"
  by (induction k row gs rule: group_put.induct) auto

lemma group_put_keys: "\<forall>(k', rows) \<in> set gs. rows \<noteq> [] \<Longrightarrow> \<forall>(k', rows) \<in> set (group_put k row gs). rows \<noteq> []"
  by (induction k row gs rule: group_put.induct) auto

lemma group_rows_partition:
  assumes "group_rows keys rows = Inr gs"
  shows "mset (concat (map snd gs)) = mset rows \<and> (\<forall>(k, trials) \<in> set gs. trials \<noteq> [])"
proof -
  have "mset (concat (map snd gs)) = mset (concat (map snd gs0)) + mset rows \<and> (\<forall>(k, trials) \<in> set gs. trials \<noteq> [])"
    if "foldE (join_group keys) rows gs0 = Inr gs"
      and "\<forall>(k, trials) \<in> set gs0. trials \<noteq> []" for gs0
    using that
  proof (induction rows arbitrary: gs0)
    case (Cons row rows)
    then obtain gs1 where gs1: "join_group keys row gs0 = Inr gs1" and tail: "foldE (join_group keys) rows gs1 = Inr gs"
      by (auto simp: bindE_eq_Inr)
    then obtain k where "gs1 = group_put k row gs0" by (auto simp: join_group_def bindE_eq_Inr split: if_splits)
    then have rest: "foldE (join_group keys) rows (group_put k row gs0) = Inr gs" using tail by simp
    from Cons.IH [OF rest group_put_keys [OF Cons.prems(2)]] show ?case by (simp add: group_put_mset)
  qed simp
  from this [of "[]"] show ?thesis using assms by (simp add: group_rows_def)
qed

lemma audit_report_counts:
  assumes "audit_report s final_build = Inr report"
  shows "idx report ''measured_runs'' = Inr (VInt (int (length (s_rows s)))) \<and>
    idx report ''get_control_runs'' = Inr (VInt (int (length (s_get_checked s))))"
proof -
  obtain paths where row: "dictE [(''outcome'', pS ''passed''), (''measured_runs'', pI (int (length (s_rows s)))),
       (''get_control_runs'', pI (int (length (s_get_checked s)))), (''failed_excluded'', Inr (VList (s_failures s))),
       (''checked'', Inr (VList (paths @ map VStr (s_get_checked s)))), (''final_build'', Inr (option_val final_build))] = Inr report"
    using assms unfolding audit_report_def by (auto simp: bindE_eq_Inr)
  have "idx report ''measured_runs'' = pI (int (length (s_rows s)))" "idx report ''get_control_runs'' = pI (int (length (s_get_checked s)))"
    by (rule dictE_field [OF row, THEN conjunct1, symmetric]; simp)+
  then show ?thesis by (simp add: pI_def)
qed

lemma aggregate_row_repeats: "aggregate_row kt = Inr a \<Longrightarrow> idx a ''repeats'' = Inr (VInt (int (length (snd kt))))"
proof -
  assume row: "aggregate_row kt = Inr a"
  have "idx a ''repeats'' = pI (int (length (snd kt)))"
    by (rule dictE_field [OF row [unfolded aggregate_row_def split_beta], THEN conjunct1, symmetric]; simp)
  then show ?thesis by (simp add: pI_def)
qed

lemma aggregate_repeats:
  assumes "mapE aggregate_row gs = Inr agg"
  shows "mapE (\<lambda>a. idx a ''repeats'') agg = Inr (map (\<lambda>g. VInt (int (length (snd g)))) gs)"
  using assms by (induction gs arbitrary: agg) (auto simp: bindE_eq_Inr aggregate_row_repeats)

text \<open>
  C38: the audit accounts for every run it is given.  When it passes, each run appears exactly once among
  the checked upload runs, the checked control runs and the failed runs, which are only those that the
  audit lists by name; the aggregate distributes the upload runs over its groups, so that the repeats
  it reports add up to the number of measured runs in the report.
\<close>

theorem audit_accounts_for_runs:
  assumes "audit_main E builds folder runs final_build plan_exists run_count = Inr (s, agg, report)"
  shows "mset (map row_path (s_rows s)) + mset (map row_path (s_failures s)) + mset (s_get_checked s) = mset (map relative_path runs) \<and>
    (\<forall>f \<in> set (s_failures s). map_of expected_failures (row_path f) \<noteq> None) \<and>
    idx report ''measured_runs'' = Inr (VInt (int (length (s_rows s)))) \<and>
    (\<exists>counts. mapE (\<lambda>a. idx a ''repeats'') agg = Inr (map (\<lambda>n. VInt (int n)) counts) \<and> (\<forall>n \<in> set counts. 0 < n) \<and>
       sum_list counts = length (s_rows s))"
proof -
  obtain receipts gs where fold: "foldE (audit_run E receipts folder) runs
      \<lparr>s_rows = [], s_failures = [], s_get_rows = [], s_get_checked = [], s_written = []\<rparr> = Inr s"
    and gs: "group_rows [''group'', ''variant'', ''body_bytes''] (s_rows s) = Inr gs" and agg: "mapE aggregate_row gs = Inr agg"
    and report: "audit_report s final_build = Inr report"
    using assms unfolding audit_main_def aggregate_def by (auto simp: bindE_eq_Inr seqE_eq_Inr)
  have seen: "audited_paths s = mset (map relative_path runs)" and good: "failures_expected s"
    using parity_loop.loop_seen [OF fold] parity_loop.loop_good [OF fold] by (simp_all add: audited_paths_def failures_expected_def)
  have failures: "\<forall>f \<in> set (s_failures s). map_of expected_failures (row_path f) \<noteq> None"
    using good by (auto simp: failures_expected_def expected_failure_def row_path_def)
  note part = group_rows_partition [OF gs]
  have "length (concat (map snd gs)) = length (s_rows s)" using part by (metis size_mset)
  then have "sum_list (map (\<lambda>g. length (snd g)) gs) = length (s_rows s)" by (simp add: length_concat comp_def)
  moreover have "\<forall>n \<in> set (map (\<lambda>g. length (snd g)) gs). 0 < n" using part by auto
  moreover have "mapE (\<lambda>a. idx a ''repeats'') agg = Inr (map (\<lambda>n. VInt (int n)) (map (\<lambda>g. length (snd g)) gs))"
    using aggregate_repeats [OF agg] by (simp add: comp_def)
  ultimately show ?thesis using seen failures audit_report_counts [OF report] unfolding audited_paths_def by blast
qed

text \<open>An experiment whose only run is one of the failures that the audit knows.\<close>

definition sample_audit :: audit_env where
  "sample_audit = \<lparr>ae_read = (\<lambda>p. if p = ''root/docs/go-after-nginx/build.json'' then Inr (VDict [(''builds'', VList [])])
       else Inr (VDict [(''outcome'', VStr ''failed''), (''error'', VStr ''AssertionError()''), (''server_exit'', VInt 0)])),
     ae_bytes = (\<lambda>p. Inl (OSError ''FileNotFoundError'')), ae_sha256 = (\<lambda>s. s), ae_py_str = (\<lambda>v. ''''), ae_resolve = (\<lambda>p. p), ae_root = ''root''\<rparr>"

theorem audit_accounts_for_runs_witness:
  "\<exists>s agg report. audit_main sample_audit [] ''folder'' [(''assigned-saturated'', ''n65536-streaming-1'')] None False (\<lambda>p. 0) = Inr (s, agg, report) \<and>
     mset (map row_path (s_rows s)) + mset (map row_path (s_failures s)) + mset (s_get_checked s)
       = {#''assigned-saturated/n65536-streaming-1/run.json''#}"
proof -
  have "returns (audit_main sample_audit [] ''folder'' [(''assigned-saturated'', ''n65536-streaming-1'')] None False (\<lambda>p. 0))" by code_simp
  then obtain s agg report where
    run: "audit_main sample_audit [] ''folder'' [(''assigned-saturated'', ''n65536-streaming-1'')] None False (\<lambda>p. 0) = Inr (s, agg, report)"
    by (auto simp: returns_iff)
  have "relative_path (''assigned-saturated'', ''n65536-streaming-1'') = ''assigned-saturated/n65536-streaming-1/run.json''" by code_simp
  then show ?thesis using audit_accounts_for_runs [OF run] run by auto
qed

end
