(* ===== verification/Audit_Go.thy ===== *)
theory Audit_Go
  imports Audit_Upload Overload_Run
begin

text \<open>
  \<open>bench/audit_go_performance.py\<close>: the audit of the repeated Go comparisons.  It knows the client programs
  and harness sources as well as the build receipts, accepts no failed run, audits open- and closed-loop
  GET runs, and requires that the audited runs are exactly those of the plans.  Its check of an upload
  run and its grouping are those of \<open>audit_upload_parity.py\<close>, line by line.
\<close>

section \<open>Clients and harnesses\<close>

type_synonym clients = "(string \<times> val \<times> val) list"

definition build_json :: string where
  "build_json = ''docs/go-after-nginx/build.json''"

definition legacy_client :: "audit_env \<Rightarrow> val res" where
  "legacy_client E = idxE (ae_read E (slash (ae_root E) build_json)) ''client''"

definition add_client :: "audit_env \<Rightarrow> string \<Rightarrow> clients \<Rightarrow> clients res" where
  "add_client E parent cs =
     bindE (ae_read E (slash parent ''client-build.json'')) (\<lambda>receipt.
     bindE (truthE (get_dflt receipt ''build_settings_match_original'' (VBool False))) (\<lambda>same.
     if \<not> same then Inr cs
     else
      seqE (assertE (andE (eqE (idx receipt ''build_exit'') (idx receipt ''test_exit'')) (eqE (idx receipt ''test_exit'') (pI 0))))
     (seqE (assertE (eqE (file_digest E (slash parent ''source.tar.gz'')) (idx receipt ''source_archive_sha256'')))
     (bindE (idx receipt ''binary_sha256'') (\<lambda>sha. bindE (idx receipt ''sources'') (\<lambda>sources.
      bindE (bindE (idx receipt ''binary'') str_val) (\<lambda>binary. Inr (dict_set binary (sha, sources) cs))))))))"

definition build_clients :: "audit_env \<Rightarrow> string list \<Rightarrow> clients res" where
  "build_clients E parents =
     bindE (legacy_client E) (\<lambda>legacy.
     bindE (bindE (idx legacy ''path'') str_val) (\<lambda>p. bindE (idx legacy ''sha256'') (\<lambda>sha.
     foldE (add_client E) parents [(p, sha, VDict [])])))"

type_synonym harness = "(string \<times> val list) list"

definition add_harness :: "audit_env \<Rightarrow> string \<Rightarrow> harness \<Rightarrow> harness res" where
  "add_harness E parent hs =
     bindE (bindE (ae_read E (slash parent ''sources.json'')) items) (\<lambda>kvs.
     foldE (\<lambda>(source, checksum) hs.
       seqE (assertE (eqE (file_digest E (slash parent source)) (Inr checksum)))
       (if \<not> hashable checksum then Inl TypeError
        else Inr (dict_set source (checksum # dict_get [] source hs) hs))) kvs hs)"

section \<open>GET runs\<close>

definition options_get :: "val \<Rightarrow> string \<Rightarrow> val \<Rightarrow> val res" where
  "options_get run k v = bindE (idx run ''options'') (\<lambda>o'. get_dflt o' k v)"

definition client_cpus :: "val \<Rightarrow> int list res" where
  "client_cpus run =
     bindE (bindE (options_get run ''client_cpus'' (VStr ''0-7'')) str_val) (\<lambda>txt.
     bindE (overload_cpu_list txt) (\<lambda>cpus. Inr (sort cpus)))"

definition go_binary :: "val \<Rightarrow> val res" where
  "go_binary run =
     bindE (idx run ''command'') (\<lambda>command.
     ifE (eqE (nth_val command 0) (pS ''taskset'')) (nth_val command 3) (nth_val command 0))"

definition local_client :: "audit_env \<Rightarrow> val \<Rightarrow> val \<Rightarrow> string res" where
  "local_client E legacy run =
     bindE (idx legacy ''path'') (\<lambda>default.
     bindE (bindE (options_get run ''local_client_binary'' default) str_val) (\<lambda>p. Inr (ae_resolve E p)))"

definition go_get_checks :: "audit_env \<Rightarrow> receipts \<Rightarrow> clients \<Rightarrow> val \<Rightarrow> val \<Rightarrow> int list \<Rightarrow> val res" where
  "go_get_checks E receipts clients legacy run cpus =
     seqE (assertE (orE (is_go run) (orE (eqE (idx run ''variant'') (pS ''zig'')) (eqE (idx run ''variant'') (pS ''before'')))))
    (bindE (go_binary run) (\<lambda>binary. bindE (receipt_of receipts (Inr binary)) (\<lambda>(expected, receipt).
     seqE (assertE (andE (eqE (bindE (str_val binary) (file_digest E)) (Inr expected))
       (andE (eqE (Inr expected) (idx run ''binary_sha256'')) (eqE (idx run ''binary_sha256'') (idx run ''running_binary_sha256'')))))
    (seqE (assertE (different_machines run))
    (seqE (assertE (eqE (path run [''remote_started'', ''cpus'']) (Inr (VList (map VInt cpus)))))
    (bindE (local_client E legacy run) (\<lambda>client.
     bindE (of_option (KeyError client) (map_of clients client)) (\<lambda>(checksum, sources).
     seqE (checks
      [assertE (andE (eqE (path run [''remote_started'', ''binary_sha256'']) (file_digest E client)) (eqE (file_digest E client) (Inr checksum))),
       bindE (is_go run) (\<lambda>go. assertE (eqE (idx run ''server_exit'') (pI (if go then -15 else 0)))),
       bindE (is_go run) (\<lambda>go. if go then assertE (eqE (path run [''go_runtime'', ''gomaxprocs'']) (pI 32)) else Inr ())])
     (Inr sources)))))))))"

text \<open>A source of the harness must have a known digest; the server's own sources that of its build.\<close>

definition source_known :: "audit_env \<Rightarrow> val \<Rightarrow> val \<Rightarrow> harness \<Rightarrow> string \<Rightarrow> val \<Rightarrow> bool res" where
  "source_known E zig_receipt client_sources harness source checksum =
     (if startswith source ''src/'' then eqE (path zig_receipt [''sources'', source]) (Inr checksum)
      else orE (eqE (Inr checksum) (bindE (idx zig_receipt ''sources'') (\<lambda>d. getE d source)))
          (orE (eqE (Inr checksum) (getE client_sources source))
          (orE (if hashable checksum then Inr (list_ex (py_eq checksum) (dict_get [] source harness)) else Inl TypeError)
            (eqE (file_digest E (slash (ae_root E) source)) (Inr checksum)))))"

definition check_go_manifest :: "audit_env \<Rightarrow> receipts \<Rightarrow> harness \<Rightarrow> string \<Rightarrow> val \<Rightarrow> val \<Rightarrow> val res \<Rightarrow> unit res" where
  "check_go_manifest E receipts harness p run client_sources manifest =
     seqE (assertE (bindE (idxE manifest ''runs'') (inE p)))
    (bindE (bindE (path run [''options'', ''zig_binary'']) str_val) (\<lambda>zig.
     bindE (receipt_of receipts (pS (ae_resolve E zig))) (\<lambda>(expected, receipt).
     bindE (ae_read E (slash (ae_root E) receipt)) (\<lambda>zig_receipt.
     bindE (bindE (idxE manifest ''sources'') items) (forE (\<lambda>(source, checksum).
       bindE (source_known E zig_receipt client_sources harness source checksum) (\<lambda>b. ensure b (AssertionError source))))))))"

section \<open>Closed-loop runs\<close>

definition py_round :: "val \<Rightarrow> val res" where
  "py_round v = (case v of VFloat x \<Rightarrow> Inr (VInt (round_even x)) | _ \<Rightarrow> of_option TypeError (map_option VInt (as_int v)))"

definition check_closed_loop :: "val \<Rightarrow> val \<Rightarrow> unit res" where
  "check_closed_loop load opened =
     checks
      [assertE (eqE (idx load ''attempts'') (addE (idx load ''successes'') (idx load ''errors''))),
       assertE (eqE (sum_values (idx load ''failures'')) (idx load ''errors'')),
       assertE (eqE (idx load ''window_successes_per_second'') (divE (idx load ''window_successes'') (idx load ''measurement_seconds''))),
       assertE (eqE (addE (idx load ''connections_ready'') (idx load ''setup_errors'')) (Inr opened)),
       assertE (andE (eqE (idx load ''connections_measured'') (idx load ''connections_ready'')) (eqE (idx load ''connections_ready'') (Inr opened)))]"

definition rss_peak :: "val \<Rightarrow> val res" where
  "rss_peak run =
     divE (bindE (path run [''server_before'', ''VmHWM'']) (\<lambda>a. bindE (path run [''server_after'', ''VmHWM'']) (\<lambda>b.
       bindE (collectE (idx run ''samples'') (\<lambda>s. path s [''server'', ''VmHWM''])) (\<lambda>vs. py_max ([a, b] @ vs))))) (pI (2 ^ 20))"

definition closed_loop_row :: "string \<Rightarrow> string \<Rightarrow> val \<Rightarrow> val \<Rightarrow> val \<Rightarrow> val \<Rightarrow> (string \<times> val) list res" where
  "closed_loop_row gname relative run load derived opened =
     fieldsE
      [(''group'', pS gname), (''path'', pS relative), (''variant'', idx run ''variant''), (''connections'', Inr opened), (''rate'', pI 0),
       (''goodput'', idx load ''window_successes_per_second''),
       (''p50_ms'', divE (path load [''latency_us'', ''p50'']) (pI 1000)), (''p99_ms'', divE (path load [''latency_us'', ''p99'']) (pI 1000)),
       (''rss_end_mib'', idx derived ''rss_mib''),
       (''process_cpu_seconds_including_setup_warmup_drain'', idx derived ''process_cpu_seconds''),
       (''failures'', idx load ''errors''), (''failure_types'', idx load ''failures''), (''window_failures'', idx load ''window_failures''),
       (''warmup_errors'', idx load ''warmup_errors''), (''setup_errors'', idx load ''setup_errors''),
       (''rss_peak_mib'', rss_peak run)] []"

definition interval_fields :: "val \<Rightarrow> val \<Rightarrow> val list \<Rightarrow> (string \<times> val) list \<Rightarrow> (string \<times> val) list res" where
  "interval_fields run load samples row =
     bindE (edges samples) (\<lambda>(first, last').
     bindE (divE (subE (idx last' ''unix_ns'') (idx first ''unix_ns'')) (pF 1000000000)) (\<lambda>seconds.
     seqE (assertE (geE (Inr seconds) (mulE (idx load ''measurement_seconds'') (pF (6 / 10)))))
    (bindE (divE (subE (path last' [''server'', ''cpu_seconds'']) (path first [''server'', ''cpu_seconds''])) (Inr seconds)) (\<lambda>rate.
     fieldsE
      [(''rss_mib'', divE (medianE (mapE (\<lambda>s. path s [''server'', ''VmRSS'']) samples)) (pI (2 ^ 20))),
       (''cpu_us'', divE (mulE (Inr rate) (pF 1000000)) (idx load ''window_successes_per_second'')),
       (''cpu_interval_seconds'', Inr seconds), (''cpu_interval_start_unix_ns'', idx first ''unix_ns''),
       (''cpu_interval_end_unix_ns'', idx last' ''unix_ns'')] row))))"

definition closed_loop_interval :: "val \<Rightarrow> val \<Rightarrow> (string \<times> val) list \<Rightarrow> (string \<times> val) list res" where
  "closed_loop_interval run load row =
     seqE (assertE (eqE (subE (idx load ''measurement_end_unix_ns'') (idx load ''measurement_start_unix_ns''))
        (bindE (mulE (idx load ''measurement_seconds'') (pF 1000000000)) py_round)))
    (bindE (addE (idx load ''measurement_start_unix_ns'') (idx run ''clock_offset_ns'')) (\<lambda>start.
     bindE (addE (idx load ''measurement_end_unix_ns'') (idx run ''clock_offset_ns'')) (\<lambda>stop.
     bindE (samples_between (addE (Inr start) (pI 500000000)) (subE (Inr stop) (pI 200000000)) (idx run ''samples'')) (\<lambda>samples.
     seqE (ensure (length samples \<ge> 3) (AssertionError [])) (interval_fields run load samples row)))))"

definition audit_closed_loop :: "string \<Rightarrow> string \<Rightarrow> val \<Rightarrow> val \<Rightarrow> val \<Rightarrow> val res" where
  "audit_closed_loop gname relative run load derived =
     bindE (path run [''options'', ''connections'']) (\<lambda>opened.
     seqE (check_closed_loop load opened)
    (bindE (closed_loop_row gname relative run load derived opened) (\<lambda>row.
     bindE (inE ''measurement_start_unix_ns'' load) (\<lambda>timed.
     bindE (if timed then closed_loop_interval run load row else Inr row) (\<lambda>row. Inr (VDict row))))))"

section \<open>Open-loop runs\<close>

definition open_loop_row :: "string \<Rightarrow> string \<Rightarrow> val \<Rightarrow> val \<Rightarrow> val \<Rightarrow> val res" where
  "open_loop_row gname relative run phase result =
     bindE (addE (idx phase ''start_unix_ns'') (idx run ''clock_offset_ns'')) (\<lambda>start.
     bindE (addE (idx phase ''end_unix_ns'') (idx run ''clock_offset_ns'')) (\<lambda>stop.
     bindE (samples_between (addE (Inr start) (pI 500000000)) (subE (Inr stop) (pI 200000000)) (idx run ''samples'')) (\<lambda>samples.
     dictE
      [(''group'', pS gname), (''path'', pS relative), (''variant'', idx run ''variant''),
       (''connections'', path run [''options'', ''connections'']), (''rate'', idx phase ''offered_rate''),
       (''goodput'', idx result ''goodput''), (''p99_ms'', divE (idx result ''service_p99_us'') (pI 1000)),
       (''p50_ms'', divE (path phase [''success_service_latency'', ''p50_us'']) (pI 1000)),
       (''cpu_us'', idx result ''cpu_us_per_success_estimate''), (''rss_mib'', medianE (mapE (\<lambda>s. divE (path s [''server'', ''VmRSS'']) (pI (2 ^ 20))) samples)),
       (''failures'', phase_failed phase), (''failure_types'', idx phase ''failures''),
       (''generator_drops'', idx result ''generator_drops'')])))"

text \<open>The first phase of several is the warmup and has no row.\<close>

definition audit_open_phase :: "string \<Rightarrow> string \<Rightarrow> val \<Rightarrow> nat \<Rightarrow> nat \<times> val \<times> val \<Rightarrow> val list \<Rightarrow> val list res" where
  "audit_open_phase gname relative run phases ipr rows =
     (case ipr of (i, phase, result) \<Rightarrow>
      seqE (check_phase phase)
     (if i = 0 \<and> 1 < phases then Inr rows else bindE (open_loop_row gname relative run phase result) (\<lambda>r. Inr (rows @ [r]))))"

definition audit_open_loop :: "string \<Rightarrow> string \<Rightarrow> val \<Rightarrow> val \<Rightarrow> val \<Rightarrow> int list \<Rightarrow> val list \<Rightarrow> val list res" where
  "audit_open_loop gname relative run load derived cpus rows =
     seqE (assertE (eqE (idx load ''gomaxprocs'') (pI (int (length cpus)))))
    (bindE (bindE (idx load ''phases'') elems) (\<lambda>phases. bindE (bindE (idx derived ''phases'') elems) (\<lambda>results.
     bindE (zip_strict phases results) (\<lambda>prs.
     foldE (audit_open_phase gname relative run (length phases)) (zip [0..<length prs] prs) rows))))"

definition go_audit_get ::
  "audit_env \<Rightarrow> receipts \<Rightarrow> clients \<Rightarrow> harness \<Rightarrow> val \<Rightarrow> string \<Rightarrow> string \<Rightarrow> string \<Rightarrow> string \<Rightarrow> val \<Rightarrow> val list \<Rightarrow> (val \<times> val list) res" where
  "go_audit_get E receipts clients harness legacy folder gname relative p run rows =
     bindE (client_cpus run) (\<lambda>cpus.
     bindE (go_get_checks E receipts clients legacy run cpus) (\<lambda>client_sources.
     seqE (check_go_manifest E receipts harness p run client_sources (ae_read E (slash (slash folder gname) ''manifest.json'')))
    (bindE (idx run ''load'') (\<lambda>load. bindE (summarize_run p run) (\<lambda>derived.
     bindE (inE ''phases'' load) (\<lambda>phased.
     bindE (if phased then audit_open_loop gname relative run load derived cpus rows
            else bindE (audit_closed_loop gname relative run load derived) (\<lambda>r. Inr (rows @ [r]))) (\<lambda>rows.
     Inr (derived, rows))))))))"

section \<open>The loop over the runs\<close>

definition go_audit_run ::
  "audit_env \<Rightarrow> receipts \<Rightarrow> clients \<Rightarrow> harness \<Rightarrow> val \<Rightarrow> string \<Rightarrow> string \<times> string \<Rightarrow> audit_state \<Rightarrow> audit_state res" where
  "go_audit_run E receipts clients harness legacy folder gr s =
     (case gr of (gname, rname) \<Rightarrow>
      let relative = relative_path gr; p = slash folder relative in
      bindE (ae_read E p) (\<lambda>run.
      bindE (neE (idx run ''outcome'') (pS ''measured'')) (\<lambda>failed.
      if failed then Inl (KeyError relative)
      else bindE (inE ''body_bytes'' run) (\<lambda>upload.
       if \<not> upload
       then bindE (go_audit_get E receipts clients harness legacy folder gname relative p run (s_get_rows s)) (\<lambda>(derived, rows).
         Inr (s\<lparr>s_get_rows := rows, s_get_checked := s_get_checked s @ [relative],
                s_written := s_written s @ [(slash (slash (slash folder gname) rname) ''summary.json'', derived)]\<rparr>))
       else bindE (audit_upload E receipts folder gname rname relative run) (\<lambda>row. Inr (s\<lparr>s_rows := s_rows s @ [row]\<rparr>))))))"

section \<open>Plans\<close>

text \<open>The arguments after a flag up to the next one.\<close>

fun plain_arguments :: "val list \<Rightarrow> string list res" where
  "plain_arguments [] = Inr []"
| "plain_arguments (a # as) =
     bindE (str_val a) (\<lambda>t. if startswith t ''--'' then Inr [] else bindE (plain_arguments as) (\<lambda>ts. Inr (t # ts)))"

definition arguments_of :: "string \<Rightarrow> val \<Rightarrow> string list res" where
  "arguments_of flag command =
     bindE (elems command) (\<lambda>xs. bindE (val_index (VStr flag) xs) (\<lambda>i. plain_arguments (drop (i + 1) xs)))"

definition plan_sizes :: "val \<Rightarrow> int list res" where
  "plan_sizes command = ifE (inE ''--body-bytes'' command) (bindE (arguments_of ''--body-bytes'' command) (mapE py_int)) (Inr [])"

definition plan_variants :: "string \<Rightarrow> val \<Rightarrow> int list \<Rightarrow> string list res" where
  "plan_variants label command sizes =
     ifE (inE ''--variants'' command)
       (bindE (arguments_of ''--variants'' command) (\<lambda>vs. seqE (ensure (vs \<noteq> [] \<and> distinct vs) (AssertionError label)) (Inr vs)))
       (if sizes = [] then Inr []
        else bindE (ifE (inE ''--before'' command)
               (ifE (inE ''--before-label'' command) (bindE (bindE (after_flag ''--before-label'' command) str_val) (\<lambda>l. Inr [l])) (Inr [''buffered'']))
               (Inr [])) (\<lambda>before.
             bindE (ifE (inE ''--go-binary'' command) (Inr [''go'']) (Inr [])) (\<lambda>go.
             let vs = ''streaming'' # before @ go in seqE (ensure (2 \<le> length vs \<and> distinct vs) (AssertionError label)) (Inr vs))))"

definition expected_names :: "int list \<Rightarrow> string list \<Rightarrow> int \<Rightarrow> string list" where
  "expected_names sizes variants repeats =
     concat (map (\<lambda>n. concat (map (\<lambda>variant. map (\<lambda>r. upload_folder (n, variant, r)) [1..<nat (repeats + 1)]) variants)) sizes)"

definition check_named_run :: "audit_env \<Rightarrow> string \<Rightarrow> string \<Rightarrow> unit res" where
  "check_named_run E dir name =
     bindE (ae_read E (slash (slash dir name) ''run.json'')) (\<lambda>run.
     bindE (bindE (list_nth (rsplit1 CHR ''-'' name) 1) py_int) (\<lambda>repeat.
     bindE (idx run ''body_bytes'') (\<lambda>n. bindE (idx run ''variant'') (\<lambda>variant.
     seqE (ensure (name = ''n'' @ ae_py_str E n @ ''-'' @ ae_py_str E variant @ ''-'' @ str_of_int repeat) (AssertionError []))
     (assertE (eqE (get_dflt run ''repeat'' (VInt repeat)) (pI repeat)))))))"

definition count_pair :: "val \<times> val \<Rightarrow> (val \<times> val) list \<Rightarrow> nat" where
  "count_pair p ps = length (filter (\<lambda>q. py_eq (fst p) (fst q) \<and> py_eq (snd p) (snd q)) ps)"

definition same_counts :: "(val \<times> val) list \<Rightarrow> (val \<times> val) list \<Rightarrow> bool" where
  "same_counts ps qs \<longleftrightarrow> (\<forall>p \<in> set (ps @ qs). count_pair p ps = count_pair p qs)"

definition actual_pairs :: "audit_env \<Rightarrow> string \<Rightarrow> string list \<Rightarrow> (val \<times> val) list res" where
  "actual_pairs E dir names =
     mapE (\<lambda>name. bindE (ae_read E (slash (slash dir name) ''run.json'')) (\<lambda>run.
       bindE (idx run ''variant'') (\<lambda>v. bindE (idx run ''repeat'') (\<lambda>r.
       if hashable v \<and> hashable r then Inr (v, r) else Inl TypeError)))) names"

definition expected_pairs :: "string list \<Rightarrow> int \<Rightarrow> (val \<times> val) list" where
  "expected_pairs variants repeats = concat (map (\<lambda>v. map (\<lambda>r. (VStr v, VInt r)) [1..repeats]) variants)"

text \<open>One item of a plan: \<open>run_dirs label\<close> are the run folders below that label; the result are their paths.\<close>

definition check_plan_item :: "audit_env \<Rightarrow> (string \<Rightarrow> string list) \<Rightarrow> string \<Rightarrow> val \<Rightarrow> string list res" where
  "check_plan_item E run_dirs folder item =
     bindE (idx item ''command'') (\<lambda>command.
     bindE (bindE (bindE (after_flag ''--repeats'' command) str_val) py_int) (\<lambda>repeats.
     bindE (inE ''--body-bytes'' command) (\<lambda>bodies.
     bindE (plan_sizes command) (\<lambda>sizes.
     bindE (bindE (idx item ''label'') str_val) (\<lambda>label.
     bindE (plan_variants label command sizes) (\<lambda>variants.
     let names = run_dirs label; dir = slash folder label;
         factor = (if variants = [] then 2 else int (length variants)) * (if bodies then int (length sizes) else 1) in
     seqE (ensure (int (length names) = repeats * factor) (AssertionError label))
    (seqE (if sizes \<noteq> [] then
              seqE (ensure (set names = set (expected_names sizes variants repeats)) (AssertionError label)) (forE (check_named_run E dir) names)
           else if variants \<noteq> [] then
              bindE (actual_pairs E dir names) (\<lambda>ps. ensure (same_counts ps (expected_pairs variants repeats)) (AssertionError label))
           else Inr ())
     (Inr (map (\<lambda>name. relative_path (label, name)) names)))))))))"

definition planned_paths :: "audit_env \<Rightarrow> (string \<Rightarrow> string list) \<Rightarrow> string \<Rightarrow> string list \<Rightarrow> string list res" where
  "planned_paths E run_dirs folder plans =
     bindE (mapE (\<lambda>p. bindE (bindE (ae_read E p) elems) (mapE (check_plan_item E run_dirs folder))) plans) (\<lambda>pss.
     Inr (concat (map concat pss)))"

section \<open>Groups and report\<close>

definition get_fields :: "string list" where
  "get_fields = [''goodput'', ''p50_ms'', ''p99_ms'', ''rss_mib'', ''cpu_us'', ''rss_end_mib'', ''rss_peak_mib'']"

definition sum_field :: "string \<Rightarrow> val list \<Rightarrow> val res" where
  "sum_field k trials = sumE (mapE (\<lambda>t. get_dflt t k (VInt 0)) trials)"

definition get_aggregate_row :: "val list \<times> val list \<Rightarrow> val res" where
  "get_aggregate_row kt =
     (case kt of (k, trials) \<Rightarrow>
      bindE (filterE (\<lambda>f. inE f (hd trials)) get_fields) (\<lambda>present.
      dictE
       [(''group'', Inr (k ! 0)), (''variant'', Inr (k ! 1)), (''rate'', Inr (k ! 2)), (''repeats'', pI (int (length trials))),
        (''medians'', dictE (map (\<lambda>f. (f, medianE (mapE (\<lambda>t. idx t f) trials))) present)),
        (''trials'', dictE (map (\<lambda>f. (f, listE (mapE (\<lambda>t. idx t f) trials))) present)),
        (''failures'', sumE (mapE (\<lambda>t. idx t ''failures'') trials)), (''generator_drops'', sum_field ''generator_drops'' trials),
        (''setup_errors'', sum_field ''setup_errors'' trials), (''warmup_errors'', sum_field ''warmup_errors'' trials)]))"

definition get_aggregate :: "val list \<Rightarrow> val list res" where
  "get_aggregate rows = bindE (group_rows [''group'', ''variant'', ''rate''] rows) (mapE get_aggregate_row)"

definition check_planned :: "string list \<Rightarrow> audit_state \<Rightarrow> unit res" where
  "check_planned planned s =
     bindE (mapE (\<lambda>r. bindE (idx r ''path'') str_val) (s_rows s)) (\<lambda>ps.
     ensure (set planned = set ps \<union> set (s_get_checked s)) (AssertionError []))"

definition go_audit_main ::
  "audit_env \<Rightarrow> string list \<Rightarrow> string list \<Rightarrow> string list \<Rightarrow> string \<Rightarrow> (string \<times> string) list \<Rightarrow> string option \<Rightarrow> string list \<Rightarrow>
     (string \<Rightarrow> string list) \<Rightarrow> (audit_state \<times> val list \<times> val list \<times> val) res" where
  "go_audit_main E builds client_dirs harness_dirs folder runs final_build plans run_dirs =
     bindE (build_receipts E builds) (\<lambda>receipts.
     bindE (legacy_client E) (\<lambda>legacy.
     bindE (build_clients E client_dirs) (\<lambda>clients.
     bindE (foldE (add_harness E) harness_dirs []) (\<lambda>harness.
     bindE (foldE (go_audit_run E receipts clients harness legacy folder) runs
       \<lparr>s_rows = [], s_failures = [], s_get_rows = [], s_get_checked = [], s_written = []\<rparr>) (\<lambda>s.
     bindE (aggregate (s_rows s)) (\<lambda>rows.
     seqE (case final_build of None \<Rightarrow> Inr () | Some p \<Rightarrow> check_final_sources E (ae_read E p))
    (bindE (planned_paths E run_dirs folder plans) (\<lambda>planned.
     seqE (check_planned planned s)
    (bindE (get_aggregate (s_get_rows s)) (\<lambda>gets.
     bindE (audit_report s final_build) (\<lambda>report. Inr (s, rows, gets, report))))))))))))"

section \<open>The audited runs are the planned runs\<close>

definition no_failures :: "audit_state \<Rightarrow> bool" where
  "no_failures s \<longleftrightarrow> s_failures s = []"

lemma go_audit_run_cases:
  assumes "go_audit_run E receipts clients harness legacy folder gr s = Inr s'"
  obtains (get) rows w where "s' = s\<lparr>s_get_rows := rows, s_get_checked := s_get_checked s @ [relative_path gr], s_written := w\<rparr>"
    | (upload) gname rname run row where "audit_upload E receipts folder gname rname (relative_path gr) run = Inr row"
        and "s' = s\<lparr>s_rows := s_rows s @ [row]\<rparr>"
  using assms unfolding go_audit_run_def Let_def
  by (auto simp: bindE_eq_Inr split: prod.splits if_splits)

interpretation go_loop: audit_loop "go_audit_run E receipts clients harness legacy folder" relative_path audited_paths no_failures
  for E receipts clients harness legacy folder
proof
  fix gr s s' assume run: "go_audit_run E receipts clients harness legacy folder gr s = Inr s'"
  show "audited_paths s' = add_mset (relative_path gr) (audited_paths s)"
    using run by (cases rule: go_audit_run_cases) (auto simp: audited_paths_def dest!: audit_upload_path)
  show "no_failures s'" if "no_failures s"
    using run that by (cases rule: go_audit_run_cases) (auto simp: no_failures_def)
qed

lemma mapE_row_path: "mapE (\<lambda>r. bindE (idx r ''path'') str_val) rows = Inr ps \<Longrightarrow> map row_path rows = ps"
proof (induction rows arbitrary: ps)
  case (Cons r rows)
  then obtain v p qs where v: "idx r ''path'' = Inr v" "str_val v = Inr p"
    and qs: "mapE (\<lambda>r. bindE (idx r ''path'') str_val) rows = Inr qs" and ps: "ps = p # qs" by (auto simp: bindE_eq_Inr)
  have "v = VStr p" using v(2) by (cases v) simp_all
  then show ?case using Cons.IH [OF qs] v(1) ps by (simp add: row_path_def)
qed simp

text \<open>
  What a plan item asks for, read off its command: the record of a scheduled upload, the record of a
  scheduled GET run, and the whole item, with \<open>audited\<close> the paths of the audited runs.
\<close>

definition upload_covered :: "audit_env \<Rightarrow> string \<Rightarrow> string \<Rightarrow> string set \<Rightarrow> int \<times> string \<times> nat \<Rightarrow> bool" where
  "upload_covered E folder label audited trial \<longleftrightarrow>
     (case trial of (n, v, r) \<Rightarrow> relative_path (label, upload_folder trial) \<in> audited \<and>
       (\<exists>run bytes variant. ae_read E (slash (slash (slash folder label) (upload_folder trial)) ''run.json'') = Inr run \<and>
          idx run ''body_bytes'' = Inr bytes \<and> idx run ''variant'' = Inr variant \<and>
          ''n'' @ ae_py_str E bytes @ ''-'' @ ae_py_str E variant = ''n'' @ str_of_int n @ ''-'' @ v \<and>
          eqE (get_dflt run ''repeat'' (VInt (int r))) (pI (int r)) = Inr True))"

definition get_covered :: "audit_env \<Rightarrow> string \<Rightarrow> string \<Rightarrow> string list \<Rightarrow> string set \<Rightarrow> string \<Rightarrow> int \<Rightarrow> bool" where
  "get_covered E folder label names audited v r \<longleftrightarrow>
     (\<exists>name \<in> set names. relative_path (label, name) \<in> audited \<and>
       (\<exists>run repeat. ae_read E (slash (slash (slash folder label) name) ''run.json'') = Inr run \<and>
          idx run ''variant'' = Inr (VStr v) \<and> idx run ''repeat'' = Inr repeat \<and> py_eq (VInt r) repeat))"

definition item_covered :: "audit_env \<Rightarrow> (string \<Rightarrow> string list) \<Rightarrow> string \<Rightarrow> string set \<Rightarrow> val \<Rightarrow> bool" where
  "item_covered E run_dirs folder audited item \<longleftrightarrow>
     (\<exists>command repeats bodies sizes label variants.
        idx item ''command'' = Inr command \<and> bindE (bindE (after_flag ''--repeats'' command) str_val) py_int = Inr repeats \<and>
        inE ''--body-bytes'' command = Inr bodies \<and> plan_sizes command = Inr sizes \<and>
        bindE (idx item ''label'') str_val = Inr label \<and> plan_variants label command sizes = Inr variants \<and>
        int (length (run_dirs label)) =
          repeats * ((if variants = [] then 2 else int (length variants)) * (if bodies then int (length sizes) else 1)) \<and>
        (\<forall>name \<in> set (run_dirs label). relative_path (label, name) \<in> audited) \<and>
        (\<forall>n \<in> set sizes. \<forall>v \<in> set variants. \<forall>r \<in> {1..nat repeats}. upload_covered E folder label audited (n, v, r)) \<and>
        (sizes = [] \<longrightarrow> (\<forall>v \<in> set variants. \<forall>r \<in> {1..repeats}. get_covered E folder label (run_dirs label) audited v r)))"

lemma upload_folder_parts: "rsplit1 CHR ''-'' (upload_folder (n, v, r)) = [''n'' @ str_of_int n @ ''-'' @ v, str_of_int (int r)]"
proof -
  have "CHR ''-'' \<notin> set (str_of_int (int r))"
    using str_of_nat_digits [of "int r"] by (auto simp: str_of_int_def is_digit_def char_code_def)
  from rsplit1_last [OF this, of "''n'' @ str_of_int n @ ''-'' @ v"] show ?thesis by (simp add: upload_folder_def)
qed

lemma named_run_covered:
  assumes "check_named_run E (slash folder label) (upload_folder (n, v, r)) = Inr ()" and "relative_path (label, upload_folder (n, v, r)) \<in> audited"
  shows "upload_covered E folder label audited (n, v, r)"
proof -
  obtain run bytes variant where
    run: "ae_read E (slash (slash (slash folder label) (upload_folder (n, v, r))) ''run.json'') = Inr run"
    and fields: "idx run ''body_bytes'' = Inr bytes" "idx run ''variant'' = Inr variant"
    and name: "upload_folder (n, v, r) = ''n'' @ ae_py_str E bytes @ ''-'' @ ae_py_str E variant @ ''-'' @ str_of_int (int r)"
    and repeat: "eqE (get_dflt run ''repeat'' (VInt (int r))) (pI (int r)) = Inr True"
    using assms(1) unfolding check_named_run_def upload_folder_parts
    by (auto simp: bindE_eq_Inr seqE_eq_Inr ensure_eq_Inr assertE_eq_Inr list_nth_def simp del: idx.simps)
  have "''n'' @ ae_py_str E bytes @ ''-'' @ ae_py_str E variant = ''n'' @ str_of_int n @ ''-'' @ v"
    using name by (simp add: upload_folder_def)
  then show ?thesis using run fields repeat assms(2) unfolding upload_covered_def by blast
qed

lemma mem_expected_names:
  "n \<in> set sizes \<Longrightarrow> v \<in> set variants \<Longrightarrow> r \<in> {1..nat repeats} \<Longrightarrow> upload_folder (n, v, r) \<in> set (expected_names sizes variants repeats)"
  by (force simp: expected_names_def)

lemma pair_counted:
  assumes "same_counts ps qs" and "q \<in> set qs" and "py_eq (fst q) (fst q)" and "py_eq (snd q) (snd q)"
  shows "\<exists>p \<in> set ps. py_eq (fst q) (fst p) \<and> py_eq (snd q) (snd p)"
proof -
  have "q \<in> set (filter (\<lambda>p. py_eq (fst q) (fst p) \<and> py_eq (snd q) (snd p)) qs)" using assms(2-4) by simp
  then have "0 < count_pair q qs" unfolding count_pair_def by (rule length_pos_if_in_set)
  then have "count_pair q ps \<noteq> 0" using assms by (simp add: same_counts_def)
  then show ?thesis by (auto simp: count_pair_def filter_empty_conv)
qed

lemma pair_covered:
  assumes pairs: "actual_pairs E (slash folder label) names = Inr ps" "same_counts ps (expected_pairs variants repeats)"
    and v: "v \<in> set variants" and r: "r \<in> {1..repeats}" and all: "\<forall>name \<in> set names. relative_path (label, name) \<in> audited"
  shows "get_covered E folder label names audited v r"
proof -
  have "(VStr v, VInt r) \<in> set (expected_pairs variants repeats)" using v r by (force simp: expected_pairs_def)
  with pair_counted [OF pairs(2)] obtain v' r' where pr: "(v', r') \<in> set ps" "py_eq (VStr v) v'" "py_eq (VInt r) r'" by fastforce
  obtain i where i: "i < length ps" "ps ! i = (v', r')" using pr(1) by (auto simp: in_set_conv_nth)
  then obtain name where name: "name \<in> set names"
    and read: "bindE (ae_read E (slash (slash (slash folder label) name) ''run.json'')) (\<lambda>run.
       bindE (idx run ''variant'') (\<lambda>v. bindE (idx run ''repeat'') (\<lambda>r.
       if hashable v \<and> hashable r then Inr (v, r) else Inl TypeError))) = Inr (v', r')"
    using pairs(1) that [of "names ! i"] by (simp add: actual_pairs_def mapE_eq_Inr list_all2_conv_all_nth)
  have "v' = VStr v" using pr(2) by (cases v') simp_all
  then show ?thesis using read name all pr(3) unfolding get_covered_def
    by (auto simp: bindE_eq_Inr split: if_splits simp del: idx.simps)
qed

lemma check_plan_item_covered:
  assumes "check_plan_item E run_dirs folder item = Inr ps"
  shows "\<exists>label. bindE (idx item ''label'') str_val = Inr label \<and> ps = map (\<lambda>name. relative_path (label, name)) (run_dirs label)"
    and "set ps \<subseteq> audited \<Longrightarrow> item_covered E run_dirs folder audited item"
proof -
  obtain command repeats bodies sizes label variants where
    item: "idx item ''command'' = Inr command" "bindE (bindE (after_flag ''--repeats'' command) str_val) py_int = Inr repeats"
      "inE ''--body-bytes'' command = Inr bodies" "plan_sizes command = Inr sizes"
      "bindE (idx item ''label'') str_val = Inr label" "plan_variants label command sizes = Inr variants"
    and n: "int (length (run_dirs label)) =
      repeats * ((if variants = [] then 2 else int (length variants)) * (if bodies then int (length sizes) else 1))"
    and sized: "sizes \<noteq> [] \<Longrightarrow> set (run_dirs label) = set (expected_names sizes variants repeats) \<and>
      (\<forall>name \<in> set (run_dirs label). check_named_run E (slash folder label) name = Inr ())"
    and pairs: "sizes = [] \<Longrightarrow> variants \<noteq> [] \<Longrightarrow>
      \<exists>qs. actual_pairs E (slash folder label) (run_dirs label) = Inr qs \<and> same_counts qs (expected_pairs variants repeats)"
    and ps: "ps = map (\<lambda>name. relative_path (label, name)) (run_dirs label)"
    using assms unfolding check_plan_item_def Let_def bindE_eq_Inr [of "idx item ''command''"]
    by (elim exE conjE) (auto simp: bindE_eq_Inr seqE_eq_Inr ensure_eq_Inr forE_eq_Inr simp del: idx.simps split: if_splits)
  show "\<exists>label. bindE (idx item ''label'') str_val = Inr label \<and> ps = map (\<lambda>name. relative_path (label, name)) (run_dirs label)"
    using item(5) ps by blast
  assume "set ps \<subseteq> audited"
  then have all: "\<forall>name \<in> set (run_dirs label). relative_path (label, name) \<in> audited" by (auto simp: ps)
  have uploads: "upload_covered E folder label audited (n, v, r)" if "n \<in> set sizes" "v \<in> set variants" "r \<in> {1..nat repeats}" for n v r
  proof (rule named_run_covered)
    have "sizes \<noteq> []" using that(1) by auto
    note sized = sized [OF this]
    have "upload_folder (n, v, r) \<in> set (run_dirs label)" using sized mem_expected_names [OF that] by blast
    then show "check_named_run E (slash folder label) (upload_folder (n, v, r)) = Inr ()"
        "relative_path (label, upload_folder (n, v, r)) \<in> audited"
      using sized all by blast+
  qed
  have gets: "get_covered E folder label (run_dirs label) audited v r" if "sizes = []" "v \<in> set variants" "r \<in> {1..repeats}" for v r
  proof -
    have "variants \<noteq> []" using that(2) by auto
    from pairs [OF that(1) this] obtain qs where "actual_pairs E (slash folder label) (run_dirs label) = Inr qs" "same_counts qs (expected_pairs variants repeats)"
      by blast
    from pair_covered [OF this that(2,3) all] show ?thesis .
  qed
  show "item_covered E run_dirs folder audited item"
    unfolding item_covered_def using item n all uploads gets by blast
qed

lemma planned_paths_covered:
  assumes "planned_paths E run_dirs folder plans = Inr planned"
  shows "\<forall>p \<in> set plans. \<exists>items. bindE (ae_read E p) elems = Inr items \<and> (\<forall>item \<in> set items. item_covered E run_dirs folder (set planned) item)"
    and "\<forall>rel \<in> set planned. \<exists>p \<in> set plans. \<exists>items item label name. bindE (ae_read E p) elems = Inr items \<and> item \<in> set items \<and>
      bindE (idx item ''label'') str_val = Inr label \<and> name \<in> set (run_dirs label) \<and> rel = relative_path (label, name)"
proof -
  obtain pss where pss: "list_all2 (\<lambda>p ps. bindE (bindE (ae_read E p) elems) (mapE (check_plan_item E run_dirs folder)) = Inr ps) plans pss"
    and planned: "planned = concat (map concat pss)"
    using assms by (auto simp: planned_paths_def bindE_eq_Inr mapE_eq_Inr)
  have plan: "\<exists>items. bindE (ae_read E p) elems = Inr items \<and> list_all2 (\<lambda>item ps. check_plan_item E run_dirs folder item = Inr ps) items ps"
    if "bindE (bindE (ae_read E p) elems) (mapE (check_plan_item E run_dirs folder)) = Inr ps" for p ps
    using that by (cases "bindE (ae_read E p) elems") (auto simp: mapE_eq_Inr)
  show "\<forall>p \<in> set plans. \<exists>items. bindE (ae_read E p) elems = Inr items \<and> (\<forall>item \<in> set items. item_covered E run_dirs folder (set planned) item)"
  proof
    fix p assume "p \<in> set plans"
    then obtain ps where ps: "ps \<in> set pss" "bindE (bindE (ae_read E p) elems) (mapE (check_plan_item E run_dirs folder)) = Inr ps"
      using pss unfolding list_all2_conv_all_nth in_set_conv_nth by metis
    obtain items where items: "bindE (ae_read E p) elems = Inr items" "list_all2 (\<lambda>item ps. check_plan_item E run_dirs folder item = Inr ps) items ps"
      using plan [OF ps(2)] by blast
    have "item_covered E run_dirs folder (set planned) item" if item: "item \<in> set items" for item
    proof -
      obtain qs where qs: "qs \<in> set ps" "check_plan_item E run_dirs folder item = Inr qs"
        using item items(2) unfolding list_all2_conv_all_nth in_set_conv_nth by metis
      show ?thesis by (rule check_plan_item_covered(2) [OF qs(2)]) (use qs(1) ps(1) planned in auto)
    qed
    then show "\<exists>items. bindE (ae_read E p) elems = Inr items \<and> (\<forall>item \<in> set items. item_covered E run_dirs folder (set planned) item)"
      using items(1) by blast
  qed
  show "\<forall>rel \<in> set planned. \<exists>p \<in> set plans. \<exists>items item label name. bindE (ae_read E p) elems = Inr items \<and> item \<in> set items \<and>
      bindE (idx item ''label'') str_val = Inr label \<and> name \<in> set (run_dirs label) \<and> rel = relative_path (label, name)"
  proof
    fix rel assume "rel \<in> set planned"
    then obtain ps qs where ps: "ps \<in> set pss" "qs \<in> set ps" "rel \<in> set qs" using planned by auto
    obtain p where p: "p \<in> set plans" "bindE (bindE (ae_read E p) elems) (mapE (check_plan_item E run_dirs folder)) = Inr ps"
      using pss ps(1) unfolding list_all2_conv_all_nth in_set_conv_nth by metis
    obtain items where items: "bindE (ae_read E p) elems = Inr items" "list_all2 (\<lambda>item ps. check_plan_item E run_dirs folder item = Inr ps) items ps"
      using plan [OF p(2)] by blast
    obtain item where item: "item \<in> set items" "check_plan_item E run_dirs folder item = Inr qs"
      using ps(2) items(2) unfolding list_all2_conv_all_nth in_set_conv_nth by metis
    show "\<exists>p \<in> set plans. \<exists>items item label name. bindE (ae_read E p) elems = Inr items \<and> item \<in> set items \<and>
        bindE (idx item ''label'') str_val = Inr label \<and> name \<in> set (run_dirs label) \<and> rel = relative_path (label, name)"
      using check_plan_item_covered(1) [OF item(2)] ps(3) p(1) items(1) item(1) by fastforce
  qed
qed

text \<open>
  C14: when the audit of the Go comparisons passes, it has covered the experiment exactly.  No run failed
  and every run found in the folder was audited once, as an upload or as a GET run.  For every item of every
  plan the label has as many runs as its repeats, variants and body sizes ask for, all of them audited;
  for an upload plan the run of each size, variant and repeat was audited and its record names that size,
  variant and repeat; for a GET plan with variants there is an audited run whose record names each variant
  and repeat.  Every audited run lies under the label of some plan item.  So neither a missing nor an
  unplanned run goes unnoticed.
\<close>

theorem go_audit_covers_plan:
  fixes runs :: "(string \<times> string) list"
  assumes "go_audit_main E builds client_dirs harness_dirs folder runs final_build plans run_dirs = Inr (s, rows, gets, report)"
  defines "audited \<equiv> set (map relative_path runs)"
  shows "s_failures s = [] \<and> mset (map row_path (s_rows s)) + mset (s_get_checked s) = mset (map relative_path runs) \<and>
    (\<forall>p \<in> set plans. \<exists>items. bindE (ae_read E p) elems = Inr items \<and> (\<forall>item \<in> set items. item_covered E run_dirs folder audited item)) \<and>
    (\<forall>rel \<in> audited. \<exists>p \<in> set plans. \<exists>items item label name. bindE (ae_read E p) elems = Inr items \<and> item \<in> set items \<and>
       bindE (idx item ''label'') str_val = Inr label \<and> name \<in> set (run_dirs label) \<and> rel = relative_path (label, name)) \<and>
    idx report ''measured_runs'' = Inr (VInt (int (length (s_rows s)))) \<and>
    idx report ''get_control_runs'' = Inr (VInt (int (length (s_get_checked s))))"
proof -
  obtain receipts legacy clients harness planned where
    fold: "foldE (go_audit_run E receipts clients harness legacy folder) runs
      \<lparr>s_rows = [], s_failures = [], s_get_rows = [], s_get_checked = [], s_written = []\<rparr> = Inr s"
    and planned: "planned_paths E run_dirs folder plans = Inr planned" and check: "check_planned planned s = Inr ()"
    and report: "audit_report s final_build = Inr report"
    using assms(1) unfolding go_audit_main_def by (auto simp: bindE_eq_Inr seqE_eq_Inr)
  have none: "s_failures s = []" using go_loop.loop_good [OF fold] by (simp add: no_failures_def)
  have seen: "mset (map row_path (s_rows s)) + mset (s_get_checked s) = mset (map relative_path runs)"
    using go_loop.loop_seen [OF fold] none by (simp add: audited_paths_def)
  obtain ps where ps: "mapE (\<lambda>r. bindE (idx r ''path'') str_val) (s_rows s) = Inr ps"
    and eq: "set planned = set ps \<union> set (s_get_checked s)"
    using check by (auto simp: check_planned_def bindE_eq_Inr ensure_eq_Inr)
  have "set planned = set_mset (mset (map row_path (s_rows s)) + mset (s_get_checked s))"
    unfolding eq mapE_row_path [OF ps] by simp
  then have "set planned = audited" unfolding seen audited_def by simp
  then show ?thesis
    using none seen planned_paths_covered [OF planned] audit_report_counts [OF report] by simp
qed

section \<open>Plans and the comparison's schedule\<close>

lemma set_arch_order: "set (arch_order names n) = set names"
proof -
  have "set (arch_order names n) = set (take (n mod length names) names @ drop (n mod length names) names)"
    unfolding arch_order_def set_append by (rule Un_commute)
  then show ?thesis by (simp only: append_take_drop_id)
qed

lemma length_arch_order: "length (arch_order names n) = length names"
  by (cases names) (simp_all add: arch_order_def mod_le_divisor less_imp_le)

lemma length_upload_schedule:
  "length (upload_schedule o' names) = length (uc_body_bytes o') * (nat (uc_repeats o') * length names)"
proof -
  have inner: "length (concat (map (\<lambda>repeat. map (\<lambda>name. (n, name, repeat + 1)) (arch_order names repeat)) [0..<k])) = k * length names"
    for n :: int and k
    by (induction k) (simp_all add: length_arch_order del: length_concat)
  have "length (concat (map (\<lambda>n. concat (map (\<lambda>repeat. map (\<lambda>name. (n, name, repeat + 1)) (arch_order names repeat)) [0..<k])) ns))
      = length ns * (k * length names)" for ns :: "int list" and k
    by (induction ns) (simp_all only: list.map concat.simps length_append inner list.size mult_Suc mult_0 add_mult_distrib add.commute mult_1)
  then show ?thesis unfolding upload_schedule_def .
qed

text \<open>
  C37: what the audit expects of an upload plan is what the comparison does.  For the body sizes, the
  variants and the repeats of a plan, the expected folder names are exactly the folders of the trials
  that the comparison schedules, in number as well: one per size, variant and repeat.
\<close>

theorem plan_expects_schedule:
  assumes "set names = set variants" and "length names = length variants" and "uc_body_bytes o' = sizes"
    and "uc_repeats o' = repeats" and "0 \<le> repeats"
  shows "set (expected_names sizes variants repeats) = set (map upload_folder (upload_schedule o' names)) \<and>
    int (length (upload_schedule o' names)) = repeats * int (length variants) * int (length sizes)"
proof
  have r: "(\<exists>r \<in> {1..<nat (repeats + 1)}. x = upload_folder (n, v, r)) \<longleftrightarrow> (\<exists>k \<in> {0..<nat repeats}. x = upload_folder (n, v, k + 1))" for x n v
  proof
    assume "\<exists>r \<in> {1..<nat (repeats + 1)}. x = upload_folder (n, v, r)"
    then obtain r where "r \<in> {1..<nat (repeats + 1)}" "x = upload_folder (n, v, r)" ..
    then show "\<exists>k \<in> {0..<nat repeats}. x = upload_folder (n, v, k + 1)" by (intro bexI [of _ "r - 1"]) auto
  next
    assume "\<exists>k \<in> {0..<nat repeats}. x = upload_folder (n, v, k + 1)"
    then obtain k where "k \<in> {0..<nat repeats}" "x = upload_folder (n, v, k + 1)" ..
    then show "\<exists>r \<in> {1..<nat (repeats + 1)}. x = upload_folder (n, v, r)" by (intro bexI [of _ "k + 1"]) auto
  qed
  have "x \<in> set (expected_names sizes variants repeats) \<longleftrightarrow> x \<in> set (map upload_folder (upload_schedule o' names))" for x
  proof -
    have "x \<in> set (expected_names sizes variants repeats) \<longleftrightarrow>
        (\<exists>n \<in> set sizes. \<exists>v \<in> set variants. \<exists>r \<in> {1..<nat (repeats + 1)}. x = upload_folder (n, v, r))"
      by (auto simp: expected_names_def)
    also have "\<dots> \<longleftrightarrow> (\<exists>n \<in> set sizes. \<exists>v \<in> set names. \<exists>k \<in> {0..<nat repeats}. x = upload_folder (n, v, k + 1))"
      using r assms(1) by simp
    also have "\<dots> \<longleftrightarrow> x \<in> set (map upload_folder (upload_schedule o' names))"
      by (auto simp: upload_schedule_def assms(3,4) set_arch_order)
    finally show ?thesis .
  qed
  then show "set (expected_names sizes variants repeats) = set (map upload_folder (upload_schedule o' names))" by blast
  show "int (length (upload_schedule o' names)) = repeats * int (length variants) * int (length sizes)"
    using assms by (simp add: length_upload_schedule)
qed

theorem plan_expects_schedule_witness:
  "set (expected_names [1] [''streaming'', ''go''] 3) = set (map upload_folder (upload_schedule sample_compare [''go'', ''streaming'']))"
proof -
  have "set [''go'', ''streaming''] = set [''streaming'', ''go'']" by auto
  moreover have "uc_body_bytes sample_compare = [1]" "uc_repeats sample_compare = 3" by (simp_all add: sample_compare_def)
  ultimately show ?thesis using plan_expects_schedule [of "[''go'', ''streaming'']" "[''streaming'', ''go'']" sample_compare "[1]" 3] by simp
qed

text \<open>An experiment with one upload run, whose load is that of the sample trial, and a plan that asks for it.\<close>

definition sample_cpu :: "int \<Rightarrow> val" where
  "sample_cpu now = VDict [(''unix_ns'', VInt now), (''server'', VDict [(''cpu_seconds'', VInt now), (''user_seconds'', VInt 0),
      (''system_seconds'', VInt 0), (''minor_faults'', VInt 0), (''VmRSS'', VInt 2097152)])]"

definition sample_audit_run :: val where
  "sample_audit_run = VDict
     [(''outcome'', VStr ''measured''), (''server_exit'', VInt 0), (''variant'', VStr ''streaming''), (''repeat'', VInt 1),
      (''body_bytes'', VInt 1), (''connections'', VInt 2), (''binary_sha256'', VStr ''b''), (''running_binary_sha256'', VStr ''b''),
      (''server_identity'', VDict [(''boot_id'', VStr ''s'')]), (''remote_identity'', VDict [(''boot_id'', VStr ''c'')]),
      (''clock_offset_ns'', VInt 0), (''samples'', VList [sample_cpu 300000000, sample_cpu 600000000]), (''load'', sample_load),
      (''remote_started'', VDict [(''cpus'', VList (map VInt [0, 1, 2, 3, 4, 5, 6, 7])), (''command'', VList [VStr ''-c'', VStr ''x'']),
         (''files'', VDict [(''-request-body'', VDict [(''bytes'', VInt 1), (''sha256'', VStr [CHR 0x00])]),
           (''-expect-body'', VDict [(''bytes'', VInt 11), (''sha256'', VStr sample_expected)])])]),
      (''remote_samples'', VList [VDict [(''host'', sample_counters 0 [])], VDict [(''host'', sample_counters 1 [])]])]"

definition sample_files :: "(string \<times> val) list" where
  "sample_files =
     [(''root/docs/go-after-nginx/build.json'', VDict [(''builds'', VList [VDict [(''binary'', VStr ''zhtps''), (''binary_sha256'', VStr ''b'')]]),
        (''client'', VDict [(''path'', VStr ''load''), (''sha256'', VStr ''x'')])]),
      (''f/g/variants.json'', VDict [(''binaries'', VDict [(''streaming'', VStr ''zhtps'')]), (''sha256'', VDict [(''streaming'', VStr ''b'')]),
        (''client_source_sha256'', VStr ''x'')]),
      (''f/g/n1-streaming-1/run.json'', sample_audit_run),
      (''f/g/n1-streaming-1/summary.json'', VDict [(''cpu_cores'', VFloat 1000000000), (''cpu_us_per_mib'', VFloat 524288000000000000000),
        (''rss_median_mib'', VFloat 2)]),
      (''plan'', VList [VDict [(''label'', VStr ''g''), (''command'', VList (map VStr
        [''--repeats'', ''1'', ''--variants'', ''streaming'', ''--body-bytes'', ''1'']))]])]"

definition sample_py_str :: "val \<Rightarrow> string" where
  "sample_py_str v = (case v of VInt n \<Rightarrow> str_of_int n | VStr s \<Rightarrow> s | _ \<Rightarrow> [])"

definition sample_go_audit :: audit_env where
  "sample_go_audit = \<lparr>ae_read = (\<lambda>p. of_option (OSError p) (map_of sample_files p)),
     ae_bytes = (\<lambda>p. if p = ''zhtps'' then Inr ''b'' else if p = ''f/g/upload_client.py'' then Inr ''x'' else Inr [CHR 0x00]),
     ae_sha256 = (\<lambda>s. s), ae_py_str = sample_py_str, ae_resolve = (\<lambda>p. p), ae_root = ''root''\<rparr>"

theorem go_audit_covers_plan_witness:
  "\<exists>s rows gets report. go_audit_main sample_go_audit [] [] [] ''f'' [(''g'', ''n1-streaming-1'')] None [''plan''] (\<lambda>l. [''n1-streaming-1''])
      = Inr (s, rows, gets, report) \<and> mset (map row_path (s_rows s)) + mset (s_get_checked s) = {#''g/n1-streaming-1/run.json''#}"
proof -
  have "returns (go_audit_main sample_go_audit [] [] [] ''f'' [(''g'', ''n1-streaming-1'')] None [''plan''] (\<lambda>l. [''n1-streaming-1'']))"
    by code_simp
  then obtain s rows gets report where
    run: "go_audit_main sample_go_audit [] [] [] ''f'' [(''g'', ''n1-streaming-1'')] None [''plan''] (\<lambda>l. [''n1-streaming-1'']) = Inr (s, rows, gets, report)"
    by (auto simp: returns_iff)
  have "relative_path (''g'', ''n1-streaming-1'') = ''g/n1-streaming-1/run.json''" by code_simp
  then have "mset (map row_path (s_rows s)) + mset (s_get_checked s) = {#''g/n1-streaming-1/run.json''#}"
    using go_audit_covers_plan [OF run, THEN conjunct2, THEN conjunct1] by simp
  then show ?thesis using run by blast
qed

end
