(* ===== verification/Http2_Remote.thy ===== *)
theory Http2_Remote
  imports Overload_Run "HOL-Library.Multiset"
begin

text \<open>
  \<open>bench/http2_remote.py\<close>: the supervisor of the HTTP/2 load generators on the client machine.  It
  describes the machine, splits connections and CPUs over the generator processes, starts them, and
  relays a barrier protocol: all generators prepared, warmup scheduled, all ready, measurement
  scheduled, all measured, results.  The state of the loop is a record stepped by the events of its
  queue; \<open>h_emitted\<close> is what it has written to the controller.  Files of the kernel are a \<open>tree\<close>; the
  configuration message is a record; \<open>repr\<close> is the text of an exception.  The message of the exception for
  an unknown phase is kept without the phase that follows it.
\<close>

section \<open>The machine\<close>

definition cpu_topology :: "tree \<Rightarrow> int \<Rightarrow> val res" where
  "cpu_topology fs cpu =
     (let folder = slash (''/sys/devices/system/cpu/cpu'' @ str_of_int cpu) ''topology'' in
      listE (mapE (\<lambda>name. bindE (bindE (read_text fs (slash folder name)) py_int) pI) [''physical_package_id'', ''core_id'']))"

fun model_name :: "string list \<Rightarrow> string res" where
  "model_name [] = Inl StopIteration"
| "model_name (line # later) =
     (if startswith line ''model name''
      then (case partition_on CHR '':'' line of (a, found, b) \<Rightarrow> if found then Inr (strip b) else Inl IndexError)
      else model_name later)"

definition stripped :: "tree \<Rightarrow> string \<Rightarrow> val res" where
  "stripped fs p = bindE (read_text fs p) (\<lambda>t. pS (strip t))"

definition h2_identity :: "tree \<Rightarrow> string \<Rightarrow> string \<Rightarrow> string \<Rightarrow> int set \<Rightarrow> int \<times> int \<Rightarrow> val res" where
  "h2_identity fs hostname release machine affinity limit =
     (let cpus = sorted_list_of_set affinity in
      bindE (dictE (map (\<lambda>cpu. (str_of_int cpu, cpu_topology fs cpu)) cpus)) (\<lambda>topology.
      dictE
       [(''hostname'', pS hostname), (''kernel'', pS release), (''machine'', pS machine),
        (''boot_id'', stripped fs ''/proc/sys/kernel/random/boot_id''),
        (''cpu'', bindE (bindE (read_text fs ''/proc/cpuinfo'') (\<lambda>t. model_name (splitlines t))) pS),
        (''allowed_cpus'', Inr (VList (map VInt cpus))), (''topology'', Inr topology),
        (''file_limit'', Inr (VList [VInt (fst limit), VInt (snd limit)])),
        (''memory'', bindE (read_text fs ''/proc/meminfo'') pS),
        (''port_range'', stripped fs ''/proc/sys/net/ipv4/ip_local_port_range'')]))"

text \<open>An optional attribute: a file that cannot be read is left out.\<close>

definition optional_text :: "tree \<Rightarrow> string \<Rightarrow> string \<Rightarrow> (string \<times> val) list \<Rightarrow> (string \<times> val) list" where
  "optional_text fs folder name d =
     (case read_text fs (slash folder name) of Inr t \<Rightarrow> dict_set name (VStr (strip t)) d | Inl _ \<Rightarrow> d)"

definition h2_nic :: "tree \<Rightarrow> string \<Rightarrow> val res" where
  "h2_nic fs nic =
     (let folder = slash ''/sys/class/net'' nic; statistics = slash folder ''statistics'' in
      bindE (fieldsE (map (\<lambda>name. (name, bindE (bindE (read_text fs (slash statistics name)) py_int) pI)) (t_names fs statistics)) []) (\<lambda>d.
      Inr (VDict (fold (optional_text fs folder) [''speed'', ''duplex'', ''mtu''] d))))"

definition has_device :: "tree \<Rightarrow> string \<Rightarrow> bool" where
  "has_device fs nic = tree_exists fs (slash (slash ''/sys/class/net'' nic) ''device'')"

definition diagnostic_sample :: "tree \<Rightarrow> int \<Rightarrow> int \<Rightarrow> int \<Rightarrow> string \<Rightarrow> val res \<Rightarrow> val res" where
  "diagnostic_sample fs started finished code err out =
     dictE
      [(''started_ns'', pI started), (''finished_ns'', pI finished), (''qdisc_exit'', pI code), (''qdisc_stderr'', pS err),
       (''qdiscs'', if code = 0 then out else Inr (VList [])),
       (''softnet'', bindE (read_text fs ''/proc/net/softnet_stat'') pS),
       (''interrupts'', bindE (read_text fs ''/proc/interrupts'') pS), (''stat'', bindE (read_text fs ''/proc/stat'') pS)]"

definition h2_host_sample :: "tree \<Rightarrow> int \<Rightarrow> val res option \<Rightarrow> val res" where
  "h2_host_sample fs now diagnostic =
     bindE (dictE (map (\<lambda>nic. (nic, h2_nic fs nic)) (filter (has_device fs) (t_names fs ''/sys/class/net'')))) (\<lambda>nics.
     dictE
      ([(''unix_ns'', pI now), (''nics'', Inr nics)] @ (case diagnostic of None \<Rightarrow> [] | Some d \<Rightarrow> [(''diagnostic'', d)]) @
       [(''tcp'', bindE (read_text fs ''/proc/net/snmp'') pS), (''netstat'', bindE (read_text fs ''/proc/net/netstat'') pS)]))"

definition missed_nics :: "tree \<Rightarrow> string list res" where
  "missed_nics fs =
     filterE (\<lambda>nic. if has_device fs nic
       then bindE (read_text fs (slash (slash ''/sys/class/net'' nic) ''operstate'')) (\<lambda>t. Inr (strip t = ''up''))
       else Inr False) (t_names fs ''/sys/class/net'')"

definition missed_counters :: "tree \<Rightarrow> string list \<Rightarrow> val res" where
  "missed_counters fs nics =
     dictE (map (\<lambda>nic. (nic, bindE (bindE (read_text fs (slash (slash (slash ''/sys/class/net'' nic) ''statistics'') ''rx_missed_errors'')) py_int) pI)) nics)"

text \<open>One row of the sampler: an unreadable counter is recorded, any other exception ends the sampler.\<close>

definition missed_row :: "(exn \<Rightarrow> string) \<Rightarrow> tree \<Rightarrow> string list \<Rightarrow> int \<Rightarrow> int \<Rightarrow> val res" where
  "missed_row repr fs nics started finished =
     (case missed_counters fs nics of
        Inr c \<Rightarrow> Inr (VDict [(''started_ns'', VInt started), (''counters'', c), (''finished_ns'', VInt finished)])
      | Inl (OSError m) \<Rightarrow> Inr (VDict [(''started_ns'', VInt started), (''error'', VStr (repr (OSError m))), (''finished_ns'', VInt finished)])
      | Inl e \<Rightarrow> Inl e)"

section \<open>Starting the generators\<close>

record h2_config =
  g_folder :: string
  g_binary :: string
  g_binary_sha256 :: string
  g_cpus :: "int list"
  g_processes :: int
  g_connections :: int
  g_streams :: int
  g_url :: string
  g_certificate :: string
  g_duration :: string
  g_warmup :: string
  g_timeout :: string
  g_setup_deadline :: string
  g_setup_concurrency :: string
  g_client_args :: "string list"

text \<open>The messages before the run: the kind of each and the clock when it is read.\<close>

fun h2_initial :: "(val res \<times> int) list \<Rightarrow> (val list \<times> val) res" where
  "h2_initial [] = Inl (ValueError ''Expecting value'')"
| "h2_initial ((m, now) # later) =
     bindE m (\<lambda>message. bindE (idx message ''kind'') (\<lambda>kind.
       if kind = VStr ''clock'' then bindE (h2_initial later) (\<lambda>(es, config). Inr (event ''clock'' [(''unix_ns'', VInt now)] # es, config))
       else if kind = VStr ''run'' then Inr ([], message)
       else Inl (ValueError ''unsupported initial command'')))"

text \<open>\<open>xs[i::k]\<close>\<close>

definition stride :: "nat \<Rightarrow> nat \<Rightarrow> 'a list \<Rightarrow> 'a list" where
  "stride i k xs = map (\<lambda>j. xs ! j) (filter (\<lambda>j. i \<le> j \<and> (j - i) mod k = 0) [0..<length xs])"

definition placements :: "h2_config \<Rightarrow> int list list" where
  "placements g = map (\<lambda>i. stride i (nat (g_processes g)) (g_cpus g)) [0..<nat (g_processes g)]"

definition check_h2_config :: "h2_config \<Rightarrow> string res \<Rightarrow> int set \<Rightarrow> unit res" where
  "check_h2_config g digest affinity =
     bindE digest (\<lambda>d.
     checks
      [ensure (d = g_binary_sha256 g) (ValueError ''client executable hash mismatch''),
       ensure (set (g_cpus g) \<subseteq> affinity) (ValueError ''unavailable client CPUs''),
       ensure (\<forall>p \<in> set (placements g). p \<noteq> []) (ValueError ''empty client CPU placement'')])"

definition share :: "int \<Rightarrow> int \<Rightarrow> nat \<Rightarrow> int" where
  "share connections processes i = connections div processes + (if int i < connections mod processes then 1 else 0)"

definition failures_file :: "nat \<Rightarrow> string" where
  "failures_file i = ''client-'' @ str_of_int (int i) @ ''.failures.jsonl''"

definition h2_command :: "h2_config \<Rightarrow> nat \<Rightarrow> int list \<Rightarrow> string list" where
  "h2_command g i placement =
     [''taskset'', ''-c'', join '','' (map str_of_int placement), g_binary g, ''-url'', g_url g, ''-ca'', g_certificate g,
      ''-connections'', str_of_int (share (g_connections g) (g_processes g) i), ''-streams'', str_of_int (g_streams g),
      ''-duration'', g_duration g @ ''s'', ''-warmup'', g_warmup g @ ''s'', ''-timeout'', g_timeout g @ ''s'',
      ''-setup-deadline'', g_setup_deadline g @ ''s'', ''-setup-concurrency'', g_setup_concurrency g,
      ''-failures'', slash (g_folder g) (failures_file i), ''-synchronize''] @ g_client_args g"

definition h2_commands :: "h2_config \<Rightarrow> string list list" where
  "h2_commands g = map (\<lambda>(i, p). h2_command g i p) (zip [0..<length (placements g)] (placements g))"

definition launched_event :: "h2_config \<Rightarrow> int list \<Rightarrow> val \<Rightarrow> val" where
  "launched_event g pids host =
     event ''launched''
      [(''binary_sha256'', VStr (g_binary_sha256 g)), (''commands'', VList (map (\<lambda>c. VList (map VStr c)) (h2_commands g))),
       (''placements'', VList (map (\<lambda>p. VList (map VInt p)) (placements g))), (''pids'', VList (map VInt pids)), (''host'', host)]"

section \<open>The barrier loop\<close>

datatype h2_event = Client nat val | Control val | Exit nat int | Invalid nat string

text \<open>
  \<open>collect\<close>, the reader thread of generator \<open>i\<close>: every line of its output as a message, then its exit
  status; a line that is not JSON, or an exception of the wait, ends the thread with an \<open>invalid\<close> event.
\<close>

fun h2_collect :: "(exn \<Rightarrow> string) \<Rightarrow> nat \<Rightarrow> val res list \<Rightarrow> int res \<Rightarrow> h2_event list" where
  "h2_collect repr i [] status = [case status of Inr code \<Rightarrow> Exit i code | Inl e \<Rightarrow> Invalid i (repr e)]"
| "h2_collect repr i (Inr v # lines) status = Client i v # h2_collect repr i lines status"
| "h2_collect repr i (Inl e # lines) status = [Invalid i (repr e)]"

record supervisor =
  h_prepared :: "(nat \<times> val) list"
  h_ready :: "(nat \<times> val) list"
  h_measured :: "(nat \<times> val) list"
  h_results :: "(nat \<times> val) list"
  h_exited :: "(nat \<times> int) list"
  h_starts :: "int list"
  h_emitted :: "(string \<times> val) list"

definition new_supervisor :: supervisor where
  "new_supervisor = \<lparr>h_prepared = [], h_ready = [], h_measured = [], h_results = [], h_exited = [], h_starts = [], h_emitted = []\<rparr>"

definition emit :: "string \<Rightarrow> (string \<times> val) list \<Rightarrow> supervisor \<Rightarrow> supervisor" where
  "emit kind kvs s = s\<lparr>h_emitted := h_emitted s @ [(kind, event kind kvs)]\<rparr>"

definition in_order :: "nat \<Rightarrow> (nat \<times> val) list \<Rightarrow> val res" where
  "in_order n d = listE (mapE (\<lambda>i. of_option (KeyError (str_of_int (int i))) (map_of d i)) [0..<n])"

text \<open>When the last of the \<open>n\<close> generators has reported, the reports are relayed in order.\<close>

definition barrier :: "nat \<Rightarrow> string \<Rightarrow> (nat \<times> val) list \<Rightarrow> supervisor \<Rightarrow> supervisor \<times> unit res" where
  "barrier n kind d s =
     (if length d = n
      then (case in_order n d of Inl e \<Rightarrow> (s, Inl e) | Inr clients \<Rightarrow> (emit kind [(''clients'', clients)] s, Inr ()))
      else (s, Inr ()))"

definition client_event :: "nat \<Rightarrow> nat \<Rightarrow> val \<Rightarrow> supervisor \<Rightarrow> supervisor \<times> unit res" where
  "client_event n i v s =
     (case idx v ''phase'' of
        Inl e \<Rightarrow> (s, Inl e)
      | Inr phase \<Rightarrow>
          if phase = VStr ''prepared'' then (let d = dict_set i v (h_prepared s) in barrier n ''prepared'' d (s\<lparr>h_prepared := d\<rparr>))
          else if phase = VStr ''ready'' then (let d = dict_set i v (h_ready s) in barrier n ''ready'' d (s\<lparr>h_ready := d\<rparr>))
          else if phase = VStr ''measured'' then (let d = dict_set i v (h_measured s) in barrier n ''measured'' d (s\<lparr>h_measured := d\<rparr>))
          else if phase = VStr ''result'' then (s\<lparr>h_results := dict_set i v (h_results s)\<rparr>, Inr ())
          else (s, Inl (ValueError ''unknown client phase'')))"

text \<open>\<open>pipes\<close> is the outcome of writing the start time to the generators, which may have closed their input.\<close>

definition control_event :: "nat \<Rightarrow> int \<Rightarrow> unit res \<Rightarrow> val \<Rightarrow> supervisor \<Rightarrow> supervisor \<times> unit res" where
  "control_event n now pipes v s =
     (case idx v ''kind'' of
        Inl e \<Rightarrow> (s, Inl e)
      | Inr phase \<Rightarrow>
          if \<not> (phase = VStr ''warmup'' \<and> length (h_prepared s) = n \<or> phase = VStr ''measure'' \<and> length (h_ready s) = n)
          then (s, Inl (ValueError ''load requested before clients ready''))
          else (let start_ns = now + 500000000 in
            (case pipes of
               Inl e \<Rightarrow> (s, Inl e)
             | Inr _ \<Rightarrow>
                 (emit (if phase = VStr ''measure'' then ''scheduled'' else ''warmup_scheduled'') [(''start_ns'', VInt start_ns)]
                    (s\<lparr>h_starts := h_starts s @ [start_ns]\<rparr>), Inr ()))))"

definition exit_event :: "nat \<Rightarrow> int \<Rightarrow> supervisor \<Rightarrow> supervisor \<times> unit res" where
  "exit_event i code s =
     (s\<lparr>h_exited := dict_set i code (h_exited s)\<rparr>,
      ensure (\<not> (code \<noteq> 0 \<or> map_of (h_results s) i = None))
        (RuntimeError (''client '' @ str_of_int (int i) @ '' exited '' @ str_of_int code @ '' without a complete result'')))"

fun handle_event :: "nat \<Rightarrow> int \<Rightarrow> unit res \<Rightarrow> h2_event option \<Rightarrow> supervisor \<Rightarrow> supervisor \<times> unit res" where
  "handle_event n now pipes None s = (s, Inr ())"
| "handle_event n now pipes (Some (Client i v)) s = client_event n i v s"
| "handle_event n now pipes (Some (Control v)) s = control_event n now pipes v s"
| "handle_event n now pipes (Some (Exit i code)) s = exit_event i code s"
| "handle_event n now pipes (Some (Invalid i m)) s = (s, Inl (RuntimeError (''client '' @ str_of_int (int i) @ '': '' @ m)))"

text \<open>
  One turn: whether the controller is gone (a signal, the end of its input, or 20 seconds of silence),
  whether the deadline has passed, the event taken from the queue, the clock, and a due sample of the
  generators.
\<close>

record h2_turn =
  u_gone :: bool
  u_late :: bool
  u_event :: "h2_event option"
  u_now :: int
  u_pipes :: "unit res"
  u_sample :: "val res option"

definition sample_turn_event :: "h2_turn \<Rightarrow> supervisor \<Rightarrow> supervisor \<times> unit res" where
  "sample_turn_event t s =
     (case u_sample t of
        None \<Rightarrow> (s, Inr ())
      | Some (Inl e) \<Rightarrow> (s, Inl e)
      | Some (Inr v) \<Rightarrow> (emit ''sample'' [(''unix_ns'', VInt (u_now t)), (''clients'', v)] s, Inr ()))"

definition h2_step :: "nat \<Rightarrow> h2_turn \<Rightarrow> supervisor \<Rightarrow> supervisor \<times> unit res" where
  "h2_step n t s =
     (if u_gone t then (s, Inl (RuntimeError ''controller disconnected''))
      else if u_late t then (s, Inl (TimeoutError ''remote trial deadline''))
      else case handle_event n (u_now t) (u_pipes t) (u_event t) s of
        (s', Inl e) \<Rightarrow> (s', Inl e)
      | (s', Inr _) \<Rightarrow> sample_turn_event t s')"

text \<open>\<open>None\<close>: the loop is still running after the observed turns.\<close>

fun supervise :: "nat \<Rightarrow> h2_turn list \<Rightarrow> supervisor \<Rightarrow> (supervisor \<times> unit res) option" where
  "supervise n [] s = (if length (h_exited s) < n then None else Some (s, Inr ()))"
| "supervise n (t # ts) s =
     (if length (h_exited s) < n
      then (case h2_step n t s of (s', Inl e) \<Rightarrow> Some (s', Inl e) | (s', Inr _) \<Rightarrow> supervise n ts s')
      else Some (s, Inr ()))"

definition client_sample :: "tree \<Rightarrow> int \<Rightarrow> int \<Rightarrow> int \<Rightarrow> val res" where
  "client_sample fs hz page pid =
     bindE (bindE (read_text fs (proc_path pid ''stat'')) stat_fields) (\<lambda>fields.
     dictE
      [(''pid'', pI pid),
       (''cpu_seconds'', bindE (int_nth fields 11) (\<lambda>u. bindE (int_nth fields 12) (\<lambda>s. seconds_of hz (u + s)))),
       (''rss_bytes'', bindE (int_nth fields 21) (\<lambda>n. pI (n * page)))])"

text \<open>A generator whose file is gone is left out of the sample.\<close>

definition client_samples :: "tree \<Rightarrow> int \<Rightarrow> int \<Rightarrow> int list \<Rightarrow> val res" where
  "client_samples fs hz page pids =
     listE (foldE (\<lambda>pid rows. case client_sample fs hz page pid of
         Inr v \<Rightarrow> Inr (rows @ [v])
       | Inl (OSError m) \<Rightarrow> Inr rows
       | Inl e \<Rightarrow> Inl e) pids [])"

section \<open>The result\<close>

text \<open>\<open>logs i\<close> are the lines of a generator's failure log.\<close>

definition failure_receipt :: "(string \<Rightarrow> string) \<Rightarrow> (nat \<Rightarrow> string list) \<Rightarrow> supervisor \<Rightarrow> nat \<Rightarrow> val res" where
  "failure_receipt sha256 logs s i =
     bindE (of_option (KeyError (str_of_int (int i))) (map_of (h_results s) i)) (\<lambda>result.
     bindE (neE (pI (int (length (logs i)))) (idx result ''failure_log_entries'')) (\<lambda>differ.
     if differ then Inl (ValueError ''failure log count mismatch'')
     else Inr (VDict [(''path'', VStr (failures_file i @ ''.gz'')), (''entries'', VInt (int (length (logs i)))),
       (''sha256_uncompressed'', VStr (sha256 (concat (logs i))))])))"

definition h2_result :: "(string \<Rightarrow> string) \<Rightarrow> (nat \<Rightarrow> string list) \<Rightarrow> nat \<Rightarrow> val res \<Rightarrow> supervisor \<Rightarrow> supervisor \<times> unit res" where
  "h2_result sha256 logs n host s =
     (case mapE (failure_receipt sha256 logs s) [0..<n] of
        Inl e \<Rightarrow> (s, Inl e)
      | Inr receipts \<Rightarrow>
          (case in_order n (h_results s) of
             Inl e \<Rightarrow> (s, Inl e)
           | Inr shards \<Rightarrow>
               (case host of
                  Inl e \<Rightarrow> (s, Inl e)
                | Inr h \<Rightarrow>
                    (emit ''result''
                      [(''shards'', shards), (''exit_codes'', VDict (map (\<lambda>(i, c). (str_of_int (int i), VInt c)) (h_exited s))),
                       (''failure_logs'', VList receipts), (''host'', h)] s, Inr ()))))"

definition h2_run ::
  "(exn \<Rightarrow> string) \<Rightarrow> (string \<Rightarrow> string) \<Rightarrow> (nat \<Rightarrow> string list) \<Rightarrow> nat \<Rightarrow> h2_turn list \<Rightarrow> val res \<Rightarrow> (supervisor \<times> unit res) option" where
  "h2_run repr sha256 logs n turns host =
     (case supervise n turns new_supervisor of
        None \<Rightarrow> None
      | Some (s, out) \<Rightarrow>
          (case (case out of Inl e \<Rightarrow> (s, Inl e) | Inr _ \<Rightarrow> h2_result sha256 logs n host s) of
             (s', Inr _) \<Rightarrow> Some (s', Inr ())
           | (s', Inl e) \<Rightarrow> Some (emit ''error'' [(''error'', VStr (repr e))] s', Inl e)))"

section \<open>Shutting down\<close>

text \<open>A generator at the end: whether it still runs, and whether it outlives the five seconds after \<open>terminate\<close>.\<close>

datatype stop_signal = Terminate_client nat | Kill_client nat

definition h2_shutdown :: "(bool \<times> bool) list \<Rightarrow> stop_signal list" where
  "h2_shutdown clients =
     (let ics = zip [0..<length clients] clients in
      map (\<lambda>(i, c). Terminate_client i) (filter (\<lambda>(i, (running, stubborn)). running) ics) @
      map (\<lambda>(i, c). Kill_client i) (filter (\<lambda>(i, (running, stubborn)). running \<and> stubborn) ics))"

section \<open>Splitting the work\<close>

lemma mset_classes:
  assumes "\<forall>j \<in> set js. f j < k"
  shows "mset (concat (map (\<lambda>i. filter (\<lambda>j. f j = i) js) [0..<k])) = mset js"
  using assms
proof (induction js)
  case Nil
  then show ?case by (induction k) simp_all
next
  case (Cons a js)
  have "mset (concat (map (\<lambda>i. filter (\<lambda>j. f j = i) (a # js)) is)) =
      mset (concat (map (\<lambda>i. filter (\<lambda>j. f j = i) js) is)) + replicate_mset (count_list is (f a)) a" for "is"
    by (induction "is") auto
  from this [of "[0..<k]"] have "mset (concat (map (\<lambda>i. filter (\<lambda>j. f j = i) (a # js)) [0..<k])) =
      mset (concat (map (\<lambda>i. filter (\<lambda>j. f j = i) js) [0..<k])) + replicate_mset (count_list [0..<k] (f a)) a" .
  moreover have "count_list [0..<m] x = (if x < m then 1 else 0)" for m x
    by (induction m) (auto simp: count_list_append less_Suc_eq)
  ultimately show ?case using Cons by simp
qed

lemma stride_filter: "i < k \<Longrightarrow> stride i k xs = map (\<lambda>j. xs ! j) (filter (\<lambda>j. j mod k = i) [0..<length xs])"
proof -
  assume i: "i < k"
  have "(i \<le> j \<and> (j - i) mod k = 0) \<longleftrightarrow> j mod k = i" for j
  proof
    assume "i \<le> j \<and> (j - i) mod k = 0"
    then have "(i + (j - i)) mod k = i mod k" by (metis add.right_neutral mod_add_right_eq)
    then show "j mod k = i" using \<open>i \<le> j \<and> (j - i) mod k = 0\<close> i by simp
  next
    assume j: "j mod k = i"
    then have "i \<le> j" by (metis mod_less_eq_dividend)
    moreover have "(j - i) mod k = 0" using j by (metis minus_mod_eq_mult_div mod_mult_self1_is_0)
    ultimately show "i \<le> j \<and> (j - i) mod k = 0" ..
  qed
  then show ?thesis by (simp add: stride_def)
qed

lemma mset_strides: "0 < k \<Longrightarrow> mset (concat (map (\<lambda>i. stride i k xs) [0..<k])) = mset xs"
proof -
  assume k: "0 < k"
  have "concat (map (\<lambda>i. stride i k xs) [0..<k]) = map (\<lambda>j. xs ! j) (concat (map (\<lambda>i. filter (\<lambda>j. j mod k = i) [0..<length xs]) [0..<k]))"
    by (simp add: map_concat comp_def, intro arg_cong [of _ _ concat] map_cong) (simp_all add: stride_filter)
  then have "mset (concat (map (\<lambda>i. stride i k xs) [0..<k])) = image_mset (\<lambda>j. xs ! j) (mset [0..<length xs])"
    using mset_classes [of "[0..<length xs]" "\<lambda>j. j mod k" k] k by simp
  also have "\<dots> = mset xs" by (metis map_nth mset_map)
  finally show ?thesis .
qed

lemma sum_shares:
  assumes "0 < p"
  shows "sum_list (map (share c p) [0..<nat p]) = c"
proof -
  have "sum_list (map (share c p) [0..<m]) = int m * (c div p) + min (int m) (c mod p)" for m
  proof (induction m)
    case (Suc m)
    have "0 \<le> c mod p" using assms by simp
    then show ?case using Suc by (auto simp: share_def algebra_simps min_def)
  qed (use assms in simp)
  from this [of "nat p"] have "sum_list (map (share c p) [0..<nat p]) = p * (c div p) + min p (c mod p)" using assms by simp
  moreover have "c mod p < p" using assms by simp
  ultimately show ?thesis by (simp add: min_absorb2)
qed

text \<open>
  C34: the supervisor loses no connection and no CPU: the generators' shares of the connections add up
  to the requested number and differ by at most one, and their CPU placements together are the
  requested CPUs, each used as often as it was requested, so distinct CPUs give disjoint placements.
\<close>

theorem placements_partition:
  assumes "0 < g_processes g" and "0 \<le> g_connections g"
  shows "mset (concat (placements g)) = mset (g_cpus g) \<and> int (length (placements g)) = g_processes g \<and>
    sum_list (map (share (g_connections g) (g_processes g)) [0..<length (placements g)]) = g_connections g \<and>
    (\<forall>i j. \<bar>share (g_connections g) (g_processes g) i - share (g_connections g) (g_processes g) j\<bar> \<le> 1)"
  using assms mset_strides [of "nat (g_processes g)" "g_cpus g"] sum_shares [of "g_processes g" "g_connections g"]
  by (simp add: placements_def share_def)

definition sample_config :: h2_config where
  "sample_config = \<lparr>g_folder = ''f'', g_binary = ''b'', g_binary_sha256 = ''x'', g_cpus = [4, 5, 6, 7, 8], g_processes = 2, g_connections = 7,
     g_streams = 1, g_url = ''u'', g_certificate = ''c'', g_duration = ''1'', g_warmup = ''1'', g_timeout = ''1'', g_setup_deadline = ''1'',
     g_setup_concurrency = ''1'', g_client_args = []\<rparr>"

theorem placements_partition_witness:
  "placements sample_config = [[4, 6, 8], [5, 7]] \<and> mset (concat (placements sample_config)) = mset [4, 5, 6, 7, 8]"
proof -
  have p: "placements sample_config = [[4, 6, 8], [5, 7]]" by code_simp
  have "0 < g_processes sample_config" "0 \<le> g_connections sample_config" by (simp_all add: sample_config_def)
  from placements_partition [OF this] show ?thesis using p by (simp add: sample_config_def)
qed

section \<open>The protocol\<close>

definition kinds :: "supervisor \<Rightarrow> string list" where
  "kinds s = map fst (h_emitted s)"

text \<open>Every \<open>b\<close> in a trace comes after an \<open>a\<close>.\<close>

definition precedes :: "string \<Rightarrow> string \<Rightarrow> string list \<Rightarrow> bool" where
  "precedes a b ks \<longleftrightarrow> (\<forall>i < length ks. ks ! i = b \<longrightarrow> a \<in> set (take i ks))"

lemma precedes_Nil [simp]: "precedes a b []"
  by (simp add: precedes_def)

lemma precedes_snoc [simp]: "precedes a b (ks @ [k]) \<longleftrightarrow> precedes a b ks \<and> (k = b \<longrightarrow> a \<in> set ks)"
  by (auto simp: precedes_def nth_append less_Suc_eq)

lemma kinds_emit [simp]: "kinds (emit k kvs s) = kinds s @ [k]"
  by (simp add: kinds_def emit_def)

lemma kinds_update [simp]:
  "kinds (s\<lparr>h_prepared := d\<rparr>) = kinds s" "kinds (s\<lparr>h_ready := d\<rparr>) = kinds s" "kinds (s\<lparr>h_measured := d\<rparr>) = kinds s"
  "kinds (s\<lparr>h_results := d\<rparr>) = kinds s" "kinds (s\<lparr>h_exited := x\<rparr>) = kinds s" "kinds (s\<lparr>h_starts := y\<rparr>) = kinds s"
  by (simp_all add: kinds_def)

definition loop_kinds :: "string set" where
  "loop_kinds = {''prepared'', ''ready'', ''measured'', ''scheduled'', ''warmup_scheduled'', ''sample''}"

text \<open>What every trace satisfies, even after an exception; and what holds as long as the loop goes on.\<close>

definition trace_ok :: "supervisor \<Rightarrow> bool" where
  "trace_ok s \<longleftrightarrow> precedes ''prepared'' ''warmup_scheduled'' (kinds s) \<and> precedes ''ready'' ''scheduled'' (kinds s) \<and> set (kinds s) \<subseteq> loop_kinds"

definition going :: "nat \<Rightarrow> supervisor \<Rightarrow> bool" where
  "going n s \<longleftrightarrow> trace_ok s \<and> (length (h_prepared s) = n \<longrightarrow> ''prepared'' \<in> set (kinds s)) \<and>
     (length (h_ready s) = n \<longrightarrow> ''ready'' \<in> set (kinds s)) \<and>
     (\<forall>i code. map_of (h_exited s) i = Some code \<longrightarrow> code = 0 \<and> map_of (h_results s) i \<noteq> None)"

definition stepped :: "nat \<Rightarrow> supervisor \<times> unit res \<Rightarrow> bool" where
  "stepped n r \<longleftrightarrow> trace_ok (fst r) \<and> (snd r = Inr () \<longrightarrow> going n (fst r))"

lemmas protocol_defs = stepped_def going_def trace_ok_def loop_kinds_def

lemma emit_fields [simp]:
  "h_prepared (emit k kvs s) = h_prepared s" "h_ready (emit k kvs s) = h_ready s" "h_measured (emit k kvs s) = h_measured s"
  "h_results (emit k kvs s) = h_results s" "h_exited (emit k kvs s) = h_exited s" "h_starts (emit k kvs s) = h_starts s"
  by (simp_all add: emit_def)

lemma loop_kinds_mem [simp]:
  "''prepared'' \<in> loop_kinds" "''ready'' \<in> loop_kinds" "''measured'' \<in> loop_kinds"
  "''scheduled'' \<in> loop_kinds" "''warmup_scheduled'' \<in> loop_kinds" "''sample'' \<in> loop_kinds"
  by (simp_all add: loop_kinds_def)

lemma trace_ok_emit [simp]:
  "trace_ok (emit k kvs s) \<longleftrightarrow> trace_ok s \<and> k \<in> loop_kinds \<and> (k = ''warmup_scheduled'' \<longrightarrow> ''prepared'' \<in> set (kinds s)) \<and>
     (k = ''scheduled'' \<longrightarrow> ''ready'' \<in> set (kinds s))"
  by (auto simp: trace_ok_def)

lemma trace_ok_update [simp]:
  "trace_ok (s\<lparr>h_prepared := d\<rparr>) = trace_ok s" "trace_ok (s\<lparr>h_ready := d\<rparr>) = trace_ok s" "trace_ok (s\<lparr>h_measured := d\<rparr>) = trace_ok s"
  "trace_ok (s\<lparr>h_results := d\<rparr>) = trace_ok s" "trace_ok (s\<lparr>h_exited := x\<rparr>) = trace_ok s" "trace_ok (s\<lparr>h_starts := y\<rparr>) = trace_ok s"
  by (simp_all add: trace_ok_def)

lemma barrier_cases:
  obtains (raised) e where "barrier n kind d s = (s, Inl e)"
    | (waiting) "length d \<noteq> n" and "barrier n kind d s = (s, Inr ())"
    | (complete) kvs where "barrier n kind d s = (emit kind kvs s, Inr ())"
  by (cases "length d = n"; cases "in_order n d") (auto simp: barrier_def)

lemma barrier_prepared: "going n s \<Longrightarrow> stepped n (barrier n ''prepared'' d (s\<lparr>h_prepared := d\<rparr>))"
  by (cases n "''prepared''" d "s\<lparr>h_prepared := d\<rparr>" rule: barrier_cases) (simp_all add: stepped_def going_def)

lemma barrier_ready: "going n s \<Longrightarrow> stepped n (barrier n ''ready'' d (s\<lparr>h_ready := d\<rparr>))"
  by (cases n "''ready''" d "s\<lparr>h_ready := d\<rparr>" rule: barrier_cases) (simp_all add: stepped_def going_def)

lemma barrier_measured: "going n s \<Longrightarrow> stepped n (barrier n ''measured'' d (s\<lparr>h_measured := d\<rparr>))"
  by (cases n "''measured''" d "s\<lparr>h_measured := d\<rparr>" rule: barrier_cases) (simp_all add: stepped_def going_def)

lemma result_stepped: "going n s \<Longrightarrow> stepped n (s\<lparr>h_results := dict_set i v (h_results s)\<rparr>, Inr ())"
  by (auto simp: stepped_def going_def map_of_dict_set)

lemma going_stepped: "going n s \<Longrightarrow> stepped n (s, out)"
  by (simp add: stepped_def going_def)

lemma client_event_stepped: "going n s \<Longrightarrow> stepped n (client_event n i v s)"
  unfolding client_event_def Let_def
  by (simp add: going_stepped barrier_prepared barrier_ready barrier_measured result_stepped split: sum.split)

lemma control_event_stepped:
  assumes "going n s"
  shows "stepped n (control_event n now pipes v s)"
proof (cases "idx v ''kind''")
  case (Inl e)
  then show ?thesis using going_stepped [OF assms] by (simp add: control_event_def)
next
  case (Inr phase)
  consider "phase = VStr ''warmup'' \<and> length (h_prepared s) = n" | "phase = VStr ''measure'' \<and> length (h_ready s) = n"
    | "\<not> (phase = VStr ''warmup'' \<and> length (h_prepared s) = n \<or> phase = VStr ''measure'' \<and> length (h_ready s) = n)" by blast
  then show ?thesis
  proof cases
    case 3
    then show ?thesis using Inr going_stepped [OF assms] by (simp add: control_event_def)
  qed (use Inr assms in \<open>simp_all add: control_event_def stepped_def going_def Let_def split: sum.split\<close>)
qed

lemma exit_event_stepped: "going n s \<Longrightarrow> stepped n (exit_event i code s)"
  unfolding exit_event_def ensure_def by (simp add: stepped_def going_def map_of_dict_set)

lemma handle_event_stepped: "going n s \<Longrightarrow> stepped n (handle_event n now pipes ev s)"
  by (induction n now pipes ev s rule: handle_event.induct)
    (simp_all add: client_event_stepped control_event_stepped exit_event_stepped going_stepped)

lemma h2_step_stepped:
  assumes "going n s"
  shows "stepped n (h2_step n t s)"
proof (cases "u_gone t \<or> u_late t")
  case True
  then show ?thesis using assms by (auto simp: h2_step_def stepped_def going_def)
next
  case False
  obtain s' out where step: "handle_event n (u_now t) (u_pipes t) (u_event t) s = (s', out)" by (cases "handle_event n (u_now t) (u_pipes t) (u_event t) s")
  have handled: "stepped n (s', out)" using handle_event_stepped [OF assms] step by metis
  show ?thesis
  proof (cases out)
    case (Inl e)
    then show ?thesis using False step handled by (simp add: h2_step_def)
  next
    case (Inr u)
    then have "going n s'" using handled by (simp add: stepped_def)
    then have "stepped n (sample_turn_event t s')"
      by (simp add: sample_turn_event_def going_stepped split: option.split sum.split) (simp add: stepped_def going_def)
    then show ?thesis using False step Inr by (simp add: h2_step_def)
  qed
qed

lemma supervise_protocol:
  assumes "supervise n ts s = Some (s', out)" and "going n s"
  shows "trace_ok s' \<and> (out = Inr () \<longrightarrow> going n s' \<and> n \<le> length (h_exited s'))"
  using assms
proof (induction ts arbitrary: s)
  case Nil
  then show ?case by (auto simp: going_def split: if_splits)
next
  case (Cons t ts)
  show ?case
  proof (cases "length (h_exited s) < n")
    case True
    obtain s1 r where step: "h2_step n t s = (s1, r)" by (cases "h2_step n t s")
    have stepped: "stepped n (s1, r)" using h2_step_stepped [OF Cons.prems(2)] step by metis
    show ?thesis
    proof (cases r)
      case (Inl e)
      then show ?thesis using Cons.prems(1) True step stepped by (auto simp: stepped_def)
    next
      case (Inr u)
      then show ?thesis using Cons.IH [of s1] Cons.prems(1) True step stepped by (simp add: stepped_def)
    qed
  next
    case False
    then show ?thesis using Cons.prems by (auto simp: going_def)
  qed
qed

definition exit_of :: "h2_turn \<Rightarrow> nat \<Rightarrow> bool" where
  "exit_of t i \<longleftrightarrow> (\<exists>code. u_event t = Some (Exit i code))"

lemma sample_turn_event_exited: "sample_turn_event t s = (s', out) \<Longrightarrow> h_exited s' = h_exited s"
  by (auto simp: sample_turn_event_def split: option.splits sum.splits)

lemma barrier_exited: "barrier n kind d s = (s', out) \<Longrightarrow> h_exited s' = h_exited s"
  by (cases n kind d s rule: barrier_cases) auto

lemma client_event_exited: "client_event n i v s = (s', out) \<Longrightarrow> h_exited s' = h_exited s"
  by (auto simp: client_event_def Let_def dest: barrier_exited split: sum.splits if_splits)

lemma control_event_exited: "control_event n now pipes v s = (s', out) \<Longrightarrow> h_exited s' = h_exited s"
  by (auto simp: control_event_def Let_def split: sum.splits if_splits)

lemma handle_event_exited:
  assumes "handle_event n now pipes ev s = (s', out)"
  shows "h_exited s' = (case ev of Some (Exit i code) \<Rightarrow> dict_set i code (h_exited s) | _ \<Rightarrow> h_exited s)"
  using assms
  by (cases "(n, now, pipes, ev, s)" rule: handle_event.cases)
    (auto simp: exit_event_def dest: client_event_exited control_event_exited)

text \<open>A turn that does not raise adds exactly the generator it has seen exit.\<close>

lemma h2_step_exited:
  assumes "h2_step n t s = (s', Inr u)"
  shows "h_exited s' = (case u_event t of Some (Exit i code) \<Rightarrow> dict_set i code (h_exited s) | _ \<Rightarrow> h_exited s)"
proof -
  obtain s1 r where step: "handle_event n (u_now t) (u_pipes t) (u_event t) s = (s1, r)"
    by (cases "handle_event n (u_now t) (u_pipes t) (u_event t) s")
  have "sample_turn_event t s1 = (s', Inr u)" using assms step by (auto simp: h2_step_def split: if_splits sum.splits)
  then show ?thesis using handle_event_exited [OF step] sample_turn_event_exited [of t s1 s'] by simp
qed

text \<open>The exit codes are kept per generator, and only generators the turns name have one.\<close>

lemma supervise_exited:
  assumes "supervise n ts s = Some (s', Inr u)" and "\<forall>t \<in> set ts. \<forall>i. exit_of t i \<longrightarrow> i < n"
    and "distinct (map fst (h_exited s))" and "fst ` set (h_exited s) \<subseteq> {..<n}"
  shows "distinct (map fst (h_exited s')) \<and> fst ` set (h_exited s') \<subseteq> {..<n}"
  using assms
proof (induction ts arbitrary: s)
  case Nil
  then show ?case by (auto split: if_splits)
next
  case (Cons t ts)
  show ?case
  proof (cases "length (h_exited s) < n")
    case True
    then obtain s1 u1 where step: "h2_step n t s = (s1, Inr u1)" and rest: "supervise n ts s1 = Some (s', Inr u)"
      using Cons.prems(1) by (auto split: prod.splits sum.splits)
    have exits: "exit_of t i \<Longrightarrow> i < n" for i using Cons.prems(2) by simp
    have "distinct (map fst (h_exited s1)) \<and> fst ` set (h_exited s1) \<subseteq> {..<n}"
      using h2_step_exited [OF step] Cons.prems(3,4) exits
      by (auto simp: exit_of_def dict_set_distinct dict_set_keys [unfolded set_map] split: option.splits h2_event.splits)
    then show ?thesis using Cons.IH [OF rest] Cons.prems(2) by simp
  next
    case False
    then show ?thesis using Cons.prems by simp
  qed
qed

lemma going_new: "0 < n \<Longrightarrow> going n new_supervisor"
  by (simp add: going_def trace_ok_def new_supervisor_def kinds_def)

lemma h2_result_cases:
  obtains (raised) e where "h2_result sha256 logs n host s = (s, Inl e)"
    | (complete) kvs receipts where "h2_result sha256 logs n host s = (emit ''result'' kvs s, Inr ())"
        and "mapE (failure_receipt sha256 logs s) [0..<n] = Inr receipts"
  by (cases "mapE (failure_receipt sha256 logs s) [0..<n]"; cases "in_order n (h_results s)"; cases host)
    (auto simp: h2_result_def)

text \<open>The trace up to its last event, which is \<open>final\<close>.\<close>

definition closes :: "string \<Rightarrow> string list \<Rightarrow> bool" where
  "closes final ks \<longleftrightarrow> (\<exists>pre. ks = pre @ [final] \<and> set pre \<subseteq> loop_kinds \<and> precedes ''prepared'' ''warmup_scheduled'' pre \<and>
     precedes ''ready'' ''scheduled'' pre)"

lemma closes_emit: "trace_ok s \<Longrightarrow> closes k (kinds s @ [k])"
  by (auto simp: closes_def trace_ok_def)

definition all_completed :: "nat \<Rightarrow> supervisor \<Rightarrow> bool" where
  "all_completed n s \<longleftrightarrow> (\<forall>i < n. map_of (h_exited s) i = Some 0 \<and> map_of (h_results s) i \<noteq> None)"

lemma going_completed:
  assumes "going n s" and "n \<le> length (h_exited s)"
    and "distinct (map fst (h_exited s))" and "fst ` set (h_exited s) \<subseteq> {..<n}"
  shows "all_completed n s"
proof -
  have "card {..<n} \<le> card (fst ` set (h_exited s))"
    using assms(2) distinct_card [OF assms(3)] by simp
  then have keys: "fst ` set (h_exited s) = {..<n}" by (intro card_seteq) (use assms(4) in simp_all)
  have "\<exists>code. map_of (h_exited s) i = Some code" if "i < n" for i
    using that keys map_of_eq_None_iff [of "h_exited s" i] by (cases "map_of (h_exited s) i") auto
  then show ?thesis using assms(1) unfolding all_completed_def going_def by blast
qed

text \<open>
  The events that can reach the queue: control messages, and what the reader threads of the \<open>n\<close> started
  generators put there; \<open>lines i\<close> and \<open>status i\<close> are the output and the exit status of generator \<open>i\<close>.
\<close>

definition delivered :: "(exn \<Rightarrow> string) \<Rightarrow> nat \<Rightarrow> (nat \<Rightarrow> val res list) \<Rightarrow> (nat \<Rightarrow> int res) \<Rightarrow> h2_turn \<Rightarrow> bool" where
  "delivered repr n lines status t \<longleftrightarrow>
     (case u_event t of
        None \<Rightarrow> True
      | Some (Control v) \<Rightarrow> True
      | Some ev \<Rightarrow> list_ex (\<lambda>i. ev \<in> set (h2_collect repr i (lines i) (status i))) [0..<n])"

lemma h2_collect_index: "Exit j code \<in> set (h2_collect repr i lines status) \<Longrightarrow> j = i"
  by (induction repr i lines status rule: h2_collect.induct) (auto split: sum.splits)

lemma delivered_exit: "delivered repr n lines status t \<Longrightarrow> exit_of t i \<Longrightarrow> i < n"
  by (auto simp: delivered_def exit_of_def list_ex_iff dest!: h2_collect_index)

text \<open>
  C5: the supervisor keeps the barrier protocol on every sequence of events that control messages and
  the reader threads of the started generators can put in the queue, late, repeated or malformed ones
  included.  In what it writes to the controller every scheduled warmup comes after all generators were
  prepared and every scheduled measurement after all were ready; the trace ends with exactly one closing
  event, \<open>result\<close> when the run succeeds and \<open>error\<close> when it raises; and a result is written only when each
  of the \<open>n\<close> generators has exited with code 0 and has delivered its own result.
\<close>

theorem h2_run_protocol:
  assumes "h2_run repr sha256 logs n turns host = Some (s, out)" and "0 < n"
    and "\<forall>t \<in> set turns. delivered repr n lines status t"
  shows "(case out of Inr _ \<Rightarrow> closes ''result'' (kinds s) \<and> all_completed n s | Inl _ \<Rightarrow> closes ''error'' (kinds s))"
proof -
  obtain s1 r where loop: "supervise n turns new_supervisor = Some (s1, r)"
    using assms(1) by (auto simp: h2_run_def split: option.splits)
  have kept: "trace_ok s1 \<and> (r = Inr () \<longrightarrow> going n s1 \<and> n \<le> length (h_exited s1))"
    by (rule supervise_protocol [OF loop going_new [OF assms(2)]])
  show ?thesis
  proof (cases r)
    case (Inl e)
    then show ?thesis using assms(1) loop kept by (auto simp: h2_run_def closes_emit)
  next
    case (Inr u)
    have exits: "\<forall>t \<in> set turns. \<forall>i. exit_of t i \<longrightarrow> i < n" using assms(3) delivered_exit by blast
    have keys: "distinct (map fst (h_exited s1)) \<and> fst ` set (h_exited s1) \<subseteq> {..<n}"
      by (rule supervise_exited [OF loop [unfolded Inr] exits]) (simp_all add: new_supervisor_def)
    show ?thesis
    proof (cases sha256 logs n host s1 rule: h2_result_cases)
      case (raised e)
      then show ?thesis using assms(1) loop Inr kept by (auto simp: h2_run_def closes_emit)
    next
      case (complete kvs receipts)
      have "all_completed n (emit ''result'' kvs s1)"
        using kept Inr keys going_completed [of n s1] by (simp add: all_completed_def)
      then show ?thesis using assms(1) loop Inr kept complete(1) by (auto simp: h2_run_def closes_emit)
    qed
  qed
qed

definition h2_sample_turn :: "h2_event \<Rightarrow> h2_turn" where
  "h2_sample_turn ev = \<lparr>u_gone = False, u_late = False, u_event = Some ev, u_now = 7, u_pipes = Inr (), u_sample = None\<rparr>"

definition h2_sample_phase :: "string \<Rightarrow> h2_event" where
  "h2_sample_phase phase = Client 0 (VDict [(''phase'', VStr phase), (''failure_log_entries'', VInt 0)])"

definition sample_kind :: "string \<Rightarrow> h2_event" where
  "sample_kind kind = Control (VDict [(''kind'', VStr kind)])"

definition h2_sample_turns :: "h2_turn list" where
  "h2_sample_turns = map h2_sample_turn
     [h2_sample_phase ''prepared'', sample_kind ''warmup'', h2_sample_phase ''ready'', sample_kind ''measure'', h2_sample_phase ''measured'',
      h2_sample_phase ''result'', Exit 0 0]"

definition sample_lines :: "val res list" where
  "sample_lines = map (\<lambda>phase. Inr (VDict [(''phase'', VStr phase), (''failure_log_entries'', VInt 0)]))
     [''prepared'', ''ready'', ''measured'', ''result'']"

definition sample_outcome :: "(supervisor \<times> unit res) option" where
  "sample_outcome = h2_run (\<lambda>e. ''e'') (\<lambda>t. t) (\<lambda>i. []) 1 h2_sample_turns (Inr VNone)"

theorem h2_run_protocol_witness:
  "map_option (\<lambda>(s, out). (kinds s, out)) sample_outcome =
     Some ([''prepared'', ''warmup_scheduled'', ''ready'', ''scheduled'', ''measured'', ''result''], Inr ()) \<and>
   closes ''result'' (kinds (fst (the sample_outcome)))"
proof -
  have run: "map_option (\<lambda>(s, out). (kinds s, out)) sample_outcome =
     Some ([''prepared'', ''warmup_scheduled'', ''ready'', ''scheduled'', ''measured'', ''result''], Inr ())" by code_simp
  then obtain s where s: "sample_outcome = Some (s, Inr ())" by (auto split: prod.splits)
  have "\<forall>t \<in> set h2_sample_turns. delivered (\<lambda>e. ''e'') 1 (\<lambda>i. sample_lines) (\<lambda>i. Inr 0) t" by code_simp
  from h2_run_protocol [OF s [unfolded sample_outcome_def] _ this] have "closes ''result'' (kinds s)" by simp
  with run show ?thesis by (simp add: s)
qed

section \<open>The loop ends\<close>

lemma supervise_ends:
  assumes "distinct (map fst (h_exited s))"
    and "\<forall>i < n. i \<in> fst ` set (h_exited s) \<or> (\<exists>t \<in> set ts. exit_of t i)"
  shows "supervise n ts s \<noteq> None"
  using assms
proof (induction ts arbitrary: s)
  case Nil
  then have "{..<n} \<subseteq> set (map fst (h_exited s))" by auto
  then have "card {..<n} \<le> card (set (map fst (h_exited s)))" by (intro card_mono) simp_all
  then show ?case using distinct_card [OF Nil.prems(1)] by simp
next
  case (Cons t ts)
  obtain s1 r where step: "h2_step n t s = (s1, r)" by (cases "h2_step n t s")
  show ?case
  proof (cases r)
    case (Inr u)
    have "distinct (map fst (h_exited s1)) \<and> (\<forall>i < n. i \<in> fst ` set (h_exited s1) \<or> (\<exists>t \<in> set ts. exit_of t i))"
      using h2_step_exited [OF step [unfolded Inr]] Cons.prems
      by (auto simp: exit_of_def dict_set_distinct dict_set_keys [unfolded set_map] split: option.splits h2_event.splits)
    then show ?thesis using Cons.IH [of s1] step Inr by simp
  qed (use step in simp)
qed

text \<open>
  C17: the supervisor does not wait for ever: as soon as every generator has been seen to exit, in any
  order, with any code and whatever else arrived in between, the run has returned.
\<close>

theorem h2_run_ends:
  assumes "\<forall>i < n. \<exists>t \<in> set turns. exit_of t i"
  shows "\<exists>s out. h2_run repr sha256 logs n turns host = Some (s, out)"
proof -
  have "supervise n turns new_supervisor \<noteq> None" by (rule supervise_ends) (use assms in \<open>simp_all add: new_supervisor_def\<close>)
  then obtain s r where "supervise n turns new_supervisor = Some (s, r)" by auto
  then show ?thesis by (auto simp: h2_run_def split: sum.split prod.split)
qed

theorem h2_run_ends_witness:
  "exit_of (h2_sample_turn (Exit 0 1)) 0 \<and> exit_of (h2_sample_turn (Exit 1 0)) 1 \<and>
   (\<exists>s out. h2_run (\<lambda>e. ''e'') (\<lambda>t. t) (\<lambda>i. []) 2 [h2_sample_turn (Exit 1 0), h2_sample_turn (Exit 0 1)] (Inr VNone) = Some (s, out))"
proof -
  have "\<forall>i < 2. \<exists>t \<in> set [h2_sample_turn (Exit 1 0), h2_sample_turn (Exit 0 1)]. exit_of t i"
    by (auto simp: exit_of_def h2_sample_turn_def less_2_cases_iff)
  from h2_run_ends [OF this] show ?thesis by (auto simp: exit_of_def h2_sample_turn_def)
qed

end
