(* ===== verification/Audit_Http2_Lan.thy ===== *)
theory Audit_Http2_Lan
  imports Audit_Upload Http2_Remote
begin

text \<open>
  \<open>bench/audit_http2_lan.py\<close>: the audit of the HTTP/2 trials between two machines against every retained
  client failure record.  \<open>expected_trials\<close> is the matrix the arguments ask for; \<open>lan_shard\<close> audits one
  generator's result and failure log, \<open>lan_run\<close> one trial, \<open>lan_audit\<close> the report.  A \<open>Counter\<close> is a list of
  keys and counts in insertion order.  \<open>la_read\<close> is a parsed JSON file, \<open>la_gzip\<close> the lines of a
  compressed log, \<open>la_loads\<close> the JSON parser, \<open>la_str\<close> the text of a value.
\<close>

section \<open>Counters\<close>

type_synonym counter = "(val \<times> val) list"

definition phases :: "string list" where
  "phases = [''setup'', ''holding'', ''warmup'', ''measurement'']"

definition counter_get :: "counter \<Rightarrow> val \<Rightarrow> val" where
  "counter_get c k = (case kdict_get k c of Some v \<Rightarrow> v | None \<Rightarrow> VInt 0)"

text \<open>\<open>c[k] += n\<close>\<close>

definition counter_add :: "val \<Rightarrow> val \<Rightarrow> counter \<Rightarrow> counter res" where
  "counter_add k n c = (if hashable k then bindE (py_add (counter_get c k) n) (\<lambda>v. kdict_set k v c) else Inl TypeError)"

text \<open>\<open>c.update(mapping)\<close>: an empty counter takes the mapping as it is, another one adds its counts.\<close>

definition counter_merge :: "counter \<Rightarrow> counter \<Rightarrow> counter res" where
  "counter_merge mapping c =
     (if c = [] then foldE (\<lambda>(k, n). kdict_set k n) mapping []
      else foldE (\<lambda>(k, n) c. bindE (py_add n (counter_get c k)) (\<lambda>v. kdict_set k v c)) mapping c)"

definition str_keys :: "(string \<times> val) list \<Rightarrow> counter" where
  "str_keys kvs = map (\<lambda>(k, n). (VStr k, n)) kvs"

text \<open>\<open>Counter(v)\<close>\<close>

definition counter_of :: "val \<Rightarrow> counter res" where
  "counter_of v =
     (case v of
        VNone \<Rightarrow> Inr []
      | VDict d \<Rightarrow> Inr (str_keys d)
      | _ \<Rightarrow> bindE (elems v) (\<lambda>xs. foldE (\<lambda>x. counter_add x (VInt 1)) xs []))"

text \<open>Two counters are equal when every count agrees, a missing key counting 0.\<close>

definition counter_eq :: "counter \<Rightarrow> counter \<Rightarrow> bool" where
  "counter_eq a b \<longleftrightarrow> (\<forall>(k, n) \<in> set (a @ b). py_eq (counter_get a k) (counter_get b k))"

definition counter_total :: "counter \<Rightarrow> val res" where
  "counter_total c = py_sum (map snd c)"

fun percentile_scan :: "counter \<Rightarrow> val \<Rightarrow> val list \<Rightarrow> val \<Rightarrow> val res" where
  "percentile_scan h target [] cumulative = Inl (AssertionError ''missing percentile'')"
| "percentile_scan h target (b # bs) cumulative =
     bindE (py_add cumulative (counter_get h b)) (\<lambda>c.
     bindE (py_le target c) (\<lambda>reached. if reached then py_truediv b (VInt 1000) else percentile_scan h target bs c))"

definition lan_percentile :: "counter \<Rightarrow> int \<Rightarrow> val res" where
  "lan_percentile h percent =
     bindE (counter_total h) (\<lambda>total.
     if \<not> truthy total then Inr VNone
     else
      bindE (addE (bindE (mulE (subE (Inr total) (pI 1)) (pI percent)) (\<lambda>v. py_floordiv v (VInt 100))) (pI 1)) (\<lambda>target.
      bindE (py_sorted (map fst h)) (\<lambda>bs. percentile_scan h target bs (VInt 0))))"

section \<open>The expected trials\<close>

record lan_env =
  la_read :: "string \<Rightarrow> val res"
  la_gzip :: "string \<Rightarrow> string list res"
  la_loads :: "string \<Rightarrow> val res"
  la_sha256 :: "string \<Rightarrow> string"
  la_str :: "val \<Rightarrow> string"

definition arg_ints :: "val \<Rightarrow> string \<Rightarrow> int list res" where
  "arg_ints args k = bindE (bindE (idx args k) str_val) (\<lambda>t. mapE py_int (split_on CHR '','' t))"

definition excluded :: "bool \<Rightarrow> int \<Rightarrow> int \<Rightarrow> bool" where
  "excluded variants workers connections \<longleftrightarrow> variants \<and> connections > workers * 8176"

definition trial_servers :: "bool \<Rightarrow> int \<Rightarrow> string list \<Rightarrow> string list" where
  "trial_servers variants workers servers = filter (\<lambda>s. variants \<or> \<not> workers > 1 \<or> s \<notin> {''node'', ''bun''}) servers"

definition expected_trials :: "bool \<Rightarrow> int list \<Rightarrow> int list \<Rightarrow> string list \<Rightarrow> int \<Rightarrow> val list list" where
  "expected_trials variants workers connections servers repeats =
     concat (map (\<lambda>w. concat (map (\<lambda>c.
       if excluded variants w c then []
       else concat (map (\<lambda>s. map (\<lambda>r. [VInt w, VInt c, VStr s, VInt r]) [0..repeats - 1]) (trial_servers variants w servers)))
       connections)) workers)"

definition skipped_pairs :: "bool \<Rightarrow> int list \<Rightarrow> int list \<Rightarrow> val list list" where
  "skipped_pairs variants workers connections =
     concat (map (\<lambda>w. map (\<lambda>c. [VInt w, VInt c]) (filter (excluded variants w) connections)) workers)"

text \<open>Sets of tuples: a tuple of hashable values is hashable, and sets are compared element by element.\<close>

definition hashed :: "val list \<Rightarrow> val list res" where
  "hashed t = (if list_all hashable t then Inr t else Inl TypeError)"

definition in_tuples :: "val list \<Rightarrow> val list list \<Rightarrow> bool" where
  "in_tuples t ts \<longleftrightarrow> list_ex (py_eq_list t) ts"

definition same_tuples :: "val list list \<Rightarrow> val list list \<Rightarrow> bool" where
  "same_tuples xs ys \<longleftrightarrow> list_all (\<lambda>t. in_tuples t ys) xs \<and> list_all (\<lambda>t. in_tuples t xs) ys"

fun distinct_tuples :: "val list list \<Rightarrow> bool" where
  "distinct_tuples [] = True"
| "distinct_tuples (t # ts) = (\<not> in_tuples t ts \<and> distinct_tuples ts)"

definition run_label :: "val \<Rightarrow> val res" where
  "run_label run = bindE (idx run ''server'') (get_dflt run ''variant'')"

definition trial_tuple :: "val \<Rightarrow> val list res" where
  "trial_tuple run = mapE id [idx run ''workers'', idx run ''connections'', run_label run, idx run ''repeat'']"

definition server_names :: "val \<Rightarrow> val \<Rightarrow> string list res" where
  "server_names args variants =
     (if truthy variants then bindE (elems variants) (mapE str_val)
      else bindE (bindE (idx args ''servers'') str_val) (\<lambda>t. Inr (split_on CHR '','' t)))"

definition int_val :: "val \<Rightarrow> int res" where
  "int_val v = of_option TypeError (as_int v)"

definition check_matrix :: "val \<Rightarrow> val \<Rightarrow> val \<Rightarrow> val list \<Rightarrow> unit res" where
  "check_matrix report args variants runs =
     bindE (server_names args variants) (\<lambda>servers.
     bindE (arg_ints args ''workers'') (\<lambda>workers. bindE (arg_ints args ''connections'') (\<lambda>connections.
     bindE (bindE (idx args ''repeats'') int_val) (\<lambda>repeats.
     seqE (if truthy variants
        then bindE (collectE (idx report ''skipped'') (\<lambda>row. bindE (mapE (idx row) [''workers'', ''connections'']) hashed)) (\<lambda>rows.
          assertE (Inr (same_tuples (skipped_pairs True workers connections) rows)))
        else Inr ())
    (bindE (mapE trial_tuple runs) (\<lambda>actual. bindE (mapE hashed actual) (\<lambda>keys.
     assertE (Inr (distinct_tuples keys \<and> same_tuples keys (expected_trials (truthy variants) workers connections servers repeats)))))))))) "

section \<open>One generator\<close>

type_synonym by_phase = "(string \<times> counter) list"

definition no_counts :: by_phase where
  "no_counts = map (\<lambda>p. (p, [])) phases"

definition phase_counts :: "string \<Rightarrow> by_phase \<Rightarrow> counter" where
  "phase_counts p d = dict_get [] p d"

text \<open>One line of the failure log: its fields are in range, and its kind is counted under its phase.\<close>

definition lan_failure :: "lan_env \<Rightarrow> val \<Rightarrow> val \<Rightarrow> string \<Rightarrow> by_phase \<Rightarrow> by_phase res" where
  "lan_failure E args shard line observed =
     bindE (la_loads E line) (\<lambda>ev. bindE (idx ev ''phase'') (\<lambda>phase.
     seqE (assertE (Inr (list_ex (\<lambda>p. py_eq phase (VStr p)) phases)))
    (seqE (assertE (andE (leE (pI 0) (idx ev ''connection'')) (ltE (idx ev ''connection'') (idx shard ''requested_connections''))))
    (seqE (assertE (andE (leE (pI (-1)) (idx ev ''stream_slot'')) (ltE (idx ev ''stream_slot'') (idx args ''streams''))))
    (seqE (assertE (andE (gtE (idx ev ''started_unix_ns'') (pI 0)) (geE (idx ev ''elapsed_ns'') (pI 0))))
    (seqE (assertE (truthE (idx ev ''error'')))
    (bindE (str_val phase) (\<lambda>p. bindE (idx ev ''kind'') (\<lambda>kind.
     bindE (counter_add kind (VInt 1) (phase_counts p observed)) (\<lambda>c. Inr (dict_set p c observed)))))))))))"

definition check_population :: "val \<Rightarrow> val \<Rightarrow> unit res" where
  "check_population args shard =
     checks
      [assertE (andE (eqE (idx shard ''streams'') (idx args ''streams'')) (eqE (idx shard ''reconnections'') (pI 0))),
       assertE (eqE (addE (path shard [''setup'', ''attempted'']) (idx shard ''setup_unattempted'')) (idx shard ''requested_connections'')),
       assertE (eqE (path shard [''setup'', ''succeeded'']) (idx shard ''established_connections'')),
       assertE (andE (leE (pI 0) (idx shard ''successful_connections''))
         (andE (leE (idx shard ''successful_connections'') (idx shard ''participating_connections''))
               (leE (idx shard ''participating_connections'') (idx shard ''established_connections'')))),
       assertE (andE (leE (pI 0) (idx shard ''alive_connections'')) (leE (idx shard ''alive_connections'') (idx shard ''established_connections''))),
       assertE (geE (idx shard ''seconds'') (idx args ''duration''))]"

definition receipt_name :: "nat \<Rightarrow> string" where
  "receipt_name i = ''client-'' @ str_of_int (int i) @ ''.failures.jsonl.gz''"

definition check_receipt :: "lan_env \<Rightarrow> val \<Rightarrow> val \<Rightarrow> string list \<Rightarrow> unit res" where
  "check_receipt E shard receipt lines =
     checks
      [assertE (eqE (pS (la_sha256 E (concat lines))) (idx receipt ''sha256_uncompressed'')),
       assertE (andE (eqE (pI (int (length lines))) (idx receipt ''entries'')) (eqE (idx receipt ''entries'') (idx shard ''failure_log_entries'')))]"

definition accounts :: "string list" where
  "accounts = [''attempted'', ''succeeded'', ''failed'']"

record lan_sums =
  l_totals :: by_phase
  l_kinds :: by_phase
  l_latency :: counter
  l_failure_latency :: counter

definition new_sums :: lan_sums where
  "new_sums = \<lparr>l_totals = no_counts, l_kinds = no_counts, l_latency = [], l_failure_latency = []\<rparr>"

definition merge_phase :: "string \<Rightarrow> counter \<Rightarrow> by_phase \<Rightarrow> by_phase res" where
  "merge_phase p mapping d = bindE (counter_merge mapping (phase_counts p d)) (\<lambda>c. Inr (dict_set p c d))"

text \<open>The accounting of one phase of a generator against what its failure log shows.\<close>

definition lan_phase :: "val \<Rightarrow> by_phase \<Rightarrow> string \<Rightarrow> lan_sums \<Rightarrow> lan_sums res" where
  "lan_phase shard observed phase s =
     bindE (idx shard phase) (\<lambda>stats.
     seqE (assertE (eqE (idx stats ''attempted'') (addE (idx stats ''succeeded'') (idx stats ''failed''))))
    (seqE (assertE (eqE (counter_total (phase_counts phase observed)) (idx stats ''failed'')))
    (seqE (assertE (bindE (bindE (idx stats ''failure_kinds'') (\<lambda>v. counter_of (or_empty v))) (\<lambda>c. Inr (counter_eq (phase_counts phase observed) c))))
    (bindE (mapE (\<lambda>k. bindE (idx stats k) (\<lambda>n. Inr (VStr k, n))) accounts) (\<lambda>counts.
     bindE (merge_phase phase counts (l_totals s)) (\<lambda>totals.
     bindE (merge_phase phase (phase_counts phase observed) (l_kinds s)) (\<lambda>kinds.
     Inr (s\<lparr>l_totals := totals, l_kinds := kinds\<rparr>))))))))"

definition histogram_of :: "val \<Rightarrow> counter res" where
  "histogram_of v =
     bindE (items v) (\<lambda>kvs. bindE (mapE (\<lambda>(b, n). bindE (py_int b) (\<lambda>k. Inr (k, n))) kvs) (\<lambda>kns.
     Inr (map (\<lambda>(k, n). (VInt k, n)) (dict_of kns))))"

definition lan_histogram :: "val \<Rightarrow> string \<Rightarrow> string \<Rightarrow> counter \<Rightarrow> counter res" where
  "lan_histogram shard key count_key h =
     bindE (idx shard key) (\<lambda>v.
     seqE (assertE (eqE (bindE (dict_values v) py_sum) (path shard [''measurement'', count_key])))
     (bindE (histogram_of v) (\<lambda>m. counter_merge m h)))"

definition lan_histograms :: "val \<Rightarrow> lan_sums \<Rightarrow> lan_sums res" where
  "lan_histograms shard s =
     bindE (lan_histogram shard ''latency_us'' ''succeeded'' (l_latency s)) (\<lambda>a.
     bindE (lan_histogram shard ''failure_latency_us'' ''failed'' (l_failure_latency s)) (\<lambda>b.
     Inr (s\<lparr>l_latency := a, l_failure_latency := b\<rparr>)))"

definition lan_shard :: "lan_env \<Rightarrow> val \<Rightarrow> string \<Rightarrow> val \<Rightarrow> nat \<times> val \<Rightarrow> lan_sums \<Rightarrow> lan_sums res" where
  "lan_shard E args folder run ish s =
     (case ish of (i, shard) \<Rightarrow>
      let client = slash folder ''client'' in
      seqE (assertE (eqE (la_read E (slash client (''client-'' @ str_of_int (int i) @ ''.json''))) (Inr shard)))
     (seqE (check_population args shard)
     (bindE (bindE (path run [''client_result'', ''failure_logs'']) (\<lambda>l. nth_val l (int i))) (\<lambda>receipt.
      seqE (assertE (eqE (idx receipt ''path'') (pS (receipt_name i))))
     (bindE (la_gzip E (slash client (receipt_name i))) (\<lambda>lines.
      bindE (foldE (lan_failure E args shard) lines no_counts) (\<lambda>observed.
      seqE (check_receipt E shard receipt lines)
     (bindE (foldE (lan_phase shard observed) phases s) (lan_histograms shard)))))))))"

section \<open>One trial\<close>

definition distinct_of :: "val \<Rightarrow> val list res" where
  "distinct_of v = bindE (elems v) (\<lambda>xs. if list_all hashable xs then Inr (map fst (fold (\<lambda>x. kdict_put x ()) xs [])) else Inl TypeError)"

text \<open>\<open>{tuple(identity['topology'][str(cpu)]) for cpu in cpus}\<close>\<close>

definition cores_of :: "lan_env \<Rightarrow> val \<Rightarrow> val list \<Rightarrow> val list list res" where
  "cores_of E identity cpus =
     mapE (\<lambda>cpu. bindE (bindE (idx identity ''topology'') (\<lambda>t. idx t (la_str E cpu))) (\<lambda>t. bindE (elems t) hashed)) cpus"

fun tuple_count :: "val list list \<Rightarrow> nat" where
  "tuple_count [] = 0"
| "tuple_count (t # ts) = (if in_tuples t ts then tuple_count ts else Suc (tuple_count ts))"

definition check_snapshot :: "val list \<Rightarrow> val \<Rightarrow> unit res" where
  "check_snapshot cpus snapshot =
     (if truthy snapshot
      then assertE (bindE (bindE (idx snapshot ''threads'') elems) (allE (\<lambda>thread.
        bindE (bindE (idx thread ''cpus'') distinct_of) (\<lambda>cs. Inr (list_all (\<lambda>c. list_ex (py_eq c) cpus) cs)))))
      else Inr ())"

definition placed_cpus :: "val \<Rightarrow> val list res" where
  "placed_cpus pls = bindE (elems pls) (\<lambda>ps. bindE (mapE elems ps) (\<lambda>css. Inr (concat css)))"

definition check_placements :: "lan_env \<Rightarrow> val \<Rightarrow> val \<Rightarrow> bool \<Rightarrow> val list list \<Rightarrow> unit res" where
  "check_placements E args run same_host server_cores =
     bindE (path run [''client_launch'', ''placements'']) (\<lambda>placements.
     checks
      [if same_host
       then bindE (placed_cpus placements) (\<lambda>cpus. bindE (bindE (idx run ''client_identity'') (\<lambda>i. cores_of E i cpus)) (\<lambda>client_cores.
         assertE (Inr (\<not> list_ex (\<lambda>c. in_tuples c client_cores) server_cores))))
       else Inr (),
       assertE (eqE (bindE (py_len placements) pI) (idx args ''client_processes'')),
       bindE (placed_cpus placements) (\<lambda>cpus. bindE (distinct_vals cpus []) (\<lambda>n. assertE (Inr (n = length cpus))))])"

definition check_identity :: "lan_env \<Rightarrow> val \<Rightarrow> val \<Rightarrow> val \<Rightarrow> val \<Rightarrow> val \<Rightarrow> bool res" where
  "check_identity E report args variants run label =
     bindE (eqE (path run [''client_identity'', ''boot_id'']) (path run [''server_identity'', ''boot_id''])) (\<lambda>same_host.
     bindE (eqE (getE args ''location'') (pS ''loopback'')) (\<lambda>loopback.
     seqE (assertE (Inr (same_host = loopback)))
    (seqE (if truthy variants
       then bindE (str_val label) (\<lambda>l. seqE
         (assertE (eqE (idx run ''server_binary_sha256'') (path report [''binary_sha256'', l])))
         (assertE (eqE (bindE (idx run ''server_command'') (\<lambda>c. nth_val c 3)) (idx variants l))))
       else Inr ())
    (seqE (checks
       [assertE (eqE (path run [''server_identity'', ''boot_id'']) (path report [''server_identity'', ''boot_id''])),
        assertE (eqE (path run [''client_launch'', ''binary_sha256'']) (path report [''binary_sha256'', ''client''])),
        assertE (eqE (idx run ''streams'') (idx args ''streams''))])
     (Inr same_host)))))"

definition check_cores :: "lan_env \<Rightarrow> val \<Rightarrow> val \<Rightarrow> val list list res" where
  "check_cores E run workers =
     bindE (bindE (idx run ''server_cpus'') distinct_of) (\<lambda>cpus.
     bindE (bindE (idx run ''server_identity'') (\<lambda>i. cores_of E i cpus)) (\<lambda>cores.
     seqE (assertE (andE (eqE (pI (int (tuple_count cores))) (Inr workers)) (eqE (Inr workers) (pI (int (length cpus))))))
    (bindE (mapE (idx run) [''server_before'', ''server_after'']) (\<lambda>snapshots.
     seqE (forE (check_snapshot cpus) snapshots) (Inr cores)))))"

definition shard_keys :: "string list" where
  "shard_keys = [''requested_connections'', ''established_connections'', ''ready_connections'', ''participating_connections'',
     ''successful_connections'', ''alive_connections'', ''setup_unattempted'', ''reconnections'', ''failure_log_entries'']"

text \<open>The trial's own totals, against the sums over its generators.\<close>

definition run_phase :: "val \<Rightarrow> lan_sums \<Rightarrow> string \<Rightarrow> by_phase \<Rightarrow> by_phase res" where
  "run_phase run s phase failures =
     seqE (forE (\<lambda>k. assertE (eqE (path run [phase, k]) (Inr (counter_get (phase_counts phase (l_totals s)) (VStr k))))) accounts)
    (seqE (assertE (bindE (bindE (path run [phase, ''failure_kinds'']) counter_of) (\<lambda>c. Inr (counter_eq c (phase_counts phase (l_kinds s))))))
     (merge_phase phase (phase_counts phase (l_kinds s)) failures))"

definition elapsed_of :: "val \<Rightarrow> val list \<Rightarrow> val res" where
  "elapsed_of args shards =
     bindE (idx args ''duration'') (\<lambda>d.
     bindE (divE (subE (maxE (mapE (\<lambda>s. idx s ''end_ns'') shards)) (minE (mapE (\<lambda>s. idx s ''start_ns'') shards))) (pF 1000000000)) (\<lambda>e.
     py_max [d, e]))"

definition check_totals :: "val \<Rightarrow> val \<Rightarrow> val \<Rightarrow> val list \<Rightarrow> lan_sums \<Rightarrow> unit res" where
  "check_totals args run connections shards s =
     checks
      [forE (\<lambda>k. assertE (eqE (idx run k) (sumE (mapE (\<lambda>sh. idx sh k) shards)))) shard_keys,
       assertE (eqE (idx run ''requested_connections'') (Inr connections)),
       assertE (eqE (idx run ''full_population'')
         (pB (andE (eqE (idx run ''ready_connections'') (Inr connections)) (eqE (idx run ''participating_connections'') (Inr connections))))),
       bindE (elapsed_of args shards) (\<lambda>elapsed. checks
         [assertE (eqE (idx run ''seconds'') (Inr elapsed)),
          assertE (eqE (idx run ''requests_per_second'') (divE (path run [''measurement'', ''succeeded'']) (Inr elapsed)))]),
       assertE (eqE (idx run ''p50_ms'') (lan_percentile (l_latency s) 50)),
       assertE (eqE (idx run ''p99_ms'') (lan_percentile (l_latency s) 99)),
       assertE (eqE (idx run ''failure_p99_ms'') (lan_percentile (l_failure_latency s) 99))]"

definition lan_folder :: "lan_env \<Rightarrow> string \<Rightarrow> val list \<Rightarrow> string res" where
  "lan_folder E folder t =
     bindE (py_add (t ! 3) (VInt 1)) (\<lambda>r.
     Inr (slash folder (''w'' @ la_str E (t ! 0) @ ''-c'' @ la_str E (t ! 1) @ ''-'' @ la_str E (t ! 2) @ ''-r'' @ la_str E r)))"

definition lan_shards :: "lan_env \<Rightarrow> val \<Rightarrow> string \<Rightarrow> val \<Rightarrow> (val list \<times> lan_sums) res" where
  "lan_shards E args folder run =
     bindE (bindE (path run [''client_result'', ''shards'']) elems) (\<lambda>shards.
     seqE (assertE (eqE (pI (int (length shards))) (idx args ''client_processes'')))
    (seqE (assertE (bindE (bindE (path run [''client_result'', ''exit_codes'']) dict_values) (allE (\<lambda>code. Inr (py_eq code (VInt 0))))))
    (bindE (foldE (lan_shard E args folder run) (zip [0..<length shards] shards) new_sums) (\<lambda>s. Inr (shards, s)))))"

text \<open>The state of the audit: the failures by phase and kind, and the measured successes.\<close>

definition lan_run :: "lan_env \<Rightarrow> val \<Rightarrow> val \<Rightarrow> val \<Rightarrow> string \<Rightarrow> val \<Rightarrow> by_phase \<times> val \<Rightarrow> (by_phase \<times> val) res" where
  "lan_run E report args variants folder run fs =
     seqE (assertE (truthE (idx run ''valid'')))
    (bindE (trial_tuple run) (\<lambda>t.
     bindE (lan_folder E folder t) (\<lambda>p.
     seqE (assertE (eqE (la_read E (slash p ''run.json'')) (Inr run)))
    (bindE (check_identity E report args variants run (t ! 2)) (\<lambda>same_host.
     bindE (check_cores E run (t ! 0)) (\<lambda>cores.
     seqE (check_placements E args run same_host cores)
    (bindE (lan_shards E args p run) (\<lambda>(shards, s).
     bindE (foldE (run_phase run s) phases (fst fs)) (\<lambda>failures.
     seqE (check_totals args run (t ! 1) shards s)
    (bindE (addE (Inr (snd fs)) (path run [''measurement'', ''succeeded''])) (\<lambda>n. Inr (failures, n))))))))))))"

section \<open>The report\<close>

definition count_of :: "bool list \<Rightarrow> int" where
  "count_of bs = int (length (filter id bs))"

text \<open>The counters of the result: a kind may be any hashable value, so each is a list of keys and counts.\<close>

definition counts_val :: "by_phase \<Rightarrow> val" where
  "counts_val d = VDict (map (\<lambda>(p, c). (p, VList (map (\<lambda>(k, n). VList [k, n]) c))) d)"

definition lan_summary :: "val list \<Rightarrow> by_phase \<times> val \<Rightarrow> val res" where
  "lan_summary runs fs =
     dictE
      [(''passed'', Inr (VBool True)), (''trials'', pI (int (length runs))), (''measured_successes'', Inr (snd fs)),
       (''failures_by_phase_and_kind'', Inr (counts_val (fst fs))),
       (''failure_records'', sumE (mapE (\<lambda>(p, c). counter_total c) (fst fs))),
       (''setup_unattempted'', sumE (mapE (\<lambda>r. idx r ''setup_unattempted'') runs)),
       (''partial_population_trials'', bindE (mapE (\<lambda>r. notE (truthE (idx r ''full_population''))) runs) (\<lambda>bs. pI (count_of bs))),
       (''unexpected_server_exits'', bindE (mapE (\<lambda>r. bindE (idx r ''server_exit_before_shutdown'') (\<lambda>v. Inr (\<not> is_none v))) runs) (\<lambda>bs. pI (count_of bs)))]"

definition lan_audit :: "lan_env \<Rightarrow> string \<Rightarrow> val res" where
  "lan_audit E folder =
     bindE (la_read E (slash folder ''results.json'')) (\<lambda>report.
     seqE (assertE (truthE (idx report ''complete'')))
    (bindE (idx report ''arguments'') (\<lambda>args. bindE (getE report ''variants'') (\<lambda>variants.
     bindE (bindE (idx report ''runs'') elems) (\<lambda>runs.
     seqE (check_matrix report args variants runs)
    (bindE (foldE (lan_run E report args variants folder) runs (no_counts, VInt 0)) (lan_summary runs)))))))"

section \<open>Percentiles\<close>

definition reps :: "('a \<Rightarrow> nat) \<Rightarrow> 'a list \<Rightarrow> 'a list" where
  "reps f bs = concat (map (\<lambda>b. replicate (f b) b) bs)"

lemma reps_simps [simp]: "reps f [] = []" "reps f (b # bs) = replicate (f b) b @ reps f bs"
  by (simp_all add: reps_def)

lemma set_reps: "set (reps f bs) \<subseteq> set bs"
  by (induction bs) auto

lemma sorted_reps: "sorted bs \<Longrightarrow> sorted (reps f bs)"
proof (induction bs)
  case (Cons b bs)
  then show ?case using set_reps [of f bs] by (auto simp: sorted_append)
qed simp

lemma mset_reps: "mset bs = mset cs \<Longrightarrow> mset (reps f bs) = mset (reps f cs)"
proof -
  assume "mset bs = mset cs"
  then have "image_mset (\<lambda>b. mset (replicate (f b) b)) (mset bs) = image_mset (\<lambda>b. mset (replicate (f b) b)) (mset cs)" by simp
  moreover have "mset (reps f xs) = sum_mset (image_mset (\<lambda>b. mset (replicate (f b) b)) (mset xs))" for xs
    by (induction xs) simp_all
  ultimately show ?thesis by simp
qed

lemma scan_reps:
  assumes "\<forall>b \<in> set bs. counter_get h (VInt b) = VInt (int (f b))" and "c < t" and "t \<le> c + int (length (reps f bs))"
  shows "percentile_scan h (VInt t) (map VInt bs) (VInt c) = py_truediv (VInt (reps f bs ! nat (t - 1 - c))) (VInt 1000)"
  using assms
proof (induction bs arbitrary: c)
  case (Cons b bs)
  show ?case
  proof (cases "t \<le> c + int (f b)")
    case True
    then have "nat (t - 1 - c) < f b" using Cons.prems(2) by linarith
    then show ?thesis using True Cons.prems(1) by (simp add: nth_append)
  next
    case False
    have "percentile_scan h (VInt t) (map VInt bs) (VInt (c + int (f b))) =
        py_truediv (VInt (reps f bs ! nat (t - 1 - (c + int (f b))))) (VInt 1000)"
      using Cons.prems False by (intro Cons.IH) simp_all
    moreover have "nat (t - 1 - c) - f b = nat (t - 1 - (c + int (f b)))" "\<not> nat (t - 1 - c) < f b" using False by linarith+
    ultimately show ?thesis using False Cons.prems(1) by (simp add: nth_append)
  qed
qed simp

definition int_counter :: "(int \<times> nat) list \<Rightarrow> counter" where
  "int_counter ds = map (\<lambda>(b, n). (VInt b, VInt (int n))) ds"

definition recorded :: "(int \<times> nat) list \<Rightarrow> int list" where
  "recorded ds = concat (map (\<lambda>(b, n). replicate n b) ds)"

definition times_of :: "(int \<times> nat) list \<Rightarrow> int \<Rightarrow> nat" where
  "times_of ds b = (case map_of ds b of Some n \<Rightarrow> n | None \<Rightarrow> 0)"

lemma int_counter_get: "counter_get (int_counter ds) (VInt b) = VInt (int (times_of ds b))"
  by (induction ds) (auto simp: int_counter_def counter_get_def times_of_def)

lemma int_counter_total: "counter_total (int_counter ds) = Inr (VInt (int (length (recorded ds))))"
proof -
  have "map snd (int_counter ds) = map VInt (map (\<lambda>(b, n). int n) ds)" by (simp add: int_counter_def case_prod_beta)
  moreover have "sum_list (map (\<lambda>(b, n). int n) ds) = int (length (recorded ds))"
    by (induction ds) (auto simp: recorded_def)
  ultimately show ?thesis by (simp add: counter_total_def py_sum_ints del: map_map)
qed

lemma recorded_reps: "distinct (map fst ds) \<Longrightarrow> recorded ds = reps (times_of ds) (map fst ds)"
proof -
  assume d: "distinct (map fst ds)"
  have "(case x of (b, n) \<Rightarrow> replicate n b) = replicate (times_of ds (fst x)) (fst x)" if "x \<in> set ds" for x
    using map_of_is_SomeI [OF d, of "fst x" "snd x"] that by (simp add: times_of_def case_prod_beta)
  then show ?thesis by (simp add: recorded_def reps_def comp_def cong: map_cong)
qed

lemma sort_recorded: "distinct (map fst ds) \<Longrightarrow> sort (recorded ds) = reps (times_of ds) (sort (map fst ds))"
  by (rule properties_for_sort) (simp_all add: recorded_reps sorted_reps, rule mset_reps, simp)

lemma lan_percentile_nth:
  assumes "distinct (map fst ds)" and "0 \<le> percent" and "percent \<le> 100"
  shows "lan_percentile (int_counter ds) percent =
    (if recorded ds = [] then Inr VNone
     else py_truediv (VInt (sort (recorded ds) ! nat ((int (length (recorded ds)) - 1) * percent div 100))) (VInt 1000))"
proof (cases "recorded ds = []")
  case True
  then show ?thesis by (simp add: lan_percentile_def int_counter_total)
next
  case False
  define n where "n = int (length (recorded ds))"
  define t where "t = (n - 1) * percent div 100 + 1"
  have n: "1 \<le> n" using False by (cases "recorded ds") (simp_all add: n_def)
  have lower: "0 < t" using n assms(2) by (simp add: t_def pos_imp_zdiv_nonneg_iff add_pos_nonneg)
  have "(n - 1) * percent \<le> (n - 1) * 100" using n assms(3) by (intro mult_left_mono) simp_all
  then have "(n - 1) * percent div 100 \<le> n - 1" using zdiv_mono1 [of "(n - 1) * percent" "(n - 1) * 100" 100] by simp
  then have upper: "t \<le> n" by (simp add: t_def)
  have keys: "py_sorted (map fst (int_counter ds)) = Inr (map VInt (sort (map fst ds)))"
    using py_sorted_ints [of "map fst ds"] by (simp add: int_counter_def comp_def case_prod_beta)
  have size: "int (length (reps (times_of ds) (sort (map fst ds)))) = n"
    using arg_cong [OF sort_recorded [OF assms(1)], of length] by (simp add: n_def)
  have "percentile_scan (int_counter ds) (VInt t) (map VInt (sort (map fst ds))) (VInt 0) =
      py_truediv (VInt (sort (recorded ds) ! nat (t - 1))) (VInt 1000)"
    using scan_reps [of "sort (map fst ds)" "int_counter ds" "times_of ds" 0 t] lower upper size
    by (simp add: int_counter_get sort_recorded [OF assms(1)])
  moreover have "n \<noteq> 0" using n by simp
  ultimately show ?thesis using False keys
    by (simp add: lan_percentile_def int_counter_total liftE_defs pI_def py_floordiv_def n_def [symmetric] t_def)
qed

text \<open>
  C24: the percentile scan computes the nearest rank.  For a histogram of distinct integer latencies with
  non-negative counts it returns, of the recorded latencies in increasing order, the one at position
  \<open>(n - 1) * percent // 100\<close> in milliseconds, and None when nothing was recorded; the assertion after the
  loop is never reached.
\<close>

theorem lan_percentile_rank:
  assumes "distinct (map fst ds)" and "0 \<le> percent" and "percent \<le> 100"
  shows "lan_percentile (int_counter ds) percent =
    (if recorded ds = [] then Inr VNone
     else py_truediv (VInt (sort (recorded ds) ! nat ((int (length (recorded ds)) - 1) * percent div 100))) (VInt 1000))"
  by (rule lan_percentile_nth [OF assms])

theorem lan_percentile_rank_witness:
  "lan_percentile (int_counter [(2000, 1), (1000, 3)]) 50 = Inr (VFloat 1) \<and>
   lan_percentile (int_counter [(2000, 1), (1000, 3)]) 50 =
     (if recorded [(2000, 1), (1000, 3)] = [] then Inr VNone
      else py_truediv (VInt (sort (recorded [(2000, 1), (1000, 3)]) ! nat ((int (length (recorded [(2000, 1), (1000, 3)])) - 1) * 50 div 100))) (VInt 1000))"
proof -
  have "lan_percentile (int_counter [(2000, 1), (1000, 3)]) 50 = Inr (VFloat 1)" by code_simp
  moreover have "distinct (map fst [(2000 :: int, 1 :: nat), (1000, 3)])" "(0 :: int) \<le> 50" "(50 :: int) \<le> 100" by simp_all
  note lan_percentile_rank [OF this]
  ultimately show ?thesis by simp
qed

section \<open>Every failure record is counted\<close>

text \<open>A counter of integers whose keys are pairwise different.\<close>

definition int_of :: "val \<Rightarrow> int" where
  "int_of v = (case as_int v of Some n \<Rightarrow> n | None \<Rightarrow> 0)"

definition csum :: "counter \<Rightarrow> int" where
  "csum c = sum_list (map (\<lambda>(k, v). int_of v) c)"

definition good_counter :: "counter \<Rightarrow> bool" where
  "good_counter c \<longleftrightarrow> (\<forall>(k, v) \<in> set c. hashable k \<and> v = VInt (int_of v)) \<and> sorted_wrt (\<lambda>a b. \<not> py_eq (fst b) (fst a)) c"

lemma int_of_VInt [simp]: "int_of (VInt n) = n"
  by (simp add: int_of_def)

lemma good_Nil [simp]: "good_counter []" "csum [] = 0"
  by (simp_all add: good_counter_def csum_def)

lemma kdict_get_None: "kdict_get k c = None \<longleftrightarrow> (\<forall>x \<in> set c. \<not> py_eq k (fst x))"
  by (induction k c rule: kdict_get.induct) auto

lemma kdict_put_new: "kdict_get k c = None \<Longrightarrow> kdict_put k v c = c @ [(k, v)]"
  by (induction k v c rule: kdict_put.induct) (auto split: if_splits)

lemma kdict_put_old:
  "kdict_get k c = Some w \<Longrightarrow> \<exists>pre k' post. c = pre @ (k', w) # post \<and> kdict_put k v c = pre @ (k', v) # post"
proof (induction k v c rule: kdict_put.induct)
  case (2 k v k' v' d)
  show ?case
  proof (cases "py_eq k k'")
    case True
    then show ?thesis using "2.prems" by (intro exI [of _ "[]"]) auto
  next
    case False
    then obtain pre l post where "d = pre @ (l, w) # post" "kdict_put k v d = pre @ (l, v) # post" using 2 by auto
    then show ?thesis using False by (intro exI [of _ "(k', v') # pre"]) auto
  qed
qed simp

lemma good_put:
  assumes "good_counter c" and "hashable k"
  shows "good_counter (kdict_put k (VInt n) c)" and "csum (kdict_put k (VInt n) c) = csum c - int_of (counter_get c k) + n"
proof -
  have "good_counter (kdict_put k (VInt n) c) \<and> csum (kdict_put k (VInt n) c) = csum c - int_of (counter_get c k) + n"
  proof (cases "kdict_get k c")
    case None
    then show ?thesis using assms kdict_get_None [of k c]
      by (auto simp: kdict_put_new good_counter_def csum_def counter_get_def sorted_wrt_append)
  next
    case (Some w)
    obtain pre k' post where "c = pre @ (k', w) # post" "kdict_put k (VInt n) c = pre @ (k', VInt n) # post"
      using kdict_put_old [OF Some] by blast
    then show ?thesis using assms Some by (auto simp: good_counter_def csum_def counter_get_def sorted_wrt_append)
  qed
  then show "good_counter (kdict_put k (VInt n) c)" "csum (kdict_put k (VInt n) c) = csum c - int_of (counter_get c k) + n" by auto
qed

lemma good_get: "good_counter c \<Longrightarrow> counter_get c k = VInt (int_of (counter_get c k))"
proof (cases "kdict_get k c")
  case (Some w)
  assume "good_counter c"
  moreover obtain pre k' post where "c = pre @ (k', w) # post" using kdict_put_old [OF Some] by blast
  ultimately show ?thesis using Some by (simp add: good_counter_def counter_get_def)
qed (simp add: counter_get_def)

lemma good_add_to:
  assumes "good_counter c" and "bindE (py_add (VInt n) (counter_get c k)) (\<lambda>v. kdict_set k v c) = Inr c'"
  shows "good_counter c' \<and> csum c' = csum c + n"
proof -
  obtain m where m: "counter_get c k = VInt m" using good_get [OF assms(1)] by metis
  then have k: "hashable k" and c': "c' = kdict_put k (VInt (n + m)) c" using assms(2) by (auto simp: kdict_set_def split: if_splits)
  show ?thesis using good_put [OF assms(1) k, of "n + m"] m c' by simp
qed

lemma counter_add_one:
  assumes "counter_add k (VInt 1) c = Inr c'" and "good_counter c"
  shows "good_counter c' \<and> csum c' = csum c + 1"
proof -
  obtain m where m: "counter_get c k = VInt m" using good_get [OF assms(2)] by metis
  then show ?thesis using assms by (intro good_add_to [OF assms(2), of 1 k]) (simp add: counter_add_def add.commute split: if_splits)
qed

lemma fold_set_fresh:
  assumes "good_counter (c @ m)"
  shows "foldE (\<lambda>(k, n). kdict_set k n) m c = Inr (c @ m)"
  using assms
proof (induction m arbitrary: c)
  case (Cons x m)
  obtain k n where x: "x = (k, n)" by (cases x)
  have "kdict_get k c = None" using Cons.prems x by (auto simp: kdict_get_None good_counter_def sorted_wrt_append)
  then have "kdict_set k n c = Inr (c @ [x])" using Cons.prems x by (simp add: kdict_set_def kdict_put_new good_counter_def)
  then show ?case using Cons.IH [of "c @ [x]"] Cons.prems x by simp
qed simp

lemma fold_add_good:
  assumes "foldE (\<lambda>(k, n) c. bindE (py_add n (counter_get c k)) (\<lambda>v. kdict_set k v c)) m c = Inr c'"
    and "\<forall>(k, v) \<in> set m. v = VInt (int_of v)" and "good_counter c"
  shows "good_counter c' \<and> csum c' = csum c + csum m"
  using assms
proof (induction m arbitrary: c)
  case (Cons x m)
  obtain k n where x: "x = (k, VInt n)" using Cons.prems(2) by (cases x) auto
  obtain d where d: "bindE (py_add (VInt n) (counter_get c k)) (\<lambda>v. kdict_set k v c) = Inr d"
    and rest: "foldE (\<lambda>(k, n) c. bindE (py_add n (counter_get c k)) (\<lambda>v. kdict_set k v c)) m d = Inr c'"
    using Cons.prems(1) unfolding x by (auto simp: bindE_eq_Inr)
  have good: "good_counter d" and sum: "csum d = csum c + n" using good_add_to [OF Cons.prems(3) d] by auto
  have "good_counter c' \<and> csum c' = csum d + csum m" using rest Cons.prems(2) good by (intro Cons.IH) simp_all
  then show ?case using sum x by (simp add: csum_def)
qed simp

lemma counter_merge_good:
  assumes "counter_merge m c = Inr c'" and "good_counter m" and "good_counter c"
  shows "good_counter c' \<and> csum c' = csum c + csum m"
proof (cases "c = []")
  case True
  then show ?thesis using assms fold_set_fresh [of "[]" m] by (simp add: counter_merge_def)
next
  case False
  then show ?thesis using assms by (intro fold_add_good) (auto simp: counter_merge_def good_counter_def)
qed

lemma counter_total_good: "good_counter c \<Longrightarrow> counter_total c = Inr (VInt (csum c))"
proof -
  assume good: "good_counter c"
  have "map snd c = map VInt (map (\<lambda>(k, v). int_of v) c)" using good by (induction c) (auto simp: good_counter_def)
  then show ?thesis by (simp add: counter_total_def py_sum_ints csum_def del: map_map)
qed


text \<open>Counters by phase.\<close>

definition good_counts :: "by_phase \<Rightarrow> bool" where
  "good_counts d \<longleftrightarrow> map fst d = phases \<and> (\<forall>(p, c) \<in> set d. good_counter c)"

definition records :: "by_phase \<Rightarrow> int" where
  "records d = sum_list (map (\<lambda>(p, c). csum c) d)"

lemma distinct_phases: "distinct phases"
  by (simp add: phases_def)

lemma dict_set_records:
  "distinct (map fst d) \<Longrightarrow> p \<in> fst ` set d \<Longrightarrow>
     map fst (dict_set p c d) = map fst d \<and> records (dict_set p c d) = records d - csum (phase_counts p d) + csum c"
proof (induction p c d rule: dict_set.induct)
  case (2 k v k' v' d)
  then show ?case by (cases "k = k'") (auto simp: records_def phase_counts_def dict_get_def)
qed simp

lemma phase_counts_set: "phase_counts q (dict_set p c d) = (if q = p then c else phase_counts q d)"
  by (simp add: phase_counts_def dict_get_def map_of_dict_set)

lemma good_phase: "good_counts d \<Longrightarrow> good_counter (phase_counts p d)"
proof (cases "map_of d p")
  case (Some c)
  assume "good_counts d"
  then show ?thesis using map_of_SomeD [OF Some] Some by (auto simp: good_counts_def phase_counts_def dict_get_def)
qed (simp add: phase_counts_def dict_get_def)

lemma dict_set_vals: "(q, c') \<in> set (dict_set p c d) \<Longrightarrow> c' = c \<or> (q, c') \<in> set d"
  by (induction p c d rule: dict_set.induct) (auto split: if_splits)

lemma good_counts_set:
  assumes "good_counts d" and "good_counter c" and "p \<in> set phases"
  shows "good_counts (dict_set p c d) \<and> records (dict_set p c d) = records d - csum (phase_counts p d) + csum c"
proof -
  have keys: "map fst d = phases" using assms(1) by (simp add: good_counts_def)
  have mem: "p \<in> fst ` set d" using assms(3) keys by (metis set_map)
  have "distinct (map fst d)" using keys distinct_phases by simp
  note set = dict_set_records [OF this mem, of c]
  have "\<forall>(q, c') \<in> set (dict_set p c d). good_counter c'" using assms(1,2) by (fastforce simp: good_counts_def dest: dict_set_vals)
  then show ?thesis using set keys by (simp add: good_counts_def)
qed

lemma good_no_counts: "good_counts no_counts" "records no_counts = 0" "phase_counts p no_counts = []"
  by (simp_all add: good_counts_def records_def no_counts_def phases_def phase_counts_def dict_get_def)

lemma records_phases: "good_counts d \<Longrightarrow> sum_list (map (\<lambda>p. csum (phase_counts p d)) phases) = records d"
proof -
  have "distinct (map fst d) \<Longrightarrow> sum_list (map (\<lambda>p. csum (phase_counts p d)) (map fst d)) = records d" for d
  proof (induction d)
    case (Cons x d)
    have "map (\<lambda>p. csum (phase_counts p (x # d))) (map fst d) = map (\<lambda>p. csum (phase_counts p d)) (map fst d)"
      using Cons.prems by (cases x) (auto simp: phase_counts_def dict_get_def)
    then have "sum_list (map (\<lambda>p. csum (phase_counts p (x # d))) (map fst (x # d))) = csum (phase_counts (fst x) (x # d)) + records d"
      using Cons by (simp only: list.map sum_list.Cons) simp
    then show ?case by (cases x) (simp add: records_def phase_counts_def dict_get_def)
  qed (simp add: records_def)
  moreover assume "good_counts d"
  ultimately show ?thesis using distinct_phases by (metis good_counts_def)
qed

lemma merge_phase_good:
  assumes "merge_phase p m d = Inr d'" and "good_counts d" and "good_counter m" and "p \<in> set phases"
  shows "good_counts d' \<and> records d' = records d + csum m"
proof -
  obtain c where c: "counter_merge m (phase_counts p d) = Inr c" and d': "d' = dict_set p c d"
    using assms(1) by (auto simp: merge_phase_def bindE_eq_Inr)
  have "good_counter c \<and> csum c = csum (phase_counts p d) + csum m"
    by (rule counter_merge_good [OF c assms(3) good_phase [OF assms(2)]])
  then show ?thesis using good_counts_set [OF assms(2) _ assms(4), of c] d' by simp
qed

text \<open>A line of a failure log and the phase it names.\<close>

definition line_phase :: "lan_env \<Rightarrow> string \<Rightarrow> string \<Rightarrow> bool" where
  "line_phase E p line \<longleftrightarrow> bindE (la_loads E line) (\<lambda>ev. idx ev ''phase'') = Inr (VStr p)"

lemma str_val_eq_Inr: "str_val v = Inr s \<longleftrightarrow> v = VStr s"
  by (cases v) auto

lemma lan_failure_counts:
  assumes "lan_failure E args shard line observed = Inr observed'" and "good_counts observed"
  shows "good_counts observed' \<and> records observed' = records observed + 1 \<and>
    (\<forall>q. csum (phase_counts q observed') = csum (phase_counts q observed) + (if line_phase E q line then 1 else 0))"
proof -
  obtain ev p kind c where "la_loads E line = Inr ev" and phase: "idx ev ''phase'' = Inr (VStr p)"
    and mem: "p \<in> set phases" and c: "counter_add kind (VInt 1) (phase_counts p observed) = Inr c" and o': "observed' = dict_set p c observed"
    using assms(1) unfolding lan_failure_def
    by (clarsimp simp: bindE_eq_Inr seqE_eq_Inr assertE_eq_Inr list_ex_iff str_val_eq_Inr)
  have good: "good_counter c" and one: "csum c = csum (phase_counts p observed) + 1"
    using counter_add_one [OF c good_phase [OF assms(2)]] by auto
  have "line_phase E q line \<longleftrightarrow> q = p" for q using \<open>la_loads E line = Inr ev\<close> phase by (auto simp: line_phase_def)
  then show ?thesis using good_counts_set [OF assms(2) good mem] one o' by (simp add: phase_counts_set)
qed

lemma lan_failures_counts:
  assumes "foldE (lan_failure E args shard) lines observed = Inr observed'" and "good_counts observed"
  shows "good_counts observed' \<and> records observed' = records observed + int (length lines) \<and>
    (\<forall>q. csum (phase_counts q observed') = csum (phase_counts q observed) + int (length (filter (line_phase E q) lines)))"
  using assms
proof (induction lines arbitrary: observed)
  case (Cons line lines)
  then obtain o1 where o1: "lan_failure E args shard line observed = Inr o1" and rest: "foldE (lan_failure E args shard) lines o1 = Inr observed'"
    by (auto simp: bindE_eq_Inr)
  note first = lan_failure_counts [OF o1 Cons.prems(2)]
  show ?case using Cons.IH [OF rest] first by simp
qed simp


definition phase_accounted :: "val \<Rightarrow> string \<Rightarrow> int \<Rightarrow> bool" where
  "phase_accounted shard p n \<longleftrightarrow> (\<exists>stats failed. idx shard p = Inr stats \<and> idx stats ''failed'' = Inr failed \<and> py_eq (VInt n) failed)"

lemma lan_phase_counts:
  assumes "lan_phase shard observed p s = Inr s'" and "good_counts observed" and "good_counts (l_kinds s)" and "p \<in> set phases"
  shows "good_counts (l_kinds s') \<and> records (l_kinds s') = records (l_kinds s) + csum (phase_counts p observed) \<and>
    phase_accounted shard p (csum (phase_counts p observed))"
proof -
  note good = good_phase [OF assms(2), of p]
  obtain stats ks totals where "idx shard p = Inr stats"
    and "eqE (counter_total (phase_counts p observed)) (idx stats ''failed'') = Inr True"
    and ks: "merge_phase p (phase_counts p observed) (l_kinds s) = Inr ks" and s': "s' = s\<lparr>l_totals := totals, l_kinds := ks\<rparr>"
    using assms(1) unfolding lan_phase_def bindE_eq_Inr seqE_eq_Inr assertE_eq_Inr by (elim exE conjE) (rule that, auto)
  then have "phase_accounted shard p (csum (phase_counts p observed))"
    by (auto simp: phase_accounted_def counter_total_good [OF good] eqE_True)
  then show ?thesis using merge_phase_good [OF ks assms(3) good assms(4)] s' by simp
qed

lemma lan_phases_counts:
  assumes "foldE (lan_phase shard observed) ps s = Inr s'" and "good_counts observed" and "good_counts (l_kinds s)" and "set ps \<subseteq> set phases"
  shows "good_counts (l_kinds s') \<and>
    records (l_kinds s') = records (l_kinds s) + sum_list (map (\<lambda>p. csum (phase_counts p observed)) ps) \<and>
    (\<forall>p \<in> set ps. phase_accounted shard p (csum (phase_counts p observed)))"
  using assms
proof (induction ps arbitrary: s)
  case (Cons p ps)
  then obtain s1 where s1: "lan_phase shard observed p s = Inr s1" and rest: "foldE (lan_phase shard observed) ps s1 = Inr s'"
    by (auto simp: bindE_eq_Inr)
  have "p \<in> set phases" "set ps \<subseteq> set phases" using Cons.prems(4) by auto
  note first = lan_phase_counts [OF s1 Cons.prems(2,3) this(1)]
  then show ?case using Cons.IH [OF rest Cons.prems(2)] \<open>set ps \<subseteq> set phases\<close> by simp
qed simp

lemma lan_histograms_kinds: "lan_histograms shard s = Inr s' \<Longrightarrow> l_kinds s' = l_kinds s"
  by (auto simp: lan_histograms_def bindE_eq_Inr)

text \<open>The lines of a generator's failure log, and the log confirming the failures its result reports.\<close>

definition log_file :: "string \<Rightarrow> nat \<Rightarrow> string" where
  "log_file folder i = slash (slash folder ''client'') (receipt_name i)"

definition log_lines :: "lan_env \<Rightarrow> string \<Rightarrow> nat \<Rightarrow> int" where
  "log_lines E folder i = (case la_gzip E (log_file folder i) of Inr lines \<Rightarrow> int (length lines) | Inl _ \<Rightarrow> 0)"

definition shard_accounted :: "lan_env \<Rightarrow> string \<Rightarrow> nat \<Rightarrow> val \<Rightarrow> bool" where
  "shard_accounted E folder i shard \<longleftrightarrow>
     (\<exists>lines. la_gzip E (log_file folder i) = Inr lines \<and>
       (\<forall>p \<in> set phases. phase_accounted shard p (int (length (filter (line_phase E p) lines)))))"

lemma lan_shard_counts:
  assumes "lan_shard E args folder run (i, shard) s = Inr s'" and "good_counts (l_kinds s)"
  shows "good_counts (l_kinds s') \<and> records (l_kinds s') = records (l_kinds s) + log_lines E folder i \<and> shard_accounted E folder i shard"
proof -
  obtain lines observed s1 where lines: "la_gzip E (log_file folder i) = Inr lines"
    and observed: "foldE (lan_failure E args shard) lines no_counts = Inr observed"
    and s1: "foldE (lan_phase shard observed) phases s = Inr s1" and s': "lan_histograms shard s1 = Inr s'"
    using assms(1) unfolding lan_shard_def Let_def prod.case bindE_eq_Inr seqE_eq_Inr by (elim exE conjE) (rule that, auto simp: log_file_def)
  note seen = lan_failures_counts [OF observed good_no_counts(1), unfolded good_no_counts]
  then have good: "good_counts observed" by simp
  note counted = lan_phases_counts [OF s1 good assms(2) subset_refl]
  have "sum_list (map (\<lambda>p. csum (phase_counts p observed)) phases) = int (length lines)" using seen records_phases [OF good] by simp
  moreover have "shard_accounted E folder i shard" using counted seen lines by (simp add: shard_accounted_def)
  ultimately show ?thesis using counted lan_histograms_kinds [OF s'] lines by (simp add: log_lines_def)
qed

lemma lan_shards_fold:
  assumes "foldE (lan_shard E args folder run) ishs s = Inr s'" and "good_counts (l_kinds s)"
  shows "good_counts (l_kinds s') \<and> records (l_kinds s') = records (l_kinds s) + sum_list (map (\<lambda>(i, sh). log_lines E folder i) ishs) \<and>
    (\<forall>(i, sh) \<in> set ishs. shard_accounted E folder i sh)"
  using assms
proof (induction ishs arbitrary: s)
  case (Cons x ishs)
  obtain i sh where x: "x = (i, sh)" by (cases x)
  obtain s1 where s1: "lan_shard E args folder run (i, sh) s = Inr s1" and rest: "foldE (lan_shard E args folder run) ishs s1 = Inr s'"
    using Cons.prems(1) x by (auto simp: bindE_eq_Inr)
  note first = lan_shard_counts [OF s1 Cons.prems(2)]
  then show ?case using Cons.IH [OF rest] x by simp
qed simp

text \<open>The generators' results of a trial.\<close>

definition run_shards :: "val \<Rightarrow> val list" where
  "run_shards run = (case bindE (path run [''client_result'', ''shards'']) elems of Inr shards \<Rightarrow> shards | Inl _ \<Rightarrow> [])"

definition trial_lines :: "lan_env \<Rightarrow> string \<Rightarrow> val \<Rightarrow> int" where
  "trial_lines E folder run = sum_list (map (log_lines E folder) [0..<length (run_shards run)])"

lemma lan_shards_counts:
  assumes "lan_shards E args folder run = Inr (shards, s)"
  shows "good_counts (l_kinds s) \<and> records (l_kinds s) = trial_lines E folder run \<and> shards = run_shards run \<and>
    (\<forall>i < length (run_shards run). shard_accounted E folder i (run_shards run ! i))"
proof -
  have shards: "bindE (path run [''client_result'', ''shards'']) elems = Inr shards"
    and fold: "foldE (lan_shard E args folder run) (zip [0..<length shards] shards) new_sums = Inr s"
    using assms unfolding lan_shards_def by (auto simp: bindE_eq_Inr seqE_eq_Inr)
  have new: "good_counts (l_kinds new_sums)" "records (l_kinds new_sums) = 0" by (simp_all add: new_sums_def good_no_counts)
  have "run_shards run = shards" using shards by (simp add: run_shards_def)
  moreover have "map (\<lambda>(i, sh). log_lines E folder i) (zip [0..<length shards] shards) = map (log_lines E folder) [0..<length shards]"
    by (rule nth_equalityI) simp_all
  moreover have "shard_accounted E folder i (shards ! i)" if "i < length shards" for i
  proof -
    have "(i, shards ! i) \<in> set (zip [0..<length shards] shards)" using that by (auto simp: set_zip intro!: exI [of _ i])
    then show ?thesis using lan_shards_fold [OF fold new(1)] by blast
  qed
  ultimately show ?thesis using lan_shards_fold [OF fold new(1)] new(2) by (simp add: trial_lines_def)
qed

lemma run_phases_counts:
  assumes "foldE (run_phase run s) ps d = Inr d'" and "good_counts d" and "good_counts (l_kinds s)" and "set ps \<subseteq> set phases"
  shows "good_counts d' \<and> records d' = records d + sum_list (map (\<lambda>p. csum (phase_counts p (l_kinds s))) ps)"
  using assms
proof (induction ps arbitrary: d)
  case (Cons p ps)
  then obtain d1 where step: "run_phase run s p d = Inr d1" and rest: "foldE (run_phase run s) ps d1 = Inr d'"
    by (auto simp: bindE_eq_Inr)
  have d1: "merge_phase p (phase_counts p (l_kinds s)) d = Inr d1" using step by (simp add: run_phase_def seqE_eq_Inr)
  have "p \<in> set phases" "set ps \<subseteq> set phases" using Cons.prems(4) by auto
  note first = merge_phase_good [OF d1 Cons.prems(2) good_phase [OF Cons.prems(3)] this(1)]
  then show ?case using Cons.IH [OF rest _ Cons.prems(3)] \<open>set ps \<subseteq> set phases\<close> by simp
qed simp


definition trial_folder :: "lan_env \<Rightarrow> string \<Rightarrow> val \<Rightarrow> string res" where
  "trial_folder E folder run = bindE (trial_tuple run) (lan_folder E folder)"

definition trial_records :: "lan_env \<Rightarrow> string \<Rightarrow> val \<Rightarrow> int" where
  "trial_records E folder run = (case trial_folder E folder run of Inr p \<Rightarrow> trial_lines E p run | Inl _ \<Rightarrow> 0)"

definition trial_accounted :: "lan_env \<Rightarrow> string \<Rightarrow> val \<Rightarrow> bool" where
  "trial_accounted E folder run \<longleftrightarrow>
     (\<exists>p. trial_folder E folder run = Inr p \<and> eqE (la_read E (slash p ''run.json'')) (Inr run) = Inr True \<and>
       (\<forall>i < length (run_shards run). shard_accounted E p i (run_shards run ! i)))"

lemma lan_run_counts:
  assumes "lan_run E report args variants folder run fs = Inr fs'" and "good_counts (fst fs)"
  shows "good_counts (fst fs') \<and> records (fst fs') = records (fst fs) + trial_records E folder run \<and> trial_accounted E folder run"
proof -
  obtain t p shards s failures n where t: "trial_tuple run = Inr t" and p: "lan_folder E folder t = Inr p"
    and same: "eqE (la_read E (slash p ''run.json'')) (Inr run) = Inr True"
    and shards: "lan_shards E args p run = Inr (shards, s)" and failures: "foldE (run_phase run s) phases (fst fs) = Inr failures"
    and fs': "fs' = (failures, n)"
    using assms(1) unfolding lan_run_def bindE_eq_Inr seqE_eq_Inr assertE_eq_Inr
    by (elim exE conjE) (clarsimp simp: bindE_eq_Inr seqE_eq_Inr)
  note counted = lan_shards_counts [OF shards]
  then have good: "good_counts (l_kinds s)" by simp
  have "good_counts failures \<and> records failures = records (fst fs) + records (l_kinds s)"
    using run_phases_counts [OF failures assms(2) good subset_refl] records_phases [OF good] by simp
  moreover have "trial_folder E folder run = Inr p" using t p by (simp add: trial_folder_def)
  ultimately show ?thesis using counted same fs' by (simp add: trial_records_def trial_accounted_def)
qed

lemma lan_runs_counts:
  assumes "foldE (lan_run E report args variants folder) runs fs = Inr fs'" and "good_counts (fst fs)"
  shows "good_counts (fst fs') \<and> records (fst fs') = records (fst fs) + sum_list (map (trial_records E folder) runs) \<and>
    (\<forall>run \<in> set runs. trial_accounted E folder run)"
  using assms
proof (induction runs arbitrary: fs)
  case (Cons run runs)
  then obtain fs1 where fs1: "lan_run E report args variants folder run fs = Inr fs1"
    and rest: "foldE (lan_run E report args variants folder) runs fs1 = Inr fs'" by (auto simp: bindE_eq_Inr)
  note first = lan_run_counts [OF fs1 Cons.prems(2)]
  then show ?case using Cons.IH [OF rest] by simp
qed simp

lemma records_total: "good_counts d \<Longrightarrow> sumE (mapE (\<lambda>(p, c). counter_total c) d) = Inr (VInt (records d))"
proof -
  assume "good_counts d"
  then have "\<forall>x \<in> set d. good_counter (snd x)" by (auto simp: good_counts_def)
  then have "mapE (\<lambda>(p, c). counter_total c) d = Inr (map VInt (map (\<lambda>(p, c). csum c) d))"
    by (induction d) (auto simp: counter_total_good)
  then show ?thesis by (simp add: sumE_def py_sum_ints records_def del: map_map)
qed

lemma lan_audit_counted:
  assumes "lan_audit E folder = Inr out" and "la_read E (slash folder ''results.json'') = Inr report"
    and "bindE (idx report ''runs'') elems = Inr runs"
  shows "idx out ''failure_records'' = Inr (VInt (sum_list (map (trial_records E folder) runs))) \<and>
    idx out ''trials'' = Inr (VInt (int (length runs))) \<and> (\<forall>run \<in> set runs. trial_accounted E folder run)"
proof -
  obtain args variants fs where fold: "foldE (lan_run E report args variants folder) runs (no_counts, VInt 0) = Inr fs"
    and out: "lan_summary runs fs = Inr out"
    using assms unfolding lan_audit_def by (auto simp: bindE_eq_Inr seqE_eq_Inr)
  have start: "good_counts (fst (no_counts, VInt 0))" by (simp add: good_no_counts)
  note counted = lan_runs_counts [OF fold start]
  have "idx out ''failure_records'' = sumE (mapE (\<lambda>(p, c). counter_total c) (fst fs))"
    using dictE_field [OF out [unfolded lan_summary_def], of "''failure_records''" "sumE (mapE (\<lambda>(p, c). counter_total c) (fst fs))"] by simp
  moreover have "idx out ''trials'' = pI (int (length runs))"
    using dictE_field [OF out [unfolded lan_summary_def], of "''trials''" "pI (int (length runs))"] by simp
  ultimately show ?thesis using counted records_total [of "fst fs"] by (simp add: good_no_counts pI_def)
qed

text \<open>
  C11: an audit that passes has counted every retained failure record.  The number of failure records it
  reports is the number of lines in the failure logs of all trials; each trial agrees with its own
  \<open>run.json\<close>; and for each generator and each phase the failures its result claims are exactly the lines of
  its log that name that phase.
\<close>

theorem lan_audit_accounts:
  assumes "lan_audit E folder = Inr out" and "la_read E (slash folder ''results.json'') = Inr report"
    and "bindE (idx report ''runs'') elems = Inr runs"
  shows "idx out ''failure_records'' = Inr (VInt (sum_list (map (trial_records E folder) runs))) \<and>
    idx out ''trials'' = Inr (VInt (int (length runs))) \<and> (\<forall>run \<in> set runs. trial_accounted E folder run)"
  by (rule lan_audit_counted [OF assms])

text \<open>A trial of one generator with one failure, recorded in one line of its log.\<close>

definition quiet_stats :: "int \<Rightarrow> val" where
  "quiet_stats n = VDict [(''attempted'', VInt n), (''succeeded'', VInt n), (''failed'', VInt 0), (''failure_kinds'', VDict [])]"

definition failed_stats :: val where
  "failed_stats = VDict [(''attempted'', VInt 2), (''succeeded'', VInt 1), (''failed'', VInt 1), (''failure_kinds'', VDict [(''timeout'', VInt 1)])]"

definition sample_fields :: "(string \<times> val) list" where
  "sample_fields =
     [(''streams'', VInt 1), (''setup'', quiet_stats 1), (''holding'', quiet_stats 0), (''warmup'', quiet_stats 0), (''measurement'', failed_stats),
      (''requested_connections'', VInt 1), (''established_connections'', VInt 1), (''ready_connections'', VInt 1),
      (''participating_connections'', VInt 1), (''successful_connections'', VInt 1), (''alive_connections'', VInt 1),
      (''setup_unattempted'', VInt 0), (''reconnections'', VInt 0), (''failure_log_entries'', VInt 1), (''seconds'', VInt 1)]"

definition sample_shard :: val where
  "sample_shard = VDict (sample_fields @
     [(''latency_us'', VDict [(''1000'', VInt 1)]), (''failure_latency_us'', VDict [(''2000'', VInt 1)]),
      (''start_ns'', VInt 0), (''end_ns'', VInt 1000000000), (''client_cpu_seconds'', VFloat 1)])"

definition audited_trial :: val where
  "audited_trial = VDict (sample_fields @
     [(''valid'', VBool True), (''workers'', VInt 1), (''connections'', VInt 1), (''server'', VStr ''go''), (''repeat'', VInt 0),
      (''client_identity'', VDict [(''boot_id'', VStr ''c'')]),
      (''server_identity'', VDict [(''boot_id'', VStr ''s''), (''topology'', VDict [(''4'', VList [VInt 0, VInt 4])])]),
      (''client_launch'', VDict [(''binary_sha256'', VStr ''b''), (''placements'', VList [VList [VInt 0]])]),
      (''server_cpus'', VList [VInt 4]), (''server_before'', VNone), (''server_after'', VNone),
      (''client_result'', VDict [(''shards'', VList [sample_shard]), (''exit_codes'', VDict [(''0'', VInt 0)]),
         (''failure_logs'', VList [VDict [(''path'', VStr ''client-0.failures.jsonl.gz''), (''entries'', VInt 1), (''sha256_uncompressed'', VStr ''x'')]])]),
      (''full_population'', VBool True), (''requests_per_second'', VFloat 1), (''p50_ms'', VFloat 1), (''p99_ms'', VFloat 1),
      (''failure_p99_ms'', VFloat 2), (''client_cpu_cores'', VFloat 1), (''start_skew_ms'', VFloat 0), (''server_cpu_cores'', VFloat 1),
      (''server_cpu_us_per_request'', VNone), (''server_exit_before_shutdown'', VNone)])"

definition lan_report :: val where
  "lan_report = VDict
     [(''complete'', VBool True), (''runs'', VList [audited_trial]),
      (''arguments'', VDict [(''servers'', VStr ''go''), (''workers'', VStr ''1''), (''connections'', VStr ''1''), (''repeats'', VInt 1),
         (''streams'', VInt 1), (''client_processes'', VInt 1), (''duration'', VInt 1)]),
      (''server_identity'', VDict [(''boot_id'', VStr ''s'')]), (''binary_sha256'', VDict [(''client'', VStr ''b'')]),
      (''started_utc'', VStr ''2026''), (''finished_utc'', VStr ''2026''), (''versions'', VDict [])]"

definition sample_failure :: val where
  "sample_failure = VDict [(''phase'', VStr ''measurement''), (''connection'', VInt 0), (''stream_slot'', VInt 0), (''started_unix_ns'', VInt 5),
     (''elapsed_ns'', VInt 9), (''error'', VStr ''deadline''), (''kind'', VStr ''timeout'')]"

definition sample_lan :: lan_env where
  "sample_lan = \<lparr>
     la_read = (\<lambda>p. if p = ''f/results.json'' then Inr lan_report else if p = ''f/w1-c1-go-r1/run.json'' then Inr audited_trial
       else if p = ''f/w1-c1-go-r1/client/client-0.json'' then Inr sample_shard else Inl (OSError p)),
     la_gzip = (\<lambda>p. if p = ''f/w1-c1-go-r1/client/client-0.failures.jsonl.gz'' then Inr [''x''] else Inl (OSError p)),
     la_loads = (\<lambda>line. Inr sample_failure), la_sha256 = (\<lambda>t. t),
     la_str = (\<lambda>v. case v of VInt n \<Rightarrow> str_of_int n | VStr s \<Rightarrow> s | _ \<Rightarrow> [])\<rparr>"

lemma sample_lan_passes: "map_sum id (\<lambda>v. idx v ''failure_records'') (lan_audit sample_lan ''f'') = Inr (Inr (VInt 1))"
  by code_simp


theorem lan_audit_accounts_witness:
  "\<exists>out. lan_audit sample_lan ''f'' = Inr out \<and>
     idx out ''failure_records'' = Inr (VInt (sum_list (map (trial_records sample_lan ''f'') [audited_trial]))) \<and>
     idx out ''failure_records'' = Inr (VInt 1) \<and> trial_accounted sample_lan ''f'' audited_trial"
proof -
  obtain out where out: "lan_audit sample_lan ''f'' = Inr out" and one: "idx out ''failure_records'' = Inr (VInt 1)"
    using sample_lan_passes by (cases "lan_audit sample_lan ''f''") auto
  have "la_read sample_lan (slash ''f'' ''results.json'') = Inr lan_report" by (simp add: sample_lan_def slash_def)
  moreover have "bindE (idx lan_report ''runs'') elems = Inr [audited_trial]" by (simp add: lan_report_def)
  ultimately have "idx out ''failure_records'' = Inr (VInt (sum_list (map (trial_records sample_lan ''f'') [audited_trial]))) \<and>
      idx out ''trials'' = Inr (VInt (int (length [audited_trial]))) \<and> (\<forall>run \<in> set [audited_trial]. trial_accounted sample_lan ''f'' run)"
    by (rule lan_audit_accounts [OF out])
  then show ?thesis using out one by (intro exI [of _ out]) simp
qed

section \<open>The supervisor's results pass the audit\<close>

lemma distinct_vals_ints:
  "distinct ns \<Longrightarrow> set ns \<inter> set seen = {} \<Longrightarrow> distinct_vals (map VInt ns) (map VInt seen) = Inr (length seen + length ns)"
proof (induction ns arbitrary: seen)
  case (Cons n ns)
  then have "\<not> list_ex (py_eq (VInt n)) (map VInt seen)" by (auto simp: list_ex_iff)
  then show ?case using Cons.IH [of "n # seen"] Cons.prems by simp
qed simp

lemma placed_ints: "placed_cpus (VList (map (\<lambda>p. VList (map VInt p)) ps)) = Inr (map VInt (concat ps))"
proof -
  have "mapE elems (map (\<lambda>p. VList (map VInt p)) ps) = Inr (map (map VInt) ps)" by (induction ps) simp_all
  then show ?thesis by (simp add: placed_cpus_def map_concat)
qed

lemma failure_receipt_checked:
  assumes "failure_receipt sha256 logs s i = Inr receipt" and "map_of (h_results s) i = Some shard" and "la_sha256 E = sha256"
  shows "idx receipt ''path'' = Inr (VStr (receipt_name i)) \<and> check_receipt E shard receipt (logs i) = Inr ()"
  using assms by (auto simp: failure_receipt_def bindE_eq_Inr liftE_defs literal_defs check_receipt_def assertE_def andE_def lift2_eq_Inr
      receipt_name_def failures_file_def split: if_splits)

text \<open>
  C22: what the supervisor writes is what the audit asks for.  The receipt it makes for a generator's
  failure log names the file the audit opens and passes the audit's digest and entry checks on that log;
  and when the requested CPUs are distinct, the placements it announces pass the audit's check that no
  CPU is shared and that there is one placement for each generator.
\<close>

theorem lan_audit_accepts_supervisor:
  assumes "failure_receipt sha256 logs s i = Inr receipt" and "map_of (h_results s) i = Some shard" and "la_sha256 E = sha256"
    and "distinct (g_cpus g)" and "0 < g_processes g" and "0 \<le> g_connections g"
    and "path run [''client_launch'', ''placements''] = idx (launched_event g pids host) ''placements''"
    and "idx args ''client_processes'' = Inr (VInt (g_processes g))"
  shows "idx receipt ''path'' = Inr (VStr (receipt_name i)) \<and> check_receipt E shard receipt (logs i) = Inr () \<and>
    check_placements E args run False server_cores = Inr ()"
proof -
  let ?ps = "VList (map (\<lambda>p. VList (map VInt p)) (placements g))"
  have "path run [''client_launch'', ''placements''] = Inr ?ps" using assms(7) by (simp add: launched_event_def event_def)
  moreover have parts: "mset (concat (placements g)) = mset (g_cpus g)" "int (length (placements g)) = g_processes g"
    using assms(5) mset_strides [of "nat (g_processes g)" "g_cpus g"] by (simp_all add: placements_def)
  moreover have "distinct (concat (placements g))" using parts(1) assms(4) by (metis mset_eq_imp_distinct_iff)
  note distinct_vals_ints [OF this, of "[]"]
  ultimately have "check_placements E args run False server_cores = Inr ()"
    using assms(8) by (simp add: check_placements_def placed_ints liftE_defs pI_def py_len_def assertE_def del: path.simps)
  then show ?thesis using failure_receipt_checked [OF assms(1-3)] by simp
qed

definition finished_supervisor :: supervisor where
  "finished_supervisor = new_supervisor\<lparr>h_results := [(0, VDict [(''failure_log_entries'', VInt 1)])]\<rparr>"

theorem lan_audit_accepts_supervisor_witness:
  "\<exists>receipt. failure_receipt (\<lambda>t. t) (\<lambda>i. [''x'']) finished_supervisor 0 = Inr receipt \<and>
     check_receipt sample_lan (VDict [(''failure_log_entries'', VInt 1)]) receipt [''x''] = Inr () \<and>
     check_placements sample_lan (VDict [(''client_processes'', VInt 2)]) (VDict [(''client_launch'', launched_event sample_config [8, 9] VNone)]) False [] = Inr ()"
proof -
  have r: "failure_receipt (\<lambda>t. t) (\<lambda>i. [''x'']) finished_supervisor 0 = Inr (VDict
      [(''path'', VStr ''client-0.failures.jsonl.gz''), (''entries'', VInt 1), (''sha256_uncompressed'', VStr ''x'')])" by code_simp
  have "map_of (h_results finished_supervisor) 0 = Some (VDict [(''failure_log_entries'', VInt 1)])" "la_sha256 sample_lan = (\<lambda>t. t)"
    "distinct (g_cpus sample_config)" "0 < g_processes sample_config" "0 \<le> g_connections sample_config"
    "path (VDict [(''client_launch'', launched_event sample_config [8, 9] VNone)]) [''client_launch'', ''placements''] =
       idx (launched_event sample_config [8, 9] VNone) ''placements''"
    "idx (VDict [(''client_processes'', VInt 2)]) ''client_processes'' = Inr (VInt (g_processes sample_config))"
    by (simp_all add: finished_supervisor_def sample_lan_def sample_config_def launched_event_def event_def)
  from lan_audit_accepts_supervisor [OF r this, of "[]"] r show ?thesis by blast
qed

end
