(* ===== verification/Compare_Http2_Lan.thy ===== *)
theory Compare_Http2_Lan
  imports Audit_Http2_Lan
begin

text \<open>
  \<open>bench/compare_http2_lan.py\<close> with the helpers it takes from \<open>bench/compare_http2.py\<close>: HTTP/2 trials against a
  load host.  \<open>lan_aggregate\<close> adds up the results of the generators; a trial is a list of steps (theory
  \<open>Evidence\<close>) over \<open>lan_world\<close>, what the server, the supervisor and the kernel answered; \<open>lan_schedule\<close> is the
  order of the trials.  \<open>repr\<close> is the text of an exception, \<open>which\<close> the path of a program.
\<close>

section \<open>CPUs and processes\<close>

definition h2_cpu_list :: "string \<Rightarrow> int list res" where
  "h2_cpu_list txt =
     bindE (mapE (\<lambda>part. bindE (mapE py_int (split_on CHR ''-'' part)) (\<lambda>ends. Inr [hd ends..last ends])) (split_on CHR '','' txt)) (\<lambda>rs.
     seqE (ensure (concat rs \<noteq> [] \<and> distinct (concat rs)) (ValueError ''CPU lists must be nonempty with no duplicates'')) (Inr (concat rs)))"

definition cpu_text :: "int list \<Rightarrow> string" where
  "cpu_text cpus = join '','' (map str_of_int cpus)"

definition h2_cpu_seconds :: "tree \<Rightarrow> int \<Rightarrow> string \<Rightarrow> val res" where
  "h2_cpu_seconds fs hz file =
     bindE (bindE (read_text fs file) stat_fields) (\<lambda>fields.
     bindE (int_nth fields 11) (\<lambda>u. bindE (int_nth fields 12) (\<lambda>s. seconds_of hz (u + s))))"

definition snapshot_thread :: "tree \<Rightarrow> int \<Rightarrow> (int \<Rightarrow> int list res) \<Rightarrow> string \<Rightarrow> string \<Rightarrow> val res" where
  "snapshot_thread fs hz affinity folder name =
     bindE (bindE (read_text fs (slash (slash folder name) ''stat'')) stat_fields) (\<lambda>fields.
     bindE (py_int name) (\<lambda>tid. bindE (affinity tid) (\<lambda>cpus.
     dictE
      [(''tid'', pI tid), (''cpus'', Inr (VList (map VInt (sort cpus)))),
       (''cpu_seconds'', bindE (int_nth fields 11) (\<lambda>u. bindE (int_nth fields 12) (\<lambda>s. seconds_of hz (u + s))))])))"

definition h2_status_line :: "string \<Rightarrow> bool" where
  "h2_status_line line \<longleftrightarrow> list_ex (startswith line) [''VmRSS:'', ''VmHWM:'', ''Threads:'', ''Cpus_allowed_list:'']"

text \<open>A thread that ends while the snapshot is taken is left out.\<close>

definition process_snapshot :: "tree \<Rightarrow> int \<Rightarrow> (int \<Rightarrow> int list res) \<Rightarrow> int \<Rightarrow> val res" where
  "process_snapshot fs hz affinity pid =
     bindE (read_text fs (proc_path pid ''status'')) (\<lambda>status.
     bindE (foldE (\<lambda>name rows. case snapshot_thread fs hz affinity (proc_path pid ''task'') name of
         Inr v \<Rightarrow> Inr (rows @ [v])
       | Inl (OSError m) \<Rightarrow> Inr rows
       | Inl e \<Rightarrow> Inl e) (sort (t_names fs (proc_path pid ''task''))) []) (\<lambda>threads.
     Inr (VDict [(''status'', VList (map VStr (filter h2_status_line (splitlines status)))), (''threads'', VList threads)])))"

text \<open>\<open>stop\<close>: whether the process still runs, and whether it ends within eight seconds of \<open>terminate\<close>.\<close>

definition h2_stop :: "bool \<Rightarrow> bool \<Rightarrow> signal list" where
  "h2_stop running patient = (if \<not> running then [] else if patient then [Terminate] else [Terminate, Kill])"

section \<open>Adding up the generators\<close>

fun quantile_scan :: "counter \<Rightarrow> val list \<Rightarrow> val \<Rightarrow> val res" where
  "quantile_scan h [] rank = Inl (AssertionError ''percentile missing'')"
| "quantile_scan h (b # bs) rank =
     bindE (py_lt rank (counter_get h b)) (\<lambda>hit.
     if hit then py_truediv b (VInt 1000) else bindE (py_sub rank (counter_get h b)) (quantile_scan h bs))"

definition lan_quantile :: "counter \<Rightarrow> int \<Rightarrow> val res" where
  "lan_quantile h percent =
     bindE (bindE (mulE (subE (counter_total h) (pI 1)) (pI percent)) (\<lambda>v. py_floordiv v (VInt 100))) (\<lambda>rank.
     bindE (py_lt rank (VInt 0)) (\<lambda>negative.
     if negative then Inr VNone
     else bindE (py_sorted (map fst h)) (\<lambda>bs. quantile_scan h bs rank)))"

definition add_kinds :: "string \<Rightarrow> val \<Rightarrow> counter \<Rightarrow> counter res" where
  "add_kinds phase shard counts =
     bindE (idx shard phase) (\<lambda>item.
     seqE (assertE (eqE (idx item ''attempted'') (addE (idx item ''succeeded'') (idx item ''failed''))))
    (seqE (assertE (eqE (sum_values (idx item ''failure_kinds'')) (idx item ''failed'')))
    (bindE (idx item ''failure_kinds'') (\<lambda>k. bindE (items (or_empty k)) (\<lambda>kvs. counter_merge (str_keys kvs) counts)))))"

definition counter_dict :: "counter \<Rightarrow> val res" where
  "counter_dict c = bindE (mapE (\<lambda>(k, n). bindE (str_val k) (\<lambda>s. Inr (s, n))) c) (\<lambda>kvs. Inr (VDict kvs))"

definition sum_over :: "val list \<Rightarrow> string list \<Rightarrow> val res" where
  "sum_over shards ks = sumE (mapE (\<lambda>sh. path sh ks) shards)"

definition aggregate_phase :: "val list \<Rightarrow> string \<Rightarrow> val res" where
  "aggregate_phase shards phase =
     bindE (foldE (add_kinds phase) shards []) (\<lambda>counts.
     dictE (map (\<lambda>k. (k, sum_over shards [phase, k])) accounts @ [(''failure_kinds'', counter_dict counts)]))"

definition add_latencies :: "val \<Rightarrow> counter \<times> counter \<Rightarrow> (counter \<times> counter) res" where
  "add_latencies shard hs =
     bindE (idx shard ''latency_us'') (\<lambda>v. bindE (idx shard ''failure_latency_us'') (\<lambda>w.
     seqE (assertE (eqE (bindE (dict_values v) py_sum) (path shard [''measurement'', ''succeeded''])))
    (seqE (assertE (eqE (bindE (dict_values w) py_sum) (path shard [''measurement'', ''failed''])))
    (bindE (bindE (histogram_of v) (\<lambda>m. counter_merge m (fst hs))) (\<lambda>a.
     bindE (bindE (histogram_of w) (\<lambda>m. counter_merge m (snd hs))) (\<lambda>b. Inr (a, b)))))))"

definition elapsed_from :: "val \<Rightarrow> val list \<Rightarrow> val res" where
  "elapsed_from duration shards =
     bindE (divE (subE (maxE (mapE (\<lambda>s. idx s ''end_ns'') shards)) (minE (mapE (\<lambda>s. idx s ''start_ns'') shards))) (pF 1000000000)) (\<lambda>e.
     py_max [duration, e])"

text \<open>The figures of a trial over the fields gathered so far.\<close>

definition lan_rate_fields :: "val list \<Rightarrow> row \<Rightarrow> counter \<times> counter \<Rightarrow> val \<Rightarrow> (string \<times> val res) list" where
  "lan_rate_fields shards r hs elapsed =
     [(''seconds'', Inr elapsed), (''requests_per_second'', divE (path (VDict r) [''measurement'', ''succeeded'']) (Inr elapsed)),
      (''p50_ms'', lan_quantile (fst hs) 50), (''p99_ms'', lan_quantile (fst hs) 99), (''failure_p99_ms'', lan_quantile (snd hs) 99),
      (''client_cpu_cores'', divE (sum_over shards [''client_cpu_seconds'']) (Inr elapsed)),
      (''start_skew_ms'', divE (subE (maxE (mapE (\<lambda>s. idx s ''start_ns'') shards)) (minE (mapE (\<lambda>s. idx s ''start_ns'') shards))) (pF 1000000))]"

definition full_field :: "row \<Rightarrow> (string \<times> val res) list" where
  "full_field r =
     [(''full_population'', pB (andE (eqE (idx (VDict r) ''ready_connections'') (idx (VDict r) ''requested_connections''))
        (eqE (idx (VDict r) ''participating_connections'') (idx (VDict r) ''requested_connections''))))]"

definition lan_aggregate :: "val list \<Rightarrow> val \<Rightarrow> row res" where
  "lan_aggregate shards duration =
     bindE (fieldsE (map (\<lambda>p. (p, aggregate_phase shards p)) phases) []) (\<lambda>r.
     bindE (fieldsE (map (\<lambda>k. (k, sum_over shards [k])) shard_keys) r) (\<lambda>r.
     bindE (foldE add_latencies shards ([], [])) (\<lambda>hs.
     seqE (assertE (eqE (idx (VDict r) ''failure_log_entries'') (sumE (mapE (\<lambda>p. path (VDict r) [p, ''failed'']) phases))))
    (bindE (elapsed_from duration shards) (\<lambda>elapsed.
     bindE (fieldsE (lan_rate_fields shards r hs elapsed) r) (\<lambda>r. fieldsE (full_field r) r))))))"

section \<open>One trial\<close>

record lan_options =
  lo_address :: string
  lo_zhtps :: string
  lo_go_server :: string
  lo_server_cpus :: string
  lo_client_cpus :: string
  lo_client_processes :: int
  lo_workers :: string
  lo_servers :: string
  lo_connections :: string
  lo_streams :: int
  lo_duration :: rat
  lo_warmup :: rat
  lo_timeout :: rat
  lo_setup_deadline :: rat
  lo_setup_concurrency :: int
  lo_repeats :: int

definition lan_server :: "(string \<Rightarrow> string) \<Rightarrow> string \<Rightarrow> lan_options \<Rightarrow> string \<Rightarrow> int \<Rightarrow> int list \<Rightarrow> int \<Rightarrow> string \<Rightarrow> string \<Rightarrow> string list" where
  "lan_server which base o' name workers cpus port cert key =
     [''taskset'', ''-c'', cpu_text cpus] @
     (if name = ''zhtps''
      then [lo_zhtps o', ''--address'', lo_address o', ''--port'', str_of_int port, ''--admin-connections'', ''0'', ''--workers'', str_of_int workers,
        ''--worker-cpus'', cpu_text cpus, ''--no-access-log'', ''--max-connections'', ''8176'', ''--max-active'', ''8176'',
        ''--http2-worker-streams'', ''65535'', ''--http2-memory-bytes'', ''4294967295'', ''--max-requests'', ''4294967295'',
        ''--tls-certificate'', cert, ''--tls-key'', key]
      else if name = ''go''
      then [lo_go_server o', ''-listen'', lo_address o' @ '':'' @ str_of_int port, ''-http2'', ''-tls-certificate'', cert, ''-tls-key'', key]
      else [which name, slash base ''bench/http2_lan_server.cjs'', str_of_int port, cert, key, lo_address o'])"

definition lan_environ :: "int \<Rightarrow> (string \<times> string) list \<Rightarrow> (string \<times> string) list" where
  "lan_environ workers environ = dict_set ''GOMAXPROCS'' (str_of_int workers) (filter (\<lambda>(k, v). k \<notin> set go_settings) environ)"

text \<open>
  One turn of the controller: whether the deadline has passed, the outcome of sending the heartbeat, the
  event received and when, the outcome of a further message, and the process snapshot, CPU time,
  monotonic clock and host sample read for it (\<open>VNone\<close> where the server has exited).
\<close>

record lan_turn =
  lt_late :: bool
  lt_heartbeat :: "unit res"
  lt_event :: "val res"
  lt_received :: int
  lt_sent :: "unit res"
  lt_snapshot :: "val res"
  lt_cpu :: "val res"
  lt_clock :: rat
  lt_host :: "val res"

definition stamped :: "lan_turn \<Rightarrow> val res" where
  "stamped t =
     seqE (lt_heartbeat t) (bindE (lt_event t) (\<lambda>ev. bindE (items ev) (\<lambda>kvs.
       Inr (VDict (dict_set ''controller_received_ns'' (VInt (lt_received t)) kvs)))))"

definition scheduled_check :: "val \<Rightarrow> val \<Rightarrow> unit res" where
  "scheduled_check clock ev = bindE (subE (idx ev ''start_ns'') (idx clock ''offset_ns'')) (\<lambda>v. Inr ())"

definition measured_steps :: "lan_turn \<Rightarrow> (rat \<times> val) option \<Rightarrow> step list" where
  "measured_steps t before =
     [Check (bindE (lt_cpu t) (\<lambda>v. Inr ())),
      Put ''server_cpu_window_seconds'' (case before of None \<Rightarrow> Inl TypeError | Some (t0, c0) \<Rightarrow> Inr (VFloat (fl (lt_clock t - t0)))),
      Put ''server_cpu_seconds'' (bindE (lt_cpu t) (\<lambda>c. case before of
          Some (t0, c0) \<Rightarrow> if \<not> is_none c \<and> \<not> is_none c0 then py_sub c c0 else Inr VNone
        | None \<Rightarrow> Inr VNone)),
      Put ''server_after'' (lt_snapshot t), Put ''server_network_after'' (lt_host t)]"

definition put_row :: "row \<Rightarrow> step list" where
  "put_row r = map (\<lambda>(k, v). Put k (Inr v)) r"

definition result_steps :: "val \<Rightarrow> val \<Rightarrow> step list" where
  "result_steps duration ev =
     Put ''client_result'' (Inr ev) #
     (case bindE (bindE (idx ev ''shards'') elems) (\<lambda>shards. lan_aggregate shards duration) of
        Inl e \<Rightarrow> [Check (Inl e)]
      | Inr r \<Rightarrow> put_row r @ [Put ''valid'' (Inr (VBool True))])"

fun lan_loop :: "val \<Rightarrow> val \<Rightarrow> (rat \<times> val) option \<Rightarrow> lan_turn list \<Rightarrow> step list" where
  "lan_loop duration clock before [] = [Check (Inl (TimeoutError ''controller trial deadline''))]"
| "lan_loop duration clock before (t # ts) =
     (if lt_late t then [Check (Inl (TimeoutError ''controller trial deadline''))]
      else case stamped t of
        Inl e \<Rightarrow> [Check (Inl e)]
      | Inr ev \<Rightarrow>
          (case idx ev ''kind'' of
             Inl e \<Rightarrow> [Check (Inl e)]
           | Inr kind \<Rightarrow>
               if kind = VStr ''launched'' then Put ''client_launch'' (Inr ev) # lan_loop duration clock before ts
               else if kind = VStr ''prepared''
               then [Put ''prepared'' (Inr ev), Put ''server_prepared'' (lt_snapshot t), Check (lt_sent t)] @ lan_loop duration clock before ts
               else if kind = VStr ''ready''
               then [Put ''ready'' (Inr ev), Put ''server_before'' (lt_snapshot t), Check (lt_sent t)] @ lan_loop duration clock before ts
               else if kind = VStr ''scheduled''
               then Check (scheduled_check clock ev) #
                 (case lt_cpu t of
                    Inl e \<Rightarrow> [Check (Inl e)]
                  | Inr c \<Rightarrow> Put ''server_network_before'' (lt_host t) # lan_loop duration clock (Some (lt_clock t, c)) ts)
               else if kind = VStr ''measured'' then measured_steps t before @ lan_loop duration clock before ts
               else if kind = VStr ''result'' then result_steps duration ev
               else if kind \<in> {VStr ''error'', VStr ''eof'', VStr ''invalid''} then [Check (Inl (RuntimeError ''event''))]
               else lan_loop duration clock before ts))"


text \<open>One attempt to reach the server: whether it has exited, whether it accepted, whether 20 seconds have passed.\<close>

fun lan_startup :: "(bool \<times> bool \<times> bool) list \<Rightarrow> unit res" where
  "lan_startup [] = Inl (TimeoutError ''server startup'')"
| "lan_startup ((exited, accepted, late) # later) =
     (if exited then Inl (RuntimeError ''server exited during startup'')
      else if accepted then Inr ()
      else if late then Inl (TimeoutError ''server startup'')
      else lan_startup later)"

text \<open>A clock exchange: the wall clock before, the outcome of sending, the answer, the wall clock after.\<close>

definition clock_row :: "int \<times> unit res \<times> val res \<times> int \<Rightarrow> val res" where
  "clock_row x =
     (case x of (before, sent, answer, after) \<Rightarrow>
      seqE sent (bindE answer (\<lambda>clock.
      seqE (assertE (eqE (idx clock ''kind'') (pS ''clock'')))
      (dictE [(''offset_ns'', subE (idx clock ''unix_ns'') (pI ((before + after) div 2))), (''uncertainty_ns'', pI ((after - before) div 2))]))))"

text \<open>\<open>min(clocks, key=...)\<close>: the first of the rows with the least uncertainty.\<close>

definition best_clock :: "val list \<Rightarrow> val res" where
  "best_clock rows =
     (case rows of
        [] \<Rightarrow> Inl (ValueError ''min() arg is an empty sequence'')
      | r # rs \<Rightarrow> foldE (\<lambda>x best. bindE (ltE (idx x ''uncertainty_ns'') (idx best ''uncertainty_ns'')) (\<lambda>less. Inr (if less then x else best))) rs r)"

record lan_world =
  lw_spawned :: "unit res"
  lw_startup :: "(bool \<times> bool \<times> bool) list"
  lw_connected :: "unit res"
  lw_hello :: "val res"
  lw_clocks :: "(int \<times> unit res \<times> val res \<times> int) list"
  lw_client_digest :: "string res"
  lw_started :: "unit res"
  lw_turns :: "lan_turn list"
  lw_exit_before :: val
  lw_exit_code :: val
  lw_host_after :: val

definition lan_config :: "lan_options \<Rightarrow> string \<Rightarrow> string \<Rightarrow> int \<Rightarrow> int \<Rightarrow> string res \<Rightarrow> val res" where
  "lan_config o' remote_dir folder_name connections port client_digest =
     dictE
      [(''kind'', pS ''run''), (''folder'', pS (remote_dir @ ''/'' @ folder_name)), (''binary'', pS (remote_dir @ ''/client'')),
       (''binary_sha256'', bindE client_digest pS), (''certificate'', pS (remote_dir @ ''/cert.pem'')),
       (''url'', pS (''https://'' @ lo_address o' @ '':'' @ str_of_int port @ ''/'')), (''connections'', pI connections),
       (''streams'', pI (lo_streams o')), (''duration'', Inr (VFloat (lo_duration o'))), (''warmup'', Inr (VFloat (lo_warmup o'))),
       (''timeout'', Inr (VFloat (lo_timeout o'))), (''setup_deadline'', Inr (VFloat (lo_setup_deadline o'))),
       (''setup_concurrency'', pI (lo_setup_concurrency o')),
       (''client_cpus'', bindE (h2_cpu_list (lo_client_cpus o')) (\<lambda>cs. Inr (VList (map VInt cs)))),
       (''client_processes'', pI (lo_client_processes o')),
       (''max_seconds'', Inr (VFloat (fl (fl (lo_setup_deadline o' + lo_duration o') + 45))))]"

definition hello_checks :: "bool \<Rightarrow> row \<Rightarrow> val \<Rightarrow> step list" where
  "hello_checks ssh r hello =
     [Check (assertE (eqE (idx hello ''kind'') (pS ''hello''))),
      Put ''client_identity'' (idx hello ''identity''),
      Check (bindE (eqE (path hello [''identity'', ''boot_id'']) (path (VDict r) [''server_identity'', ''boot_id''])) (\<lambda>same_host.
        assertE (Inr (same_host = (\<not> ssh)))))]"

definition lan_steps :: "lan_options \<Rightarrow> bool \<Rightarrow> string \<Rightarrow> string \<Rightarrow> int \<Rightarrow> int \<Rightarrow> lan_world \<Rightarrow> row \<Rightarrow> step list" where
  "lan_steps o' ssh remote_dir folder_name connections port w r =
     [Check (lw_spawned w), Check (lan_startup (lw_startup w)), Check (lw_connected w)] @
     (case lw_hello w of
        Inl e \<Rightarrow> [Check (Inl e)]
      | Inr hello \<Rightarrow>
          hello_checks ssh r hello @
          (case bindE (mapE clock_row (lw_clocks w)) best_clock of
             Inl e \<Rightarrow> [Check (Inl e)]
           | Inr clock \<Rightarrow>
               [Put ''clock'' (Inr clock), Put ''client_config'' (lan_config o' remote_dir folder_name connections port (lw_client_digest w)),
                Check (lw_started w)] @ lan_loop (VFloat (lo_duration o')) clock None (lw_turns w)))"

text \<open>After the loop: the CPU figures of the server.\<close>

definition finish_steps :: "row \<Rightarrow> step list" where
  "finish_steps r =
     (let cpu = idx (VDict r) ''server_cpu_seconds''; successes = path (VDict r) [''measurement'', ''succeeded''] in
      [Check (bindE cpu (\<lambda>v. Inr ())),
       Put ''server_cpu_cores'' (bindE cpu (\<lambda>c. if is_none c then Inr VNone else divE (Inr c) (idx (VDict r) ''server_cpu_window_seconds''))),
       Check (bindE successes (\<lambda>v. Inr ())),
       Put ''server_cpu_us_per_request'' (bindE cpu (\<lambda>c. bindE successes (\<lambda>n.
         if \<not> is_none c \<and> truthy n then divE (mulE (Inr c) (pF 1000000)) (Inr n) else Inr VNone)))])"

definition lan_start_row :: "(string \<Rightarrow> string) \<Rightarrow> string \<Rightarrow> lan_options \<Rightarrow> bool \<Rightarrow> string \<Rightarrow> int \<Rightarrow> int \<Rightarrow> int \<Rightarrow> int list \<Rightarrow> int \<Rightarrow> string \<Rightarrow> string \<Rightarrow> val \<Rightarrow> val \<Rightarrow> row" where
  "lan_start_row which base o' ssh name workers connections repeat cpus port cert key identity host =
     [(''server'', VStr name), (''workers'', VInt workers), (''connections'', VInt connections), (''streams'', VInt (lo_streams o')),
      (''repeat'', VInt repeat), (''server_cpus'', VList (map VInt cpus)),
      (''server_command'', VList (map VStr (lan_server which base o' name workers cpus port cert key))),
      (''server_identity'', identity), (''server_host_before'', host), (''valid'', VBool False),
      (''client_location'', VStr (if ssh then ''remote'' else ''loopback''))]"

text \<open>The body of the trial: whatever is raised is recorded, and the record is written.\<close>

definition lan_trial_row :: "(exn \<Rightarrow> string) \<Rightarrow> (row \<Rightarrow> step list) \<Rightarrow> lan_world \<Rightarrow> row \<Rightarrow> row" where
  "lan_trial_row repr steps w r =
     (let (r1, e1) = run_steps (steps r) r;
          (r2, e2) = (case e1 of None \<Rightarrow> run_steps (finish_steps r1) r1 | Some e \<Rightarrow> (r1, Some e));
          r3 = (case e2 of None \<Rightarrow> r2 | Some e \<Rightarrow> dict_set ''error'' (VStr (repr e)) r2);
          r4 = (if lw_spawned w = Inr ()
                then dict_set ''server_exit_code'' (lw_exit_code w) (dict_set ''server_exit_before_shutdown'' (lw_exit_before w) r3) else r3)
      in dict_set ''server_host_after'' (lw_host_after w) r4)"

text \<open>\<open>content.splitlines()\<close> of bytes: lines end at a line feed, a carriage return, or the pair of them.\<close>

fun byte_lines_acc :: "string \<Rightarrow> string \<Rightarrow> string list" where
  "byte_lines_acc w [] = (if w = [] then [] else [rev w])"
| "byte_lines_acc w (c # cs) =
     (if c \<in> {CHR 0x0A, CHR 0x0D}
      then rev w # byte_lines_acc [] (if c = CHR 0x0D \<and> cs \<noteq> [] \<and> hd cs = CHR 0x0A then tl cs else cs)
      else byte_lines_acc (c # w) cs)"

definition byte_lines :: "string \<Rightarrow> string list" where
  "byte_lines content = byte_lines_acc [] content"

text \<open>The archive of the client's files: its exit code and error output, and the contents of an unpacked failure log.\<close>

definition check_archived :: "(string \<Rightarrow> string) \<Rightarrow> (string \<Rightarrow> string res) \<Rightarrow> val \<Rightarrow> unit res" where
  "check_archived sha256 unpack item =
     bindE (bindE (bindE (idx item ''path'') str_val) unpack) (\<lambda>content.
     seqE (assertE (eqE (pS (sha256 content)) (idx item ''sha256_uncompressed'')))
       (assertE (eqE (pI (int (length (byte_lines content)))) (idx item ''entries''))))"

definition lan_archive :: "(string \<Rightarrow> string) \<Rightarrow> (string \<Rightarrow> string res) \<Rightarrow> int \<Rightarrow> string \<Rightarrow> row \<Rightarrow> row res" where
  "lan_archive sha256 unpack code err r =
     (if code \<noteq> 0 then Inr (dict_set ''valid'' (VBool False) (dict_set ''artifact_error'' (VStr err) r))
      else
       bindE (truthE (getE (VDict r) ''valid'')) (\<lambda>valid.
       seqE (if valid then bindE (bindE (path (VDict r) [''client_result'', ''failure_logs'']) elems) (forE (check_archived sha256 unpack)) else Inr ())
       (Inr r)))"

text \<open>\<open>present\<close> are the names already in the output directory: \<open>folder.mkdir()\<close> fails on one of them.\<close>

definition lan_trial ::
  "(string \<Rightarrow> string) \<Rightarrow> string \<Rightarrow> (exn \<Rightarrow> string) \<Rightarrow> (string \<Rightarrow> string) \<Rightarrow> (string \<Rightarrow> string res) \<Rightarrow> lan_options \<Rightarrow> bool \<Rightarrow> string \<Rightarrow>
     int \<Rightarrow> string \<Rightarrow> string \<Rightarrow> val \<Rightarrow> val \<Rightarrow> int \<Rightarrow> string \<Rightarrow> lan_world \<Rightarrow> string \<Rightarrow> int \<Rightarrow> int \<Rightarrow> int \<Rightarrow> string set \<Rightarrow> string \<Rightarrow> row res" where
  "lan_trial which base repr sha256 unpack o' ssh remote_dir port cert key identity host code err w name workers connections repeat present folder_name =
     seqE (ensure (folder_name \<notin> present) (OSError folder_name))
    (bindE (h2_cpu_list (lo_server_cpus o')) (\<lambda>cpus.
     let r = lan_start_row which base o' ssh name workers connections repeat (take (nat workers) cpus) port cert key identity host in
     lan_archive sha256 unpack code err (lan_trial_row repr (lan_steps o' ssh remote_dir folder_name connections port w) w r)))"

section \<open>The order of the trials\<close>

definition check_lan_options :: "lan_options \<Rightarrow> (int list \<times> int list \<times> string list) res" where
  "check_lan_options o' =
     bindE (mapE py_int (split_on CHR '','' (lo_workers o'))) (\<lambda>workers.
     bindE (mapE py_int (split_on CHR '','' (lo_connections o'))) (\<lambda>connections.
     let servers = split_on CHR '','' (lo_servers o') in
     bindE (if \<not> set servers \<subseteq> {''zhtps'', ''go'', ''node'', ''bun''} \<or> Min (set workers) < 1 then Inr False
       else bindE (h2_cpu_list (lo_server_cpus o')) (\<lambda>cpus. Inr (Max (set workers) \<le> int (length cpus)))) (\<lambda>ok.
     seqE (ensure ok (ParserError ''invalid servers or workers''))
    (seqE (ensure (\<not> (Min (set connections) < lo_client_processes o' \<or> \<not> (1 \<le> lo_streams o' \<and> lo_streams o' \<le> 100) \<or> lo_repeats o' < 1 \<or> lo_duration o' \<le> 0))
       (ParserError ''invalid connection counts or measurement parameters''))
     (Inr (workers, connections, servers))))))"

definition lan_names :: "string list \<Rightarrow> int \<Rightarrow> string list" where
  "lan_names servers workers = filter (\<lambda>n. workers = 1 \<or> n \<in> {''zhtps'', ''go''}) servers"

definition lan_schedule :: "int list \<Rightarrow> int list \<Rightarrow> string list \<Rightarrow> int \<Rightarrow> (int \<times> int \<times> string \<times> nat) list" where
  "lan_schedule workers connections servers repeats =
     concat (map (\<lambda>w. concat (map (\<lambda>c. concat (map (\<lambda>r. map (\<lambda>n. (w, c, n, r)) (arch_order (lan_names servers w) r))
       [0..<nat repeats])) connections)) workers)"

definition lan_label :: "int \<times> int \<times> string \<times> nat \<Rightarrow> string" where
  "lan_label x = (case x of (w, c, name, r) \<Rightarrow>
     ''w'' @ str_of_int w @ ''-c'' @ str_of_int c @ ''-'' @ name @ ''-r'' @ str_of_int (int r + 1))"

text \<open>Ports offered by the kernel are drawn until one is new.\<close>

fun draw_port :: "int set \<Rightarrow> int list \<Rightarrow> (int \<times> int set \<times> int list) option" where
  "draw_port used [] = None"
| "draw_port used (p # ps) = (if p \<notin> used then Some (p, insert p used, ps) else draw_port used ps)"

definition lan_complete :: "val list \<Rightarrow> bool res" where
  "lan_complete runs = allE (\<lambda>r. truthE (idx r ''valid'')) runs"

end
