(* ===== verification/Lan_Aggregate.thy ===== *)
theory Lan_Aggregate
  imports Compare_Http2_Lan
begin

text \<open>
  The figures of an HTTP/2 trial, computed twice: by \<open>compare_http2_lan.aggregate\<close> when the trial ends and by
  \<open>audit_http2_lan.audit\<close> afterwards.  The two percentile routines agree; the aggregate, its counts and failure
  kinds by phase included, passes the audit (\<open>tally\<close> relates the audit's counters to the sums over the
  generators); and on well-typed results it can only fail by an assertion.
\<close>

section \<open>Histograms\<close>

text \<open>Counters with distinct integer keys and non-negative integer counts.\<close>

definition hist :: "counter \<Rightarrow> bool" where
  "hist c \<longleftrightarrow> (\<exists>ds. c = int_counter ds \<and> distinct (map fst ds))"

lemma hist_Nil: "hist []"
  by (auto simp: hist_def int_counter_def intro!: exI [of _ "[]"])

lemma int_counter_put: "kdict_put (VInt b) (VInt (int n)) (int_counter ds) = int_counter (dict_set b n ds)"
  by (induction b n ds rule: dict_set.induct) (simp_all add: int_counter_def)

definition add_count :: "int \<times> nat \<Rightarrow> (int \<times> nat) list \<Rightarrow> (int \<times> nat) list" where
  "add_count x ds = (case x of (b, n) \<Rightarrow> dict_set b (n + times_of ds b) ds)"

lemma fold_add_counts:
  "foldE (\<lambda>(k, n) c. bindE (py_add n (counter_get c k)) (\<lambda>v. kdict_set k v c)) (int_counter ms) (int_counter ds) =
     Inr (int_counter (fold add_count ms ds))"
proof (induction ms arbitrary: ds)
  case (Cons x ms)
  obtain b n where x: "x = (b, n)" by (cases x)
  have "bindE (py_add (VInt (int n)) (counter_get (int_counter ds) (VInt b))) (\<lambda>v. kdict_set (VInt b) v (int_counter ds)) =
      Inr (int_counter (add_count x ds))"
    using int_counter_put [of b "n + times_of ds b" ds] x by (simp add: int_counter_get kdict_set_def add_count_def)
  then show ?case using Cons.IH [of "add_count x ds"] x by (simp add: int_counter_def)
qed (simp add: int_counter_def)

lemma fold_set_counts:
  "foldE (\<lambda>(k, n). kdict_set k n) (int_counter ms) (int_counter ds) = Inr (int_counter (fold (\<lambda>(b, n). dict_set b n) ms ds))"
proof (induction ms arbitrary: ds)
  case (Cons x ms)
  obtain b n where x: "x = (b, n)" by (cases x)
  have "kdict_set (VInt b) (VInt (int n)) (int_counter ds) = Inr (int_counter (dict_set b n ds))"
    by (simp add: kdict_set_def int_counter_put)
  then show ?case using Cons.IH [of "dict_set b n ds"] x by (simp add: int_counter_def)
qed (simp add: int_counter_def)

lemma hist_merge:
  assumes "hist c" and "hist m"
  shows "\<exists>c'. counter_merge m c = Inr c' \<and> hist c'"
proof -
  obtain ds ms where c: "c = int_counter ds" "distinct (map fst ds)" and m: "m = int_counter ms" using assms by (auto simp: hist_def)
  have "distinct (map fst (fold add_count xs ds))" for xs
    using c(2) by (induction xs arbitrary: ds) (auto simp: add_count_def dict_set_distinct)
  moreover have "distinct (map fst (fold (\<lambda>(b, n). dict_set b n) xs ds))" for xs
    using c(2) by (induction xs arbitrary: ds) (auto simp: dict_set_distinct)
  moreover have "counter_merge m c = Inr (int_counter (if c = [] then fold (\<lambda>(b, n). dict_set b n) ms ds else fold add_count ms ds))"
    using fold_add_counts [of ms ds] fold_set_counts [of ms ds] c(1) m by (auto simp: counter_merge_def)
  ultimately show ?thesis unfolding hist_def by (metis (full_types))
qed

text \<open>The histogram of a generator: boundaries that are integers in decimal and non-negative counts.\<close>

definition typed_histogram :: "val \<Rightarrow> bool" where
  "typed_histogram v \<longleftrightarrow> (\<exists>kvs. v = VDict kvs \<and> (\<forall>(k, n) \<in> set kvs. returns (py_int k) \<and> (\<exists>m. n = VInt (int m))))"

lemma typed_pairs:
  assumes "\<forall>(k, n) \<in> set kvs. returns (py_int k) \<and> (\<exists>m. n = VInt (int m))"
  shows "\<exists>ns. mapE (\<lambda>(b, n). bindE (py_int b) (\<lambda>k. Inr (k, n))) kvs = Inr (map (\<lambda>(b, m). (b, VInt (int m))) ns)"
  using assms
proof (induction kvs)
  case (Cons x kvs)
  then obtain ns where ns: "mapE (\<lambda>(b, n). bindE (py_int b) (\<lambda>k. Inr (k, n))) kvs = Inr (map (\<lambda>(b, m). (b, VInt (int m))) ns)" by auto
  obtain k b m where "x = (k, VInt (int m))" "py_int k = Inr b" using Cons.prems by (cases x) (auto simp: returns_iff)
  then show ?case using ns by (intro exI [of _ "(b, m) # ns"]) simp
qed simp

lemma dict_set_map: "dict_set k (f v) (map (\<lambda>(a, b). (a, f b)) d) = map (\<lambda>(a, b). (a, f b)) (dict_set k v d)"
  by (induction k v d rule: dict_set.induct) auto

lemma dict_of_map: "dict_of (map (\<lambda>(a, b). (a, f b)) d) = map (\<lambda>(a, b). (a, f b)) (dict_of d)"
proof -
  have "fold (\<lambda>(k, v). dict_set k v) (map (\<lambda>(a, b). (a, f b)) d) (map (\<lambda>(a, b). (a, f b)) e) =
      map (\<lambda>(a, b). (a, f b)) (fold (\<lambda>(k, v). dict_set k v) d e)" for e
    by (induction d arbitrary: e) (auto simp: dict_set_map)
  from this [of "[]"] show ?thesis by (simp add: dict_of_def)
qed

lemma dict_of_keys_distinct: "distinct (map fst (dict_of d))"
proof -
  have "distinct (map fst e) \<Longrightarrow> distinct (map fst (fold (\<lambda>(k, v). dict_set k v) d e))" for e
    by (induction d arbitrary: e) (auto simp: dict_set_distinct)
  then show ?thesis by (simp add: dict_of_def)
qed

lemma histogram_of_typed:
  assumes "typed_histogram v"
  shows "\<exists>m. histogram_of v = Inr m \<and> hist m"
proof -
  obtain kvs where v: "v = VDict kvs" and kvs: "\<forall>(k, n) \<in> set kvs. returns (py_int k) \<and> (\<exists>m. n = VInt (int m))"
    using assms by (auto simp: typed_histogram_def)
  obtain ns where ns: "mapE (\<lambda>(b, n). bindE (py_int b) (\<lambda>k. Inr (k, n))) kvs = Inr (map (\<lambda>(b, m). (b, VInt (int m))) ns)"
    using typed_pairs [OF kvs] ..
  have "histogram_of v = Inr (int_counter (dict_of ns))"
    by (simp add: histogram_of_def v ns dict_of_map int_counter_def case_prod_beta)
  then show ?thesis using dict_of_keys_distinct by (auto simp: hist_def)
qed

section \<open>The two percentiles agree\<close>

lemma quantile_reps:
  assumes "\<forall>b \<in> set bs. counter_get h (VInt b) = VInt (int (f b))" and "0 \<le> r" and "r < int (length (reps f bs))"
  shows "quantile_scan h (map VInt bs) (VInt r) = py_truediv (VInt (reps f bs ! nat r)) (VInt 1000)"
  using assms
proof (induction bs arbitrary: r)
  case (Cons b bs)
  show ?case
  proof (cases "r < int (f b)")
    case True
    then have "nat r < f b" using Cons.prems(2) by linarith
    then show ?thesis using True Cons.prems(1) by (simp add: nth_append)
  next
    case False
    have "quantile_scan h (map VInt bs) (VInt (r - int (f b))) = py_truediv (VInt (reps f bs ! nat (r - int (f b)))) (VInt 1000)"
      using Cons.prems False by (intro Cons.IH) simp_all
    moreover have "nat r - f b = nat (r - int (f b))" "\<not> nat r < f b" using False by linarith+
    ultimately show ?thesis using False Cons.prems(1) by (simp add: nth_append)
  qed
qed simp

lemma quantile_percentile:
  assumes "hist h" and "0 < percent" and "percent \<le> 100"
  shows "lan_quantile h percent = lan_percentile h percent"
proof -
  obtain ds where h: "h = int_counter ds" and d: "distinct (map fst ds)" using assms(1) by (auto simp: hist_def)
  define n where "n = int (length (recorded ds))"
  define r where "r = (n - 1) * percent div 100"
  have rank: "lan_quantile h percent = (if r < 0 then Inr VNone else bindE (py_sorted (map fst h)) (\<lambda>bs. quantile_scan h bs (VInt r)))"
    by (simp add: lan_quantile_def h int_counter_total liftE_defs pI_def py_floordiv_def n_def r_def)
  note spec = lan_percentile_nth [OF d less_imp_le [OF assms(2)] assms(3)]
  show ?thesis
  proof (cases "recorded ds = []")
    case True
    then have "n = 0" by (simp add: n_def)
    then have "r < 0" using assms(2) by (simp add: r_def div_neg_pos_less0)
    then show ?thesis using rank spec True h by simp
  next
    case False
    then have "1 \<le> n" by (cases "recorded ds") (simp_all add: n_def)
    then have r0: "0 \<le> r" using assms(2) by (simp add: r_def pos_imp_zdiv_nonneg_iff)
    have "(n - 1) * percent \<le> (n - 1) * 100" using \<open>1 \<le> n\<close> assms(3) by (intro mult_left_mono) simp_all
    then have "r \<le> n - 1" using zdiv_mono1 [of "(n - 1) * percent" "(n - 1) * 100" 100] by (simp add: r_def)
    moreover have size: "int (length (reps (times_of ds) (sort (map fst ds)))) = n"
      using arg_cong [OF sort_recorded [OF d], of length] by (simp add: n_def)
    ultimately have "quantile_scan h (map VInt (sort (map fst ds))) (VInt r) = py_truediv (VInt (sort (recorded ds) ! nat r)) (VInt 1000)"
      using quantile_reps [of "sort (map fst ds)" h "times_of ds" r] r0 by (simp add: h int_counter_get sort_recorded [OF d])
    moreover have "py_sorted (map fst h) = Inr (map VInt (sort (map fst ds)))"
      using py_sorted_ints [of "map fst ds"] by (simp add: h int_counter_def comp_def case_prod_beta)
    ultimately show ?thesis using rank spec False r0 h by (simp add: r_def n_def)
  qed
qed


section \<open>The aggregate passes the audit\<close>

lemma lan_phase_latency:
  "lan_phase shard observed p s = Inr s' \<Longrightarrow> l_latency s' = l_latency s \<and> l_failure_latency s' = l_failure_latency s"
  unfolding lan_phase_def bindE_eq_Inr seqE_eq_Inr by (elim exE conjE) auto

lemma lan_phases_latency:
  assumes "foldE (lan_phase shard observed) ps s = Inr s'"
  shows "l_latency s' = l_latency s \<and> l_failure_latency s' = l_failure_latency s"
  by (rule foldE_invariant [OF assms]) (auto dest: lan_phase_latency)

lemma lan_histograms_latencies:
  assumes "lan_histograms shard s = Inr s'"
  shows "add_latencies shard (l_latency s, l_failure_latency s) = Inr (l_latency s', l_failure_latency s')"
  using assms unfolding lan_histograms_def lan_histogram_def bindE_eq_Inr seqE_eq_Inr
  by (elim exE conjE) (auto simp: add_latencies_def simp del: path.simps)

lemma lan_shard_latencies:
  assumes "lan_shard E args folder run (i, shard) s = Inr s'"
  shows "add_latencies shard (l_latency s, l_failure_latency s) = Inr (l_latency s', l_failure_latency s')"
proof -
  obtain observed s1 where s1: "foldE (lan_phase shard observed) phases s = Inr s1" and s': "lan_histograms shard s1 = Inr s'"
    using assms unfolding lan_shard_def Let_def prod.case bindE_eq_Inr seqE_eq_Inr by (elim exE conjE) (rule that, auto)
  show ?thesis using lan_phases_latency [OF s1] lan_histograms_latencies [OF s'] by simp
qed

lemma lan_shards_latencies:
  assumes "foldE (lan_shard E args folder run) ishs s = Inr s'"
  shows "foldE add_latencies (map snd ishs) (l_latency s, l_failure_latency s) = Inr (l_latency s', l_failure_latency s')"
  using assms
proof (induction ishs arbitrary: s)
  case (Cons x ishs)
  obtain i sh where x: "x = (i, sh)" by (cases x)
  obtain s1 where s1: "lan_shard E args folder run (i, sh) s = Inr s1" and rest: "foldE (lan_shard E args folder run) ishs s1 = Inr s'"
    using Cons.prems x by (auto simp: bindE_eq_Inr)
  show ?case using lan_shard_latencies [OF s1] Cons.IH [OF rest] x by simp
qed simp

lemma audit_latencies:
  assumes "lan_shards E args folder run = Inr (shards, s)"
  shows "foldE add_latencies shards ([], []) = Inr (l_latency s, l_failure_latency s)"
proof -
  have "foldE (lan_shard E args folder run) (zip [0..<length shards] shards) new_sums = Inr s"
    using assms unfolding lan_shards_def by (auto simp: bindE_eq_Inr seqE_eq_Inr)
  from lan_shards_latencies [OF this] show ?thesis by (simp add: new_sums_def)
qed

definition typed_latencies :: "val \<Rightarrow> bool" where
  "typed_latencies sh \<longleftrightarrow> (\<forall>k \<in> {''latency_us'', ''failure_latency_us''}. \<exists>v. idx sh k = Inr v \<and> typed_histogram v)"

lemma add_latencies_hist:
  assumes "add_latencies sh hs = Inr hs'" and "typed_latencies sh" and "hist (fst hs)" and "hist (snd hs)"
  shows "hist (fst hs') \<and> hist (snd hs')"
proof -
  obtain v w where v: "idx sh ''latency_us'' = Inr v" "typed_histogram v" and w: "idx sh ''failure_latency_us'' = Inr w" "typed_histogram w"
    using assms(2) by (auto simp: typed_latencies_def)
  obtain m where m: "histogram_of v = Inr m" "hist m" using histogram_of_typed [OF v(2)] by blast
  obtain m' where m': "histogram_of w = Inr m'" "hist m'" using histogram_of_typed [OF w(2)] by blast
  have "counter_merge m (fst hs) = Inr (fst hs') \<and> counter_merge m' (snd hs) = Inr (snd hs')"
    using assms(1) v(1) w(1) m(1) m'(1) unfolding add_latencies_def by (auto simp: bindE_eq_Inr seqE_eq_Inr)
  then show ?thesis using hist_merge [OF assms(3) m(2)] hist_merge [OF assms(4) m'(2)] by auto
qed

lemma latencies_hist:
  assumes "foldE add_latencies shards ([], []) = Inr hs" and "\<forall>sh \<in> set shards. typed_latencies sh"
  shows "hist (fst hs) \<and> hist (snd hs)"
  by (rule foldE_invariant [OF assms(1)]) (use assms(2) in \<open>auto simp: hist_Nil dest: add_latencies_hist\<close>)

text \<open>The fields of the aggregate, read back.\<close>

lemma fieldsE_read:
  assumes "fieldsE (map (\<lambda>k. (k, f k)) ks) r = Inr r'" and "distinct ks" and "k \<in> set ks"
  shows "f k = idx (VDict r') k \<and> returns (f k)"
proof -
  have "distinct (map fst (map (\<lambda>k. (k, f k)) ks))" "(k, f k) \<in> set (map (\<lambda>k. (k, f k)) ks)" using assms(2,3) by (simp_all add: comp_def)
  from fieldsE_field [OF assms(1) this(2,1)] show ?thesis by auto
qed

lemma lan_aggregate_fields:
  assumes "lan_aggregate shards duration = Inr r"
  obtains r1 hs elapsed where "foldE add_latencies shards ([], []) = Inr hs" and "elapsed_from duration shards = Inr elapsed"
    and "\<forall>k \<in> set shard_keys. sum_over shards [k] = idx (VDict r) k \<and> idx (VDict r1) k = idx (VDict r) k \<and> returns (idx (VDict r) k)"
    and "\<forall>(k, m) \<in> set (lan_rate_fields shards r1 hs elapsed). m = idx (VDict r) k \<and> returns m"
    and "\<forall>p \<in> set phases. idx (VDict r1) p = idx (VDict r) p \<and> aggregate_phase shards p = idx (VDict r) p"
    and "\<forall>(k, m) \<in> set (full_field r). m = idx (VDict r) k \<and> returns m"
proof -
  obtain r0 r1 hs elapsed r2 where r0: "fieldsE (map (\<lambda>p. (p, aggregate_phase shards p)) phases) [] = Inr r0"
    and r1: "fieldsE (map (\<lambda>k. (k, sum_over shards [k])) shard_keys) r0 = Inr r1"
    and hs: "foldE add_latencies shards ([], []) = Inr hs" and elapsed: "elapsed_from duration shards = Inr elapsed"
    and r2: "fieldsE (lan_rate_fields shards r1 hs elapsed) r1 = Inr r2" and r: "fieldsE (full_field r2) r2 = Inr r"
    using assms unfolding lan_aggregate_def bindE_eq_Inr seqE_eq_Inr by (elim exE conjE) (rule that)
  have late: "map_of r k = map_of r1 k" if "k \<notin> fst ` set (lan_rate_fields shards r1 hs elapsed)" "k \<noteq> ''full_population''" for k
    using fieldsE_other [OF r, of k] fieldsE_other [OF r2, of k] that by (simp add: full_field_def)
  have keys: "map_of r k = map_of r1 k" if "k \<in> set shard_keys \<union> set phases" for k
    by (rule late) (use that in \<open>auto simp: shard_keys_def phases_def lan_rate_fields_def\<close>)
  have sums: "sum_over shards [k] = idx (VDict r1) k \<and> returns (sum_over shards [k])" if "k \<in> set shard_keys" for k
    by (rule fieldsE_read [OF r1 _ that]) (simp add: shard_keys_def)
  have agg: "aggregate_phase shards p = idx (VDict r1) p" if p: "p \<in> set phases" for p
    using fieldsE_read [OF r0 distinct_phases p] fieldsE_other [OF r1, of p] p by (auto simp: phases_def shard_keys_def)
  have rates: "m = idx (VDict r) k \<and> returns m" if km: "(k, m) \<in> set (lan_rate_fields shards r1 hs elapsed)" for k m
  proof -
    have "distinct (map fst (lan_rate_fields shards r1 hs elapsed))" by (simp add: lan_rate_fields_def)
    moreover have "map_of r k = map_of r2 k" by (rule fieldsE_other [OF r]) (use km in \<open>auto simp: lan_rate_fields_def full_field_def\<close>)
    ultimately show ?thesis using fieldsE_field [OF r2 km] by auto
  qed
  have full: "full_field r = full_field r2"
    using fieldsE_other [OF r, of "''ready_connections''"] fieldsE_other [OF r, of "''requested_connections''"]
      fieldsE_other [OF r, of "''participating_connections''"] by (simp add: full_field_def)
  have "m = idx (VDict r) k \<and> returns m" if "(k, m) \<in> set (full_field r)" for k m
  proof -
    have "distinct (map fst (full_field r2))" by (simp add: full_field_def)
    then show ?thesis using fieldsE_field [OF r, of k m] that full by auto
  qed
  moreover have "\<forall>k \<in> set shard_keys. sum_over shards [k] = idx (VDict r) k \<and> idx (VDict r1) k = idx (VDict r) k \<and> returns (idx (VDict r) k)"
  proof (intro ballI)
    fix k
    assume k: "k \<in> set shard_keys"
    have "idx (VDict r) k = idx (VDict r1) k" using keys [of k] k by simp
    then show "sum_over shards [k] = idx (VDict r) k \<and> idx (VDict r1) k = idx (VDict r) k \<and> returns (idx (VDict r) k)"
      using sums [OF k] by metis
  qed
  moreover have "\<forall>p \<in> set phases. idx (VDict r1) p = idx (VDict r) p \<and> aggregate_phase shards p = idx (VDict r) p"
    using agg keys by simp
  ultimately show ?thesis using that [OF hs elapsed, of r1] rates by blast
qed


text \<open>Numbers, booleans and None are equal to themselves.\<close>

definition scalar :: "val \<Rightarrow> bool" where
  "scalar v \<longleftrightarrow> v = VNone \<or> as_rat v \<noteq> None"

lemma scalar_refl: "scalar v \<Longrightarrow> py_eq v v"
  by (cases v) (auto simp: scalar_def)

lemma eqE_refl_val: "m = Inr v \<Longrightarrow> n = Inr v \<Longrightarrow> scalar v \<Longrightarrow> assertE (eqE m n) = Inr ()"
  by (simp add: assertE_eq_Inr eqE_True scalar_refl)

lemma sumE_scalar: "sumE m = Inr v \<Longrightarrow> scalar v"
proof -
  assume "sumE m = Inr v"
  then obtain xs where "foldE (\<lambda>x s. py_add s x) xs (VInt 0) = Inr v" by (auto simp: sumE_def py_sum_def bindE_eq_Inr)
  then have "as_rat v \<noteq> None"
    by (rule foldE_invariant) (auto simp: py_add_def num_op_def split: val.splits option.splits)
  then show ?thesis by (simp add: scalar_def)
qed

lemma divE_scalar: "divE a b = Inr v \<Longrightarrow> scalar v"
  using divE_float by (fastforce simp: scalar_def)

lemma quantile_scan_scalar: "quantile_scan h bs rank = Inr v \<Longrightarrow> scalar v"
proof (induction h bs rank rule: quantile_scan.induct)
  case (2 h b bs rank)
  show ?case
  proof (cases "py_lt rank (counter_get h b) = Inr True")
    case True
    then have "divE (Inr b) (Inr (VInt 1000)) = Inr v" using "2.prems" by (simp add: divE_def)
    then show ?thesis by (rule divE_scalar)
  next
    case False
    then show ?thesis using 2 by (auto simp: bindE_eq_Inr split: if_splits)
  qed
qed simp

lemma quantile_scalar: "lan_quantile h p = Inr v \<Longrightarrow> scalar v"
  by (auto simp: lan_quantile_def bindE_eq_Inr scalar_def [of VNone] dest: quantile_scan_scalar split: if_splits)

lemma elapsed_scalar: "elapsed_from d shards = Inr v \<Longrightarrow> scalar d \<Longrightarrow> scalar v"
proof -
  assume d: "scalar d" and "elapsed_from d shards = Inr v"
  then obtain a b e where e: "divE a b = Inr e" and v: "py_max [d, e] = Inr v" unfolding elapsed_from_def bindE_eq_Inr by (elim exE conjE) (rule that)
  show ?thesis using divE_scalar [OF e] d v by (auto simp: py_max_def bindE_eq_Inr split: if_splits)
qed

lemma bindE_Inr [simp]: "bindE m Inr = m"
  by (cases m) simp_all

lemma sum_over_one: "sum_over shards [k] = sumE (mapE (\<lambda>sh. idx sh k) shards)"
  by (simp add: sum_over_def)

lemma published_field:
  assumes "\<forall>k v. map_of r k = Some v \<longrightarrow> idx run k = Inr v" and "m = idx (VDict r) k" and "returns m" and "\<And>v. m = Inr v \<Longrightarrow> scalar v"
  shows "assertE (eqE (idx run k) m) = Inr ()"
proof -
  obtain v where v: "m = Inr v" using assms(3) by (auto simp: returns_iff)
  then have "idx run k = Inr v" using assms(1,2) by (simp add: of_option_eq_Inr)
  then show ?thesis using v assms(4) by (intro eqE_refl_val) auto
qed

lemma totals_pass:
  assumes agg: "lan_aggregate shards duration = Inr r" and run: "\<forall>k v. map_of r k = Some v \<longrightarrow> idx run k = Inr v"
    and audit: "lan_shards E args folder run = Inr (shards, s)" and typed: "\<forall>sh \<in> set shards. typed_latencies sh"
    and number: "scalar duration" and duration: "idx args ''duration'' = Inr duration" and connections: "idx run ''requested_connections'' = Inr connections"
  shows "check_totals args run connections shards s = Inr ()"
proof (rule lan_aggregate_fields [OF agg])
  fix r1 hs elapsed
  assume hs: "foldE add_latencies shards ([], []) = Inr hs" and elapsed: "elapsed_from duration shards = Inr elapsed"
    and sums: "\<forall>k \<in> set shard_keys. sum_over shards [k] = idx (VDict r) k \<and> idx (VDict r1) k = idx (VDict r) k \<and> returns (idx (VDict r) k)"
    and rates: "\<forall>(k, m) \<in> set (lan_rate_fields shards r1 hs elapsed). m = idx (VDict r) k \<and> returns m"
    and parts: "\<forall>p \<in> set phases. idx (VDict r1) p = idx (VDict r) p \<and> aggregate_phase shards p = idx (VDict r) p"
    and full: "\<forall>(k, m) \<in> set (full_field r). m = idx (VDict r) k \<and> returns m"
  note field = published_field [OF run]
  have same: "idx run k = idx (VDict r) k" if "returns (idx (VDict r) k)" for k
    using that run by (auto simp: returns_iff of_option_eq_Inr)
  have total: "assertE (eqE (idx run k) (sumE (mapE (\<lambda>sh. idx sh k) shards))) = Inr ()" if "k \<in> set shard_keys" for k
  proof -
    have s: "sumE (mapE (\<lambda>sh. idx sh k) shards) = idx (VDict r) k" "returns (idx (VDict r) k)"
      using sums that by (simp_all add: sum_over_one del: idx.simps)
    show ?thesis by (rule field [OF s(1)]) (use s sumE_scalar in metis)+
  qed
  have rate: "assertE (eqE (idx run k) m) = Inr ()" if km: "(k, m) \<in> set (lan_rate_fields shards r1 hs elapsed)" and sc: "\<And>v. m = Inr v \<Longrightarrow> scalar v" for k m
    using rates km by (intro field sc) auto
  have latencies: "l_latency s = fst hs" "l_failure_latency s = snd hs" using audit_latencies [OF audit] hs by auto
  have hists: "hist (fst hs)" "hist (snd hs)" using latencies_hist [OF hs typed] by auto
  have e: "elapsed_of args shards = Inr elapsed" using duration elapsed by (simp add: elapsed_of_def elapsed_from_def)
  have "(''requests_per_second'', divE (path (VDict r1) [''measurement'', ''succeeded'']) (Inr elapsed)) \<in> set (lan_rate_fields shards r1 hs elapsed)"
    by (simp add: lan_rate_fields_def)
  from bspec [OF rates this] have "returns (divE (path (VDict r1) [''measurement'', ''succeeded'']) (Inr elapsed))"
    unfolding prod.case by (rule conjunct2)
  then have "returns (idx (VDict r1) ''measurement'')" by (cases "map_of r1 ''measurement''") (simp_all add: divE_def lift2_def)
  then have part: "idx run ''measurement'' = idx (VDict r1) ''measurement''" using same [of "''measurement''"] parts by (simp add: phases_def)
  have scalars: "\<And>v. Inr elapsed = Inr v \<Longrightarrow> scalar v" "\<And>h p v. lan_quantile h p = Inr v \<Longrightarrow> scalar v" "\<And>a b v. divE a b = Inr v \<Longrightarrow> scalar v"
    using elapsed_scalar [OF elapsed number] quantile_scalar divE_scalar by auto
  have seconds: "assertE (eqE (idx run ''seconds'') (Inr elapsed)) = Inr ()" by (rule rate) (use scalars in \<open>auto simp: lan_rate_fields_def\<close>)
  have rps: "assertE (eqE (idx run ''requests_per_second'') (divE (path run [''measurement'', ''succeeded'']) (Inr elapsed))) = Inr ()"
    by (rule rate) (use scalars part in \<open>auto simp: lan_rate_fields_def\<close>)
  have p: "assertE (eqE (idx run ''p50_ms'') (lan_percentile (l_latency s) 50)) = Inr ()"
    "assertE (eqE (idx run ''p99_ms'') (lan_percentile (l_latency s) 99)) = Inr ()"
    "assertE (eqE (idx run ''failure_p99_ms'') (lan_percentile (l_failure_latency s) 99)) = Inr ()"
    by (rule rate; use scalars hists latencies in \<open>auto simp: lan_rate_fields_def quantile_percentile [symmetric]\<close>)+
  have known: "idx run k = idx (VDict r) k" if "k \<in> set shard_keys" for k using that sums by (intro same) blast
  have three: "idx run ''ready_connections'' = idx (VDict r) ''ready_connections''" "idx run ''participating_connections'' = idx (VDict r) ''participating_connections''"
    "Inr connections = idx (VDict r) ''requested_connections''"
    using known [of "''ready_connections''"] known [of "''participating_connections''"] known [of "''requested_connections''"] connections
    by (simp_all add: shard_keys_def del: idx.simps)
  let ?full = "pB (andE (eqE (idx run ''ready_connections'') (Inr connections)) (eqE (idx run ''participating_connections'') (Inr connections)))"
  have "(''full_population'', ?full) \<in> set (full_field r)" unfolding full_field_def three by simp
  from bspec [OF full this] have "?full = idx (VDict r) ''full_population'' \<and> returns ?full" unfolding prod.case .
  then have pop: "assertE (eqE (idx run ''full_population'') ?full) = Inr ()"
    by (intro field) (auto simp: pB_def bindE_eq_Inr scalar_def simp del: idx.simps)
  have req: "assertE (eqE (idx run ''requested_connections'') (Inr connections)) = Inr ()"
  proof (rule eqE_refl_val [OF connections refl])
    have "sumE (mapE (\<lambda>sh. idx sh ''requested_connections'') shards) = Inr connections"
      using sums three(3) by (simp add: shard_keys_def sum_over_one del: idx.simps)
    then show "scalar connections" by (rule sumE_scalar)
  qed
  show ?thesis using total seconds rps p pop req e by (simp add: check_totals_def checks_eq_Inr forE_eq_Inr seqE_eq_Inr)
qed


section \<open>Well-typed results raise assertions only\<close>

definition assertion :: "exn \<Rightarrow> bool" where
  "assertion e \<longleftrightarrow> (\<exists>m. e = AssertionError m)"

definition int_field :: "val \<Rightarrow> string \<Rightarrow> bool" where
  "int_field v k \<longleftrightarrow> (\<exists>n. idx v k = Inr (VInt n))"

definition typed_stats :: "val \<Rightarrow> bool" where
  "typed_stats v \<longleftrightarrow> (\<forall>k \<in> set accounts. int_field v k) \<and>
     (idx v ''failure_kinds'' = Inr VNone \<or> (\<exists>kvs. idx v ''failure_kinds'' = Inr (VDict kvs) \<and> (\<forall>(k, n) \<in> set kvs. \<exists>m. n = VInt m)))"

definition typed_shard :: "val \<Rightarrow> bool" where
  "typed_shard sh \<longleftrightarrow> (\<forall>p \<in> set phases. \<exists>st. idx sh p = Inr st \<and> typed_stats st) \<and>
     (\<forall>k \<in> set shard_keys \<union> {''start_ns'', ''end_ns''}. int_field sh k) \<and>
     (\<exists>x. idx sh ''client_cpu_seconds'' = Inr (VFloat x)) \<and> typed_latencies sh"

lemma raises_only_returns: "returns m \<Longrightarrow> raises_only P m"
  by (auto simp: returns_iff raises_only_def)

lemma raises_only_foldE_inv:
  assumes "I s" and "\<And>x s. x \<in> set xs \<Longrightarrow> I s \<Longrightarrow> raises_only P (f x s) \<and> (\<forall>s'. f x s = Inr s' \<longrightarrow> I s')"
  shows "raises_only P (foldE f xs s)"
  using assms
proof (induction xs arbitrary: s)
  case (Cons x xs)
  have "raises_only P (foldE f xs s')" if "f x s = Inr s'" for s' using Cons.prems that by (intro Cons.IH) auto
  then show ?case using Cons.prems by (auto intro!: raises_only_bindE)
qed (simp add: raises_intro)

lemma raises_only_fieldsE: "(\<And>k m. (k, m) \<in> set fs \<Longrightarrow> raises_only P m) \<Longrightarrow> raises_only P (fieldsE fs r)"
  by (induction fs r rule: fieldsE.induct) (auto intro!: raises_intro)

lemma raises_only_assertE: "returns m \<Longrightarrow> raises_only assertion (assertE m)"
  by (auto simp: returns_iff assertE_def ensure_def raises_only_def assertion_def)

lemma returns_eqE: "returns a \<Longrightarrow> returns b \<Longrightarrow> returns (eqE a b)"
  by (auto simp: returns_iff eqE_def)

lemma mapE_ints:
  assumes "\<forall>x \<in> set xs. \<exists>n. f x = Inr (VInt n)"
  shows "\<exists>ns. mapE f xs = Inr (map VInt ns) \<and> length ns = length xs"
  using assms
proof (induction xs)
  case (Cons x xs)
  then obtain n ns where "f x = Inr (VInt n)" "mapE f xs = Inr (map VInt ns)" "length ns = length xs" by auto
  then show ?case by (intro exI [of _ "n # ns"]) simp
qed simp

lemma sum_ints:
  assumes "\<forall>x \<in> set xs. \<exists>n. f x = Inr (VInt n)"
  shows "\<exists>n. sumE (mapE f xs) = Inr (VInt n)"
  using mapE_ints [OF assms] by (auto simp: sumE_def py_sum_ints)

text \<open>Counters of failure kinds.\<close>

definition typed_kinds :: "counter \<Rightarrow> bool" where
  "typed_kinds c \<longleftrightarrow> (\<forall>(k, v) \<in> set c. \<exists>s n. k = VStr s \<and> v = VInt n)"

lemma typed_kinds_put: "typed_kinds c \<Longrightarrow> typed_kinds (kdict_put (VStr s) (VInt n) c)"
  by (induction "VStr s" "VInt n" c rule: kdict_put.induct) (auto simp: typed_kinds_def)

lemma typed_kinds_get: "typed_kinds c \<Longrightarrow> \<exists>n. counter_get c k = VInt n"
proof (cases "kdict_get k c")
  case (Some w)
  assume "typed_kinds c"
  moreover obtain pre k' post where "c = pre @ (k', w) # post" using kdict_put_old [OF Some] by blast
  ultimately show ?thesis using Some by (auto simp: typed_kinds_def counter_get_def)
qed (simp add: counter_get_def)

lemma typed_kinds_merge:
  assumes "typed_kinds m" and "typed_kinds c"
  shows "\<exists>c'. counter_merge m c = Inr c' \<and> typed_kinds c'"
proof -
  have add: "\<exists>c'. foldE (\<lambda>(k, n) c. bindE (py_add n (counter_get c k)) (\<lambda>v. kdict_set k v c)) m c = Inr c' \<and> typed_kinds c'" if "typed_kinds c" for c
    using assms(1) that
  proof (induction m arbitrary: c)
    case (Cons x m)
    obtain s n where x: "x = (VStr s, VInt n)" using Cons.prems(1) by (cases x) (auto simp: typed_kinds_def)
    obtain k where "counter_get c (VStr s) = VInt k" using typed_kinds_get [OF Cons.prems(2)] by blast
    then show ?case using Cons.IH [of "kdict_put (VStr s) (VInt (n + k)) c"] Cons.prems x
      by (simp add: kdict_set_def typed_kinds_put) (simp add: typed_kinds_def)
  qed simp
  have set: "\<exists>c'. foldE (\<lambda>(k, n). kdict_set k n) m c = Inr c' \<and> typed_kinds c'" if "typed_kinds c" for c
    using assms(1) that
  proof (induction m arbitrary: c)
    case (Cons x m)
    obtain s n where x: "x = (VStr s, VInt n)" using Cons.prems(1) by (cases x) (auto simp: typed_kinds_def)
    then show ?case using Cons.IH [of "kdict_put (VStr s) (VInt n) c"] Cons.prems
      by (simp add: kdict_set_def typed_kinds_put) (simp add: typed_kinds_def)
  qed simp
  show ?thesis using add [OF assms(2)] set [of "[]"] by (auto simp: counter_merge_def typed_kinds_def [of "[]"])
qed

lemma typed_kinds_dict: "typed_kinds c \<Longrightarrow> returns (counter_dict c)"
proof -
  assume "typed_kinds c"
  then have "returns (mapE (\<lambda>(k, n). bindE (str_val k) (\<lambda>s. Inr (s, n))) c)"
    by (induction c) (auto simp: typed_kinds_def returns_iff)
  then show ?thesis by (auto simp: counter_dict_def returns_iff)
qed


lemma int_fieldD: "int_field v k \<Longrightarrow> returns (idx v k)"
  by (auto simp: int_field_def)

lemma typed_shard_phase: "typed_shard sh \<Longrightarrow> p \<in> set phases \<Longrightarrow> \<exists>st. idx sh p = Inr st \<and> typed_stats st"
  by (simp add: typed_shard_def)

lemma or_empty_dict [simp]: "or_empty (VDict d) = VDict d" "or_empty VNone = VDict []"
  by (simp_all add: or_empty_def)

lemma typed_stats_kinds:
  assumes "typed_stats st"
  obtains kinds kvs where "idx st ''failure_kinds'' = Inr kinds" and "items (or_empty kinds) = Inr kvs" and "\<forall>(k, n) \<in> set kvs. \<exists>m. n = VInt m"
proof (cases "idx st ''failure_kinds'' = Inr VNone")
  case True
  then show ?thesis using that [of VNone "[]"] by simp
next
  case False
  then obtain kvs where "idx st ''failure_kinds'' = Inr (VDict kvs)" "\<forall>(k, n) \<in> set kvs. \<exists>m. n = VInt m" using assms by (auto simp: typed_stats_def)
  then show ?thesis using that [of "VDict kvs" kvs] by simp
qed

lemma int_values: "\<forall>(k, n) \<in> set kvs. \<exists>m. n = VInt m \<Longrightarrow> \<exists>ns. map snd kvs = map VInt ns"
proof (induction kvs)
  case (Cons x kvs)
  then obtain m ns where "snd x = VInt m" "map snd kvs = map VInt ns" by (cases x) auto
  then show ?case by (intro exI [of _ "m # ns"]) simp
qed simp

lemma add_kinds_typed:
  assumes "typed_shard sh" and "p \<in> set phases" and "typed_kinds c"
  shows "raises_only assertion (add_kinds p sh c) \<and> (\<forall>c'. add_kinds p sh c = Inr c' \<longrightarrow> typed_kinds c')"
proof -
  obtain st where st: "idx sh p = Inr st" "typed_stats st" using typed_shard_phase [OF assms(1,2)] by blast
  then obtain a s f where counts: "idx st ''attempted'' = Inr (VInt a)" "idx st ''succeeded'' = Inr (VInt s)" "idx st ''failed'' = Inr (VInt f)"
    by (auto simp: typed_stats_def accounts_def int_field_def)
  obtain kinds kvs where kinds: "idx st ''failure_kinds'' = Inr kinds" "items (or_empty kinds) = Inr kvs" "\<forall>(k, n) \<in> set kvs. \<exists>m. n = VInt m"
    by (rule typed_stats_kinds [OF st(2)])
  have typed: "typed_kinds (str_keys kvs)" using kinds(3) by (auto simp: typed_kinds_def str_keys_def)
  obtain ns where "map snd kvs = map VInt ns" using int_values [OF kinds(3)] ..
  then have "returns (sum_values (idx st ''failure_kinds''))" using kinds by (simp add: sum_values_def dict_values_def py_sum_ints)
  then have "raises_only assertion (add_kinds p sh c)"
    using st(1) counts kinds(1,2) typed_kinds_merge [OF typed assms(3)]
    by (auto simp: add_kinds_def addE_def raises_only_seqE raises_only_assertE returns_eqE raises_only_Inr)
  moreover have "typed_kinds c'" if "add_kinds p sh c = Inr c'" for c'
    using that st(1) kinds typed_kinds_merge [OF typed assms(3)] by (auto simp: add_kinds_def bindE_eq_Inr seqE_eq_Inr)
  ultimately show ?thesis by blast
qed

lemma phase_counts_typed:
  assumes "\<forall>sh \<in> set shards. typed_shard sh" and "p \<in> set phases" and "k \<in> set accounts"
  shows "\<exists>n. sum_over shards [p, k] = Inr (VInt n)"
  unfolding sum_over_def
proof (rule sum_ints, rule ballI)
  fix sh
  assume "sh \<in> set shards"
  then obtain st where "idx sh p = Inr st" "typed_stats st" using assms(1,2) typed_shard_phase by blast
  then show "\<exists>n. path sh [p, k] = Inr (VInt n)" using assms(3) by (auto simp: typed_stats_def int_field_def)
qed

lemma aggregate_phase_typed:
  assumes "\<forall>sh \<in> set shards. typed_shard sh" and "p \<in> set phases"
  shows "raises_only assertion (aggregate_phase shards p)"
proof -
  have start: "typed_kinds []" by (simp add: typed_kinds_def)
  have step: "raises_only assertion (add_kinds p sh c) \<and> (\<forall>c'. add_kinds p sh c = Inr c' \<longrightarrow> typed_kinds c')"
    if "sh \<in> set shards" "typed_kinds c" for sh c using add_kinds_typed assms that by blast
  have "raises_only assertion (dictE (map (\<lambda>k. (k, sum_over shards [p, k])) accounts @ [(''failure_kinds'', counter_dict counts)]))"
    if "foldE (add_kinds p) shards [] = Inr counts" for counts
  proof -
    have "typed_kinds counts" by (rule foldE_invariant [of _ _ _ _ typed_kinds, OF that start]) (use step in blast)
    then have "raises_only assertion (fieldsE (map (\<lambda>k. (k, sum_over shards [p, k])) accounts @ [(''failure_kinds'', counter_dict counts)]) [])"
      using phase_counts_typed [OF assms] typed_kinds_dict by (intro raises_only_fieldsE raises_only_returns) (auto simp: returns_iff)
    then show ?thesis by (auto simp: dictE_def intro!: raises_intro)
  qed
  then show ?thesis unfolding aggregate_phase_def by (intro raises_only_bindE raises_only_foldE_inv [of typed_kinds, OF start step])
qed

lemma add_latencies_typed:
  assumes "typed_shard sh" and "hist (fst hs)" and "hist (snd hs)"
  shows "raises_only assertion (add_latencies sh hs)"
proof -
  obtain v w where v: "idx sh ''latency_us'' = Inr v" "typed_histogram v" and w: "idx sh ''failure_latency_us'' = Inr w" "typed_histogram w"
    using assms(1) by (auto simp: typed_shard_def typed_latencies_def)
  have sums: "returns (bindE (dict_values x) py_sum)" if x: "typed_histogram x" for x
  proof -
    obtain kvs where kvs: "x = VDict kvs" "\<forall>(k, n) \<in> set kvs. \<exists>m. n = VInt m" using x by (fastforce simp: typed_histogram_def)
    obtain ns where "map snd kvs = map VInt ns" using int_values [OF kvs(2)] ..
    then show ?thesis using kvs(1) by (simp add: dict_values_def py_sum_ints)
  qed
  obtain st where st: "idx sh ''measurement'' = Inr st" "typed_stats st" using assms(1) by (auto simp: typed_shard_def phases_def)
  then have "returns (path sh [''measurement'', ''succeeded''])" "returns (path sh [''measurement'', ''failed''])"
    by (auto simp: typed_stats_def accounts_def int_field_def)
  moreover obtain m m' where m: "histogram_of v = Inr m" "hist m" and m': "histogram_of w = Inr m'" "hist m'"
    using histogram_of_typed [OF v(2)] histogram_of_typed [OF w(2)] by blast
  moreover obtain c c' where "counter_merge m (fst hs) = Inr c" "counter_merge m' (snd hs) = Inr c'"
    using hist_merge [OF assms(2) m(2)] hist_merge [OF assms(3) m'(2)] by blast
  ultimately show ?thesis using v w sums [OF v(2)] sums [OF w(2)]
    by (simp add: add_latencies_def raises_only_seqE raises_only_assertE returns_eqE raises_only_Inr del: path.simps)
qed


lemma max_min_ints:
  assumes "shards \<noteq> []" and "\<forall>sh \<in> set shards. int_field sh k"
  shows "\<exists>a b. maxE (mapE (\<lambda>s. idx s k) shards) = Inr (VInt a) \<and> minE (mapE (\<lambda>s. idx s k) shards) = Inr (VInt b)"
proof -
  obtain ns where ns: "mapE (\<lambda>s. idx s k) shards = Inr (map VInt ns)" "length ns = length shards"
    using mapE_ints [of shards "\<lambda>s. idx s k"] assms(2) by (auto simp: int_field_def)
  obtain m ms where cons: "ns = m # ms" using ns(2) assms(1) by (cases ns) auto
  have "foldE (\<lambda>y m. bindE (py_lt m y) (\<lambda>b. Inr (if b then y else m))) (map VInt xs) (VInt m) = Inr (VInt (fold max xs m))" for xs m
    by (induction xs arbitrary: m) (auto simp: max_def)
  moreover have "foldE (\<lambda>y m. bindE (py_lt y m) (\<lambda>b. Inr (if b then y else m))) (map VInt xs) (VInt m) = Inr (VInt (fold min xs m))" for xs m
    by (induction xs arbitrary: m) (auto simp: min_def)
  ultimately show ?thesis using ns(1) cons by (simp add: maxE_def minE_def py_max_def py_min_def)
qed

lemma divide_float: "x \<noteq> 0 \<Longrightarrow> returns (divE (Inr (VInt n)) (Inr (VFloat x)))" "x \<noteq> 0 \<Longrightarrow> returns (divE (Inr (VFloat y)) (Inr (VFloat x)))"
  by (simp_all add: divE_def py_truediv_def to_float_def)

lemma elapsed_typed:
  assumes "shards \<noteq> []" and "\<forall>sh \<in> set shards. typed_shard sh" and "0 < d"
  shows "\<exists>x. elapsed_from (VFloat d) shards = Inr (VFloat x) \<and> 0 < x"
proof -
  have k: "\<forall>sh \<in> set shards. int_field sh ''end_ns''" "\<forall>sh \<in> set shards. int_field sh ''start_ns''" using assms(2) by (auto simp: typed_shard_def)
  obtain a b where ab: "maxE (mapE (\<lambda>s. idx s ''end_ns'') shards) = Inr (VInt a)" "minE (mapE (\<lambda>s. idx s ''start_ns'') shards) = Inr (VInt b)"
    using max_min_ints [OF assms(1) k(1)] max_min_ints [OF assms(1) k(2)] by blast
  have "fl 1000000000 \<noteq> 0" by code_simp
  then obtain e where "divE (Inr (VInt (a - b))) (Inr (VFloat (fl 1000000000))) = Inr (VFloat e)"
    using divide_float(1) divE_float by (fastforce simp: returns_iff)
  then have "elapsed_from (VFloat d) shards = py_max [VFloat d, VFloat e]" using ab by (simp add: elapsed_from_def subE_def pF_def)
  then show ?thesis using assms(3) by (auto simp: py_max_def py_lt_def)
qed

lemma quantile_returns: "hist h \<Longrightarrow> 0 < p \<Longrightarrow> p \<le> 100 \<Longrightarrow> returns (lan_quantile h p)"
  by (auto simp: quantile_percentile hist_def lan_percentile_nth py_truediv_def)

lemma sum_floats: "\<forall>sh \<in> set shards. \<exists>x. f sh = Inr (VFloat x) \<Longrightarrow> shards \<noteq> [] \<Longrightarrow> \<exists>x. sumE (mapE f shards) = Inr (VFloat x)"
proof -
  assume floats: "\<forall>sh \<in> set shards. \<exists>x. f sh = Inr (VFloat x)" and ne: "shards \<noteq> []"
  from floats have "\<exists>xs. mapE f shards = Inr (map VFloat xs) \<and> length xs = length shards"
  proof (induction shards)
    case (Cons sh shards)
    then obtain x xs where "f sh = Inr (VFloat x)" "mapE f shards = Inr (map VFloat xs)" "length xs = length shards" by auto
    then show ?case by (intro exI [of _ "x # xs"]) simp
  qed simp
  then obtain x xs where xs: "mapE f shards = Inr (map VFloat (x # xs))" using ne by (auto simp: length_Suc_conv neq_Nil_conv)
  have "\<exists>z. foldE (\<lambda>x s. py_add s x) (map VFloat ys) (VFloat y) = Inr (VFloat z)" for ys y
    by (induction ys arbitrary: y) (simp_all add: py_add_def num_op_def to_float_def)
  then show ?thesis using xs by (simp add: sumE_def py_sum_def py_add_def num_op_def to_float_def)
qed


lemma aggregate_phase_counts:
  assumes "aggregate_phase shards p = Inr v" and "k \<in> set accounts"
  shows "idx v k = sum_over shards [p, k]"
proof -
  obtain counts where d: "dictE (map (\<lambda>k. (k, sum_over shards [p, k])) accounts @ [(''failure_kinds'', counter_dict counts)]) = Inr v"
    using assms(1) by (auto simp: aggregate_phase_def bindE_eq_Inr)
  have "(k, sum_over shards [p, k]) \<in> set (map (\<lambda>k. (k, sum_over shards [p, k])) accounts @ [(''failure_kinds'', counter_dict counts)])" using assms(2) by simp
  from dictE_field [OF d this] show ?thesis by (simp add: accounts_def)
qed

text \<open>The fields gathered before the figures are computed.\<close>

lemma gathered_typed:
  assumes r0: "fieldsE (map (\<lambda>p. (p, aggregate_phase shards p)) phases) [] = Inr r0"
    and r1: "fieldsE (map (\<lambda>k. (k, sum_over shards [k])) shard_keys) r0 = Inr r1" and typed: "\<forall>sh \<in> set shards. typed_shard sh"
  shows "\<And>p k. p \<in> set phases \<Longrightarrow> k \<in> set accounts \<Longrightarrow> \<exists>n. path (VDict r1) [p, k] = Inr (VInt n)"
    and "\<And>k. k \<in> set shard_keys \<Longrightarrow> returns (idx (VDict r1) k)"
proof -
  fix p k
  assume p: "p \<in> set phases" and k: "k \<in> set accounts"
  have "idx (VDict r1) p = aggregate_phase shards p" "returns (aggregate_phase shards p)"
    using fieldsE_read [OF r0 distinct_phases p] fieldsE_other [OF r1, of p] p by (auto simp: phases_def shard_keys_def)
  then obtain v where "idx (VDict r1) p = Inr v" "aggregate_phase shards p = Inr v" by (auto simp: returns_iff)
  then show "\<exists>n. path (VDict r1) [p, k] = Inr (VInt n)"
    using phase_counts_typed [OF typed p k] aggregate_phase_counts [of shards p v k] k by simp
next
  fix k
  assume k: "k \<in> set shard_keys"
  have "distinct shard_keys" by (simp add: shard_keys_def)
  from fieldsE_read [OF r1 this k] show "returns (idx (VDict r1) k)" by metis
qed

lemma rate_fields_typed:
  assumes "shards \<noteq> []" and "\<forall>sh \<in> set shards. typed_shard sh" and "\<exists>n. path (VDict r) [''measurement'', ''succeeded''] = Inr (VInt n)"
    and "hist (fst hs)" and "hist (snd hs)" and "(0 :: rat) < x"
  shows "\<forall>(k, m) \<in> set (lan_rate_fields shards r hs (VFloat x)). returns m"
proof -
  have "\<forall>sh \<in> set shards. \<exists>y. path sh [''client_cpu_seconds''] = Inr (VFloat y)" using assms(2) by (auto simp: typed_shard_def)
  from sum_floats [OF this assms(1)] obtain c where c: "sum_over shards [''client_cpu_seconds''] = Inr (VFloat c)" by (auto simp: sum_over_def)
  obtain a b where ab: "maxE (mapE (\<lambda>s. idx s ''start_ns'') shards) = Inr (VInt a)" "minE (mapE (\<lambda>s. idx s ''start_ns'') shards) = Inr (VInt b)"
    using max_min_ints [OF assms(1), of "''start_ns''"] assms(2) by (auto simp: typed_shard_def)
  have "fl 1000000 \<noteq> 0" by code_simp
  moreover obtain n where "path (VDict r) [''measurement'', ''succeeded''] = Inr (VInt n)" using assms(3) ..
  ultimately show ?thesis using c ab assms(4-6) quantile_returns divide_float
    by (simp add: lan_rate_fields_def subE_def pF_def del: path.simps)
qed

lemma full_field_returns:
  assumes "fieldsE (lan_rate_fields shards r1 hs elapsed) r1 = Inr r" and "(k, m) \<in> set (full_field r)"
    and "\<And>k. k \<in> set shard_keys \<Longrightarrow> returns (idx (VDict r1) k)"
  shows "returns m"
proof -
  have kept: "returns (idx (VDict r) k)" if "k \<in> set shard_keys" "k \<notin> fst ` set (lan_rate_fields shards r1 hs elapsed)" for k
    using assms(3) [OF that(1)] fieldsE_other [OF assms(1) that(2)] by simp
  have "returns (idx (VDict r) ''ready_connections'')" "returns (idx (VDict r) ''requested_connections'')"
    "returns (idx (VDict r) ''participating_connections'')" by (rule kept; simp add: shard_keys_def lan_rate_fields_def)+
  then obtain a b c where "idx (VDict r) ''ready_connections'' = Inr a" "idx (VDict r) ''requested_connections'' = Inr b"
      "idx (VDict r) ''participating_connections'' = Inr c"
    unfolding returns_iff by blast
  then have "m = pB (andE (eqE (Inr a) (Inr b)) (eqE (Inr c) (Inr b)))" using assms(2) by (simp add: full_field_def)
  then show ?thesis by (simp add: pB_def eqE_def andE_def)
qed

text \<open>
  C19: adding up well-typed results fails in no other way than by an assertion.  When every generator's
  result has the documented fields (integer counters, optional failure kinds, histograms with decimal
  boundaries and non-negative counts) and the duration is positive, no missing key, type error or
  division by zero can occur.
\<close>

theorem aggregate_well_typed:
  assumes "shards \<noteq> []" and typed: "\<forall>sh \<in> set shards. typed_shard sh" and "0 < d"
  shows "(\<exists>r. lan_aggregate shards (VFloat d) = Inr r) \<or> (\<exists>m. lan_aggregate shards (VFloat d) = Inl (AssertionError m))"
proof -
  have a: "raises_only assertion (fieldsE (map (\<lambda>p. (p, aggregate_phase shards p)) phases) [])"
    using aggregate_phase_typed [OF typed] by (intro raises_only_fieldsE) auto
  have sums: "returns (sum_over shards [k])" if "k \<in> set shard_keys" for k
    using sum_ints [of shards "\<lambda>sh. idx sh k"] typed that by (auto simp: sum_over_one typed_shard_def int_field_def)
  have b: "raises_only assertion (fieldsE (map (\<lambda>k. (k, sum_over shards [k])) shard_keys) r)" for r
    using sums by (intro raises_only_fieldsE raises_only_returns) auto
  have latencies: "\<forall>sh \<in> set shards. typed_latencies sh" using typed by (auto simp: typed_shard_def)
  have c: "raises_only assertion (foldE add_latencies shards ([], []))"
    by (rule raises_only_foldE_inv [of "\<lambda>hs. hist (fst hs) \<and> hist (snd hs)"])
      (use typed latencies add_latencies_typed add_latencies_hist in \<open>auto simp: hist_Nil\<close>)
  obtain x where x: "elapsed_from (VFloat d) shards = Inr (VFloat x)" "0 < x" using elapsed_typed [OF assms] by blast
  have rest: "raises_only assertion (seqE (assertE (eqE (idx (VDict r1) ''failure_log_entries'') (sumE (mapE (\<lambda>p. path (VDict r1) [p, ''failed'']) phases))))
      (bindE (fieldsE (lan_rate_fields shards r1 hs (VFloat x)) r1) (\<lambda>r. fieldsE (full_field r) r)))"
    if r0: "fieldsE (map (\<lambda>p. (p, aggregate_phase shards p)) phases) [] = Inr r0"
      and r1: "fieldsE (map (\<lambda>k. (k, sum_over shards [k])) shard_keys) r0 = Inr r1" and hs: "foldE add_latencies shards ([], []) = Inr hs" for r0 r1 hs
  proof (rule raises_only_seqE)
    note g = gathered_typed [OF r0 r1 typed]
    have "returns (sumE (mapE (\<lambda>p. path (VDict r1) [p, ''failed'']) phases))"
      using sum_ints [of phases "\<lambda>p. path (VDict r1) [p, ''failed'']"] g(1) [of _ "''failed''"] by (auto simp: accounts_def simp del: path.simps)
    moreover have "returns (idx (VDict r1) ''failure_log_entries'')" by (rule g(2)) (simp add: shard_keys_def)
    ultimately show "raises_only assertion (assertE (eqE (idx (VDict r1) ''failure_log_entries'') (sumE (mapE (\<lambda>p. path (VDict r1) [p, ''failed'']) phases))))"
      by (intro raises_only_assertE returns_eqE)
    have "\<exists>n. path (VDict r1) [''measurement'', ''succeeded''] = Inr (VInt n)" by (rule g(1)) (simp_all add: phases_def accounts_def)
    note rates = rate_fields_typed [OF assms(1) typed this _ _ x(2), of hs] latencies_hist [OF hs latencies]
    show "raises_only assertion (bindE (fieldsE (lan_rate_fields shards r1 hs (VFloat x)) r1) (\<lambda>r. fieldsE (full_field r) r))"
    proof (rule raises_only_bindE; rule raises_only_fieldsE; rule raises_only_returns)
      show "returns m" if "(k, m) \<in> set (lan_rate_fields shards r1 hs (VFloat x))" for k m using rates that by blast
      show "returns m" if "fieldsE (lan_rate_fields shards r1 hs (VFloat x)) r1 = Inr r" "(k, m) \<in> set (full_field r)" for r k m
        using full_field_returns [OF that g(2)] .
    qed
  qed
  have "raises_only assertion (lan_aggregate shards (VFloat d))"
    unfolding lan_aggregate_def x(1) bindE_simps by (intro raises_only_bindE a b c rest)
  then show ?thesis by (cases "lan_aggregate shards (VFloat d)") (auto simp: raises_only_def assertion_def)
qed

section \<open>The counts of each phase pass the audit\<close>

text \<open>The count of a key, as an integer.\<close>

definition keyed :: "counter \<Rightarrow> val \<Rightarrow> int" where
  "keyed c k = int_of (counter_get c k)"

lemma keyed_Nil [simp]: "keyed [] k = 0"
  by (simp add: keyed_def counter_get_def)

lemma keyed_Cons: "keyed ((k', v) # c) k = (if py_eq k k' then int_of v else keyed c k)"
  by (simp add: keyed_def counter_get_def)

lemma py_eq_hashable: "hashable a \<Longrightarrow> hashable b \<Longrightarrow> py_eq a b \<Longrightarrow> py_eq a c \<longleftrightarrow> py_eq b c"
  by (cases a; cases b; cases c) auto

lemma hashable_refl: "hashable a \<Longrightarrow> py_eq a a"
  by (cases a) auto

lemma hashable_sym: "hashable a \<Longrightarrow> hashable b \<Longrightarrow> py_eq a b \<longleftrightarrow> py_eq b a"
  by (cases a; cases b) auto

lemma kdict_get_eq: "py_eq a b \<Longrightarrow> hashable a \<Longrightarrow> hashable b \<Longrightarrow> kdict_get a c = kdict_get b c"
proof -
  assume "py_eq a b" "hashable a" "hashable b"
  then have "py_eq a x \<longleftrightarrow> py_eq b x" for x by (metis py_eq_hashable)
  then show ?thesis by (induction c) auto
qed

lemma kdict_get_put:
  "hashable k \<Longrightarrow> hashable a \<Longrightarrow> \<forall>x \<in> set c. hashable (fst x) \<Longrightarrow>
     kdict_get a (kdict_put k v c) = (if py_eq a k then Some v else kdict_get a c)"
proof (induction k v c rule: kdict_put.induct)
  case (2 k v k' v' d)
  show ?case
  proof (cases "py_eq k k'")
    case True
    then have "py_eq a k' \<longleftrightarrow> py_eq a k" using 2 py_eq_hashable [of k k' a] hashable_sym by auto
    then show ?thesis using True 2 by auto
  next
    case False
    then have "\<not> (py_eq a k' \<and> py_eq a k)" using 2 py_eq_hashable [of a k k'] by auto
    then show ?thesis using False 2 by auto
  qed
qed simp

lemma good_keys: "good_counter c \<Longrightarrow> \<forall>x \<in> set c. hashable (fst x)"
  by (auto simp: good_counter_def)

lemma keyed_put:
  "good_counter c \<Longrightarrow> hashable k \<Longrightarrow> hashable a \<Longrightarrow> keyed (kdict_put k (VInt n) c) a = (if py_eq a k then n else keyed c a)"
  by (simp add: keyed_def counter_get_def kdict_get_put good_keys)

lemma keyed_eq: "py_eq a b \<Longrightarrow> hashable a \<Longrightarrow> hashable b \<Longrightarrow> keyed c a = keyed c b"
  by (simp add: keyed_def counter_get_def kdict_get_eq)

lemma counter_eq_keyed:
  assumes a: "good_counter a" and b: "good_counter b"
  shows "counter_eq a b \<longleftrightarrow> (\<forall>k. hashable k \<longrightarrow> keyed a k = keyed b k)"
proof -
  have same: "py_eq (counter_get a k) (counter_get b k) \<longleftrightarrow> keyed a k = keyed b k" for k
  proof -
    obtain m n where "counter_get a k = VInt m" "counter_get b k = VInt n" using good_get [OF a] good_get [OF b] by metis
    then show ?thesis by (auto simp: keyed_def)
  qed
  have "keyed a k = keyed b k" if eq: "counter_eq a b" and k: "hashable k" for k
  proof (cases "\<exists>x \<in> set (a @ b). py_eq k (fst x)")
    case True
    then obtain x where x: "x \<in> set (a @ b)" "py_eq k (fst x)" by blast
    have "hashable (fst x)" using x(1) good_keys [OF a] good_keys [OF b] by auto
    moreover have "keyed a (fst x) = keyed b (fst x)" using eq x(1) same by (cases x) (auto simp: counter_eq_def)
    ultimately show ?thesis using keyed_eq [OF x(2) k] by metis
  next
    case False
    then have "kdict_get k a = None" "kdict_get k b = None" by (auto simp: kdict_get_None)
    then show ?thesis by (simp add: keyed_def counter_get_def)
  qed
  moreover have "counter_eq a b" if "\<forall>k. hashable k \<longrightarrow> keyed a k = keyed b k"
    using that good_keys [OF a] good_keys [OF b] by (fastforce simp: counter_eq_def same)
  ultimately show ?thesis by blast
qed

lemma good_ConsD: "good_counter ((k, v) # c) \<Longrightarrow> good_counter c \<and> hashable k \<and> v = VInt (int_of v) \<and> (\<forall>x \<in> set c. \<not> py_eq (fst x) k)"
  by (auto simp: good_counter_def)

lemma add_keyed:
  assumes "good_counter m" and "good_counter c"
  shows "\<exists>c'. foldE (\<lambda>(k, n) c. bindE (py_add n (counter_get c k)) (\<lambda>v. kdict_set k v c)) m c = Inr c' \<and> good_counter c' \<and>
    (\<forall>k. hashable k \<longrightarrow> keyed c' k = keyed c k + keyed m k)"
  using assms
proof (induction m arbitrary: c)
  case (Cons x m)
  obtain a n where x: "x = (a, VInt n)" using good_ConsD Cons.prems(1) by (cases x) metis
  have m: "good_counter m" "hashable a" "\<forall>x \<in> set m. \<not> py_eq (fst x) a" using good_ConsD Cons.prems(1) x by blast+
  define d where "d = kdict_put a (VInt (n + keyed c a)) c"
  have d: "bindE (py_add (VInt n) (counter_get c a)) (\<lambda>v. kdict_set a v c) = Inr d" "good_counter d"
  proof -
    obtain j where "counter_get c a = VInt j" using good_get [OF Cons.prems(2)] by metis
    then show "bindE (py_add (VInt n) (counter_get c a)) (\<lambda>v. kdict_set a v c) = Inr d" using m(2) by (simp add: d_def keyed_def kdict_set_def)
    show "good_counter d" unfolding d_def by (rule good_put(1) [OF Cons.prems(2) m(2)])
  qed
  obtain c' where c': "foldE (\<lambda>(k, n) c. bindE (py_add n (counter_get c k)) (\<lambda>v. kdict_set k v c)) m d = Inr c'" "good_counter c'"
    and sum: "\<forall>k. hashable k \<longrightarrow> keyed c' k = keyed d k + keyed m k" using Cons.IH [OF m(1) d(2)] by blast
  have "keyed c' k = keyed c k + keyed (x # m) k" if k: "hashable k" for k
  proof (cases "py_eq k a")
    case True
    have "kdict_get a m = None" using m hashable_sym [OF m(2)] good_keys [OF m(1)] by (auto simp: kdict_get_None)
    then have "keyed m k = 0" using keyed_eq [OF True k m(2)] by (simp add: keyed_def counter_get_def)
    then show ?thesis using True sum k x keyed_put [OF Cons.prems(2) m(2) k] keyed_eq [OF True k m(2), of c] by (simp add: d_def keyed_Cons)
  next
    case False
    then show ?thesis using sum k x keyed_put [OF Cons.prems(2) m(2) k] by (simp add: d_def keyed_Cons)
  qed
  then show ?case using d(1) c' x by auto
qed simp

lemma counter_merge_keyed:
  assumes "good_counter m" and "good_counter c"
  shows "\<exists>c'. counter_merge m c = Inr c' \<and> good_counter c' \<and> (\<forall>k. hashable k \<longrightarrow> keyed c' k = keyed c k + keyed m k)"
proof (cases "c = []")
  case True
  then show ?thesis using assms fold_set_fresh [of "[]" m] by (simp add: counter_merge_def)
next
  case False
  then show ?thesis using add_keyed [OF assms] by (simp add: counter_merge_def)
qed


text \<open>The counts by phase and key.\<close>

definition tally :: "by_phase \<Rightarrow> (string \<Rightarrow> val \<Rightarrow> int) \<Rightarrow> bool" where
  "tally d f \<longleftrightarrow> good_counts d \<and> (\<forall>p \<in> set phases. \<forall>k. hashable k \<longrightarrow> keyed (phase_counts p d) k = f p k)"

lemma tally_none: "tally no_counts (\<lambda>p k. 0)"
  by (simp add: tally_def good_no_counts)

lemma tally_merge:
  assumes "tally d f" and "good_counter m" and "p \<in> set phases"
  shows "\<exists>d'. merge_phase p m d = Inr d' \<and> tally d' (\<lambda>q k. f q k + (if q = p then keyed m k else 0))"
proof -
  have d: "good_counts d" using assms(1) by (simp add: tally_def)
  obtain c where c: "counter_merge m (phase_counts p d) = Inr c" "good_counter c"
    "\<forall>k. hashable k \<longrightarrow> keyed c k = keyed (phase_counts p d) k + keyed m k"
    using counter_merge_keyed [OF assms(2) good_phase [OF d]] by blast
  have "good_counts (dict_set p c d)" using good_counts_set [OF d c(2) assms(3)] by simp
  then show ?thesis using assms(1,3) c by (simp add: merge_phase_def tally_def phase_counts_set)
qed

text \<open>What a generator reports of a phase: its three counts, and its failure kinds.\<close>

definition account :: "val \<Rightarrow> string \<Rightarrow> counter" where
  "account sh p = map (\<lambda>k. (VStr k, case path sh [p, k] of Inr v \<Rightarrow> v | Inl _ \<Rightarrow> VInt 0)) accounts"

definition reported_kinds :: "val \<Rightarrow> string \<Rightarrow> counter" where
  "reported_kinds sh p = (case bindE (path sh [p, ''failure_kinds'']) (\<lambda>v. counter_of (or_empty v)) of Inr c \<Rightarrow> c | Inl _ \<Rightarrow> [])"

definition distinct_kinds :: "val \<Rightarrow> bool" where
  "distinct_kinds sh \<longleftrightarrow> (\<forall>p \<in> set phases. \<forall>d. path sh [p, ''failure_kinds''] = Inr (VDict d) \<longrightarrow> distinct (map fst d))"

lemma good_str_keys: "distinct (map fst kvs) \<Longrightarrow> \<forall>(k, n) \<in> set kvs. \<exists>m. n = VInt m \<Longrightarrow> good_counter (str_keys kvs)"
  by (induction kvs) (auto simp: good_counter_def str_keys_def, force)

lemma reported_kinds_str:
  assumes "typed_shard sh" and "distinct_kinds sh" and "p \<in> set phases"
  obtains kvs v where "path sh [p, ''failure_kinds''] = Inr v" and "items (or_empty v) = Inr kvs" and "counter_of (or_empty v) = Inr (str_keys kvs)"
    and "reported_kinds sh p = str_keys kvs" and "good_counter (str_keys kvs)"
proof -
  obtain st where st: "idx sh p = Inr st" "typed_stats st" using typed_shard_phase [OF assms(1,3)] by blast
  show ?thesis
  proof (cases "idx st ''failure_kinds'' = Inr VNone")
    case True
    then show ?thesis using st(1) that [of VNone "[]"] by (simp add: reported_kinds_def counter_of_def str_keys_def)
  next
    case False
    then obtain kvs where kvs: "idx st ''failure_kinds'' = Inr (VDict kvs)" "\<forall>(k, n) \<in> set kvs. \<exists>m. n = VInt m" using st(2) by (auto simp: typed_stats_def)
    have "distinct (map fst kvs)" using assms(2,3) st(1) kvs(1) by (simp add: distinct_kinds_def)
    from good_str_keys [OF this kvs(2)] show ?thesis using st(1) kvs(1) that [of "VDict kvs" kvs] by (simp add: reported_kinds_def counter_of_def)
  qed
qed

lemma account_good:
  assumes "typed_shard sh" and "p \<in> set phases"
  shows "good_counter (account sh p)" and "k \<in> set accounts \<Longrightarrow> path sh [p, k] = Inr (VInt (keyed (account sh p) (VStr k)))"
proof -
  obtain st where st: "idx sh p = Inr st" "typed_stats st" using typed_shard_phase [OF assms] by blast
  have "\<exists>n. path sh [p, k] = Inr (VInt n)" if "k \<in> set accounts" for k using that st by (auto simp: typed_stats_def int_field_def)
  then obtain f where f: "\<And>k. k \<in> set accounts \<Longrightarrow> path sh [p, k] = Inr (VInt (f k))" by metis
  then have a: "account sh p = map (\<lambda>k. (VStr k, VInt (f k))) accounts" by (simp add: account_def accounts_def del: path.simps)
  show "good_counter (account sh p)" by (simp add: a accounts_def good_counter_def)
  show "k \<in> set accounts \<Longrightarrow> path sh [p, k] = Inr (VInt (keyed (account sh p) (VStr k)))"
    using f by (auto simp: a accounts_def keyed_Cons simp del: path.simps)
qed

lemma lan_phase_tally:
  assumes step: "lan_phase sh observed p s = Inr s'" and sh: "typed_shard sh" "distinct_kinds sh" and p: "p \<in> set phases" and seen: "good_counts observed"
    and t: "tally (l_totals s) f" "tally (l_kinds s) g"
  shows "tally (l_totals s') (\<lambda>q k. f q k + (if q = p then keyed (account sh q) k else 0)) \<and>
    tally (l_kinds s') (\<lambda>q k. g q k + (if q = p then keyed (reported_kinds sh q) k else 0))"
proof -
  obtain stats counts totals kinds c where stats: "idx sh p = Inr stats"
    and c: "bindE (idx stats ''failure_kinds'') (\<lambda>v. counter_of (or_empty v)) = Inr c" and eq: "counter_eq (phase_counts p observed) c"
    and counts: "mapE (\<lambda>k. bindE (idx stats k) (\<lambda>n. Inr (VStr k, n))) accounts = Inr counts"
    and totals: "merge_phase p counts (l_totals s) = Inr totals" and kinds: "merge_phase p (phase_counts p observed) (l_kinds s) = Inr kinds"
    and s': "s' = s\<lparr>l_totals := totals, l_kinds := kinds\<rparr>"
    using step unfolding lan_phase_def bindE_eq_Inr seqE_eq_Inr assertE_eq_Inr by (elim exE conjE) (rule that, auto)
  obtain kvs v where v: "path sh [p, ''failure_kinds''] = Inr v" "counter_of (or_empty v) = Inr (str_keys kvs)" "reported_kinds sh p = str_keys kvs" "good_counter (str_keys kvs)"
    by (rule reported_kinds_str [OF sh p])
  have "c = reported_kinds sh p" using c v stats by simp
  then have "\<forall>k. hashable k \<longrightarrow> keyed (phase_counts p observed) k = keyed (reported_kinds sh p) k"
    using eq v counter_eq_keyed [OF good_phase [OF seen] v(4)] by simp
  moreover obtain d where "merge_phase p (phase_counts p observed) (l_kinds s) = Inr d"
    "tally d (\<lambda>q k. g q k + (if q = p then keyed (phase_counts p observed) k else 0))" using tally_merge [OF t(2) good_phase [OF seen] p] by blast
  ultimately have a: "tally (l_kinds s') (\<lambda>q k. g q k + (if q = p then keyed (reported_kinds sh q) k else 0))"
    using kinds s' by (auto simp: tally_def)
  have "counts = account sh p" using counts stats by (auto simp: accounts_def account_def bindE_eq_Inr)
  then obtain e where "merge_phase p counts (l_totals s) = Inr e" "tally e (\<lambda>q k. f q k + (if q = p then keyed (account sh p) k else 0))"
    using tally_merge [OF t(1) account_good(1) [OF sh(1) p] p] by blast
  then show ?thesis using a totals s' by (auto simp: tally_def)
qed

lemma lan_phases_tally:
  assumes "foldE (lan_phase sh observed) ps s = Inr s'" and "typed_shard sh" "distinct_kinds sh" and "set ps \<subseteq> set phases" "distinct ps" and "good_counts observed"
    and "tally (l_totals s) f" "tally (l_kinds s) g"
  shows "tally (l_totals s') (\<lambda>q k. f q k + (if q \<in> set ps then keyed (account sh q) k else 0)) \<and>
    tally (l_kinds s') (\<lambda>q k. g q k + (if q \<in> set ps then keyed (reported_kinds sh q) k else 0))"
  using assms
proof (induction ps arbitrary: s f g)
  case (Cons p ps)
  obtain s1 where s1: "lan_phase sh observed p s = Inr s1" and rest: "foldE (lan_phase sh observed) ps s1 = Inr s'"
    using Cons.prems(1) by (auto simp: bindE_eq_Inr)
  have p: "p \<in> set phases" "set ps \<subseteq> set phases" "distinct ps" "p \<notin> set ps" using Cons.prems(4,5) by auto
  note step = lan_phase_tally [OF s1 Cons.prems(2,3) p(1) Cons.prems(6-8)]
  from Cons.IH [OF rest Cons.prems(2,3) p(2,3) Cons.prems(6) conjunct1 [OF step] conjunct2 [OF step]] p(4) show ?case
    by (auto simp: tally_def)
qed simp

lemma lan_shard_tally:
  assumes "lan_shard E args folder run (i, sh) s = Inr s'" and "typed_shard sh" "distinct_kinds sh" and "tally (l_totals s) f" "tally (l_kinds s) g"
  shows "tally (l_totals s') (\<lambda>q k. f q k + keyed (account sh q) k) \<and> tally (l_kinds s') (\<lambda>q k. g q k + keyed (reported_kinds sh q) k)"
proof -
  obtain lines observed s1 where observed: "foldE (lan_failure E args sh) lines no_counts = Inr observed"
    and s1: "foldE (lan_phase sh observed) phases s = Inr s1" and s': "lan_histograms sh s1 = Inr s'"
    using assms(1) unfolding lan_shard_def Let_def prod.case bindE_eq_Inr seqE_eq_Inr by (elim exE conjE) (rule that, auto)
  have good: "good_counts observed" using lan_failures_counts [OF observed good_no_counts(1)] by simp
  have "l_totals s' = l_totals s1" "l_kinds s' = l_kinds s1" using s' by (auto simp: lan_histograms_def bindE_eq_Inr)
  then show ?thesis using lan_phases_tally [OF s1 assms(2,3) subset_refl distinct_phases good assms(4,5)] by (simp add: tally_def)
qed

lemma lan_shards_tally:
  assumes "foldE (lan_shard E args folder run) ishs s = Inr s'" and "\<forall>(i, sh) \<in> set ishs. typed_shard sh \<and> distinct_kinds sh"
    and "tally (l_totals s) f" "tally (l_kinds s) g"
  shows "tally (l_totals s') (\<lambda>q k. f q k + sum_list (map (\<lambda>(i, sh). keyed (account sh q) k) ishs)) \<and>
    tally (l_kinds s') (\<lambda>q k. g q k + sum_list (map (\<lambda>(i, sh). keyed (reported_kinds sh q) k) ishs))"
  using assms
proof (induction ishs arbitrary: s f g)
  case (Cons x ishs)
  obtain i sh where x: "x = (i, sh)" by (cases x)
  obtain s1 where s1: "lan_shard E args folder run (i, sh) s = Inr s1" and rest: "foldE (lan_shard E args folder run) ishs s1 = Inr s'"
    using Cons.prems(1) x by (auto simp: bindE_eq_Inr)
  have sh: "typed_shard sh" "distinct_kinds sh" "\<forall>(i, sh) \<in> set ishs. typed_shard sh \<and> distinct_kinds sh" using Cons.prems(2) x by auto
  note step = lan_shard_tally [OF s1 sh(1,2) Cons.prems(3,4)]
  from Cons.IH [OF rest sh(3) conjunct1 [OF step] conjunct2 [OF step]] show ?case by (simp add: x add.assoc)
qed simp

lemma audit_tally:
  assumes "lan_shards E args folder run = Inr (shards, s)" and "\<forall>sh \<in> set shards. typed_shard sh \<and> distinct_kinds sh"
  shows "tally (l_totals s) (\<lambda>p k. sum_list (map (\<lambda>sh. keyed (account sh p) k) shards)) \<and>
    tally (l_kinds s) (\<lambda>p k. sum_list (map (\<lambda>sh. keyed (reported_kinds sh p) k) shards))"
proof -
  have fold: "foldE (lan_shard E args folder run) (zip [0..<length shards] shards) new_sums = Inr s"
    using assms(1) unfolding lan_shards_def by (auto simp: bindE_eq_Inr seqE_eq_Inr)
  have "\<forall>(i, sh) \<in> set (zip [0..<length shards] shards). typed_shard sh \<and> distinct_kinds sh" using assms(2) by (auto dest: set_zip_rightD)
  moreover have "map (\<lambda>(i, sh). h sh) (zip [0..<length shards] shards) = map h shards" for h :: "val \<Rightarrow> int"
    by (rule nth_equalityI) simp_all
  ultimately show ?thesis using lan_shards_tally [OF fold] tally_none by (fastforce simp: new_sums_def)
qed

text \<open>The same counts in the aggregate.\<close>

lemma add_kinds_keyed:
  assumes "add_kinds p sh c = Inr c'" and "typed_shard sh" "distinct_kinds sh" and "p \<in> set phases" and "good_counter c" "typed_kinds c"
  shows "good_counter c' \<and> typed_kinds c' \<and> (\<forall>k. hashable k \<longrightarrow> keyed c' k = keyed c k + keyed (reported_kinds sh p) k)"
proof -
  obtain kvs v where v: "path sh [p, ''failure_kinds''] = Inr v" "items (or_empty v) = Inr kvs" "reported_kinds sh p = str_keys kvs" "good_counter (str_keys kvs)"
    by (rule reported_kinds_str [OF assms(2-4)])
  have c': "counter_merge (str_keys kvs) c = Inr c'"
    using assms(1) v(1,2) unfolding add_kinds_def by (auto simp: bindE_eq_Inr seqE_eq_Inr)
  have "typed_kinds c'" using add_kinds_typed [OF assms(2,4,6)] assms(1) by blast
  then show ?thesis using counter_merge_keyed [OF v(4) assms(5)] c' v(3) by auto
qed

lemma kinds_fold:
  assumes "foldE (add_kinds p) shards c = Inr c'" and "\<forall>sh \<in> set shards. typed_shard sh \<and> distinct_kinds sh" and "p \<in> set phases" and "good_counter c" "typed_kinds c"
  shows "good_counter c' \<and> typed_kinds c' \<and> (\<forall>k. hashable k \<longrightarrow> keyed c' k = keyed c k + sum_list (map (\<lambda>sh. keyed (reported_kinds sh p) k) shards))"
  using assms
proof (induction shards arbitrary: c)
  case (Cons sh shards)
  obtain d where d: "add_kinds p sh c = Inr d" and rest: "foldE (add_kinds p) shards d = Inr c'" using Cons.prems(1) by (auto simp: bindE_eq_Inr)
  have sh: "typed_shard sh" "distinct_kinds sh" "\<forall>sh \<in> set shards. typed_shard sh \<and> distinct_kinds sh" using Cons.prems(2) by auto
  note step = add_kinds_keyed [OF d sh(1,2) Cons.prems(3-5)]
  then show ?case using Cons.IH [OF rest sh(3) Cons.prems(3)] by (simp add: add.assoc)
qed simp

lemma counter_of_dict: "typed_kinds c \<Longrightarrow> bindE (counter_dict c) counter_of = Inr c"
proof -
  assume "typed_kinds c"
  then have "\<exists>kvs. mapE (\<lambda>(k, n). bindE (str_val k) (\<lambda>s. Inr (s, n))) c = Inr kvs \<and> str_keys kvs = c"
    by (induction c) (auto simp: typed_kinds_def str_keys_def)
  then show ?thesis by (auto simp: counter_dict_def counter_of_def)
qed

lemma aggregate_kinds:
  assumes "aggregate_phase shards p = Inr v" and "\<forall>sh \<in> set shards. typed_shard sh \<and> distinct_kinds sh" and "p \<in> set phases"
  shows "\<exists>c. bindE (idx v ''failure_kinds'') counter_of = Inr c \<and> good_counter c \<and>
    (\<forall>k. hashable k \<longrightarrow> keyed c k = sum_list (map (\<lambda>sh. keyed (reported_kinds sh p) k) shards))"
proof -
  obtain counts where c: "foldE (add_kinds p) shards [] = Inr counts"
    and d: "dictE (map (\<lambda>k. (k, sum_over shards [p, k])) accounts @ [(''failure_kinds'', counter_dict counts)]) = Inr v"
    using assms(1) by (auto simp: aggregate_phase_def bindE_eq_Inr)
  have counted: "good_counter counts \<and> typed_kinds counts \<and> (\<forall>k. hashable k \<longrightarrow> keyed counts k = sum_list (map (\<lambda>sh. keyed (reported_kinds sh p) k) shards))"
    using kinds_fold [OF c assms(2,3)] by (simp add: typed_kinds_def)
  have "idx v ''failure_kinds'' = counter_dict counts"
    using dictE_field [OF d, of "''failure_kinds''" "counter_dict counts"] by (simp add: accounts_def)
  then show ?thesis using counted counter_of_dict by auto
qed

lemma sum_over_accounts:
  assumes "\<forall>sh \<in> set shards. typed_shard sh" and "p \<in> set phases" and "k \<in> set accounts"
  shows "sum_over shards [p, k] = Inr (VInt (sum_list (map (\<lambda>sh. keyed (account sh p) (VStr k)) shards)))"
proof -
  have "mapE (\<lambda>sh. path sh [p, k]) shards = Inr (map VInt (map (\<lambda>sh. keyed (account sh p) (VStr k)) shards))"
    using assms(1) account_good(2) [OF _ assms(2,3)] by (induction shards) (simp_all del: path.simps)
  then show ?thesis by (simp add: sum_over_def sumE_def py_sum_ints del: map_map)
qed

text \<open>One phase of the published trial passes the audit.\<close>

lemma run_phase_passes:
  assumes v: "idx run p = Inr v" "aggregate_phase shards p = Inr v" and p: "p \<in> set phases"
    and typed: "\<forall>sh \<in> set shards. typed_shard sh \<and> distinct_kinds sh"
    and totals: "tally (l_totals s) (\<lambda>p k. sum_list (map (\<lambda>sh. keyed (account sh p) k) shards))"
    and kinds: "tally (l_kinds s) (\<lambda>p k. sum_list (map (\<lambda>sh. keyed (reported_kinds sh p) k) shards))"
    and failures: "good_counts failures"
  shows "\<exists>failures'. run_phase run s p failures = Inr failures' \<and> good_counts failures'"
proof -
  have ts: "\<forall>sh \<in> set shards. typed_shard sh" using typed by simp
  have "path run [p, k] = Inr (counter_get (phase_counts p (l_totals s)) (VStr k))" if k: "k \<in> set accounts" for k
  proof -
    have "keyed (phase_counts p (l_totals s)) (VStr k) = sum_list (map (\<lambda>sh. keyed (account sh p) (VStr k)) shards)"
      using totals p by (simp add: tally_def)
    moreover have "counter_get (phase_counts p (l_totals s)) (VStr k) = VInt (keyed (phase_counts p (l_totals s)) (VStr k))"
      unfolding keyed_def by (rule good_get) (use totals in \<open>simp add: tally_def good_phase\<close>)
    ultimately show ?thesis using v aggregate_phase_counts [OF v(2) k] sum_over_accounts [OF ts p k] by simp
  qed
  moreover have "eqE (Inr (counter_get (phase_counts p (l_totals s)) k)) (Inr (counter_get (phase_counts p (l_totals s)) k)) = Inr True" for k
  proof -
    obtain n where "counter_get (phase_counts p (l_totals s)) k = VInt n"
      using good_get [of "phase_counts p (l_totals s)" k] totals good_phase by (metis tally_def)
    then show ?thesis by (simp add: eqE_def)
  qed
  ultimately have a: "forE (\<lambda>k. assertE (eqE (path run [p, k]) (Inr (counter_get (phase_counts p (l_totals s)) (VStr k))))) accounts = Inr ()"
    by (simp add: forE_eq_Inr assertE_eq_Inr del: path.simps)
  have good: "good_counter (phase_counts p (l_kinds s))" using kinds by (simp add: tally_def good_phase)
  obtain c where c: "bindE (idx v ''failure_kinds'') counter_of = Inr c" "good_counter c"
    "\<forall>k. hashable k \<longrightarrow> keyed c k = sum_list (map (\<lambda>sh. keyed (reported_kinds sh p) k) shards)" using aggregate_kinds [OF v(2) typed p] by blast
  have "counter_eq c (phase_counts p (l_kinds s))" using c(3) kinds p by (simp add: counter_eq_keyed [OF c(2) good] tally_def)
  then have b: "assertE (bindE (bindE (path run [p, ''failure_kinds'']) counter_of) (\<lambda>c. Inr (counter_eq c (phase_counts p (l_kinds s))))) = Inr ()"
    using c(1) v(1) by (simp add: assertE_eq_Inr)
  obtain f' where "merge_phase p (phase_counts p (l_kinds s)) failures = Inr f'" "good_counts f'"
    using tally_merge [OF _ good p, of failures "\<lambda>p. keyed (phase_counts p failures)"] failures by (auto simp: tally_def)
  then show ?thesis using a b by (simp add: run_phase_def seqE_eq_Inr)
qed

lemma run_phases_pass:
  assumes v: "\<forall>p \<in> set ps. \<exists>v. idx run p = Inr v \<and> aggregate_phase shards p = Inr v" and p: "set ps \<subseteq> set phases"
    and typed: "\<forall>sh \<in> set shards. typed_shard sh \<and> distinct_kinds sh"
    and audit: "lan_shards E args folder run = Inr (shards, s)"
    and failures: "good_counts failures"
  shows "\<exists>failures'. foldE (run_phase run s) ps failures = Inr failures' \<and> good_counts failures'"
  using v p failures
proof (induction ps arbitrary: failures)
  case (Cons p ps)
  obtain v where v: "idx run p = Inr v" "aggregate_phase shards p = Inr v" using Cons.prems(1) by auto
  have "p \<in> set phases" using Cons.prems(2) by simp
  note tallies = audit_tally [OF audit typed]
  obtain d where d: "run_phase run s p failures = Inr d" "good_counts d"
    using run_phase_passes [OF v \<open>p \<in> set phases\<close> typed conjunct1 [OF tallies] conjunct2 [OF tallies] Cons.prems(3)] by blast
  then show ?case using Cons.IH [OF _ _ d(2)] Cons.prems by simp
qed simp

text \<open>Shares that add up.\<close>

lemma requested_sum:
  assumes "\<forall>i < length shards. idx (shards ! i) ''requested_connections'' = Inr (VInt (share c (int (length shards)) i))" and "shards \<noteq> []"
  shows "sumE (mapE (\<lambda>sh. idx sh ''requested_connections'') shards) = Inr (VInt c)"
proof -
  have "mapE (\<lambda>sh. idx sh ''requested_connections'') shards = Inr (map VInt (map (share c (int (length shards))) [0..<length shards]))"
    unfolding mapE_eq_Inr using assms(1) by (auto simp: list_all2_conv_all_nth)
  moreover have "sum_list (map (share c (int (length shards))) [0..<length shards]) = c"
    using sum_shares [of "int (length shards)" c] assms(2) by simp
  ultimately show ?thesis by (simp add: sumE_def py_sum_ints del: map_map)
qed

lemma aggregate_phases_published:
  assumes "lan_aggregate shards duration = Inr r" and "\<forall>k v. map_of r k = Some v \<longrightarrow> idx run k = Inr v" and "p \<in> set phases"
  shows "\<exists>v. idx run p = Inr v \<and> aggregate_phase shards p = Inr v"
proof -
  obtain r0 where "fieldsE (map (\<lambda>p. (p, aggregate_phase shards p)) phases) [] = Inr r0"
    using assms(1) unfolding lan_aggregate_def bindE_eq_Inr by blast
  from fieldsE_read [OF this distinct_phases assms(3)] have "returns (aggregate_phase shards p)" by (rule conjunct2)
  then obtain v where v: "aggregate_phase shards p = Inr v" by (auto simp: returns_iff)
  moreover have "aggregate_phase shards p = idx (VDict r) p" by (rule lan_aggregate_fields [OF assms(1)]) (use assms(3) in blast)
  ultimately show ?thesis using assms(2) by (simp add: of_option_eq_Inr)
qed

lemma requested_published:
  assumes "lan_aggregate shards duration = Inr r" and "\<forall>k v. map_of r k = Some v \<longrightarrow> idx run k = Inr v"
    and "\<forall>i < length shards. idx (shards ! i) ''requested_connections'' = Inr (VInt (share c (int (length shards)) i))"
  shows "idx run ''requested_connections'' = Inr (VInt c)"
proof (rule lan_aggregate_fields [OF assms(1)])
  fix r1 elapsed
  assume elapsed: "elapsed_from duration shards = Inr elapsed"
    and sums: "\<forall>k \<in> set shard_keys. sum_over shards [k] = idx (VDict r) k \<and> idx (VDict r1) k = idx (VDict r) k \<and> returns (idx (VDict r) k)"
  have "shards \<noteq> []" using elapsed by (auto simp: elapsed_from_def maxE_def py_max_def subE_def divE_def lift2_def)
  then have "idx (VDict r) ''requested_connections'' = Inr (VInt c)"
    using sums requested_sum [OF assms(3)] by (simp add: shard_keys_def sum_over_one del: idx.simps)
  then show ?thesis using assms(2) by (simp add: of_option_eq_Inr)
qed

text \<open>
  C12: what the comparison publishes for a trial is what the audit recomputes.  When the audit has
  accepted the generators' well-typed results (dictionaries hold a key once) and each generator reports the share of the
  connections that the supervisor gave it, everything the comparison derived from the same results passes the
  audit's comparison of the trial with its generators: for each phase the attempted, succeeded and failed
  counts and the failure kinds, which the audit then merges with those of the earlier trials; the sums, the requested connections,
  the elapsed time, the rate, the percentiles and the full-population flag.
\<close>

theorem aggregate_passes_audit:
  assumes agg: "lan_aggregate shards duration = Inr r" and run: "\<forall>k v. map_of r k = Some v \<longrightarrow> idx run k = Inr v"
    and audit: "lan_shards E args folder run = Inr (shards, s)" and typed: "\<forall>sh \<in> set shards. typed_shard sh \<and> distinct_kinds sh"
    and shares: "\<forall>i < length shards. idx (shards ! i) ''requested_connections'' = Inr (VInt (share connections (int (length shards)) i))"
    and number: "scalar duration" and duration: "idx args ''duration'' = Inr duration" and earlier: "good_counts failures"
  shows "\<exists>failures'. foldE (run_phase run s) phases failures = Inr failures' \<and> good_counts failures' \<and>
    check_totals args run (VInt connections) shards s = Inr ()"
proof -
  have "check_totals args run (VInt connections) shards s = Inr ()"
    using typed by (intro totals_pass [OF agg run audit _ number duration requested_published [OF agg run shares]]) (simp add: typed_shard_def)
  moreover have "\<forall>p \<in> set phases. \<exists>v. idx run p = Inr v \<and> aggregate_phase shards p = Inr v"
    using aggregate_phases_published [OF agg run] by blast
  ultimately show ?thesis using run_phases_pass [OF _ subset_refl typed audit earlier] by blast
qed

section \<open>An example\<close>

lemma map_sum_eq_Inr: "map_sum id f m = Inr y \<longleftrightarrow> (\<exists>x. m = Inr x \<and> f x = y)"
  by (cases m) auto

definition sample_receipt :: val where
  "sample_receipt = VDict [(''path'', VStr ''client-0.failures.jsonl.gz''), (''entries'', VInt 1), (''sha256_uncompressed'', VStr ''x'')]"

lemma sample_latencies_typed: "typed_latencies sample_shard"
proof -
  have "typed_histogram (VDict [(''1000'', VInt 1)])" "typed_histogram (VDict [(''2000'', VInt 1)])"
    unfolding typed_histogram_def by (simp_all add: exI [of _ 1]) code_simp+
  then show ?thesis by (simp add: typed_latencies_def sample_shard_def sample_fields_def)
qed

definition sample_lan_row :: row where
  "sample_lan_row = (case lan_aggregate [sample_shard] (VInt 1) of Inr r \<Rightarrow> r | Inl _ \<Rightarrow> [])"

definition sample_published :: val where
  "sample_published = VDict (sample_lan_row @ [(''client_result'', VDict [(''shards'', VList [sample_shard]), (''exit_codes'', VDict []),
     (''failure_logs'', VList [sample_receipt])])])"

definition sample_lan_args :: val where
  "sample_lan_args = VDict [(''streams'', VInt 1), (''client_processes'', VInt 1), (''duration'', VInt 1)]"

lemma sample_row_aggregates:
  "map_sum id (\<lambda>r. map_of r ''requested_connections'') (lan_aggregate [sample_shard] (VInt 1)) = Inr (Some (VInt 1))"
  by code_simp

lemma sample_shards_audited: "map_sum id fst (lan_shards sample_lan sample_lan_args ''f/w1-c1-go-r1'' sample_published) = Inr [sample_shard]"
  by code_simp

lemma sample_shard_typed: "typed_shard sample_shard \<and> distinct_kinds sample_shard"
proof -
  have stats: "typed_stats (quiet_stats n)" "typed_stats failed_stats" for n
    by (simp_all add: typed_stats_def quiet_stats_def failed_stats_def accounts_def int_field_def)
  have "\<forall>p \<in> set phases. \<exists>st. idx sample_shard p = Inr st \<and> typed_stats st"
    by (simp add: phases_def sample_shard_def sample_fields_def stats)
  moreover have "\<forall>k \<in> set shard_keys \<union> {''start_ns'', ''end_ns''}. int_field sample_shard k"
    by (simp add: int_field_def shard_keys_def sample_shard_def sample_fields_def)
  moreover have "\<exists>x. idx sample_shard ''client_cpu_seconds'' = Inr (VFloat x)" by (simp add: sample_shard_def sample_fields_def)
  moreover have "distinct_kinds sample_shard"
    by (simp add: distinct_kinds_def phases_def sample_shard_def sample_fields_def quiet_stats_def failed_stats_def)
  ultimately show ?thesis using sample_latencies_typed by (simp add: typed_shard_def)
qed

theorem aggregate_passes_audit_witness:
  "\<exists>s failures'. lan_shards sample_lan sample_lan_args ''f/w1-c1-go-r1'' sample_published = Inr ([sample_shard], s) \<and>
     foldE (run_phase sample_published s) phases no_counts = Inr failures' \<and> good_counts failures' \<and>
     check_totals sample_lan_args sample_published (VInt 1) [sample_shard] s = Inr ()"
proof -
  have r: "lan_aggregate [sample_shard] (VInt 1) = Inr sample_lan_row"
    using sample_row_aggregates by (auto simp: map_sum_eq_Inr sample_lan_row_def)
  obtain s where s: "lan_shards sample_lan sample_lan_args ''f/w1-c1-go-r1'' sample_published = Inr ([sample_shard], s)"
    using sample_shards_audited by (auto simp: map_sum_eq_Inr)
  have run: "\<forall>k v. map_of sample_lan_row k = Some v \<longrightarrow> idx sample_published k = Inr v" by (simp add: sample_published_def map_add_Some_iff)
  have typed: "\<forall>sh \<in> set [sample_shard]. typed_shard sh \<and> distinct_kinds sh" using sample_shard_typed by simp
  have shares: "\<forall>i < length [sample_shard]. idx ([sample_shard] ! i) ''requested_connections'' = Inr (VInt (share 1 (int (length [sample_shard])) i))"
    by (simp add: sample_shard_def sample_fields_def share_def)
  have "scalar (VInt 1)" "idx sample_lan_args ''duration'' = Inr (VInt 1)" by (simp_all add: scalar_def sample_lan_args_def)
  then show ?thesis using aggregate_passes_audit [OF r run s typed shares _ _ good_no_counts(1)] s by blast
qed


theorem aggregate_well_typed_witness:
  "typed_shard sample_shard \<and> ((\<exists>r. lan_aggregate [sample_shard] (VFloat 1) = Inr r) \<or> (\<exists>m. lan_aggregate [sample_shard] (VFloat 1) = Inl (AssertionError m)))"
  using aggregate_well_typed [of "[sample_shard]" 1] sample_shard_typed by simp

end
