(* ===== verification/Lan_Trials.thy ===== *)
theory Lan_Trials
  imports Lan_Aggregate
begin

text \<open>
  The trials of \<open>compare_http2_lan.py\<close>: the schedule is the matrix its audit expects, and a trial that is marked
  valid holds the evidence for it.
\<close>

section \<open>The schedule is what the audit expects\<close>

definition schedule_tuple :: "int \<times> int \<times> string \<times> nat \<Rightarrow> val list" where
  "schedule_tuple x = (case x of (w, c, name, r) \<Rightarrow> [VInt w, VInt c, VStr name, VInt (int r)])"

lemma schedule_tuple_eq [simp]: "py_eq_list (schedule_tuple x) (schedule_tuple y) \<longleftrightarrow> x = y"
  by (cases x; cases y) (auto simp: schedule_tuple_def)

lemma in_schedule [simp]: "in_tuples (schedule_tuple x) (map schedule_tuple xs) \<longleftrightarrow> x \<in> set xs"
  by (auto simp: in_tuples_def list_ex_iff)

lemma distinct_schedule [simp]: "distinct_tuples (map schedule_tuple xs) \<longleftrightarrow> distinct xs"
  by (induction xs) auto

lemma same_schedule: "set xs = set ys \<Longrightarrow> same_tuples (map schedule_tuple xs) (map schedule_tuple ys)"
  by (simp add: same_tuples_def list_all_iff)

lemma arch_order_set [simp]: "set (arch_order names r) = set names"
  by (auto simp: arch_order_def dest: in_set_takeD in_set_dropD) (metis Un_iff append_take_drop_id set_append)

lemma mem_lan_schedule:
  "(w, c, s, r) \<in> set (lan_schedule ws cs ss n) \<longleftrightarrow> w \<in> set ws \<and> c \<in> set cs \<and> s \<in> set (lan_names ss w) \<and> int r < n"
  by (auto simp: lan_schedule_def image_iff)

text \<open>The audit's matrix of the same arguments, as trials.\<close>

definition expected_list :: "int list \<Rightarrow> int list \<Rightarrow> string list \<Rightarrow> int \<Rightarrow> (int \<times> int \<times> string \<times> nat) list" where
  "expected_list ws cs ss n =
     concat (map (\<lambda>w. concat (map (\<lambda>c. concat (map (\<lambda>s. map (\<lambda>r. (w, c, s, r)) [0..<nat n]) (trial_servers False w ss))) cs)) ws)"

lemma upto_ints: "[0..n - 1] = map int [0..<nat n]"
  by (rule nth_equalityI) simp_all

lemma expected_trials_list: "expected_trials False ws cs ss n = map schedule_tuple (expected_list ws cs ss n)"
  by (simp add: expected_trials_def expected_list_def excluded_def map_concat comp_def schedule_tuple_def upto_ints)

lemma mem_expected_list:
  "(w, c, s, r) \<in> set (expected_list ws cs ss n) \<longleftrightarrow> w \<in> set ws \<and> c \<in> set cs \<and> s \<in> set (trial_servers False w ss) \<and> int r < n"
  by (auto simp: expected_list_def image_iff)

lemma lan_names_expected:
  assumes "set ss \<subseteq> {''zhtps'', ''go'', ''node'', ''bun''}" and "1 \<le> w"
  shows "set (lan_names ss w) = set (trial_servers False w ss)"
  using assms by (auto simp: lan_names_def trial_servers_def)

lemma schedule_expected_set:
  assumes "set ss \<subseteq> {''zhtps'', ''go'', ''node'', ''bun''}" and "\<forall>w \<in> set ws. 1 \<le> w"
  shows "set (lan_schedule ws cs ss n) = set (expected_list ws cs ss n)"
proof (rule set_eqI)
  fix x
  show "x \<in> set (lan_schedule ws cs ss n) \<longleftrightarrow> x \<in> set (expected_list ws cs ss n)"
    using lan_names_expected [OF assms(1)] assms(2) by (cases x) (auto simp: mem_lan_schedule mem_expected_list)
qed

lemma lan_options_checked:
  assumes "check_lan_options o' = Inr (workers, connections, servers)"
  shows "mapE py_int (split_on CHR '','' (lo_workers o')) = Inr workers" "mapE py_int (split_on CHR '','' (lo_connections o')) = Inr connections"
    "servers = split_on CHR '','' (lo_servers o')" "set servers \<subseteq> {''zhtps'', ''go'', ''node'', ''bun''}" "\<forall>w \<in> set workers. 1 \<le> w"
proof -
  have facts: "mapE py_int (split_on CHR '','' (lo_workers o')) = Inr workers \<and> mapE py_int (split_on CHR '','' (lo_connections o')) = Inr connections \<and>
      servers = split_on CHR '','' (lo_servers o') \<and> set servers \<subseteq> {''zhtps'', ''go'', ''node'', ''bun''} \<and> \<not> Min (set workers) < 1"
    using assms by (simp add: check_lan_options_def bindE_eq_Inr seqE_eq_Inr ensure_eq_Inr Let_def split: if_splits) blast
  then show "mapE py_int (split_on CHR '','' (lo_workers o')) = Inr workers" "mapE py_int (split_on CHR '','' (lo_connections o')) = Inr connections"
    "servers = split_on CHR '','' (lo_servers o')" "set servers \<subseteq> {''zhtps'', ''go'', ''node'', ''bun''}" by blast+
  show "\<forall>w \<in> set workers. 1 \<le> w" using facts by (meson List.finite_set Min_le linorder_not_less order_trans)
qed

lemma schedule_folder:
  assumes "\<forall>n. la_str E (VInt n) = str_of_int n" and "\<forall>s. la_str E (VStr s) = s"
  shows "lan_folder E folder (schedule_tuple x) = Inr (slash folder (lan_label x))"
  using assms by (cases x) (simp add: lan_folder_def schedule_tuple_def lan_label_def)

text \<open>
  For accepted options whose schedule has no trial twice, a report whose runs are the scheduled ones, in
  the rotated order the comparison uses, passes the audit's matrix check.
\<close>

lemma schedule_matrix:
  assumes options: "check_lan_options o' = Inr (workers, connections, servers)"
    and once: "distinct (lan_schedule workers connections servers (lo_repeats o'))"
    and runs: "mapE trial_tuple runs = Inr (map schedule_tuple (lan_schedule workers connections servers (lo_repeats o')))"
    and args: "idx args ''servers'' = Inr (VStr (lo_servers o'))" "idx args ''workers'' = Inr (VStr (lo_workers o'))"
      "idx args ''connections'' = Inr (VStr (lo_connections o'))" "idx args ''repeats'' = Inr (VInt (lo_repeats o'))"
  shows "check_matrix report args VNone runs = Inr ()"
proof -
  note o = lan_options_checked [OF options]
  let ?xs = "lan_schedule workers connections servers (lo_repeats o')"
  have hash: "mapE hashed (map schedule_tuple xs) = Inr (map schedule_tuple xs)" for xs
    by (induction xs) (auto simp: hashed_def schedule_tuple_def)
  have "same_tuples (map schedule_tuple ?xs) (expected_trials False workers connections servers (lo_repeats o'))"
    unfolding expected_trials_list by (rule same_schedule) (rule schedule_expected_set [OF o(4,5)])
  then show ?thesis
    using args o(1-3) runs hash once
    by (simp add: check_matrix_def server_names_def arg_ints_def int_val_def assertE_def)
qed

definition sample_lan_options :: lan_options where
  "sample_lan_options = \<lparr>lo_address = ''a'', lo_zhtps = ''z'', lo_go_server = ''g'', lo_server_cpus = ''0-1'', lo_client_cpus = ''2-3'', lo_client_processes = 1,
     lo_workers = ''1'', lo_servers = ''go'', lo_connections = ''1'', lo_streams = 4, lo_duration = 1, lo_warmup = 1, lo_timeout = 1,
     lo_setup_deadline = 1, lo_setup_concurrency = 1, lo_repeats = 1\<rparr>"

section \<open>What a valid trial holds\<close>

lemma fieldsE_keys:
  assumes "fieldsE fs r = Inr r'" and "distinct (map fst r)"
  shows "distinct (map fst r') \<and> fst ` set r' = fst ` set r \<union> fst ` set fs"
  using assms
proof (induction fs r rule: fieldsE.induct)
  case (2 k m fs r)
  then obtain v where v: "m = Inr v" and rest: "fieldsE fs (dict_set k v r) = Inr r'" by (auto simp: bindE_eq_Inr)
  have "distinct (map fst (dict_set k v r))" using "2.prems"(2) by (rule dict_set_distinct)
  then show ?case using "2.IH" [OF v rest] dict_set_keys [of k v r] by auto
qed simp

lemma lan_aggregate_keys:
  assumes "lan_aggregate shards duration = Inr r"
  shows "distinct (map fst r) \<and> fst ` set r \<subseteq> set phases \<union> set shard_keys \<union>
    {''seconds'', ''requests_per_second'', ''p50_ms'', ''p99_ms'', ''failure_p99_ms'', ''client_cpu_cores'', ''start_skew_ms'', ''full_population''}"
proof -
  obtain r0 r1 r2 hs elapsed where r0: "fieldsE (map (\<lambda>p. (p, aggregate_phase shards p)) phases) [] = Inr r0"
    and r1: "fieldsE (map (\<lambda>k. (k, sum_over shards [k])) shard_keys) r0 = Inr r1"
    and r2: "fieldsE (lan_rate_fields shards r1 hs elapsed) r1 = Inr r2" and r: "fieldsE (full_field r2) r2 = Inr r"
    using assms unfolding lan_aggregate_def bindE_eq_Inr seqE_eq_Inr by (elim exE conjE) (rule that)
  have d0: "distinct (map fst r0) \<and> fst ` set r0 = set phases" using fieldsE_keys [OF r0] by (simp add: image_image)
  then have d1: "distinct (map fst r1) \<and> fst ` set r1 = set phases \<union> set shard_keys" using fieldsE_keys [OF r1] by (simp add: image_image)
  then have "distinct (map fst r2) \<and> fst ` set r2 = set phases \<union> set shard_keys \<union> fst ` set (lan_rate_fields shards r1 hs elapsed)"
    using fieldsE_keys [OF r2] by simp
  then show ?thesis using fieldsE_keys [OF r] by (auto simp: lan_rate_fields_def full_field_def)
qed

text \<open>The steps of a trial: they stop at an exception, or they end with the result.\<close>

definition ends_with :: "val \<Rightarrow> step list \<Rightarrow> step list \<Rightarrow> bool" where
  "ends_with duration pre steps \<longleftrightarrow> assignments ''valid'' pre = [] \<and>
     ((\<exists>e. steps = pre @ [Check (Inl e)]) \<or> (\<exists>ev. steps = pre @ result_steps duration ev))"

lemma ends_with_prefix:
  "ends_with duration pre steps \<Longrightarrow> assignments ''valid'' xs = [] \<Longrightarrow> ends_with duration (xs @ pre) (xs @ steps)"
  by (auto simp: ends_with_def)

lemma loop_shape: "\<exists>pre. ends_with duration pre (lan_loop duration clock before ts)"
proof (induction ts arbitrary: before)
  case Nil
  show ?case by (rule exI [of _ "[]"]) (simp add: ends_with_def)
next
  case (Cons t ts)
  have stop: "\<exists>pre. ends_with duration pre [Check (Inl e)]" for e by (rule exI [of _ "[]"]) (simp add: ends_with_def)
  have finish: "\<exists>pre. ends_with duration pre (result_steps duration ev)" for ev by (rule exI [of _ "[]"]) (auto simp: ends_with_def)
  have stop_after: "\<exists>pre. ends_with duration pre (mo @ [Check (Inl e)])" if "assignments ''valid'' mo = []" for e mo
    using ends_with_prefix [OF _ that] stop [of e] by blast
  have later: "\<exists>pre. ends_with duration pre (mo @ lan_loop duration clock b ts)" if "assignments ''valid'' mo = []" for b mo
    using ends_with_prefix [OF _ that] Cons.IH [of b] by blast
  show ?case
  proof (cases "lt_late t \<or> \<not> returns (stamped t)")
    case True
    then show ?thesis using stop by (cases "stamped t") auto
  next
    case False
    then obtain ev where ev: "stamped t = Inr ev" "\<not> lt_late t" by (auto simp: returns_iff)
    consider "\<not> returns (idx ev ''kind'')" | "idx ev ''kind'' = Inr (VStr ''scheduled'')" | "idx ev ''kind'' = Inr (VStr ''result'')"
      | kind where "idx ev ''kind'' = Inr kind" "kind \<in> {VStr ''error'', VStr ''eof'', VStr ''invalid''}"
      | kind where "idx ev ''kind'' = Inr kind" "kind \<noteq> VStr ''scheduled''" "kind \<noteq> VStr ''result''" "kind \<notin> {VStr ''error'', VStr ''eof'', VStr ''invalid''}"
      by (cases "idx ev ''kind''") (auto simp: returns_iff)
    then show ?thesis
    proof cases
      case 1
      then show ?thesis using ev stop by (cases "idx ev ''kind''") auto
    next
      case 2
      then show ?thesis using ev stop_after [of "[Check (scheduled_check clock ev)]"] later [of "[Check (scheduled_check clock ev), Put ''server_network_before'' (lt_host t)]"]
        by (cases "lt_cpu t") simp_all
    next
      case (5 kind)
      then show ?thesis using ev Cons.IH [of before] later [of "measured_steps t before" before] later [of "[Put ''client_launch'' (Inr ev)]" before]
          later [of "[Put ''prepared'' (Inr ev), Put ''server_prepared'' (lt_snapshot t), Check (lt_sent t)]" before]
          later [of "[Put ''ready'' (Inr ev), Put ''server_before'' (lt_snapshot t), Check (lt_sent t)]" before]
        by (simp add: measured_steps_def)
    qed (use ev stop finish in auto)
  qed
qed

lemma steps_shape:
  "\<exists>pre. ends_with (VFloat (lo_duration o')) pre (lan_steps o' ssh remote_dir folder_name connections port w r) \<and>
     (\<forall>ev. lan_steps o' ssh remote_dir folder_name connections port w r = pre @ result_steps (VFloat (lo_duration o')) ev \<longrightarrow>
       (\<exists>hello. lw_hello w = Inr hello \<and> set (hello_checks ssh r hello) \<subseteq> set pre))"
proof -
  let ?d = "VFloat (lo_duration o')"
  let ?first = "[Check (lw_spawned w), Check (lan_startup (lw_startup w)), Check (lw_connected w)]"
  have stop: "ends_with ?d xs (xs @ [Check (Inl e)])" if "assignments ''valid'' xs = []" for xs e using that by (auto simp: ends_with_def)
  show ?thesis
  proof (cases "lw_hello w")
    case (Inl e)
    then show ?thesis by (intro exI [of _ ?first]) (auto simp: lan_steps_def ends_with_def result_steps_def)
  next
    case (Inr hello)
    show ?thesis
    proof (cases "bindE (mapE clock_row (lw_clocks w)) best_clock")
      case (Inl e)
      then show ?thesis using Inr
        by (intro exI [of _ "?first @ hello_checks ssh r hello"]) (auto simp: lan_steps_def ends_with_def hello_checks_def result_steps_def)
    next
      case clock: (Inr clock)
      obtain pre where pre: "ends_with ?d pre (lan_loop ?d clock None (lw_turns w))" using loop_shape by blast
      let ?mid = "?first @ hello_checks ssh r hello @ [Put ''clock'' (Inr clock),
        Put ''client_config'' (lan_config o' remote_dir folder_name connections port (lw_client_digest w)), Check (lw_started w)]"
      have "assignments ''valid'' ?mid = []" by (simp add: hello_checks_def)
      from ends_with_prefix [OF pre this] show ?thesis using Inr clock
        by (intro exI [of _ "?mid @ pre"]) (simp add: lan_steps_def, blast)
    qed
  qed
qed

lemma run_put_row: "run_steps (put_row row @ ss) r = run_steps ss (fold (\<lambda>(k, v). dict_set k v) row r)"
  by (induction row arbitrary: r) (auto simp: put_row_def)

lemma map_of_fold_set:
  "distinct (map fst row) \<Longrightarrow> map_of (fold (\<lambda>(k, v). dict_set k v) row r) k = (case map_of row k of Some v \<Rightarrow> Some v | None \<Rightarrow> map_of r k)"
proof (induction row arbitrary: r)
  case (Cons x row)
  obtain k' v where x: "x = (k', v)" by (cases x)
  have "map_of row k' = None" using Cons.prems x by (simp add: map_of_eq_None_iff)
  then show ?case using Cons.IH [of "dict_set k' v r"] Cons.prems x by (auto simp: map_of_dict_set split: option.split)
qed simp

text \<open>A trial body that sets \<open>valid\<close> has gone through every step of it.\<close>

lemma valid_steps:
  assumes shape: "ends_with duration pre steps" and run: "run_steps steps r = (r', e)"
    and before: "map_of r ''valid'' = Some (VBool False)" and valid: "map_of r' ''valid'' = Some (VBool True)"
  obtains ev shards row r1 where "e = None" and "run_steps pre r = (r1, None)" and "steps = pre @ result_steps duration ev"
    and "bindE (idx ev ''shards'') elems = Inr shards" and "lan_aggregate shards duration = Inr row"
    and "map_of r' ''client_result'' = Some ev" and "\<forall>k v. map_of row k = Some v \<longrightarrow> map_of r' k = Some v"
proof -
  obtain r1 e1 where pre: "run_steps pre r = (r1, e1)" by (cases "run_steps pre r")
  have "map_of r1 ''valid'' = Some (VBool False)" using run_steps_keep [OF pre] shape before by (simp add: ends_with_def)
  then have e1: "e1 = None" and "\<exists>ev. steps = pre @ result_steps duration ev"
    using shape run valid pre by (auto simp: ends_with_def run_steps_append split: option.splits)
  then obtain ev where ev: "steps = pre @ result_steps duration ev" by blast
  then have rest: "run_steps (result_steps duration ev) r1 = (r', e)" using run pre e1 by (simp add: run_steps_append)
  show thesis
  proof (cases "bindE (bindE (idx ev ''shards'') elems) (\<lambda>shards. lan_aggregate shards duration)")
    case (Inl x)
    then show ?thesis using rest valid \<open>map_of r1 ''valid'' = Some (VBool False)\<close> by (auto simp: result_steps_def map_of_dict_set)
  next
    case (Inr row)
    then obtain shards where shards: "bindE (idx ev ''shards'') elems = Inr shards" and row: "lan_aggregate shards duration = Inr row"
      by (auto simp: bindE_eq_Inr)
    note keys = lan_aggregate_keys [OF row]
    have r': "r' = dict_set ''valid'' (VBool True) (fold (\<lambda>(k, v). dict_set k v) row (dict_set ''client_result'' ev r1))" "e = None"
      using rest Inr by (auto simp: result_steps_def run_put_row)
    have absent: "map_of row k = None" if "k \<in> {''valid'', ''client_result''}" for k
      using keys that by (auto simp: map_of_eq_None_iff phases_def shard_keys_def)
    have "map_of r' ''client_result'' = Some ev" using keys absent by (simp add: r' map_of_dict_set map_of_fold_set)
    moreover have "map_of r' k = Some v" if "map_of row k = Some v" for k v
      using that keys absent [of k] by (cases "k = ''valid''") (simp_all add: r' map_of_dict_set map_of_fold_set)
    ultimately show ?thesis using that [OF r'(2)] pre e1 ev shards row by blast
  qed
qed


definition lan_late_keys :: "string list" where
  "lan_late_keys = [''server_cpu_cores'', ''server_cpu_us_per_request'', ''error'', ''server_exit_code'', ''server_exit_before_shutdown'', ''server_host_after'']"

lemma trial_row_keeps:
  assumes "k \<notin> set lan_late_keys"
  shows "map_of (lan_trial_row repr steps w r) k = map_of (fst (run_steps (steps r) r)) k"
proof -
  obtain r1 e1 where r1: "run_steps (steps r) r = (r1, e1)" by (cases "run_steps (steps r) r")
  obtain r2 e2 where r2: "run_steps (finish_steps r1) r1 = (r2, e2)" by (cases "run_steps (finish_steps r1) r1")
  have "map_of r2 k = map_of r1 k" by (rule run_steps_keep [OF r2]) (use assms in \<open>auto simp: finish_steps_def lan_late_keys_def Let_def\<close>)
  then show ?thesis using assms r1 r2 by (cases e1; cases e2) (simp_all add: lan_trial_row_def lan_late_keys_def map_of_dict_set Let_def)
qed

lemma archive_valid:
  assumes "lan_archive sha256 unpack code err r = Inr r'" and "map_of r' ''valid'' = Some (VBool True)"
  shows "r' = r \<and> (\<exists>logs. bindE (path (VDict r) [''client_result'', ''failure_logs'']) elems = Inr logs \<and>
    (\<forall>item \<in> set logs. check_archived sha256 unpack item = Inr ()))"
proof -
  have "code = 0" using assms by (auto simp: lan_archive_def map_of_dict_set split: if_splits)
  then show ?thesis using assms
    by (auto simp: lan_archive_def getE_def dict_get_def truthE_def bindE_eq_Inr seqE_eq_Inr forE_eq_Inr split: if_splits)
qed

text \<open>
  C15: a trial marked valid is backed by its evidence.  The load ran where it was meant to (on another
  machine exactly when SSH was used), the record holds the supervisor's result and, field by field, the
  aggregate of the generators' results in it, and every failure log it names was retrieved with the
  digest and the number of entries of its receipt.
\<close>

theorem lan_trial_valid:
  assumes trial: "lan_trial which base repr sha256 unpack o' ssh remote_dir port cert key identity host code err w name workers connections repeat present folder_name = Inr r"
    and valid: "map_of r ''valid'' = Some (VBool True)"
  shows "\<exists>ev shards row hello logs. map_of r ''client_result'' = Some ev \<and> bindE (idx ev ''shards'') elems = Inr shards \<and>
    lan_aggregate shards (VFloat (lo_duration o')) = Inr row \<and> (\<forall>k v. map_of row k = Some v \<longrightarrow> map_of r k = Some v) \<and>
    lw_hello w = Inr hello \<and> eqE (path hello [''identity'', ''boot_id'']) (idx identity ''boot_id'') = Inr (\<not> ssh) \<and>
    bindE (idx ev ''failure_logs'') elems = Inr logs \<and> (\<forall>item \<in> set logs. check_archived sha256 unpack item = Inr ())"
proof -
  obtain cpus where archive: "lan_archive sha256 unpack code err (lan_trial_row repr (lan_steps o' ssh remote_dir folder_name connections port w) w
      (lan_start_row which base o' ssh name workers connections repeat (take (nat workers) cpus) port cert key identity host)) = Inr r"
    using trial by (auto simp: lan_trial_def bindE_eq_Inr seqE_eq_Inr Let_def)
  let ?r0 = "lan_start_row which base o' ssh name workers connections repeat (take (nat workers) cpus) port cert key identity host"
  let ?steps = "lan_steps o' ssh remote_dir folder_name connections port w ?r0"
  obtain logs where r: "r = lan_trial_row repr (lan_steps o' ssh remote_dir folder_name connections port w) w ?r0"
    and logs: "bindE (path (VDict r) [''client_result'', ''failure_logs'']) elems = Inr logs" "\<forall>item \<in> set logs. check_archived sha256 unpack item = Inr ()"
    using archive_valid [OF archive valid] by blast
  obtain r1 e where run: "run_steps ?steps ?r0 = (r1, e)" by (cases "run_steps ?steps ?r0")
  have kept: "map_of r k = map_of r1 k" if "k \<notin> set lan_late_keys" for k using trial_row_keeps [OF that] run r by simp
  obtain pre where pre: "ends_with (VFloat (lo_duration o')) pre ?steps"
    and hello: "\<forall>ev. ?steps = pre @ result_steps (VFloat (lo_duration o')) ev \<longrightarrow> (\<exists>hello. lw_hello w = Inr hello \<and> set (hello_checks ssh ?r0 hello) \<subseteq> set pre)"
    using steps_shape by blast
  have v0: "map_of ?r0 ''valid'' = Some (VBool False)" by (simp add: lan_start_row_def)
  have v1: "map_of r1 ''valid'' = Some (VBool True)" using kept [of "''valid''"] valid by (simp add: lan_late_keys_def)
  obtain ev shards row r2 where "e = None" and r2: "run_steps pre ?r0 = (r2, None)" and ev: "?steps = pre @ result_steps (VFloat (lo_duration o')) ev"
    and shards: "bindE (idx ev ''shards'') elems = Inr shards" and row: "lan_aggregate shards (VFloat (lo_duration o')) = Inr row"
    and result: "map_of r1 ''client_result'' = Some ev" and fields: "\<forall>k v. map_of row k = Some v \<longrightarrow> map_of r1 k = Some v"
    by (rule valid_steps [OF pre run v0 v1])
  obtain h where h: "lw_hello w = Inr h" and checked: "set (hello_checks ssh ?r0 h) \<subseteq> set pre" using hello ev by blast
  have "Check (bindE (eqE (path h [''identity'', ''boot_id'']) (path (VDict ?r0) [''server_identity'', ''boot_id''])) (\<lambda>same_host.
      assertE (Inr (same_host = (\<not> ssh))))) \<in> set pre" using checked by (simp add: hello_checks_def)
  moreover have "path (VDict ?r0) [''server_identity'', ''boot_id''] = idx identity ''boot_id''" by (simp add: lan_start_row_def)
  ultimately have "eqE (path h [''identity'', ''boot_id'']) (idx identity ''boot_id'') = Inr (\<not> ssh)"
    using run_steps_check [OF r2] by (fastforce simp: bindE_eq_Inr assertE_eq_Inr simp del: path.simps idx.simps)
  moreover have "map_of r ''client_result'' = Some ev" using kept [of "''client_result''"] result by (simp add: lan_late_keys_def)
  moreover have "map_of r k = Some v" if "map_of row k = Some v" for k v
  proof -
    have "k \<in> fst ` set row" using that by (force dest: map_of_SomeD)
    then have "k \<notin> set lan_late_keys" using lan_aggregate_keys [OF row] by (auto simp: phases_def shard_keys_def lan_late_keys_def)
    then show ?thesis using kept fields that by simp
  qed
  moreover have "bindE (idx ev ''failure_logs'') elems = Inr logs" using logs(1) calculation(2) by simp
  ultimately show ?thesis using shards row h logs(2) by blast
qed

definition sample_answer :: "string \<Rightarrow> (string \<times> val) list \<Rightarrow> rat \<Rightarrow> lan_turn" where
  "sample_answer kind kvs clock = \<lparr>lt_late = False, lt_heartbeat = Inr (), lt_event = Inr (VDict ((''kind'', VStr kind) # kvs)), lt_received = 1,
     lt_sent = Inr (), lt_snapshot = Inr VNone, lt_cpu = Inr (VFloat clock), lt_clock = clock, lt_host = Inr VNone\<rparr>"

definition sample_lan_world :: lan_world where
  "sample_lan_world = \<lparr>lw_spawned = Inr (), lw_startup = [(False, False, False), (False, True, False)], lw_connected = Inr (),
     lw_hello = Inr (VDict [(''kind'', VStr ''hello''), (''identity'', VDict [(''boot_id'', VStr ''c'')])]),
     lw_clocks = [(0, Inr (), Inr (VDict [(''kind'', VStr ''clock''), (''unix_ns'', VInt 5)]), 2)], lw_client_digest = Inr ''d'', lw_started = Inr (),
     lw_turns = [sample_answer ''launched'' [] 1, sample_answer ''scheduled'' [(''start_ns'', VInt 9)] 1, sample_answer ''measured'' [] 2,
       sample_answer ''result'' [(''shards'', VList [sample_shard]), (''failure_logs'', VList [sample_receipt])] 2],
     lw_exit_before = VNone, lw_exit_code = VInt 0, lw_host_after = VNone\<rparr>"

definition sample_lan_trial :: "row res" where
  "sample_lan_trial = lan_trial (\<lambda>n. n) ''r'' (\<lambda>e. ''e'') (\<lambda>t. t) (\<lambda>p. Inr ''x'') sample_lan_options True ''/t'' 80 ''c'' ''k''
     (VDict [(''boot_id'', VStr ''s'')]) VNone 0 '''' sample_lan_world ''go'' 1 1 0 {} ''w1-c1-go-r1''"

lemma sample_trial_valid:
  "map_sum id (\<lambda>r. (map_of r ''valid'', map_of r ''error'', map_of r ''p50_ms'')) sample_lan_trial = Inr (Some (VBool True), None, Some (VFloat 1))"
  by code_simp

theorem lan_trial_valid_witness:
  "\<exists>r ev shards row. sample_lan_trial = Inr r \<and> map_of r ''client_result'' = Some ev \<and> bindE (idx ev ''shards'') elems = Inr shards \<and>
     lan_aggregate shards (VFloat 1) = Inr row \<and> map_of r ''p50_ms'' = Some (VFloat 1)"
proof -
  obtain r where r: "sample_lan_trial = Inr r" and v: "map_of r ''valid'' = Some (VBool True)" and p: "map_of r ''p50_ms'' = Some (VFloat 1)"
    using sample_trial_valid by (auto simp: map_sum_eq_Inr)
  have "lo_duration sample_lan_options = 1" by (simp add: sample_lan_options_def)
  then obtain ev shards row where "map_of r ''client_result'' = Some ev" "bindE (idx ev ''shards'') elems = Inr shards" "lan_aggregate shards (VFloat 1) = Inr row"
    using lan_trial_valid [OF r [unfolded sample_lan_trial_def] v] by (elim exE conjE) simp
  then show ?thesis using r p by blast
qed

section \<open>A valid mark that survives an exception\<close>

text \<open>A body that ends without an exception has ended with the result, so it has set the mark.\<close>

lemma finished_steps_valid:
  assumes shape: "ends_with duration pre steps" and run: "run_steps steps r = (r', None)"
  shows "map_of r' ''valid'' = Some (VBool True)"
proof -
  obtain r1 e1 where pre: "run_steps pre r = (r1, e1)" by (cases "run_steps pre r")
  have e1: "e1 = None" using shape run pre by (auto simp: ends_with_def run_steps_append split: option.splits)
  moreover have "steps \<noteq> pre @ [Check (Inl e)]" for e using run pre e1 by (auto simp: run_steps_append)
  ultimately obtain ev where "steps = pre @ result_steps duration ev" using shape by (auto simp: ends_with_def)
  then have "run_steps (result_steps duration ev) r1 = (r', None)" using run pre e1 by (simp add: run_steps_append)
  then show ?thesis
    by (cases "bindE (bindE (idx ev ''shards'') elems) (\<lambda>shards. lan_aggregate shards duration)")
      (auto simp: result_steps_def run_put_row map_of_dict_set)
qed

text \<open>The CPU time of the server is recorded when \<open>measured\<close> arrives and at no other event.\<close>

definition announces :: "string \<Rightarrow> lan_turn \<Rightarrow> bool" where
  "announces kind t \<longleftrightarrow> bindE (stamped t) (\<lambda>ev. idx ev ''kind'') = Inr (VStr kind)"

lemma result_no_cpu: "assignments ''server_cpu_seconds'' (result_steps duration ev) = []"
proof (cases "bindE (bindE (idx ev ''shards'') elems) (\<lambda>shards. lan_aggregate shards duration)")
  case (Inr row)
  obtain shards where "lan_aggregate shards duration = Inr row" using Inr by (auto simp: bindE_eq_Inr)
  then have "''server_cpu_seconds'' \<notin> fst ` set row" using lan_aggregate_keys [of shards duration row] by (auto simp: phases_def shard_keys_def)
  then have "assignments ''server_cpu_seconds'' (put_row row) = []" by (force simp: assignments_def put_row_def filter_empty_conv)
  then show ?thesis using Inr by (auto simp: result_steps_def)
qed (auto simp: result_steps_def)

lemma loop_no_cpu:
  "\<forall>t \<in> set ts. \<not> announces ''measured'' t \<Longrightarrow> assignments ''server_cpu_seconds'' (lan_loop duration clock before ts) = []"
proof (induction ts arbitrary: before)
  case (Cons t ts)
  then have IH: "assignments ''server_cpu_seconds'' (lan_loop duration clock before' ts) = []" for before' by simp
  show ?case
  proof (cases "stamped t")
    case (Inr ev)
    then have "idx ev ''kind'' \<noteq> Inr (VStr ''measured'')" using Cons.prems by (simp add: announces_def)
    then show ?thesis using Inr by (cases "idx ev ''kind''"; cases "lt_cpu t") (simp_all add: IH result_no_cpu)
  qed simp
qed simp

lemma steps_no_cpu:
  assumes "\<forall>t \<in> set (lw_turns w). \<not> announces ''measured'' t"
  shows "assignments ''server_cpu_seconds'' (lan_steps o' ssh remote_dir folder_name connections port w r) = []"
  by (cases "lw_hello w"; cases "bindE (mapE clock_row (lw_clocks w)) best_clock")
    (simp_all add: lan_steps_def hello_checks_def loop_no_cpu [OF assms])

lemma trial_row_unmeasured:
  assumes run: "run_steps (steps r) r = (r1, None)" and valid: "map_of r1 ''valid'' = Some (VBool True)"
    and cpu: "map_of r1 ''server_cpu_seconds'' = None"
  shows "map_of (lan_trial_row repr steps w r) ''valid'' = Some (VBool True) \<and>
    map_of (lan_trial_row repr steps w r) ''error'' = Some (VStr (repr (KeyError ''server_cpu_seconds'')))"
  using assms by (simp add: lan_trial_row_def finish_steps_def Let_def map_of_dict_set)

text \<open>
  C39: the mark \<open>valid\<close> is set before the last computations of a trial.  When the events up to the
  supervisor's result are handled without an exception but none of them announced \<open>measured\<close>, the
  computation of the CPU figures raises \<open>KeyError\<close>; the record that the trial then returns carries that
  exception as its error and is nevertheless marked valid.
\<close>

theorem valid_despite_error:
  assumes trial: "lan_trial which base repr sha256 unpack o' ssh remote_dir port cert key identity host 0 err w name workers connections repeat present folder_name = Inr r"
    and cpus: "h2_cpu_list (lo_server_cpus o') = Inr cpus"
    and start: "r0 = lan_start_row which base o' ssh name workers connections repeat (take (nat workers) cpus) port cert key identity host"
    and handled: "snd (run_steps (lan_steps o' ssh remote_dir folder_name connections port w r0) r0) = None"
    and unmeasured: "\<forall>t \<in> set (lw_turns w). \<not> announces ''measured'' t"
  shows "map_of r ''valid'' = Some (VBool True) \<and> map_of r ''error'' = Some (VStr (repr (KeyError ''server_cpu_seconds'')))"
proof -
  let ?steps = "lan_steps o' ssh remote_dir folder_name connections port w"
  have r: "r = lan_trial_row repr ?steps w r0"
    using trial cpus start by (auto simp: lan_trial_def lan_archive_def bindE_eq_Inr seqE_eq_Inr Let_def)
  obtain r1 where run: "run_steps (?steps r0) r0 = (r1, None)" using handled by (cases "run_steps (?steps r0) r0") auto
  obtain pre where "ends_with (VFloat (lo_duration o')) pre (?steps r0)" using steps_shape by blast
  from finished_steps_valid [OF this run] have "map_of r1 ''valid'' = Some (VBool True)" .
  moreover have "map_of r1 ''server_cpu_seconds'' = None"
    using run_steps_keep [OF run steps_no_cpu [OF unmeasured]] start by (simp add: lan_start_row_def)
  ultimately show ?thesis unfolding r by (intro trial_row_unmeasured [where steps = ?steps and r = r0, OF run])
qed

text \<open>The sample trial when only the result arrives.\<close>

definition unmeasured_world :: lan_world where
  "unmeasured_world = sample_lan_world\<lparr>lw_turns := [sample_answer ''result'' [(''shards'', VList [sample_shard]), (''failure_logs'', VList [sample_receipt])] 2]\<rparr>"

definition unmeasured_start :: row where
  "unmeasured_start = lan_start_row (\<lambda>n. n) ''r'' sample_lan_options True ''go'' 1 1 0 [0] 80 ''c'' ''k'' (VDict [(''boot_id'', VStr ''s'')]) VNone"

definition unmeasured_trial :: "row res" where
  "unmeasured_trial = lan_trial (\<lambda>n. n) ''r'' (\<lambda>e. ''e'') (\<lambda>t. t) (\<lambda>p. Inr ''x'') sample_lan_options True ''/t'' 80 ''c'' ''k''
     (VDict [(''boot_id'', VStr ''s'')]) VNone 0 [] unmeasured_world ''go'' 1 1 0 {} ''w1-c1-go-r1''"

lemma unmeasured_returns: "map_sum id (\<lambda>r. ()) unmeasured_trial = Inr ()"
  by code_simp

lemma unmeasured_run:
  "snd (run_steps (lan_steps sample_lan_options True ''/t'' ''w1-c1-go-r1'' 1 80 unmeasured_world unmeasured_start) unmeasured_start) = None"
  by code_simp

theorem valid_despite_error_witness:
  "\<exists>r. unmeasured_trial = Inr r \<and> map_of r ''valid'' = Some (VBool True) \<and> map_of r ''error'' = Some (VStr ''e'')"
proof -
  obtain r where r: "unmeasured_trial = Inr r" using unmeasured_returns by (auto simp: map_sum_eq_Inr)
  have cpus: "h2_cpu_list (lo_server_cpus sample_lan_options) = Inr [0, 1]" by code_simp
  have start: "unmeasured_start = lan_start_row (\<lambda>n. n) ''r'' sample_lan_options True ''go'' 1 1 0 (take (nat 1) [0, 1]) 80 ''c'' ''k''
      (VDict [(''boot_id'', VStr ''s'')]) VNone" by (simp add: unmeasured_start_def)
  have none: "\<forall>t \<in> set (lw_turns unmeasured_world). \<not> announces ''measured'' t"
    by (simp add: unmeasured_world_def announces_def stamped_def sample_answer_def)
  show ?thesis using valid_despite_error [OF r [unfolded unmeasured_trial_def] cpus start unmeasured_run none] r by blast
qed

end
