(* ===== verification/Lan_Main.thy ===== *)
theory Lan_Main
  imports Lan_Trials
begin

text \<open>
  \<open>main\<close> of \<open>bench/compare_http2_lan.py\<close>: the loop over the schedule, each trial on a port of its own, and the
  end of the comparison.  \<open>lan_machine\<close> holds what does not change between trials and what the machines answer
  in each.
\<close>

section \<open>The comparison\<close>

type_synonym lan_cell = "int \<times> int \<times> string \<times> nat"

record lan_machine =
  lm_which :: "string \<Rightarrow> string"
  lm_base :: string
  lm_repr :: "exn \<Rightarrow> string"
  lm_sha256 :: "string \<Rightarrow> string"
  lm_remote_dir :: string
  lm_cert :: string
  lm_key :: string
  lm_identity :: "lan_cell \<Rightarrow> val"
  lm_host :: "lan_cell \<Rightarrow> val"
  lm_world :: "lan_cell \<Rightarrow> lan_world"
  lm_archive :: "lan_cell \<Rightarrow> int \<times> string"
  lm_unpack :: "lan_cell \<Rightarrow> string \<Rightarrow> string res"

text \<open>\<open>trial(args, ssh, remote_dir, name, count, population, repeat, port, cert, key, output / label)\<close>\<close>

definition lan_call :: "lan_machine \<Rightarrow> lan_options \<Rightarrow> string set \<Rightarrow> int \<Rightarrow> lan_cell \<Rightarrow> row res" where
  "lan_call M o' present port x =
     (case x of (workers, connections, name, repeat) \<Rightarrow>
      lan_trial (lm_which M) (lm_base M) (lm_repr M) (lm_sha256 M) (lm_unpack M x) o' True (lm_remote_dir M) port (lm_cert M) (lm_key M)
        (lm_identity M x) (lm_host M x) (fst (lm_archive M x)) (snd (lm_archive M x)) (lm_world M x) name workers connections (int repeat) present (lan_label x))"

text \<open>
  The runs saved in the report, with the exception that ended the loop; \<open>None\<close> while no new port is
  offered.  \<open>present\<close> are the names in the output directory, to which every trial adds its folder.
\<close>

fun lan_runs :: "lan_machine \<Rightarrow> lan_options \<Rightarrow> lan_cell list \<Rightarrow> string set \<Rightarrow> int set \<Rightarrow> int list \<Rightarrow> (row list \<times> exn option) option" where
  "lan_runs M o' [] present used offered = Some ([], None)"
| "lan_runs M o' (x # xs) present used offered =
     (case draw_port used offered of
        None \<Rightarrow> None
      | Some (port, used', rest) \<Rightarrow>
          (case lan_call M o' present port x of
             Inl e \<Rightarrow> Some ([], Some e)
           | Inr r \<Rightarrow> map_option (map_prod (Cons r) id) (lan_runs M o' xs (insert (lan_label x) present) used' rest)))"

text \<open>The files of the new output directory when the first trial starts.\<close>

definition lan_output :: "string set" where
  "lan_output = {''source.tar.gz'', ''results.json''}"

text \<open>The digests of binaries and sources, taken again and compared with those of the report.\<close>

definition lan_unchanged :: "(string \<Rightarrow> string res) \<Rightarrow> (string \<times> string) list \<Rightarrow> unit res" where
  "lan_unchanged digest saved = forE (\<lambda>(name, d). assertE (eqE (bindE (digest name) pS) (pS d))) saved"

text \<open>
  The runs of the report and how the comparison ends: an exception, or whether it is complete (otherwise the
  program exits with a message and keeps the staging directory).
\<close>

definition lan_main ::
  "lan_machine \<Rightarrow> (string \<Rightarrow> string res) \<Rightarrow> (string \<times> string) list \<Rightarrow> int list \<Rightarrow> lan_options \<Rightarrow> (row list \<times> bool res) option res" where
  "lan_main M digest saved offered o' =
     bindE (check_lan_options o') (\<lambda>(workers, connections, servers).
     Inr (case lan_runs M o' (lan_schedule workers connections servers (lo_repeats o')) lan_output {} offered of
        None \<Rightarrow> None
      | Some (rows, Some e) \<Rightarrow> Some (rows, Inl e)
      | Some (rows, None) \<Rightarrow> Some (rows, seqE (lan_unchanged digest saved) (lan_complete (map VDict rows)))))"

section \<open>The record of a trial names the trial\<close>

definition cell_keys :: "string list" where
  "cell_keys = [''workers'', ''connections'', ''server'', ''repeat'', ''variant'']"

lemma result_keeps: "k \<in> set cell_keys \<Longrightarrow> assignments k (result_steps duration ev) = []"
proof (cases "bindE (bindE (idx ev ''shards'') elems) (\<lambda>shards. lan_aggregate shards duration)")
  case (Inr row)
  assume k: "k \<in> set cell_keys"
  obtain shards where "lan_aggregate shards duration = Inr row" using Inr by (auto simp: bindE_eq_Inr)
  then have "k \<notin> fst ` set row" using lan_aggregate_keys [of shards duration row] k by (auto simp: cell_keys_def phases_def shard_keys_def)
  then have "assignments k (put_row row) = []" by (force simp: assignments_def put_row_def filter_empty_conv)
  then show ?thesis using k Inr by (auto simp: result_steps_def cell_keys_def)
qed (auto simp: result_steps_def cell_keys_def)

lemma event_keeps:
  assumes "k \<in> set cell_keys"
  shows "k \<notin> set [''client_launch'', ''prepared'', ''server_prepared'', ''ready'', ''server_before'', ''server_network_before'',
    ''server_cpu_window_seconds'', ''server_cpu_seconds'', ''server_after'', ''server_network_after'', ''client_identity'', ''clock'', ''client_config'']"
  using assms by (auto simp: cell_keys_def)

lemma assignments_puts: "k \<notin> set ks \<Longrightarrow> (\<And>s. s \<in> set ss \<Longrightarrow> case s of Put k' m \<Rightarrow> k' \<in> set ks | Check m \<Rightarrow> True | Sample m \<Rightarrow> False) \<Longrightarrow> assignments k ss = []"
  by (force simp: assignments_def filter_empty_conv split: step.splits)

lemma loop_keeps: "k \<in> set cell_keys \<Longrightarrow> assignments k (lan_loop duration clock before ts) = []"
proof (induction ts arbitrary: before)
  case (Cons t ts)
  note own = event_keeps [OF Cons.prems] and IH = Cons.IH [OF Cons.prems]
  have measured: "assignments k (measured_steps t before) = []" by (rule assignments_puts [OF own]) (auto simp: measured_steps_def)
  show ?case
  proof (cases "stamped t")
    case (Inr ev)
    then show ?thesis using own by (cases "idx ev ''kind''"; cases "lt_cpu t") (simp_all add: IH measured result_keeps [OF Cons.prems] eq_commute [of _ k])
  qed simp
qed simp

lemma steps_keep:
  assumes "k \<in> set cell_keys"
  shows "assignments k (lan_steps o' ssh remote_dir folder_name connections port w r) = []"
  using event_keeps [OF assms]
  by (cases "lw_hello w"; cases "bindE (mapE clock_row (lw_clocks w)) best_clock")
    (simp_all add: lan_steps_def hello_checks_def loop_keeps [OF assms] eq_commute [of _ k])

lemma trial_row_cell:
  assumes "k \<in> set cell_keys"
  shows "map_of (lan_trial_row repr (lan_steps o' ssh remote_dir folder_name connections port w) w r) k = map_of r k"
proof -
  obtain r1 e where run: "run_steps (lan_steps o' ssh remote_dir folder_name connections port w r) r = (r1, e)"
    by (cases "run_steps (lan_steps o' ssh remote_dir folder_name connections port w r) r")
  have "k \<notin> set lan_late_keys" using assms by (auto simp: cell_keys_def lan_late_keys_def)
  then show ?thesis using trial_row_keeps run_steps_keep [OF run steps_keep [OF assms]] run by (metis fst_conv)
qed

lemma archive_keeps: "lan_archive sha256 unpack code err r = Inr r' \<Longrightarrow> k \<in> set cell_keys \<Longrightarrow> map_of r' k = map_of r k"
  by (auto simp: lan_archive_def bindE_eq_Inr seqE_eq_Inr map_of_dict_set cell_keys_def split: if_splits)

lemma lan_trial_cell:
  assumes "lan_trial which base repr sha256 unpack o' ssh remote_dir port cert key identity host code err w name workers connections repeat present folder_name = Inr r"
  shows "trial_tuple (VDict r) = Inr [VInt workers, VInt connections, VStr name, VInt repeat]"
proof -
  obtain cpus where archive: "lan_archive sha256 unpack code err (lan_trial_row repr (lan_steps o' ssh remote_dir folder_name connections port w) w
      (lan_start_row which base o' ssh name workers connections repeat (take (nat workers) cpus) port cert key identity host)) = Inr r"
    using assms by (auto simp: lan_trial_def bindE_eq_Inr seqE_eq_Inr Let_def)
  have "map_of r k = map_of (lan_start_row which base o' ssh name workers connections repeat (take (nat workers) cpus) port cert key identity host) k"
    if "k \<in> set cell_keys" for k
    using archive_keeps [OF archive that] trial_row_cell [OF that] by simp
  then show ?thesis by (simp add: cell_keys_def lan_start_row_def trial_tuple_def run_label_def dict_get_def)
qed

lemma lan_call_cell: "lan_call M o' present port x = Inr r \<Longrightarrow> trial_tuple (VDict r) = Inr (schedule_tuple x)"
  by (cases x) (auto simp: lan_call_def schedule_tuple_def dest: lan_trial_cell)

lemma lan_call_new: "lan_call M o' present port x = Inr r \<Longrightarrow> lan_label x \<notin> present"
  by (cases x) (auto simp: lan_call_def lan_trial_def seqE_eq_Inr ensure_eq_Inr)

section \<open>A completed comparison\<close>

lemma draw_port_new: "draw_port used offered = Some (port, used', rest) \<Longrightarrow> port \<notin> used \<and> used' = insert port used"
  by (induction used offered rule: draw_port.induct) (auto split: if_splits)

text \<open>A trial of the schedule, on a port of its own and in a folder that was not there before.\<close>

definition trial_call :: "lan_machine \<Rightarrow> lan_options \<Rightarrow> int \<times> lan_cell \<Rightarrow> row \<Rightarrow> bool" where
  "trial_call M o' px r \<longleftrightarrow> (\<exists>present. lan_call M o' present (fst px) (snd px) = Inr r)"

lemma lan_runs_all:
  "lan_runs M o' xs present used offered = Some (rows, None) \<Longrightarrow>
     \<exists>ports. distinct ports \<and> set ports \<inter> used = {} \<and> list_all2 (trial_call M o') (zip ports xs) rows \<and> length ports = length xs \<and>
       distinct (map lan_label xs) \<and> lan_label ` set xs \<inter> present = {}"
proof (induction M o' xs present used offered arbitrary: rows rule: lan_runs.induct)
  case (2 M o' x xs present used offered)
  obtain port used' rest where port: "draw_port used offered = Some (port, used', rest)" using "2.prems" by (auto split: option.splits)
  note new = draw_port_new [OF port]
  obtain r where r: "lan_call M o' present port x = Inr r" using "2.prems" port by (auto split: sum.splits)
  then obtain rs where rs: "lan_runs M o' xs (insert (lan_label x) present) used' rest = Some (rs, None)" and rows: "rows = r # rs"
    using "2.prems" port by auto
  obtain ports where "distinct ports" "set ports \<inter> used' = {}" "list_all2 (trial_call M o') (zip ports xs) rs" "length ports = length xs"
      "distinct (map lan_label xs)" "lan_label ` set xs \<inter> insert (lan_label x) present = {}"
    using "2.IH" [OF port refl refl r rs] by auto
  moreover have "trial_call M o' (port, x) r" using r by (auto simp: trial_call_def)
  ultimately show ?case using new rows lan_call_new [OF r] by (intro exI [of _ "port # ports"]) auto
qed simp

lemma lan_runs_cells:
  assumes "list_all2 (trial_call M o') (zip ports xs) rows" and "length ports = length xs"
  shows "mapE trial_tuple (map VDict rows) = Inr (map schedule_tuple xs)"
  using assms(2,1)
proof (induction ports xs arbitrary: rows rule: list_induct2)
  case (Cons port ports x xs)
  then obtain r rs where "rows = r # rs" and "trial_call M o' (port, x) r"
    and "list_all2 (trial_call M o') (zip ports xs) rs" by (auto simp: list_all2_Cons1)
  moreover from this obtain present where "lan_call M o' present port x = Inr r" by (auto simp: trial_call_def)
  ultimately show ?case using Cons.IH lan_call_cell by simp
qed simp

lemma lan_complete_valid: "lan_complete runs = Inr True \<longleftrightarrow> (\<forall>r \<in> set runs. truthE (idx r ''valid'') = Inr True)"
  unfolding lan_complete_def by (induction runs) (auto simp: andE_def bindE_eq_Inr)

lemma lan_unchanged_digests:
  assumes "lan_unchanged digest saved = Inr ()" and "(file, d) \<in> set saved"
  shows "digest file = Inr d"
proof -
  have "assertE (eqE (bindE (digest file) pS) (pS d)) = Inr ()" using assms unfolding lan_unchanged_def forE_eq_Inr by fastforce
  then show ?thesis by (auto simp: assertE_eq_Inr eqE_True bindE_eq_Inr pS_def)
qed

lemma lan_main_parts:
  assumes "lan_main M digest saved offered o' = Inr (Some (rows, Inr True))" and "check_lan_options o' = Inr (workers, connections, servers)"
  shows "lan_runs M o' (lan_schedule workers connections servers (lo_repeats o')) lan_output {} offered = Some (rows, None)"
    and "lan_unchanged digest saved = Inr ()" and "lan_complete (map VDict rows) = Inr True"
  using assms by (auto simp: lan_main_def seqE_eq_Inr split: option.splits prod.splits)

text \<open>
  C16: a comparison that completes leaves a report its audit can accept, even when an option lists an
  entry twice (the second folder of the same name stops such a comparison).  Its runs are the trials of
  the audit's matrix, in the order of the schedule and none of them twice, all marked valid, each served
  on a port of its own and written to a folder of its own; no binary and no source changed meanwhile; and
  the audit looks for each run in the folder it was written to.
\<close>

theorem lan_main_passes_matrix:
  assumes main: "lan_main M digest saved offered o' = Inr (Some (rows, Inr True))"
    and options: "check_lan_options o' = Inr (workers, connections, servers)"
    and args: "idx args ''servers'' = Inr (VStr (lo_servers o'))" "idx args ''workers'' = Inr (VStr (lo_workers o'))"
      "idx args ''connections'' = Inr (VStr (lo_connections o'))" "idx args ''repeats'' = Inr (VInt (lo_repeats o'))"
    and str: "\<forall>n. la_str E (VInt n) = str_of_int n" "\<forall>s. la_str E (VStr s) = s"
  shows "check_matrix report args VNone (map VDict rows) = Inr () \<and>
    (\<forall>r \<in> set rows. truthE (idx (VDict r) ''valid'') = Inr True) \<and>
    (\<forall>(file, d) \<in> set saved. digest file = Inr d) \<and>
    distinct (map lan_label (lan_schedule workers connections servers (lo_repeats o'))) \<and>
    (\<exists>ports. distinct ports \<and> list_all2 (\<lambda>(port, x) r. (\<exists>present. lan_call M o' present port x = Inr r) \<and>
         lan_folder E folder (schedule_tuple x) = Inr (slash folder (lan_label x)))
       (zip ports (lan_schedule workers connections servers (lo_repeats o'))) rows)"
proof -
  let ?xs = "lan_schedule workers connections servers (lo_repeats o')"
  note parts = lan_main_parts [OF main options]
  obtain ports where ports: "distinct ports" and calls: "list_all2 (trial_call M o') (zip ports ?xs) rows"
    and len: "length ports = length ?xs" and labels: "distinct (map lan_label ?xs)"
    using lan_runs_all [OF parts(1)] by auto
  have once: "distinct ?xs" using labels by (simp add: distinct_map)
  note matrix = schedule_matrix [OF options once lan_runs_cells [OF calls len] args]
  have "\<forall>(file, d) \<in> set saved. digest file = Inr d" using lan_unchanged_digests [OF parts(2)] by blast
  moreover have "\<forall>r \<in> set rows. truthE (idx (VDict r) ''valid'') = Inr True" using parts(3) unfolding lan_complete_valid by auto
  moreover have "list_all2 (\<lambda>(port, x) r. (\<exists>present. lan_call M o' present port x = Inr r) \<and>
      lan_folder E folder (schedule_tuple x) = Inr (slash folder (lan_label x))) (zip ports ?xs) rows"
    by (rule list_all2_mono [OF calls]) (use schedule_folder [OF str] in \<open>auto simp: trial_call_def\<close>)
  ultimately show ?thesis using matrix ports labels by blast
qed

text \<open>A comparison of one trial.\<close>

definition sample_machine :: lan_machine where
  "sample_machine = \<lparr>lm_which = (\<lambda>n. n), lm_base = ''r'', lm_repr = (\<lambda>e. ''e''), lm_sha256 = (\<lambda>t. t), lm_remote_dir = ''/t'', lm_cert = ''c'', lm_key = ''k'',
     lm_identity = (\<lambda>x. VDict [(''boot_id'', VStr ''s'')]), lm_host = (\<lambda>x. VNone), lm_world = (\<lambda>x. sample_lan_world), lm_archive = (\<lambda>x. (0, '''')),
     lm_unpack = (\<lambda>x p. Inr ''x'')\<rparr>"

definition sample_arguments :: val where
  "sample_arguments = VDict [(''servers'', VStr ''go''), (''workers'', VStr ''1''), (''connections'', VStr ''1''), (''repeats'', VInt 1)]"

theorem lan_main_passes_matrix_witness:
  "\<exists>r. lan_main sample_machine (\<lambda>f. Inr ''d'') [(''client'', ''d'')] [80] sample_lan_options = Inr (Some ([r], Inr True)) \<and>
     check_matrix VNone sample_arguments VNone [VDict r] = Inr ()"
proof -
  have o: "check_lan_options sample_lan_options = Inr ([1], [1], [''go''])" by code_simp
  have xs: "lan_schedule [1] [1] [''go''] (lo_repeats sample_lan_options) = [(1, 1, ''go'', 0)]" "lan_label (1, 1, ''go'', 0) = ''w1-c1-go-r1''" by code_simp+
  obtain r where r: "sample_lan_trial = Inr r" and v: "map_of r ''valid'' = Some (VBool True)" using sample_trial_valid by (auto simp: map_sum_eq_Inr)
  have "lan_call sample_machine sample_lan_options lan_output 80 (1, 1, ''go'', 0) = Inr r"
    using r by (simp add: lan_call_def sample_machine_def sample_lan_trial_def xs(2) lan_trial_def lan_output_def)
  then have main: "lan_main sample_machine (\<lambda>f. Inr ''d'') [(''client'', ''d'')] [80] sample_lan_options = Inr (Some ([r], Inr True))"
    using v by (simp add: lan_main_def o xs(1) lan_unchanged_def lan_complete_def assertE_def eqE_def lift2_def pS_def ensure_def truthE_def andE_def)
  have a: "idx sample_arguments ''servers'' = Inr (VStr (lo_servers sample_lan_options))" "idx sample_arguments ''workers'' = Inr (VStr (lo_workers sample_lan_options))"
    "idx sample_arguments ''connections'' = Inr (VStr (lo_connections sample_lan_options))" "idx sample_arguments ''repeats'' = Inr (VInt (lo_repeats sample_lan_options))"
    "\<forall>n. la_str sample_lan (VInt n) = str_of_int n" "\<forall>s. la_str sample_lan (VStr s) = s"
    by (simp_all add: sample_arguments_def sample_lan_options_def sample_lan_def)
  show ?thesis using lan_main_passes_matrix [OF main o a, of VNone "''f''"] main by (intro exI [of _ r]) simp
qed

section \<open>Every trial gets a port\<close>

lemma draw_port_found:
  assumes "set offered - used \<noteq> {}"
  shows "\<exists>port rest. draw_port used offered = Some (port, insert port used, rest) \<and> set offered - used \<subseteq> insert port (set rest - insert port used)"
  using assms by (induction used offered rule: draw_port.induct) auto

lemma lan_runs_returns: "length xs \<le> card (set offered - used) \<Longrightarrow> \<exists>rows e. lan_runs M o' xs present used offered = Some (rows, e)"
proof (induction xs arbitrary: present used offered)
  case (Cons x xs)
  then have "0 < card (set offered - used)" by simp
  then have "set offered - used \<noteq> {}" by (metis card.empty less_numeral_extra(3))
  then obtain port rest where port: "draw_port used offered = Some (port, insert port used, rest)"
    and sub: "set offered - used \<subseteq> insert port (set rest - insert port used)" using draw_port_found by blast
  have "card (set offered - used) \<le> card (insert port (set rest - insert port used))" using sub by (intro card_mono) auto
  also have "\<dots> = Suc (card (set rest - insert port used))" by (simp add: card_insert_if)
  finally have "length xs \<le> card (set rest - insert port used)" using Cons.prems by simp
  from Cons.IH [OF this, of "insert (lan_label x) present"] show ?case using port by (auto split: sum.split)
qed simp

text \<open>
  C18: the comparison ends.  For accepted options, once the kernel has offered as many different ports as
  there are trials, the search for a new port succeeds every time, and the comparison returns the runs
  it saved with the exception that stopped it or with its verdict.
\<close>

theorem lan_main_returns:
  assumes "check_lan_options o' = Inr (workers, connections, servers)"
    and "length (lan_schedule workers connections servers (lo_repeats o')) \<le> card (set offered)"
  shows "\<exists>rows verdict. lan_main M digest saved offered o' = Inr (Some (rows, verdict)) \<and>
    length rows \<le> length (lan_schedule workers connections servers (lo_repeats o'))"
proof -
  obtain rows e where runs: "lan_runs M o' (lan_schedule workers connections servers (lo_repeats o')) lan_output {} offered = Some (rows, e)"
    using lan_runs_returns [of _ offered "{}"] assms(2) by fastforce
  have "lan_runs M o' xs present used ps = Some (rs, f) \<Longrightarrow> length rs \<le> length xs" for xs present used ps rs f
    by (induction xs arbitrary: present used ps rs) (auto split: option.splits sum.splits)
  from this [OF runs] show ?thesis using assms(1) runs by (cases e) (auto simp: lan_main_def)
qed

theorem lan_main_returns_witness:
  "\<exists>rows verdict. lan_main sample_machine (\<lambda>f. Inr ''d'') [(''client'', ''d'')] [80] sample_lan_options = Inr (Some (rows, verdict)) \<and> length rows \<le> 1"
proof -
  have o: "check_lan_options sample_lan_options = Inr ([1], [1], [''go''])" by code_simp
  have xs: "lan_schedule [1] [1] [''go''] (lo_repeats sample_lan_options) = [(1, 1, ''go'', 0)]" by code_simp
  then show ?thesis using lan_main_returns [OF o, of "[80]"] by simp
qed

end
