(* ===== verification/Summarize_Http2_Lan.thy ===== *)
theory Summarize_Http2_Lan
  imports Lan_Trials "HOL-Library.Product_Lexorder"
begin

text \<open>
  \<open>bench/summarize_http2_lan.py\<close>: the published summary of audited HTTP/2 trials.  Trials with the same CPUs,
  connections and server form a row with medians and ranges, rows of a server are added up to its total.
  The text of the report is UTF-8: \<open>em_dash\<close>, \<open>en_dash\<close>, \<open>dagger\<close> and \<open>micro\<close> are the bytes of its signs.
\<close>

section \<open>TCP retransmissions\<close>

definition names :: "(string \<times> string) list" where
  "names = [(''zhtps'', ''ZHTPS''), (''go'', ''Go''), (''node'', ''Node''), (''bun'', ''Bun'')]"

text \<open>The lines come in pairs, names and values; \<open>zip\<close> stops at the shorter line of a pair.\<close>

fun tcp_counter :: "string list \<Rightarrow> int res" where
  "tcp_counter (l # ls) =
     (if startswith l ''Tcp:''
      then (case ls of
          [] \<Rightarrow> Inl IndexError
        | v # _ \<Rightarrow>
            bindE (mapE (\<lambda>(k, t). bindE (py_int t) (\<lambda>n. Inr (k, n))) (zip (tl (split_ws l)) (tl (split_ws v)))) (\<lambda>kns.
            of_option (KeyError ''RetransSegs'') (map_of (dict_of kns) ''RetransSegs'')))
      else (case ls of [] \<Rightarrow> Inl (ValueError ''missing TCP counters'') | _ # rest \<Rightarrow> tcp_counter rest))"
| "tcp_counter [] = Inl (ValueError ''missing TCP counters'')"

definition sample_counter :: "val \<Rightarrow> int res" where
  "sample_counter sample = bindE (bindE (idx sample ''tcp'') str_val) (\<lambda>t. tcp_counter (splitlines t))"

definition retransmissions :: "val \<Rightarrow> (val \<times> val) res" where
  "retransmissions run =
     bindE (inE ''server_network_before'' run) (\<lambda>present.
     if \<not> present then Inr (VNone, VNone)
     else
      bindE (idx run ''server_network_before'') (\<lambda>before. bindE (idx run ''server_network_after'') (\<lambda>after.
      bindE (sample_counter after) (\<lambda>a. bindE (sample_counter before) (\<lambda>b.
      seqE (ensure (0 \<le> a - b) (AssertionError ''TCP counter decreased''))
     (bindE (divE (subE (idx after ''unix_ns'') (idx before ''unix_ns'')) (pF 1000000000)) (\<lambda>elapsed.
      bindE (py_truediv (VInt (a - b)) elapsed) (\<lambda>rate. Inr (VInt (a - b), rate))))))))) "

section \<open>Rows\<close>

definition spread_keys :: "string list" where
  "spread_keys = [''requests_per_second'', ''p50_ms'', ''p99_ms'', ''failure_p99_ms'', ''server_cpu_cores'', ''server_cpu_us_per_request'',
     ''client_cpu_cores'', ''seconds'', ''start_skew_ms'']"

definition range_keys :: "string list" where
  "range_keys = [''established_connections'', ''ready_connections'', ''participating_connections'', ''successful_connections'', ''alive_connections'']"

definition sum_keys :: "string list" where
  "sum_keys = [''setup_unattempted'', ''reconnections'', ''failure_log_entries'']"

text \<open>\<open>f(values) if values else None\<close> over the values that are not \<open>None\<close>.\<close>

definition known :: "val list res \<Rightarrow> (val list \<Rightarrow> val res) \<Rightarrow> val res" where
  "known m f = bindE m (\<lambda>vs. let ws = filter (\<lambda>v. \<not> is_none v) vs in if ws = [] then Inr VNone else f ws)"

definition spread_fields :: "string \<Rightarrow> val list res \<Rightarrow> (string \<times> val res) list" where
  "spread_fields key m = [(key, known m median), (''min_'' @ key, known m py_min), (''max_'' @ key, known m py_max)]"

definition range_fields :: "val list \<Rightarrow> string \<Rightarrow> (string \<times> val res) list" where
  "range_fields runs key =
     [(''min_'' @ key, minE (mapE (\<lambda>r. idx r key) runs)), (''max_'' @ key, maxE (mapE (\<lambda>r. idx r key) runs))]"

text \<open>\<open>kinds.update(v)\<close>\<close>

definition merge_kinds :: "val \<Rightarrow> counter \<Rightarrow> counter res" where
  "merge_kinds v c =
     (case v of
        VNone \<Rightarrow> Inr c
      | VDict d \<Rightarrow> counter_merge (str_keys d) c
      | _ \<Rightarrow> bindE (elems v) (\<lambda>xs. foldE (\<lambda>x. counter_add x (VInt 1)) xs c))"

definition phase_fields :: "val list \<Rightarrow> string \<Rightarrow> (string \<times> val res) list" where
  "phase_fields runs phase =
     map (\<lambda>k. (phase @ ''_'' @ k, sum_over runs [phase, k])) accounts @
     [(phase @ ''_failure_kinds'', bindE (foldE (\<lambda>run c. bindE (path run [phase, ''failure_kinds'']) (\<lambda>v. merge_kinds v c)) runs []) counter_dict)]"

definition head_fields :: "val \<Rightarrow> val list \<Rightarrow> val list \<Rightarrow> (string \<times> val res) list" where
  "head_fields report k runs =
     [(''workers'', Inr (k ! 0)), (''connections'', Inr (k ! 1)), (''server'', Inr (k ! 2)), (''streams'', path report [''arguments'', ''streams'']),
      (''trials'', pI (int (length runs))), (''full_population_trials'', sum_over runs [''full_population'']),
      (''unexpected_server_exits'', bindE (mapE (\<lambda>r. bindE (idx r ''server_exit_before_shutdown'') (\<lambda>v. Inr (\<not> is_none v))) runs) (\<lambda>bs. pI (count_of bs)))]"

definition body_fields :: "val list \<Rightarrow> (string \<times> val res) list" where
  "body_fields runs =
     concat (map (\<lambda>key. spread_fields key (mapE (\<lambda>r. idx r key) runs)) spread_keys) @
     concat (map (range_fields runs) range_keys) @
     map (\<lambda>key. (key, sum_over runs [key])) sum_keys @
     spread_fields ''server_tcp_retransmitted_segments'' (mapE (\<lambda>r. bindE (retransmissions r) (\<lambda>x. Inr (fst x))) runs) @
     spread_fields ''server_tcp_retransmits_per_second'' (mapE (\<lambda>r. bindE (retransmissions r) (\<lambda>x. Inr (snd x))) runs) @
     concat (map (phase_fields runs) phases)"

definition percent_field :: "row \<Rightarrow> val res" where
  "percent_field r =
     ifE (truthE (idx (VDict r) ''measurement_attempted''))
       (divE (mulE (pI 100) (idx (VDict r) ''measurement_failed'')) (idx (VDict r) ''measurement_attempted'')) (Inr VNone)"

definition summary_row :: "val \<Rightarrow> val list \<times> val list \<Rightarrow> val res" where
  "summary_row report g =
     (case g of (k, runs) \<Rightarrow>
      bindE (fieldsE (head_fields report k runs @ body_fields runs) []) (\<lambda>r.
      bindE (percent_field r) (\<lambda>v. Inr (VDict (dict_set ''measurement_failure_percent'' v r)))))"

section \<open>The order of the rows and the totals\<close>

text \<open>\<open>list(NAMES).index(server)\<close>\<close>

fun name_index :: "string list \<Rightarrow> val \<Rightarrow> nat res" where
  "name_index [] v = Inl (ValueError ''is not in list'')"
| "name_index (n # ns) v = (if py_eq (VStr n) v then Inr 0 else bindE (name_index ns v) (\<lambda>i. Inr (Suc i)))"

text \<open>
  \<open>rows.sort(key=...)\<close>.  The audit has compared CPUs and connections with integers, so that they are numbers;
  other values are not ordered.
\<close>

definition rat_of :: "val \<Rightarrow> rat res" where
  "rat_of v = of_option TypeError (as_rat v)"

definition sort_tuple :: "val \<Rightarrow> (rat \<times> rat \<times> nat) res" where
  "sort_tuple row =
     bindE (bindE (idx row ''workers'') rat_of) (\<lambda>w. bindE (bindE (idx row ''connections'') rat_of) (\<lambda>c.
     bindE (bindE (idx row ''server'') (name_index (map fst names))) (\<lambda>i. Inr (w, c, i))))"

definition sort_rows :: "val list \<Rightarrow> val list res" where
  "sort_rows rows = bindE (mapE sort_tuple rows) (\<lambda>ks. Inr (map snd (sort_key fst (zip ks rows))))"

definition total_keys :: "string list" where
  "total_keys = [''setup_unattempted'', ''measurement_attempted'', ''measurement_succeeded'', ''measurement_failed'', ''setup_failed'',
     ''holding_failed'', ''warmup_failed'', ''failure_log_entries'', ''unexpected_server_exits'']"

definition server_total :: "string \<Rightarrow> val list \<Rightarrow> val res" where
  "server_total server selected =
     dictE ([(''server'', pS server), (''trials'', sum_over selected [''trials''])] @ map (\<lambda>k. (k, sum_over selected [k])) total_keys)"

definition add_total :: "val list \<Rightarrow> string \<Rightarrow> val list \<Rightarrow> val list res" where
  "add_total rows server totals =
     bindE (filterE (\<lambda>row. eqE (idx row ''server'') (pS server)) rows) (\<lambda>selected.
     if selected = [] then Inr totals else bindE (server_total server selected) (\<lambda>t. Inr (totals @ [t])))"

definition server_totals :: "val list \<Rightarrow> val list res" where
  "server_totals rows = foldE (add_total rows) (map fst names) []"

definition summary_rows :: "val \<Rightarrow> val list \<Rightarrow> val list res" where
  "summary_rows report runs =
     bindE (bindE (group_rows [''workers'', ''connections'', ''server''] runs) (mapE (summary_row report))) sort_rows"

text \<open>The summary; \<open>now\<close> is the time at which it is made.\<close>

definition lan_summarize :: "lan_env \<Rightarrow> string \<Rightarrow> string \<Rightarrow> val res" where
  "lan_summarize E now folder =
     bindE (lan_audit E folder) (\<lambda>receipt.
     bindE (la_read E (slash folder ''results.json'')) (\<lambda>report.
     bindE (bindE (idx report ''runs'') elems) (\<lambda>runs.
     bindE (summary_rows report runs) (\<lambda>rows.
     bindE (server_totals rows) (\<lambda>totals.
     dictE
      [(''started_utc'', idx report ''started_utc''), (''finished_utc'', idx report ''finished_utc''), (''generated_utc'', pS now),
       (''arguments'', idx report ''arguments''), (''server_identity'', idx report ''server_identity''),
       (''client_identity'', idxE (bindE (idx report ''runs'') (\<lambda>rs. nth_val rs 0)) ''client_identity''), (''versions'', idx report ''versions''),
       (''binary_sha256'', idx report ''binary_sha256''), (''audit'', Inr receipt), (''rows'', Inr (VList rows)), (''totals'', Inr (VList totals))])))))"

section \<open>No trial is dropped\<close>

text \<open>The integer a field of a row, run or total holds.\<close>

definition int_at :: "val \<Rightarrow> string \<Rightarrow> int" where
  "int_at v k = (case idx v k of Inr (VInt n) \<Rightarrow> n | _ \<Rightarrow> 0)"

definition holds_int :: "string \<Rightarrow> val \<Rightarrow> bool" where
  "holds_int k v \<longleftrightarrow> idx v k = Inr (VInt (int_at v k))"

lemma holds_intI: "idx v k = Inr (VInt n) \<Longrightarrow> holds_int k v \<and> int_at v k = n"
  by (simp add: holds_int_def int_at_def)

lemma sum_over_ints:
  assumes "\<forall>v \<in> set vs. holds_int k v"
  shows "sum_over vs [k] = Inr (VInt (sum_list (map (\<lambda>v. int_at v k) vs)))"
proof -
  have "mapE (\<lambda>v. idx v k) vs = Inr (map VInt (map (\<lambda>v. int_at v k) vs))" using assms by (induction vs) (simp_all add: holds_int_def)
  then show ?thesis unfolding sum_over_one by (simp add: sumE_def py_sum_ints del: map_map)
qed

definition row_keys :: "string list" where
  "row_keys = map fst (head_fields VNone [] [] @ body_fields [])"

lemma lan_row_keys_distinct: "distinct row_keys"
  by code_simp

lemma row_keys_fields: "map fst (head_fields report k runs @ body_fields runs) = row_keys"
  by (simp add: row_keys_def head_fields_def body_fields_def spread_fields_def range_fields_def phase_fields_def
      spread_keys_def range_keys_def sum_keys_def phases_def accounts_def)

lemma summary_row_field:
  assumes "summary_row report (k, runs) = Inr row" and "(key, m) \<in> set (head_fields report k runs @ body_fields runs)"
  shows "idx row key = m"
proof -
  obtain r v where r: "fieldsE (head_fields report k runs @ body_fields runs) [] = Inr r"
    and row: "row = VDict (dict_set ''measurement_failure_percent'' v r)"
    using assms(1) unfolding summary_row_def prod.case bindE_eq_Inr by (elim exE conjE) (rule that, auto)
  have "fst (key, m) \<in> set row_keys" unfolding row_keys_fields [of report k runs, symmetric] set_map using assms(2) by (rule imageI)
  moreover have "''measurement_failure_percent'' \<notin> set row_keys" by code_simp
  ultimately have "idx row key = idx (VDict r) key" by (auto simp: row map_of_dict_set)
  moreover have "m = idx (VDict r) key"
    using fieldsE_field [OF r assms(2) lan_row_keys_distinct [folded row_keys_fields [of report k runs]]] by auto
  ultimately show ?thesis by simp
qed

lemma summary_row_sums:
  assumes "summary_row report (k, runs) = Inr row" and "key \<in> set sum_keys" and "\<forall>run \<in> set runs. holds_int key run"
  shows "holds_int key row \<and> int_at row key = sum_list (map (\<lambda>r. int_at r key) runs)"
proof (rule holds_intI)
  have "(key, sum_over runs [key]) \<in> set (body_fields runs)" using assms(2) by (simp add: body_fields_def)
  then show "idx row key = Inr (VInt (sum_list (map (\<lambda>r. int_at r key) runs)))"
    using summary_row_field [OF assms(1), of key "sum_over runs [key]"] sum_over_ints [OF assms(3)] by simp
qed

lemma summary_row_trials:
  assumes "summary_row report (k, runs) = Inr row"
  shows "holds_int ''trials'' row \<and> int_at row ''trials'' = int (length runs)"
proof (rule holds_intI)
  have "(''trials'', pI (int (length runs))) \<in> set (head_fields report k runs)" by (simp add: head_fields_def)
  then show "idx row ''trials'' = Inr (VInt (int (length runs)))"
    using summary_row_field [OF assms, of "''trials''" "pI (int (length runs))"] by (simp add: pI_def)
qed

text \<open>Sorting keeps the rows, and every row has a known server.\<close>

lemma name_index_known: "name_index ns v = Inr i \<Longrightarrow> \<exists>n \<in> set ns. v = VStr n"
  by (induction ns v arbitrary: i rule: name_index.induct) (auto simp: bindE_eq_Inr split: if_splits)

lemma sort_rows_mset:
  assumes "sort_rows rows = Inr rows'"
  shows "mset rows' = mset rows \<and> (\<forall>row \<in> set rows'. \<exists>n \<in> set (map fst names). idx row ''server'' = Inr (VStr n))"
proof -
  obtain ks where ks: "mapE sort_tuple rows = Inr ks" and rows': "rows' = map snd (sort_key fst (zip ks rows))"
    using assms by (auto simp: sort_rows_def bindE_eq_Inr)
  have "mset rows' = image_mset snd (mset (zip ks rows))" by (simp add: rows')
  also have "\<dots> = mset rows" using mapE_length [OF ks] by (simp add: mset_map [symmetric] del: mset_map)
  finally have same: "mset rows' = mset rows" .
  have "\<exists>n \<in> set (map fst names). idx row ''server'' = Inr (VStr n)" if row: "row \<in> set rows" for row
  proof -
    obtain t where "sort_tuple row = Inr t" using mapE_mem [OF ks row] by blast
    then obtain v i where "idx row ''server'' = Inr v" and "name_index (map fst names) v = Inr i"
      unfolding sort_tuple_def bindE_eq_Inr by (elim exE conjE) (rule that)
    then show ?thesis using name_index_known by blast
  qed
  then show ?thesis using same mset_eq_setD [OF same] by blast
qed

text \<open>The totals of a field that holds integers in every row.\<close>

definition of_server :: "string \<Rightarrow> val list \<Rightarrow> val list" where
  "of_server n rows = filter (\<lambda>row. idx row ''server'' = Inr (VStr n)) rows"

lemma py_eq_to_str: "py_eq v (VStr s) \<longleftrightarrow> v = VStr s"
  by (cases v) auto

lemma add_total_step:
  assumes "add_total rows n totals = Inr totals'" and "k \<in> set (''trials'' # total_keys)" and "\<forall>row \<in> set rows. holds_int k row"
    and "\<forall>t \<in> set totals. holds_int k t"
  shows "(\<forall>t \<in> set totals'. holds_int k t) \<and>
    sum_list (map (\<lambda>t. int_at t k) totals') = sum_list (map (\<lambda>t. int_at t k) totals) + sum_list (map (\<lambda>r. int_at r k) (of_server n rows))"
proof -
  obtain selected where sel: "filterE (\<lambda>row. eqE (idx row ''server'') (pS n)) rows = Inr selected"
    and step: "(if selected = [] then Inr totals else bindE (server_total n selected) (\<lambda>t. Inr (totals @ [t]))) = Inr totals'"
    using assms(1) by (auto simp: add_total_def bindE_eq_Inr)
  have "(eqE (idx row ''server'') (pS n) = Inr True) = (idx row ''server'' = Inr (VStr n))" for row
    by (auto simp: eqE_True pS_def py_eq_to_str)
  then have selected: "selected = of_server n rows" using filterE_eq_Inr [OF sel] by (simp add: of_server_def)
  show ?thesis
  proof (cases "selected = []")
    case False
    then obtain t where t: "server_total n selected = Inr t" and totals': "totals' = totals @ [t]" using step by (auto simp: bindE_eq_Inr)
    have mem: "(k, sum_over selected [k]) \<in> set ([(''server'', pS n), (''trials'', sum_over selected [''trials''])] @ map (\<lambda>k. (k, sum_over selected [k])) total_keys)"
      using assms(2) by auto
    have dist: "distinct (map fst ([(''server'', pS n), (''trials'', sum_over selected [''trials''])] @ map (\<lambda>k. (k, sum_over selected [k])) total_keys))"
      by (simp add: total_keys_def)
    have "idx t k = sum_over selected [k]" by (rule dictE_field [OF t [unfolded server_total_def] mem dist, THEN conjunct1, symmetric])
    also have "\<dots> = Inr (VInt (sum_list (map (\<lambda>r. int_at r k) selected)))"
      using assms(3) by (intro sum_over_ints) (auto simp: selected of_server_def)
    finally show ?thesis using holds_intI [of t k] assms(4) by (simp add: totals' selected)
  qed (use step assms(4) selected in auto)
qed

lemma add_totals:
  assumes "foldE (add_total rows) ns totals = Inr totals'" and "k \<in> set (''trials'' # total_keys)" and "\<forall>row \<in> set rows. holds_int k row"
    and "\<forall>t \<in> set totals. holds_int k t"
  shows "(\<forall>t \<in> set totals'. holds_int k t) \<and> sum_list (map (\<lambda>t. int_at t k) totals') =
    sum_list (map (\<lambda>t. int_at t k) totals) + sum_list (map (\<lambda>n. sum_list (map (\<lambda>r. int_at r k) (of_server n rows))) ns)"
  using assms
proof (induction ns arbitrary: totals)
  case (Cons n ns)
  then obtain t1 where t1: "add_total rows n totals = Inr t1" and rest: "foldE (add_total rows) ns t1 = Inr totals'"
    by (auto simp: bindE_eq_Inr)
  note first = add_total_step [OF t1 Cons.prems(2-4)]
  show ?case using Cons.IH [OF rest Cons.prems(2,3)] first by simp
qed simp

lemma servers_cover:
  assumes "distinct ns" and "\<forall>row \<in> set rows. \<exists>n \<in> set ns. idx row ''server'' = Inr (VStr n)"
  shows "sum_list (map (\<lambda>n. sum_list (map f (of_server n rows))) ns) = (sum_list (map f rows) :: int)"
  using assms(2)
proof (induction rows)
  case (Cons row rows)
  obtain n where n: "n \<in> set ns" "idx row ''server'' = Inr (VStr n)" using Cons.prems by auto
  have "sum_list (map (\<lambda>m. sum_list (map f (of_server m (row # rows)))) ns) =
      sum_list (map (\<lambda>m. (if m = n then f row else 0) + sum_list (map f (of_server m rows))) ns)"
    using n(2) by (intro arg_cong [where f = sum_list] map_cong refl) (auto simp: of_server_def)
  also have "\<dots> = f row + sum_list (map f rows)"
    using Cons n(1) assms(1) by (simp add: sum_list_addf sum_list_distinct_conv_sum_set)
  finally show ?case by simp
qed (simp add: of_server_def)

lemma sum_list_mset: "mset xs = mset ys \<Longrightarrow> sum_list (map f xs) = (sum_list (map f ys) :: int)"
  using sum_mset_sum_list [of "map f xs"] sum_mset_sum_list [of "map f ys"] by simp

lemma totals_add_up:
  assumes "sort_rows rows0 = Inr rows" and "server_totals rows = Inr totals"
    and "k \<in> set (''trials'' # total_keys)" and "\<forall>row \<in> set rows0. holds_int k row"
  shows "sum_over totals [k] = Inr (VInt (sum_list (map (\<lambda>r. int_at r k) rows0))) \<and>
    sum_over rows [k] = Inr (VInt (sum_list (map (\<lambda>r. int_at r k) rows0)))"
proof -
  note same = sort_rows_mset [OF assms(1)]
  then have ints: "\<forall>row \<in> set rows. holds_int k row" using assms(4) mset_eq_setD by blast
  note totals = add_totals [OF assms(2) [unfolded server_totals_def] assms(3) ints]
  have "distinct (map fst names)" by (simp add: names_def)
  from servers_cover [OF this, of rows] have "sum_list (map (\<lambda>t. int_at t k) totals) = sum_list (map (\<lambda>r. int_at r k) rows)"
    using totals same by simp
  also have eq: "\<dots> = sum_list (map (\<lambda>r. int_at r k) rows0)" using same by (intro sum_list_mset) simp
  finally show ?thesis using totals sum_over_ints [of totals k] sum_over_ints [OF ints] eq by simp
qed

lemma summary_rows_groups:
  assumes "summary_rows report runs = Inr rows"
  obtains gs rows0 where "mset (concat (map snd gs)) = mset runs" and "list_all2 (\<lambda>g row. summary_row report g = Inr row) gs rows0"
    and "sort_rows rows0 = Inr rows"
proof -
  obtain gs rows0 where "group_rows [''workers'', ''connections'', ''server''] runs = Inr gs" and "mapE (summary_row report) gs = Inr rows0"
    and "sort_rows rows0 = Inr rows"
    using assms by (auto simp: summary_rows_def bindE_eq_Inr)
  then show ?thesis by (intro that [of gs rows0]) (simp_all add: group_rows_partition mapE_eq_Inr)
qed

lemma group_sums:
  assumes "list_all2 (\<lambda>g row. summary_row report g = Inr row) gs rows0" and "mset (concat (map snd gs)) = mset runs"
    and "\<And>k rs row. (k, rs) \<in> set gs \<Longrightarrow> summary_row report (k, rs) = Inr row \<Longrightarrow> holds_int key row \<and> int_at row key = sum_list (map f rs)"
  shows "(\<forall>row \<in> set rows0. holds_int key row) \<and> sum_list (map (\<lambda>r. int_at r key) rows0) = sum_list (map f runs)"
proof -
  have "(\<forall>row \<in> set rows0. holds_int key row) \<and> sum_list (map (\<lambda>r. int_at r key) rows0) = sum_list (map f (concat (map snd gs)))"
    using assms(1,3)
  proof (induction gs rows0 rule: list_all2_induct)
    case (Cons g gs row rows0)
    obtain k rs where g: "g = (k, rs)" by (cases g)
    have "holds_int key row \<and> int_at row key = sum_list (map f rs)" using Cons.hyps(1) Cons.prems [of k rs row] g by simp
    moreover have "(\<forall>row \<in> set rows0. holds_int key row) \<and> sum_list (map (\<lambda>r. int_at r key) rows0) = sum_list (map f (concat (map snd gs)))"
      by (rule Cons.IH) (rule Cons.prems, simp_all)
    ultimately show ?case by (simp add: g)
  qed simp
  then show ?thesis using sum_list_mset [OF assms(2)] by metis
qed

section \<open>The summary and the failure records\<close>

lemma foldE_each: "foldE f xs s = Inr s' \<Longrightarrow> x \<in> set xs \<Longrightarrow> \<exists>a b. f x a = Inr b"
  by (induction xs arbitrary: s) (auto simp: bindE_eq_Inr)

lemma py_eq_rat: "as_rat v = Some x \<Longrightarrow> py_eq v (VInt n) \<Longrightarrow> x = of_int n"
  by (cases v) auto

lemma py_eq_chain: "as_rat v = Some (of_nat m) \<Longrightarrow> py_eq v (VInt n) \<Longrightarrow> int m = n"
  using py_eq_rat [of v "of_nat m" n] by (metis of_int_of_nat_eq of_int_eq_iff)

lemma lan_shard_entries:
  assumes "lan_shard E args folder run (i, shard) s = Inr s'" and "holds_int ''failure_log_entries'' shard"
  shows "int_at shard ''failure_log_entries'' = log_lines E folder i"
proof -
  obtain receipt lines where lines: "la_gzip E (log_file folder i) = Inr lines" and ok: "check_receipt E shard receipt lines = Inr ()"
    using assms(1) unfolding lan_shard_def Let_def prod.case bindE_eq_Inr seqE_eq_Inr by (elim exE conjE) (rule that, auto simp: log_file_def)
  have "andE (eqE (pI (int (length lines))) (idx receipt ''entries'')) (eqE (idx receipt ''entries'') (idx shard ''failure_log_entries'')) = Inr True"
    using ok unfolding check_receipt_def checks_eq_Inr by (simp add: assertE_eq_Inr)
  then have "int (length lines) = int_at shard ''failure_log_entries''"
    using assms(2) unfolding holds_int_def by (auto simp: andE_def bindE_eq_Inr eqE_True pI_def dest: py_eq_chain split: if_splits)
  then show ?thesis using lines by (simp add: log_lines_def)
qed

lemma lan_run_entries:
  assumes "lan_run E report args variants folder run fs = Inr fs'" and "holds_int ''failure_log_entries'' run"
    and "\<forall>sh \<in> set (run_shards run). holds_int ''failure_log_entries'' sh"
  shows "int_at run ''failure_log_entries'' = trial_records E folder run"
proof -
  obtain t p shards s c where t: "trial_tuple run = Inr t" and p: "lan_folder E folder t = Inr p"
    and shards: "lan_shards E args p run = Inr (shards, s)" and totals: "check_totals args run c shards s = Inr ()"
    using assms(1) unfolding lan_run_def bindE_eq_Inr seqE_eq_Inr assertE_eq_Inr
    by (elim exE conjE) (clarsimp simp: bindE_eq_Inr seqE_eq_Inr)
  note own = lan_shards_counts [OF shards]
  have fold: "foldE (lan_shard E args p run) (zip [0..<length shards] shards) new_sums = Inr s"
    using shards unfolding lan_shards_def by (auto simp: bindE_eq_Inr seqE_eq_Inr)
  have each: "int_at (shards ! i) ''failure_log_entries'' = log_lines E p i" if i: "i < length shards" for i
  proof -
    have "(i, shards ! i) \<in> set (zip [0..<length shards] shards)" using i by (auto simp: set_zip intro!: exI [of _ i])
    then obtain a b where "lan_shard E args p run (i, shards ! i) a = Inr b" using foldE_each [OF fold] by blast
    then show ?thesis using lan_shard_entries assms(3) own i by (metis nth_mem)
  qed
  have "map (\<lambda>sh. int_at sh ''failure_log_entries'') shards = map (log_lines E p) [0..<length shards]"
    by (rule nth_equalityI) (simp_all add: each)
  moreover have "sumE (mapE (\<lambda>sh. idx sh ''failure_log_entries'') shards) = Inr (VInt (sum_list (map (\<lambda>sh. int_at sh ''failure_log_entries'') shards)))"
    using sum_over_ints [of shards "''failure_log_entries''"] assms(3) own by (simp add: sum_over_one)
  moreover have "eqE (idx run ''failure_log_entries'') (sumE (mapE (\<lambda>sh. idx sh ''failure_log_entries'') shards)) = Inr True"
    using totals unfolding check_totals_def checks_eq_Inr list.set ball_simps forE_eq_Inr assertE_eq_Inr by (auto simp: shard_keys_def)
  ultimately have "int_at run ''failure_log_entries'' = sum_list (map (log_lines E p) [0..<length shards])"
    using assms(2) by (simp add: holds_int_def eqE_True)
  then show ?thesis using t p own by (simp add: trial_records_def trial_folder_def trial_lines_def)
qed

lemma lan_summarize_parts:
  assumes "lan_summarize E now folder = Inr out" and "la_read E (slash folder ''results.json'') = Inr report"
    and "bindE (idx report ''runs'') elems = Inr runs"
  obtains receipt rows totals where "lan_audit E folder = Inr receipt" and "summary_rows report runs = Inr rows" and "server_totals rows = Inr totals"
    and "idx out ''audit'' = Inr receipt" and "idx out ''rows'' = Inr (VList rows)" and "idx out ''totals'' = Inr (VList totals)"
proof -
  obtain receipt rows totals where parts: "lan_audit E folder = Inr receipt" "summary_rows report runs = Inr rows" "server_totals rows = Inr totals"
    and out: "dictE
      [(''started_utc'', idx report ''started_utc''), (''finished_utc'', idx report ''finished_utc''), (''generated_utc'', pS now),
       (''arguments'', idx report ''arguments''), (''server_identity'', idx report ''server_identity''),
       (''client_identity'', idxE (bindE (idx report ''runs'') (\<lambda>rs. nth_val rs 0)) ''client_identity''), (''versions'', idx report ''versions''),
       (''binary_sha256'', idx report ''binary_sha256''), (''audit'', Inr receipt), (''rows'', Inr (VList rows)), (''totals'', Inr (VList totals))] = Inr out"
    using assms unfolding lan_summarize_def by (clarsimp simp: bindE_eq_Inr)
  note field = dictE_field [OF out, THEN conjunct1, symmetric]
  have "idx out ''audit'' = Inr receipt" "idx out ''rows'' = Inr (VList rows)" "idx out ''totals'' = Inr (VList totals)"
    by (rule field; simp)+
  then show ?thesis using parts by (intro that)
qed

lemma audit_entries:
  assumes "lan_audit E folder = Inr receipt" and "la_read E (slash folder ''results.json'') = Inr report"
    and "bindE (idx report ''runs'') elems = Inr runs"
    and "\<forall>run \<in> set runs. \<forall>v \<in> set (run # run_shards run). holds_int ''failure_log_entries'' v"
  shows "\<forall>run \<in> set runs. int_at run ''failure_log_entries'' = trial_records E folder run"
proof
  fix run assume run: "run \<in> set runs"
  obtain args variants fs where fold: "foldE (lan_run E report args variants folder) runs (no_counts, VInt 0) = Inr fs"
    using assms(1-3) unfolding lan_audit_def by (auto simp: bindE_eq_Inr seqE_eq_Inr)
  obtain a b where "lan_run E report args variants folder run a = Inr b" using foldE_each [OF fold run] by blast
  then show "int_at run ''failure_log_entries'' = trial_records E folder run" using lan_run_entries assms(4) run by auto
qed

text \<open>
  C13: the published summary drops no trial and no failure.  Whenever the summary is produced, the trials of its
  rows, and those of the totals per server, add up to the number of trials of the report; and the failure
  entries of the totals add up to the number of lines in the failure logs of all trials, the count that
  the audit in the summary gives as its failure records.  The counts are integers, as the generators write them.
\<close>

theorem summary_accounts_for_trials:
  assumes "lan_summarize E now folder = Inr out" and "la_read E (slash folder ''results.json'') = Inr report"
    and "bindE (idx report ''runs'') elems = Inr runs"
    and "\<forall>run \<in> set runs. \<forall>v \<in> set (run # run_shards run). \<exists>n. idx v ''failure_log_entries'' = Inr (VInt n)"
  shows "\<exists>rows totals. idx out ''rows'' = Inr (VList rows) \<and> idx out ''totals'' = Inr (VList totals) \<and>
    sum_over rows [''trials''] = Inr (VInt (int (length runs))) \<and> sum_over totals [''trials''] = Inr (VInt (int (length runs))) \<and>
    sum_over totals [''failure_log_entries''] = Inr (VInt (sum_list (map (trial_records E folder) runs))) \<and>
    path out [''audit'', ''failure_records''] = Inr (VInt (sum_list (map (trial_records E folder) runs)))"
proof -
  obtain receipt rows totals where audit: "lan_audit E folder = Inr receipt" and rows: "summary_rows report runs = Inr rows"
    and totals: "server_totals rows = Inr totals"
    and out: "idx out ''audit'' = Inr receipt" "idx out ''rows'' = Inr (VList rows)" "idx out ''totals'' = Inr (VList totals)"
    by (rule lan_summarize_parts [OF assms(1-3)])
  obtain gs rows0 where gs: "mset (concat (map snd gs)) = mset runs" and each: "list_all2 (\<lambda>g row. summary_row report g = Inr row) gs rows0"
    and sorted: "sort_rows rows0 = Inr rows"
    by (rule summary_rows_groups [OF rows])
  have ints: "\<forall>run \<in> set runs. \<forall>v \<in> set (run # run_shards run). holds_int ''failure_log_entries'' v" using assms(4) holds_intI by blast
  have members: "\<forall>run \<in> set rs. holds_int ''failure_log_entries'' run" if "(k, rs) \<in> set gs" for k rs
    using that mset_eq_setD [OF gs] ints by fastforce
  have trials: "(\<forall>row \<in> set rows0. holds_int ''trials'' row) \<and> sum_list (map (\<lambda>r. int_at r ''trials'') rows0) = sum_list (map (\<lambda>r. 1) runs)"
    by (rule group_sums [OF each gs]) (use summary_row_trials in \<open>simp add: sum_list_triv\<close>)
  have entries: "(\<forall>row \<in> set rows0. holds_int ''failure_log_entries'' row) \<and>
      sum_list (map (\<lambda>r. int_at r ''failure_log_entries'') rows0) = sum_list (map (\<lambda>r. int_at r ''failure_log_entries'') runs)"
    by (rule group_sums [OF each gs], rule summary_row_sums) (use members in \<open>auto simp: sum_keys_def\<close>)
  have "sum_list (map (\<lambda>r. int_at r ''failure_log_entries'') runs) = sum_list (map (trial_records E folder) runs)"
    using audit_entries [OF audit assms(2,3) ints] by (intro arg_cong [where f = sum_list] map_cong) simp_all
  then show ?thesis
    using totals_add_up [OF sorted totals, of "''trials''"] totals_add_up [OF sorted totals, of "''failure_log_entries''"] trials entries out
      lan_audit_counted [OF audit assms(2,3)] by (simp add: total_keys_def sum_list_triv)
qed

text \<open>The sample trial of theory \<open>Audit_Http2_Lan\<close>, summarized.\<close>

lemma sample_summary: "returns (bindE (summary_rows lan_report [audited_trial]) server_totals)"
  by code_simp

theorem summary_accounts_for_trials_witness:
  "\<exists>out totals. lan_summarize sample_lan ''now'' ''f'' = Inr out \<and> idx out ''totals'' = Inr (VList totals) \<and>
     sum_over totals [''trials''] = Inr (VInt 1) \<and>
     sum_over totals [''failure_log_entries''] = Inr (VInt (trial_records sample_lan ''f'' audited_trial))"
proof -
  have read: "la_read sample_lan (slash ''f'' ''results.json'') = Inr lan_report" by (simp add: sample_lan_def slash_def)
  have runs: "bindE (idx lan_report ''runs'') elems = Inr [audited_trial]" by (simp add: lan_report_def)
  obtain receipt where "lan_audit sample_lan ''f'' = Inr receipt" using sample_lan_passes by (cases "lan_audit sample_lan ''f''") auto
  moreover obtain rows totals where "summary_rows lan_report [audited_trial] = Inr rows" and "server_totals rows = Inr totals"
    using sample_summary by (auto simp: returns_iff bindE_eq_Inr)
  moreover have "\<forall>k \<in> set [''started_utc'', ''finished_utc'', ''arguments'', ''server_identity'', ''versions'', ''binary_sha256'']. \<exists>v. idx lan_report k = Inr v"
    by (simp add: lan_report_def)
  moreover have "\<exists>v. idxE (bindE (idx lan_report ''runs'') (\<lambda>rs. nth_val rs 0)) ''client_identity'' = Inr v"
    by (simp add: lan_report_def audited_trial_def sample_fields_def idxE_def)
  ultimately have "returns (lan_summarize sample_lan ''now'' ''f'')" using read runs
    by (auto simp: lan_summarize_def dictE_def pS_def returns_iff)
  then obtain out where out: "lan_summarize sample_lan ''now'' ''f'' = Inr out" by (auto simp: returns_iff)
  have "run_shards audited_trial = [sample_shard]" by (simp add: run_shards_def audited_trial_def sample_fields_def)
  then have "\<forall>run \<in> set [audited_trial]. \<forall>v \<in> set (run # run_shards run). \<exists>n. idx v ''failure_log_entries'' = Inr (VInt n)"
    by (simp add: audited_trial_def sample_shard_def sample_fields_def)
  from summary_accounts_for_trials [OF out read runs this] out show ?thesis by auto
qed

end
