(* ===== verification/Spec2Isabelle.thy ===== *)
theory Spec2Isabelle
  imports Connections Ingress Worker_Cpus Openssl_Inputs Overload_Check Remote_Load Overload_Run Compare
    Render_Reports Access_Log Architecture Audit_Go Lan_Main Summarize_Http2_Lan
begin

text \<open>
  A verification development for the Python programs of ZHTPS, an HTTP server: the deployment
  generators, the build-input generator and the benchmark tooling, with the audits that decide which
  measurements are published.

  \<^bold>\<open>The programs and their parts.\<close>

  \<^item> \<^bold>\<open>Deployment\<close> (\<open>src/deploy\<close>).  \<open>connections.py\<close> writes an nftables SYN budget, \<open>ingress.py\<close> an NGINX
    request gate with such a budget, \<open>worker_cpus.py\<close> chooses CPUs for the workers.  Theories
    \<open>Connections\<close>, \<open>Ingress\<close>, \<open>Worker_Cpus\<close>: the options are records, validation and text generation
    are functions into \<open>exn + 'a\<close>, the exclusive file creation of the bundle writers runs against a
    directory that other processes may change between two operations (\<open>Py_Files\<close>, whose locale
    \<open>exclusive_store\<close> is interpreted on the model's \<open>create_exclusive\<close>); the kernel's files are a \<open>tree\<close>.
    Shown: validation decides exactly when a configuration is written, no option can inject directives,
    the budgets fit together, an existing entry is never changed, chosen CPUs are distinct physical cores
    inside the allowed set, and the printed arguments read back.

  \<^item> \<^bold>\<open>OpenSSL build inputs\<close> (\<open>src/build/openssl/regenerate.py\<close>), theory \<open>Openssl_Inputs\<close>: the walk over the
    configured build database with its call stack made explicit (an \<open>inductive\<close> reachability relation is
    its specification), the parsing of recipe lines by \<open>shlex\<close> (\<open>Py_Shlex\<close>), the compile groups, the
    output directory.  Shown: the object list is exactly what is reachable, and the groups cover every object.

  \<^item> \<^bold>\<open>Overload experiment\<close>: \<open>bench/overload.py\<close>, \<open>bench/remote_load.py\<close>, \<open>bench/summarize_overload.py\<close>,
    \<open>bench/check_overload.py\<close> in \<open>Overload_Run\<close>, \<open>Remote_Load\<close>, \<open>Overload_Summary\<close>, \<open>Overload_Check\<close>.
    The agent and the collector of a remote run exchange events; a session is an \<open>inductive\<close> relation over
    the pending events, and its invariant is shown by rule induction.  Shown: what a collector may conclude
    from a run, also from one that could not be prepared or started, the clock bound of the handshake, that uploads arrive unchanged, that the
    summary accounts for every offer, and that the audit reports an issue for every violated target.

  \<^item> \<^bold>\<open>Comparison\<close>: \<open>bench/compare.py\<close> in \<open>Compare\<close> (core choice, readiness, one run with its local
    or remote load generator, balanced order, rates).  Shown: a run is reported only if its server, its load
    generator and the reported counts are sound.

  \<^item> \<^bold>\<open>LAN runs\<close>: \<open>bench/architecture.py\<close> and \<open>bench/summarize_architecture.py\<close> in \<open>Architecture\<close> and
    \<open>Host_Samples\<close>; \<open>bench/upload_compare.py\<close> in \<open>Upload_Compare\<close>.  Both runners fill a record while they
    proceed and write it whatever happens.  \<open>Evidence\<close> models such a run as a list of steps (\<open>Put\<close>, \<open>Check\<close>,
    \<open>Sample\<close>) over the answers of the processes; the locale \<open>polled_run\<close> is the contract of a runner that polls
    its generator, interpreted on both.  Shown: a record says \<open>measured\<close> exactly when no exception left
    the measured part, and what its digests, identities and samples then mean.

  \<^item> \<^bold>\<open>Upload client\<close>: \<open>bench/upload_client.py\<close> in \<open>Upload_Client\<close>: \<open>TCP_INFO\<close> decoding, queue probes, the
    preparation of queues under a lock, the paced loop of a worker as a state record stepped by \<open>upload_turn\<close>,
    the report.  Shown: the counters of a worker are consistent, its requests are spaced by the interval
    with no burst after a delay, prepared queues are distinct and every completed probe is recorded.

  \<^item> \<^bold>\<open>Audits of the upload and Go experiments\<close>: \<open>bench/audit_upload_parity.py\<close> and
    \<open>bench/audit_go_performance.py\<close> in \<open>Audit_Upload\<close> and \<open>Audit_Go\<close>.  The locale \<open>audit_loop\<close> is the contract of
    their loops, interpreted on both.  Shown across components: every report of a client without failures
    passes the checks of the comparison and of the audit; the audit's recomputation, modelled from its own formulas, confirms every
    summary the comparison writes; the plan's expected folders are those the comparison schedules; a passed
    audit has covered exactly the planned runs.

  \<^item> \<^bold>\<open>HTTP/2 trials\<close>.  \<open>bench/http2_remote.py\<close> in \<open>Http2_Remote\<close>, the supervisor of the load generators on the
    client machine: its loop is a record stepped by the events of the queue (\<open>h2_step\<close>, \<open>supervise\<close>), with every
    message it writes in the state.  \<open>bench/compare_http2_lan.py\<close> in \<open>Compare_Http2_Lan\<close> (the aggregate of the
    generators, one trial as steps of theory \<open>Evidence\<close>, options and schedule) and \<open>Lan_Main\<close> (the loop over the
    trials), with the helpers it takes from \<open>bench/compare_http2.py\<close>.  \<open>bench/audit_http2_lan.py\<close> in
    \<open>Audit_Http2_Lan\<close>, the audit of the trials against every retained failure record.
    \<open>bench/summarize_http2_lan.py\<close> in \<open>Summarize_Http2_Lan\<close>, the published rows and totals.
    Shown: the supervisor keeps the barrier protocol on every sequence of
    events and returns once every generator has exited; connections and CPUs are split without loss; the
    percentile scan is the nearest rank; a passed audit has counted exactly the lines of the failure logs;
    the supervisor's receipts and placements pass the audit (\<open>Audit_Http2_Lan\<close>).  The aggregate of a trial passes the
    audit's recomputation of its phases, failure kinds, sums and figures, and well-typed generator results give a well-typed record (\<open>Lan_Aggregate\<close>); a trial
    marked valid is backed by its evidence (\<open>Lan_Trials\<close>, which also has \<open>valid_despite_error\<close>: the mark survives an
    exception raised after it is set); the comparison ends, and a completed one has run the audit's matrix on
    ports of its own (\<open>Lan_Main\<close>); the summary drops no trial and no failure record (\<open>Summarize_Http2_Lan\<close>).

  \<^item> \<^bold>\<open>Access-log experiment\<close>: \<open>bench/access_log.py\<close> in \<open>Access_Log\<close>.  Shown: an accepted trial accounts for
    every logged request.

  \<^item> \<^bold>\<open>Report renderer\<close>: \<open>bench/render_reports.py\<close> in \<open>Render_Reports\<close>: the HTML rewriter, attachments, the
    embedded payload (\<open>Py_Base64\<close>).  Shown: the page embeds its sources so that they can be read back, and
    rewritten tags and links stay well formed.

  \<^bold>\<open>Python in HOL.\<close>  \<open>Py_Prelude\<close>: exceptions are values, a function that may raise returns \<open>exn + 'a\<close>, \<open>bindE\<close>
  is sequencing, \<open>foldE\<close> and \<open>forE\<close> are loops that stop at the first exception, dictionaries are association
  lists in insertion order; \<open>py_ok\<close> collects the inversion rules.  \<open>Py_Text\<close>, \<open>Py_Ipaddress\<close>, \<open>Py_Shlex\<close>,
  \<open>Py_Base64\<close>, \<open>Py_Zlib\<close>: the parts of the standard library the programs use.  \<open>Py_Float\<close>: a finite binary64
  float is the rational it stands for, every operation is followed by the rounding \<open>fl\<close> (round half to
  even, subnormals included); infinities and NaN are not modelled.  \<open>Py_Value\<close>: the values of \<open>json.loads\<close> with
  Python's dynamic operations.  \<open>sum\<close> of floats adds from left to right, as CPython does up to version 3.11;
  later versions compensate the rounding error.

  \<^bold>\<open>Environment.\<close>  Clocks, sockets, processes, files and the network are arguments: records of what was
  answered, or lists of what each turn of a loop observed.  A list that ends before its loop does stands for
  a run that is interrupted or times out there, and the model returns that exception or \<open>None\<close>; no
  recursion needs fuel.  \<open>sha256\<close>, \<open>gzip\<close>, Markdown conversion, \<open>json.loads\<close>, \<open>str\<close> of a float and \<open>repr\<close> of an
  exception are parameters; properties that need more than their being functions say so in hypotheses.

  \<^bold>\<open>Not modelled.\<close>  The server itself (\<open>src/src\<close>, Zig), the Go clients and servers, tests, documentation,
  examples and the generated OpenSSL sources are in other languages or are data.  Of the Python programs,
  the remaining benchmark drivers (the loopback HTTP/2 runners, the kernel, keep-alive and request-path
  experiments and their summaries) are left out: they repeat the runner, audit and summary patterns above.  Of the modelled
  programs, \<open>argparse\<close>'s own parsing, progress output, toolchain builds, the staging of files by SSH, the fixed HTML
  text of three result tables and the Markdown tables of the HTTP/2 summary are left out.
\<close>

end
